(* ===== verification/Prelude.thy ===== *)
theory Prelude
  imports Main "HOL-Library.Word" "HOL-Library.Char_ord" "HOL-Library.List_Lexorder"
begin

text \<open>
  The shared ground of the development: the machine types of the code, its errors as values,
  the state-and-exception computations that the stateful components are written in, and the
  string operations of the C++ standard library that the sources use.

  Machine types (64-bit Linux, the platform of the continuous integration): \<open>int\<close> is a
  32-bit word read with \<open>sint\<close>, \<open>std::size_t\<close> a 64-bit word read with \<open>unat\<close>,
  \<open>IdType\<close> (\<open>std::ptrdiff_t\<close>) a 64-bit word read with \<open>sint\<close>, a \<open>double\<close> is its
  64-bit object representation (the code only moves doubles, it never computes with the
  ones it transports), and a \<open>std::string\<close> is a list of 8-bit characters.
\<close>

section \<open>Machine types\<close>

type_synonym i32 = "32 word"
type_synonym u64 = "64 word"
type_synonym id_type = "64 word"
type_synonym dbl = "64 word"
type_synonym addr = "64 word"

named_theorems ids_simps \<open>facts about identifiers and their order\<close>
named_theorems codec_simps \<open>round trips of the wire encodings\<close>

text \<open>A number that fits is kept.\<close>

lemma unat_word_of_nat: "n < 2 ^ LENGTH('a) \<Longrightarrow> unat (word_of_nat n :: 'a::len word) = n"
  by (rule of_nat_inverse [OF refl])

section \<open>Errors\<close>

text \<open>
  \<open>CO_SIM_IO_ERROR << ...\<close> throws an exception that carries the text streamed into it: it is
  \<open>CoSimError\<close> with that text (without the trailing end of line). \<open>Thrown\<close> is an exception
  that a callback of the user or a container of the standard library throws (one that passes a
  \<open>CO_SIM_IO_CATCH\<close> is a \<open>CoSimError\<close> from there on). The other two are no exceptions of the code but the values
  that a definition returns where it stops to follow it: \<open>UndefinedBehaviour\<close> where the C++ standard
  gives the code no meaning (a dangling slot, an index out of range), \<open>StreamFailure\<close> where a read
  from a stream fails and the code, which does not test the stream, goes on with whatever its
  variables hold.
\<close>

datatype error =
    CoSimError string
  | Thrown string
  | UndefinedBehaviour string
  | StreamFailure string

section \<open>Computations that may throw\<close>

text \<open>
  A C++ function that changes an object and throws leaves the changes made before the throw
  behind. A stateful operation is therefore a function from the state to the result (an error
  or a value) and the state, where the state is there in both cases.
\<close>

type_synonym ('s, 'a) cpp = "'s \<Rightarrow> (error + 'a) \<times> 's"

definition retE :: "'a \<Rightarrow> ('s, 'a) cpp" where
  "retE x = (\<lambda>s. (Inr x, s))"

definition throwE :: "error \<Rightarrow> ('s, 'a) cpp" where
  "throwE e = (\<lambda>s. (Inl e, s))"

definition bindE :: "('s, 'a) cpp \<Rightarrow> ('a \<Rightarrow> ('s, 'b) cpp) \<Rightarrow> ('s, 'b) cpp" where
  "bindE m f = (\<lambda>s. case m s of (Inl e, s') \<Rightarrow> (Inl e, s') | (Inr x, s') \<Rightarrow> f x s')"

definition thenE :: "('s, 'a) cpp \<Rightarrow> ('s, 'b) cpp \<Rightarrow> ('s, 'b) cpp" where
  "thenE m n = bindE m (\<lambda>_. n)"

definition checkE :: "bool \<Rightarrow> error \<Rightarrow> ('s, unit) cpp" where
  "checkE bad e = (if bad then throwE e else retE ())"

definition getE :: "('s \<Rightarrow> 'a) \<Rightarrow> ('s, 'a) cpp" where
  "getE f = (\<lambda>s. (Inr (f s), s))"

definition modE :: "('s \<Rightarrow> 's) \<Rightarrow> ('s, unit) cpp" where
  "modE f = (\<lambda>s. (Inr (), f s))"

definition liftE :: "error + 'a \<Rightarrow> ('s, 'a) cpp" where
  "liftE r = (\<lambda>s. (r, s))"

fun forE :: "('x \<Rightarrow> ('s, unit) cpp) \<Rightarrow> 'x list \<Rightarrow> ('s, unit) cpp" where
  "forE f [] = retE ()"
| "forE f (x # xs) = thenE (f x) (forE f xs)"

lemmas cpp_defs = retE_def throwE_def bindE_def thenE_def checkE_def getE_def modE_def liftE_def

text \<open>The loop that computes an element for each element.\<close>

fun mapE :: "('x \<Rightarrow> ('s, 'y) cpp) \<Rightarrow> 'x list \<Rightarrow> ('s, 'y list) cpp" where
  "mapE f [] = retE []"
| "mapE f (x # xs) = bindE (f x) (\<lambda>y. bindE (mapE f xs) (\<lambda>ys. retE (y # ys)))"

lemma bindE_Inl [simp]: "m s = (Inl e, s') \<Longrightarrow> bindE m f s = (Inl e, s')"
  by (simp add: bindE_def)

lemma bindE_Inr [simp]: "m s = (Inr x, s') \<Longrightarrow> bindE m f s = f x s'"
  by (simp add: bindE_def)

lemma bindE_eq_Inr:
  "bindE m f s = (Inr y, t) \<longleftrightarrow> (\<exists>x s'. m s = (Inr x, s') \<and> f x s' = (Inr y, t))"
  by (auto simp: bindE_def split: prod.splits sum.splits)

lemma forE_append:
  "forE f (xs @ ys) = thenE (forE f xs) (forE f ys)"
  by (induction xs) (auto simp: cpp_defs fun_eq_iff split: prod.splits sum.splits)

text \<open>Pure fallible code: the result alone.\<close>

definition bindR :: "error + 'a \<Rightarrow> ('a \<Rightarrow> error + 'b) \<Rightarrow> error + 'b" where
  "bindR r f = (case r of Inl e \<Rightarrow> Inl e | Inr x \<Rightarrow> f x)"

lemma bindR_simps [simp]:
  "bindR (Inl e) f = Inl e"
  "bindR (Inr x) f = f x"
  by (simp_all add: bindR_def)

lemma bindR_eq_Inr: "bindR r f = Inr y \<longleftrightarrow> (\<exists>x. r = Inr x \<and> f x = Inr y)"
  by (cases r) simp_all

lemma bindR_eq_Inl: "bindR r f = Inl e \<longleftrightarrow> r = Inl e \<or> (\<exists>x. r = Inr x \<and> f x = Inl e)"
  by (cases r) simp_all

fun mapR :: "('x \<Rightarrow> error + 'y) \<Rightarrow> 'x list \<Rightarrow> error + 'y list" where
  "mapR f [] = Inr []"
| "mapR f (x # xs) = bindR (f x) (\<lambda>y. bindR (mapR f xs) (\<lambda>ys. Inr (y # ys)))"

lemma mapE_pure:
  assumes "\<And>x. f x s = (g x, s)"
  shows "mapE f xs s = (mapR g xs, s)"
  using assms by (induction xs) (simp_all add: bindE_def bindR_def retE_def split: sum.splits)

lemma mapR_Inr_set:
  "mapR f xs = Inr ys \<Longrightarrow> y \<in> set ys \<Longrightarrow> \<exists>x \<in> set xs. f x = Inr y"
  by (induction xs arbitrary: ys) (auto simp: bindR_eq_Inr)

lemma mapR_map:
  "mapR (\<lambda>x. bindR (f x) (\<lambda>y. Inr (h y))) xs = bindR (mapR f xs) (\<lambda>ys. Inr (List.map h ys))"
  by (induction xs) (auto simp: bindR_def split: sum.splits)

lemma mapR_length: "mapR f xs = Inr ys \<Longrightarrow> length ys = length xs"
  by (induction xs arbitrary: ys) (auto simp: bindR_eq_Inr)

section \<open>Strings\<close>

text \<open>The characters and operations of \<open>std::string\<close> that the sources use.\<close>

definition nl :: char where "nl = CHR 0x0A"
definition quote :: char where "quote = CHR 0x22"

text \<open>A name printed between quotation marks, as the messages do.\<close>

definition dq :: "string \<Rightarrow> string" where
  "dq s = quote # s @ [quote]"

text \<open>\<open>s.find(c) != npos\<close> for a character.\<close>

definition has_char :: "string \<Rightarrow> char \<Rightarrow> bool" where
  "has_char s c = list_ex (\<lambda>x. x = c) s"

lemma has_char_iff [simp]: "has_char s c \<longleftrightarrow> c \<in> set s"
  by (auto simp: has_char_def list_ex_iff)

text \<open>\<open>s.find(p, 0) == 0\<close>: the pattern stands at the start.\<close>

fun starts_with :: "string \<Rightarrow> string \<Rightarrow> bool" where
  "starts_with s [] = True"
| "starts_with [] (p # ps) = False"
| "starts_with (c # s) (p # ps) = (c = p \<and> starts_with s ps)"

lemma starts_with_iff: "starts_with s p \<longleftrightarrow> (\<exists>r. s = p @ r)"
  by (induction s p rule: starts_with.induct) auto

text \<open>\<open>s.find(p)\<close>: the first position where the pattern stands.\<close>

fun find_str :: "string \<Rightarrow> string \<Rightarrow> nat option" where
  "find_str [] p = (if p = [] then Some 0 else None)"
| "find_str (c # s) p = (if starts_with (c # s) p then Some 0 else map_option Suc (find_str s p))"

text \<open>\<open>s.rfind(p)\<close>: the last position where the pattern stands.\<close>

fun rfind_str :: "string \<Rightarrow> string \<Rightarrow> nat option" where
  "rfind_str [] p = (if p = [] then Some 0 else None)"
| "rfind_str (c # s) p =
     (case rfind_str s p of
        Some i \<Rightarrow> Some (Suc i)
      | None \<Rightarrow> (if starts_with (c # s) p then Some 0 else None))"

text \<open>\<open>std::replace\<close> on the characters of a string.\<close>

definition replace_char :: "char \<Rightarrow> char \<Rightarrow> string \<Rightarrow> string" where
  "replace_char a b s = List.map (\<lambda>c. if c = a then b else c) s"

text \<open>
  \<open>std::to_string\<close> and \<open>operator<<\<close> on integers, and the digits that \<open>operator>>\<close> reads: numbers
  in base 10, pointers in base 16.
\<close>

definition digit_char :: "nat \<Rightarrow> char" where
  "digit_char d = (if d < 10 then char_of (48 + d) else char_of (87 + d))"

definition digit_val :: "char \<Rightarrow> nat option" where
  "digit_val c =
     (let n = of_char c :: nat in
      if 48 \<le> n \<and> n \<le> 57 then Some (n - 48)
      else if 97 \<le> n \<and> n \<le> 102 then Some (n - 87)
      else if 65 \<le> n \<and> n \<le> 70 then Some (n - 55)
      else None)"

fun show_base :: "nat \<Rightarrow> nat \<Rightarrow> string" where
  "show_base b n =
     (if b < 2 \<or> n < b then [digit_char n] else show_base b (n div b) @ [digit_char (n mod b)])"

declare show_base.simps [simp del]

definition show_nat :: "nat \<Rightarrow> string" where
  "show_nat n = show_base 10 n"

definition show_int :: "int \<Rightarrow> string" where
  "show_int i = (if i < 0 then CHR 0x2D # show_nat (nat (- i)) else show_nat (nat i))"

text \<open>Reading digits: the value of the longest run of digits of the base, and the rest.\<close>

fun scan_base :: "nat \<Rightarrow> nat \<Rightarrow> string \<Rightarrow> nat \<times> string" where
  "scan_base b acc [] = (acc, [])"
| "scan_base b acc (c # cs) =
     (case digit_val c of
        Some d \<Rightarrow> (if d < b then scan_base b (acc * b + d) cs else (acc, c # cs))
      | None \<Rightarrow> (acc, c # cs))"

definition is_digit :: "nat \<Rightarrow> char \<Rightarrow> bool" where
  "is_digit b c = (case digit_val c of Some d \<Rightarrow> d < b | None \<Rightarrow> False)"

text \<open>\<open>std::isspace\<close> in the default locale.\<close>

definition is_space :: "char \<Rightarrow> bool" where
  "is_space c = (let n = of_char c :: nat in n = 32 \<or> (9 \<le> n \<and> n \<le> 13))"

lemma digit_val_digit_char: "d < 16 \<Longrightarrow> digit_val (digit_char d) = Some d"
  by (auto simp: digit_val_def digit_char_def Let_def)

lemma is_digit_digit_char: "d < b \<Longrightarrow> b \<le> 16 \<Longrightarrow> is_digit b (digit_char d)"
  by (simp add: is_digit_def digit_val_digit_char)

lemma show_base_digits:
  "2 \<le> b \<Longrightarrow> b \<le> 16 \<Longrightarrow> c \<in> set (show_base b n) \<Longrightarrow> is_digit b c"
proof (induction b n rule: show_base.induct)
  case (1 b n)
  show ?case
  proof (cases "n < b")
    case True
    with 1 show ?thesis by (auto simp: show_base.simps [of b n] is_digit_digit_char)
  next
    case False
    with 1 have "c \<in> set (show_base b (n div b)) \<or> c = digit_char (n mod b)"
      by (auto simp: show_base.simps [of b n])
    with 1 False show ?thesis by (auto intro: is_digit_digit_char)
  qed
qed

lemma show_base_nonempty: "show_base b n \<noteq> []"
  by (subst show_base.simps) simp

lemma scan_base_show:
  "2 \<le> b \<Longrightarrow> b \<le> 16 \<Longrightarrow>
     scan_base b acc (show_base b n @ r) = scan_base b (acc * b ^ length (show_base b n) + n) r"
proof (induction b n arbitrary: acc r rule: show_base.induct)
  case (1 b n)
  show ?case
  proof (cases "n < b")
    case True
    with 1 show ?thesis by (simp add: show_base.simps [of b n] digit_val_digit_char)
  next
    case False
    have "scan_base b acc (show_base b n @ r) =
        scan_base b acc (show_base b (n div b) @ (digit_char (n mod b) # r))"
      using False 1(2) by (simp add: show_base.simps [of b n])
    also have "\<dots> = scan_base b (acc * b ^ length (show_base b (n div b)) + n div b)
        (digit_char (n mod b) # r)"
      using False 1 by (intro "1.IH") auto
    also have "\<dots> = scan_base b ((acc * b ^ length (show_base b (n div b)) + n div b) * b + n mod b) r"
      using 1(2,3) by (simp add: digit_val_digit_char less_le_trans [OF mod_less_divisor])
    also have "(acc * b ^ length (show_base b (n div b)) + n div b) * b + n mod b =
        acc * b ^ length (show_base b n) + n"
      using False 1(2) by (simp add: show_base.simps [of b n] algebra_simps)
    finally show ?thesis .
  qed
qed

lemma scan_base_stop: "r = [] \<or> \<not> is_digit b (hd r) \<Longrightarrow> scan_base b acc r = (acc, r)"
  by (cases r) (auto simp: is_digit_def split: option.splits)

lemma nl_not_digit [simp]: "\<not> is_digit b nl" "digit_val nl = None"
  by (simp_all add: nl_def is_digit_def digit_val_def)

lemma digit_not_space: "is_digit b c \<Longrightarrow> \<not> is_space c"
  by (auto simp: is_digit_def digit_val_def is_space_def Let_def split: if_splits)

end
