(* ===== verification/Containers.thy ===== *)
theory Containers
  imports Prelude
begin

text \<open>
  The containers of the C++ standard library that the code stores its data in: \<open>std::map\<close> as
  an association list sorted strictly by key (the order in which the code iterates over it),
  \<open>std::vector::resize\<close>, and the interface \<open>ordered_map\<close> that the clients of a map rely
  on, interpreted on the sorted list.
\<close>

section \<open>std::map\<close>

type_synonym ('k, 'v) smap = "('k \<times> 'v) list"

text \<open>\<open>m.find(k)\<close> and \<open>m.at(k)\<close>.\<close>

fun smap_find :: "('k, 'v) smap \<Rightarrow> 'k \<Rightarrow> 'v option" where
  "smap_find [] k = None"
| "smap_find ((k', v) # m) k = (if k' = k then Some v else smap_find m k)"

text \<open>\<open>m[k] = v\<close>: a new entry at its place in the order, or the old entry overwritten.\<close>

fun smap_assign :: "'k::linorder \<Rightarrow> 'v \<Rightarrow> ('k, 'v) smap \<Rightarrow> ('k, 'v) smap" where
  "smap_assign k v [] = [(k, v)]"
| "smap_assign k v ((k', v') # m) =
     (if k < k' then (k, v) # (k', v') # m
      else if k = k' then (k, v) # m
      else (k', v') # smap_assign k v m)"

text \<open>\<open>m.insert({k, v})\<close>: does nothing when the key is there already.\<close>

definition smap_insert :: "'k::linorder \<Rightarrow> 'v \<Rightarrow> ('k, 'v) smap \<Rightarrow> ('k, 'v) smap" where
  "smap_insert k v m = (case smap_find m k of Some _ \<Rightarrow> m | None \<Rightarrow> smap_assign k v m)"

text \<open>\<open>m.erase(k)\<close>.\<close>

fun smap_erase :: "'k \<Rightarrow> ('k, 'v) smap \<Rightarrow> ('k, 'v) smap" where
  "smap_erase k [] = []"
| "smap_erase k ((k', v) # m) = (if k' = k then m else (k', v) # smap_erase k m)"

text \<open>The order that \<open>std::map\<close> keeps.\<close>

definition smap_wf :: "('k::linorder, 'v) smap \<Rightarrow> bool" where
  "smap_wf m = sorted_wrt (<) (List.map fst m)"

lemma smap_wf_Nil [simp]: "smap_wf []"
  by (simp add: smap_wf_def)

lemma smap_wf_Cons: "smap_wf ((k, v) # m) \<longleftrightarrow> (\<forall>k' \<in> fst ` set m. k < k') \<and> smap_wf m"
  by (auto simp: smap_wf_def)

lemma smap_find_None_iff: "smap_find m k = None \<longleftrightarrow> k \<notin> fst ` set m"
  by (induction m k rule: smap_find.induct) auto

lemma smap_find_SomeD: "smap_find m k = Some v \<Longrightarrow> (k, v) \<in> set m"
  by (induction m k rule: smap_find.induct) (auto split: if_splits)

lemma keyI: "(k, v) \<in> set m \<Longrightarrow> k \<in> fst ` set m"
  by force

lemma smap_find_map_of: "smap_find m k = map_of m k"
  by (induction m k rule: smap_find.induct) auto

lemma keys_smap_assign: "fst ` set (smap_assign k v m) = insert k (fst ` set m)"
  by (induction k v m rule: smap_assign.induct) auto

lemma smap_find_assign:
  "smap_wf m \<Longrightarrow> smap_find (smap_assign k v m) k' = (if k' = k then Some v else smap_find m k')"
proof (induction k v m rule: smap_assign.induct)
  case (2 k v k'' v'' m)
  then show ?case
    by (auto simp: smap_wf_Cons smap_find_None_iff)
qed simp

lemma smap_wf_assign: "smap_wf m \<Longrightarrow> smap_wf (smap_assign k v m)"
  by (induction k v m rule: smap_assign.induct)
     (auto simp: smap_wf_Cons keys_smap_assign[unfolded image_def, simplified] keys_smap_assign)

lemma keys_smap_erase: "smap_wf m \<Longrightarrow> fst ` set (smap_erase k m) = fst ` set m - {k}"
  by (induction k m rule: smap_erase.induct) (auto simp: smap_wf_Cons dest: keyI)

lemma smap_find_erase:
  "smap_wf m \<Longrightarrow> smap_find (smap_erase k m) k' = (if k' = k then None else smap_find m k')"
  by (induction k m rule: smap_erase.induct) (auto simp: smap_wf_Cons smap_find_None_iff dest: keyI)

lemma set_smap_erase: "set (smap_erase k m) \<subseteq> set m"
  by (induction k m rule: smap_erase.induct) auto

lemma smap_wf_erase: "smap_wf m \<Longrightarrow> smap_wf (smap_erase k m)"
  by (induction k m rule: smap_erase.induct)
     (auto simp: smap_wf_Cons dest!: set_mp [OF set_smap_erase])

lemma smap_insert_known: "smap_find m k = Some v \<Longrightarrow> smap_insert k w m = m"
  by (simp add: smap_insert_def)

lemma smap_wf_insert: "smap_wf m \<Longrightarrow> smap_wf (smap_insert k v m)"
  by (simp add: smap_insert_def smap_wf_assign split: option.splits)

lemma smap_find_insert:
  "smap_wf m \<Longrightarrow> smap_find (smap_insert k v m) k' =
     (if k' = k \<and> smap_find m k = None then Some v else smap_find m k')"
  by (auto simp: smap_insert_def smap_find_assign split: option.splits)

text \<open>Inserting behind all keys appends: how a map is rebuilt from its own iteration order.\<close>

lemma smap_assign_last:
  "\<forall>k' \<in> fst ` set m. k' < k \<Longrightarrow> smap_assign k v m = m @ [(k, v)]"
  by (induction k v m rule: smap_assign.induct) auto

lemma smap_insert_last:
  assumes "\<forall>k' \<in> fst ` set m. k' < k"
  shows "smap_insert k v m = m @ [(k, v)]"
proof -
  have "k \<notin> fst ` set m" using assms by fastforce
  then have "smap_find m k = None" by (simp add: smap_find_None_iff)
  with assms show ?thesis by (simp add: smap_insert_def smap_assign_last)
qed

lemma length_smap_assign:
  "smap_wf m \<Longrightarrow> length (smap_assign k v m) =
     (if smap_find m k = None then Suc (length m) else length m)"
proof (induction k v m rule: smap_assign.induct)
  case (2 k v k' v' m)
  moreover have "smap_find m k = None" if "k < k'"
    using 2(2) that by (fastforce simp: smap_wf_Cons smap_find_None_iff)
  ultimately show ?case by (auto simp: smap_wf_Cons)
qed simp

lemma list_nonempty_length: "x \<in> set m \<Longrightarrow> Suc (length m - Suc 0) = length m"
  by (cases m) auto

lemma length_smap_erase:
  "length (smap_erase k m) = (if smap_find m k = None then length m else length m - 1)"
  by (induction k m rule: smap_erase.induct)
     (auto dest!: smap_find_SomeD elim: list_nonempty_length)

lemma smap_wf_distinct: "smap_wf m \<Longrightarrow> distinct (List.map fst m)"
  by (simp add: smap_wf_def strict_sorted_iff)

lemma smap_ext:
  assumes "smap_wf m" "smap_wf m'" "smap_find m = smap_find m'"
  shows "m = m'"
proof -
  have eq: "map_of m = map_of m'"
    using assms(3) by (simp add: smap_find_map_of fun_eq_iff)
  have d: "distinct (List.map fst m)" "distinct (List.map fst m')"
    using assms(1,2) by (simp_all add: smap_wf_distinct)
  then have "set m = set m'" using eq by (simp add: map_of_inject_set)
  moreover have "inj_on fst (set m)" using d(1) by (simp add: distinct_map)
  moreover have "sorted (List.map fst m)" "sorted (List.map fst m')"
    using assms(1,2) by (simp_all add: smap_wf_def strict_sorted_iff)
  ultimately show ?thesis
    using d by (intro map_sorted_distinct_set_unique [of fst m m']) auto
qed

section \<open>The interface of a map\<close>

text \<open>What the clients of a \<open>std::map\<close> rely on; the sorted list provides it.\<close>

locale ordered_map =
  fixes find :: "'m \<Rightarrow> 'k \<Rightarrow> 'v option"
    and assign :: "'k \<Rightarrow> 'v \<Rightarrow> 'm \<Rightarrow> 'm"
    and insert :: "'k \<Rightarrow> 'v \<Rightarrow> 'm \<Rightarrow> 'm"
    and erase :: "'k \<Rightarrow> 'm \<Rightarrow> 'm"
    and wf :: "'m \<Rightarrow> bool"
    and empty :: "'m"
  assumes wf_empty: "wf empty"
    and wf_assign: "wf m \<Longrightarrow> wf (assign k v m)"
    and wf_insert: "wf m \<Longrightarrow> wf (insert k v m)"
    and wf_erase: "wf m \<Longrightarrow> wf (erase k m)"
    and find_empty: "find empty k = None"
    and find_assign: "wf m \<Longrightarrow> find (assign k v m) k' = (if k' = k then Some v else find m k')"
    and find_insert: "wf m \<Longrightarrow> find (insert k v m) k' =
          (if k' = k \<and> find m k = None then Some v else find m k')"
    and find_erase: "wf m \<Longrightarrow> find (erase k m) k' = (if k' = k then None else find m k')"
    and ext: "wf m \<Longrightarrow> wf m' \<Longrightarrow> find m = find m' \<Longrightarrow> m = m'"
begin

lemma assign_assign: "wf m \<Longrightarrow> assign k v (assign k w m) = assign k v m"
  by (rule ext) (auto simp: wf_assign find_assign)

lemma assign_commute:
  "wf m \<Longrightarrow> k \<noteq> l \<Longrightarrow> assign k v (assign l w m) = assign l w (assign k v m)"
  by (rule ext) (auto simp: wf_assign find_assign)

lemma erase_assign: "wf m \<Longrightarrow> find m k = None \<Longrightarrow> erase k (assign k v m) = m"
  by (rule ext) (auto simp: wf_assign wf_erase find_assign find_erase)

lemma erase_erase: "wf m \<Longrightarrow> erase k (erase k m) = erase k m"
  by (rule ext) (auto simp: wf_erase find_erase)

lemma erase_missing: "wf m \<Longrightarrow> find m k = None \<Longrightarrow> erase k m = m"
  by (rule ext) (auto simp: wf_erase find_erase)

lemma insert_keeps: "wf m \<Longrightarrow> find m k = Some w \<Longrightarrow> insert k v m = m"
  by (rule ext) (auto simp: wf_insert find_insert)

lemma wf_inserts: "wf m \<Longrightarrow> wf (fold (\<lambda>(k, v). insert k v) kvs m)"
  by (induction kvs arbitrary: m) (auto simp: wf_insert)

lemma find_inserts:
  "wf m \<Longrightarrow> find (fold (\<lambda>(k, v). insert k v) kvs m) k =
     (case find m k of None \<Rightarrow> map_of kvs k | Some v \<Rightarrow> Some v)"
proof (induction kvs arbitrary: m)
  case (Cons kv kvs)
  obtain k' v where kv: "kv = (k', v)" by fastforce
  show ?case
    using Cons.IH [OF wf_insert [OF Cons.prems, of k' v]] Cons.prems
    by (auto simp: kv find_insert split: option.splits)
qed (simp split: option.splits)

lemma inserts_idem:
  "wf m \<Longrightarrow> fold (\<lambda>(k, v). insert k v) kvs (fold (\<lambda>(k, v). insert k v) kvs m) =
     fold (\<lambda>(k, v). insert k v) kvs m"
  by (rule ext) (auto simp: wf_inserts find_inserts fun_eq_iff split: option.splits)

lemma insert_new: "wf m \<Longrightarrow> find m k = None \<Longrightarrow> insert k v m = assign k v m"
  by (rule ext) (auto simp: wf_insert wf_assign find_insert find_assign)

end

interpretation sm: ordered_map smap_find smap_assign smap_insert smap_erase smap_wf "[]"
  by unfold_locales
     (simp_all add: smap_wf_assign smap_wf_insert smap_wf_erase smap_find_assign smap_find_insert
        smap_find_erase smap_ext)

section \<open>std::vector\<close>

text \<open>\<open>v.resize(n)\<close> with \<open>d\<close> the value-initialised element.\<close>

definition vec_resize :: "'a \<Rightarrow> nat \<Rightarrow> 'a list \<Rightarrow> 'a list" where
  "vec_resize d n xs = take n xs @ replicate (n - length xs) d"

lemma length_vec_resize [simp]: "length (vec_resize d n xs) = n"
  by (auto simp: vec_resize_def)

lemma nth_vec_resize: "i < n \<Longrightarrow> vec_resize d n xs ! i = (if i < length xs then xs ! i else d)"
  by (auto simp: vec_resize_def nth_append)

lemma take_vec_resize: "take (min n (length xs)) (vec_resize d n xs) = take n xs"
  by (auto simp: vec_resize_def min_def)

end
