(* ===== verification/Utilities.thy ===== *)
theory Utilities
  imports Containers
begin

text \<open>
  \<open>co_sim_io/includes/define.hpp\<close> and \<open>co_sim_io/sources/utilities.cpp\<close>: the enumerations of
  the library, the tables on element types, the checks and names that connections are built
  from, and the byte order.
\<close>

section \<open>Enumerations\<close>

datatype ConnectionStatus =
  NotConnected | Connected | Disconnected | ConnectionError | DisconnectionError

text \<open>The value of an enumerator, as it is stored under \<open>connection_status\<close>.\<close>

definition status_int :: "ConnectionStatus \<Rightarrow> i32" where
  "status_int c = (case c of NotConnected \<Rightarrow> 0 | Connected \<Rightarrow> 1 | Disconnected \<Rightarrow> 2
     | ConnectionError \<Rightarrow> 3 | DisconnectionError \<Rightarrow> 4)"

lemma status_int_inj: "status_int a = status_int b \<longleftrightarrow> a = b"
  by (cases a; cases b) (simp_all add: status_int_def)

text \<open>
  \<open>ElementType\<close> is an \<open>enum class\<close> with the underlying type \<open>int\<close>: a value read from a file is
  converted with \<open>static_cast\<close> and may be none of the enumerators, which is \<open>OtherType\<close>.
\<close>

datatype ElementType =
    Hexahedra3D20 | Hexahedra3D27 | Hexahedra3D8 | Prism3D15 | Prism3D6
  | Pyramid3D13 | Pyramid3D5 | Quadrilateral2D4 | Quadrilateral2D8 | Quadrilateral2D9
  | Quadrilateral3D4 | Quadrilateral3D8 | Quadrilateral3D9 | Tetrahedra3D10 | Tetrahedra3D4
  | Triangle2D3 | Triangle2D6 | Triangle3D3 | Triangle3D6 | Line2D2
  | Line2D3 | Line3D2 | Line3D3 | Point2D | Point3D
  | OtherType i32

definition element_type_to_int :: "ElementType \<Rightarrow> i32" where
  "element_type_to_int t = (case t of
       Hexahedra3D20 \<Rightarrow> 0
     | Hexahedra3D27 \<Rightarrow> 1
     | Hexahedra3D8 \<Rightarrow> 2
     | Prism3D15 \<Rightarrow> 3
     | Prism3D6 \<Rightarrow> 4
     | Pyramid3D13 \<Rightarrow> 5
     | Pyramid3D5 \<Rightarrow> 6
     | Quadrilateral2D4 \<Rightarrow> 7
     | Quadrilateral2D8 \<Rightarrow> 8
     | Quadrilateral2D9 \<Rightarrow> 9
     | Quadrilateral3D4 \<Rightarrow> 10
     | Quadrilateral3D8 \<Rightarrow> 11
     | Quadrilateral3D9 \<Rightarrow> 12
     | Tetrahedra3D10 \<Rightarrow> 13
     | Tetrahedra3D4 \<Rightarrow> 14
     | Triangle2D3 \<Rightarrow> 15
     | Triangle2D6 \<Rightarrow> 16
     | Triangle3D3 \<Rightarrow> 17
     | Triangle3D6 \<Rightarrow> 18
     | Line2D2 \<Rightarrow> 19
     | Line2D3 \<Rightarrow> 20
     | Line3D2 \<Rightarrow> 21
     | Line3D3 \<Rightarrow> 22
     | Point2D \<Rightarrow> 23
     | Point3D \<Rightarrow> 24
     | OtherType v \<Rightarrow> v)"

text \<open>The enumerators in the order of the declaration; \<open>static_cast<ElementType>(int)\<close>.\<close>

definition element_types :: "ElementType list" where
  "element_types =
    [Hexahedra3D20, Hexahedra3D27, Hexahedra3D8, Prism3D15, Prism3D6,
     Pyramid3D13, Pyramid3D5, Quadrilateral2D4, Quadrilateral2D8, Quadrilateral2D9,
     Quadrilateral3D4, Quadrilateral3D8, Quadrilateral3D9, Tetrahedra3D10, Tetrahedra3D4,
     Triangle2D3, Triangle2D6, Triangle3D3, Triangle3D6, Line2D2,
     Line2D3, Line3D2, Line3D3, Point2D, Point3D]"

definition element_type_of_int :: "i32 \<Rightarrow> ElementType" where
  "element_type_of_int v =
     (if 0 \<le> sint v \<and> sint v < 25 then element_types ! nat (sint v) else OtherType v)"

section \<open>Tables on element types\<close>

definition GetNumberOfNodesForElementType :: "ElementType \<Rightarrow> error + nat" where
  "GetNumberOfNodesForElementType t = (case t of
       Hexahedra3D20 \<Rightarrow> Inr 20
     | Hexahedra3D27 \<Rightarrow> Inr 27
     | Hexahedra3D8 \<Rightarrow> Inr 8
     | Prism3D15 \<Rightarrow> Inr 15
     | Prism3D6 \<Rightarrow> Inr 6
     | Pyramid3D13 \<Rightarrow> Inr 13
     | Pyramid3D5 \<Rightarrow> Inr 5
     | Quadrilateral2D4 \<Rightarrow> Inr 4
     | Quadrilateral2D8 \<Rightarrow> Inr 8
     | Quadrilateral2D9 \<Rightarrow> Inr 9
     | Quadrilateral3D4 \<Rightarrow> Inr 4
     | Quadrilateral3D8 \<Rightarrow> Inr 8
     | Quadrilateral3D9 \<Rightarrow> Inr 9
     | Tetrahedra3D10 \<Rightarrow> Inr 10
     | Tetrahedra3D4 \<Rightarrow> Inr 4
     | Triangle2D3 \<Rightarrow> Inr 3
     | Triangle2D6 \<Rightarrow> Inr 6
     | Triangle3D3 \<Rightarrow> Inr 3
     | Triangle3D6 \<Rightarrow> Inr 6
     | Line2D2 \<Rightarrow> Inr 2
     | Line2D3 \<Rightarrow> Inr 3
     | Line3D2 \<Rightarrow> Inr 2
     | Line3D3 \<Rightarrow> Inr 3
     | Point2D \<Rightarrow> Inr 1
     | Point3D \<Rightarrow> Inr 1
     | OtherType _ \<Rightarrow> Inl (CoSimError ''Error: Unknown Element type!''))"

definition GetElementName :: "ElementType \<Rightarrow> error + string" where
  "GetElementName t = (case t of
       Hexahedra3D20 \<Rightarrow> Inr ''Hexahedra3D20''
     | Hexahedra3D27 \<Rightarrow> Inr ''Hexahedra3D27''
     | Hexahedra3D8 \<Rightarrow> Inr ''Hexahedra3D8''
     | Prism3D15 \<Rightarrow> Inr ''Prism3D15''
     | Prism3D6 \<Rightarrow> Inr ''Prism3D6''
     | Pyramid3D13 \<Rightarrow> Inr ''Pyramid3D13''
     | Pyramid3D5 \<Rightarrow> Inr ''Pyramid3D5''
     | Quadrilateral2D4 \<Rightarrow> Inr ''Quadrilateral2D4''
     | Quadrilateral2D8 \<Rightarrow> Inr ''Quadrilateral2D8''
     | Quadrilateral2D9 \<Rightarrow> Inr ''Quadrilateral2D9''
     | Quadrilateral3D4 \<Rightarrow> Inr ''Quadrilateral3D4''
     | Quadrilateral3D8 \<Rightarrow> Inr ''Quadrilateral3D8''
     | Quadrilateral3D9 \<Rightarrow> Inr ''Quadrilateral3D9''
     | Tetrahedra3D10 \<Rightarrow> Inr ''Tetrahedra3D10''
     | Tetrahedra3D4 \<Rightarrow> Inr ''Tetrahedra3D4''
     | Triangle2D3 \<Rightarrow> Inr ''Triangle3D3''
     | Triangle2D6 \<Rightarrow> Inr ''Triangle2D6''
     | Triangle3D3 \<Rightarrow> Inr ''Triangle3D3''
     | Triangle3D6 \<Rightarrow> Inr ''Triangle3D6''
     | Line2D2 \<Rightarrow> Inr ''Line2D2''
     | Line2D3 \<Rightarrow> Inr ''Line2D3''
     | Line3D2 \<Rightarrow> Inr ''Line3D2''
     | Line3D3 \<Rightarrow> Inr ''Line3D3''
     | Point2D \<Rightarrow> Inr ''Point2D''
     | Point3D \<Rightarrow> Inr ''Point3D''
     | OtherType _ \<Rightarrow> Inl (CoSimError ''Error: Unknown Element type!''))"

section \<open>Connection names and entries\<close>

definition CreateConnectionName :: "string \<Rightarrow> string \<Rightarrow> string" where
  "CreateConnectionName rName1 rName2 =
     (if rName1 < rName2 then rName1 @ ''_'' @ rName2 else rName2 @ ''_'' @ rName1)"

definition max_allowed_size :: nat where
  "max_allowed_size = 1000"

definition disallowed_chars :: "char list" where
  "disallowed_chars = [CHR ''.'', CHR '','', CHR '':'', CHR '';'', CHR ''>'', CHR ''<'', CHR ''/'',
     CHR 0x27, CHR ''|'', CHR ''*'', CHR ''!'', CHR 0x22, CHR '' '']"

fun check_chars :: "string \<Rightarrow> string \<Rightarrow> char list \<Rightarrow> error + unit" where
  "check_chars rEntry rKey [] = Inr ()"
| "check_chars rEntry rKey (ch # chs) =
     (if has_char rEntry ch
      then Inl (CoSimError (''Error: Entry for '' @ dq rKey @
             '' contains a character that is not allowed: '' @ dq [ch] @ ''!''))
      else check_chars rEntry rKey chs)"

definition CheckEntry :: "string \<Rightarrow> string \<Rightarrow> error + unit" where
  "CheckEntry rEntry rKey =
     (if rEntry = [] then
        Inl (CoSimError (''Error: Using an empty entry for '' @ dq rKey @ '' is not allowed!''))
      else if length rEntry > max_allowed_size then
        Inl (CoSimError (''Error: Entry for '' @ dq rKey @ '' is too long! Maximum allowed length: ''
               @ show_nat max_allowed_size @ '' characters!''))
      else check_chars rEntry rKey disallowed_chars)"

section \<open>Endianness\<close>

text \<open>
  \<open>IsBigEndian\<close> stores \<open>0x01020304\<close> in a union with four characters and looks at the first one:
  the object representation of a word, most significant byte first on a big-endian machine.
\<close>

fun bytes_le :: "nat \<Rightarrow> nat \<Rightarrow> char list" where
  "bytes_le 0 v = []"
| "bytes_le (Suc n) v = char_of (v mod 256) # bytes_le n (v div 256)"

fun value_le :: "char list \<Rightarrow> nat" where
  "value_le [] = 0"
| "value_le (c # cs) = of_char c + 256 * value_le cs"

text \<open>The object representation of a word of \<open>n\<close> bytes on a machine, and the word that a machine
  reads from such bytes.\<close>

definition object_bytes :: "bool \<Rightarrow> nat \<Rightarrow> 'a::len word \<Rightarrow> char list" where
  "object_bytes big_endian n w =
     (if big_endian then rev (bytes_le n (unat w)) else bytes_le n (unat w))"

definition object_value :: "bool \<Rightarrow> char list \<Rightarrow> 'a::len word" where
  "object_value big_endian cs = word_of_nat (value_le (if big_endian then rev cs else cs))"

definition IsBigEndian :: "bool \<Rightarrow> bool" where
  "IsBigEndian machine_is_big = (hd (object_bytes machine_is_big 4 (0x01020304 :: i32)) = char_of (1::nat))"

lemma length_bytes_le [simp]: "length (bytes_le n v) = n"
  by (induction n arbitrary: v) auto

lemma value_bytes_le: "value_le (bytes_le n v) = v mod 256 ^ n"
proof (induction n arbitrary: v)
  case (Suc n)
  have "v mod 256 + 256 * (v div 256 mod 256 ^ n) = v mod (256 * 256 ^ n)"
    by (simp add: mod_mult2_eq)
  with Suc show ?case by simp
qed simp

lemma length_object_bytes [simp]: "length (object_bytes b n w) = n"
  by (simp add: object_bytes_def)

lemma object_bytes_Nil [simp]: "object_bytes b n w = [] \<longleftrightarrow> n = 0"
  by (metis length_0_conv length_object_bytes)

lemma object_roundtrip:
  assumes "LENGTH('a) \<le> 8 * n"
  shows "object_value b (object_bytes b n (w :: 'a::len word)) = w"
proof -
  have "unat w < 256 ^ n"
  proof -
    have "unat w < 2 ^ LENGTH('a)" by (rule unsigned_less)
    also have "\<dots> \<le> 2 ^ (8 * n)" using assms by (rule power_increasing) simp
    finally show ?thesis by (simp add: power_mult)
  qed
  then show ?thesis
    by (simp add: object_value_def object_bytes_def value_bytes_le)
qed

lemma IsBigEndian_iff: "IsBigEndian b \<longleftrightarrow> b"
proof -
  have "bytes_le (Suc (Suc (Suc (Suc 0)))) 0x01020304 =
      [char_of (4::nat), char_of (3::nat), char_of (2::nat), char_of (1::nat)]"
    by simp
  moreover have "Suc (Suc (Suc (Suc 0))) = 4" by simp
  ultimately have "bytes_le 4 0x01020304 =
      [char_of (4::nat), char_of (3::nat), char_of (2::nat), char_of (1::nat)]"
    by (simp only:)
  then show ?thesis by (simp add: IsBigEndian_def object_bytes_def char_of_eq_iff)
qed

section \<open>Lemmas\<close>

lemma element_type_roundtrip:
  "element_type_of_int (element_type_to_int t) = t
   \<longleftrightarrow> (case t of OtherType v \<Rightarrow> \<not> (0 \<le> sint v \<and> sint v < 25) | _ \<Rightarrow> True)"
proof (cases t)
  case (OtherType v)
  have "element_types ! n \<noteq> OtherType v" if "n < 25" for n
  proof -
    have "element_types ! n \<in> set element_types"
      using that by (intro nth_mem) (simp add: element_types_def)
    then show ?thesis by (auto simp: element_types_def)
  qed
  then show ?thesis
    using OtherType by (auto simp: element_type_of_int_def element_type_to_int_def)
qed (simp_all add: element_type_of_int_def element_type_to_int_def element_types_def)

lemma word_of_nat_nat_sint: "0 \<le> sint v \<Longrightarrow> word_of_nat (nat (sint v)) = v"
proof -
  assume "0 \<le> sint v"
  have "word_of_nat (nat (sint v)) = (word_of_int (int (nat (sint v))) :: 'a word)"
    by (rule of_int_of_nat_eq [symmetric])
  also have "\<dots> = word_of_int (sint v)" using \<open>0 \<le> sint v\<close> by (simp only: int_nat_eq if_True)
  also have "\<dots> = v" by (metis of_int_sint scast_id)
  finally show ?thesis .
qed

lemma element_type_of_int_inverse: "element_type_to_int (element_type_of_int v) = v"
proof (cases "0 \<le> sint v \<and> sint v < 25")
  case True
  have "list_all (\<lambda>n. element_type_to_int (element_types ! n) = word_of_nat n) [0..<25]"
    by (simp add: element_types_def element_type_to_int_def upt_rec)
  then have "element_type_to_int (element_types ! n) = word_of_nat n" if "n < 25" for n
    using that by (simp add: list_all_iff)
  from this [of "nat (sint v)"] True
  have "element_type_to_int (element_type_of_int v) = word_of_nat (nat (sint v))"
    by (simp add: element_type_of_int_def nat_less_iff)
  also have "\<dots> = v" using True by (simp add: word_of_nat_nat_sint)
  finally show ?thesis .
next
  case False
  then have "element_type_of_int v = OtherType v" by (auto simp: element_type_of_int_def)
  then show ?thesis by (simp add: element_type_to_int_def)
qed

lemma check_chars_Inr: "check_chars e k cs = Inr () \<longleftrightarrow> set e \<inter> set cs = {}"
  by (induction cs) auto

lemma CheckEntry_Inr:
  "CheckEntry e k = Inr () \<longleftrightarrow>
     e \<noteq> [] \<and> length e \<le> max_allowed_size \<and> set e \<inter> set disallowed_chars = {}"
  by (auto simp: CheckEntry_def check_chars_Inr)

section \<open>Properties\<close>

text \<open>
  Property C32. The name of a connection does not depend on the side that computes it, and for
  partner names without an underscore it determines the pair of partners.
\<close>

theorem connection_name_identifies:
  "CreateConnectionName a b = CreateConnectionName b a \<and>
   (CHR ''_'' \<notin> set a \<union> set b \<union> set c \<union> set d \<longrightarrow>
     CreateConnectionName a b = CreateConnectionName c d \<longrightarrow> {a, b} = {c, d})"
proof -
  have split: "x = x' \<and> y = y'"
    if "x @ CHR ''_'' # y = x' @ CHR ''_'' # y'" "CHR ''_'' \<notin> set x" "CHR ''_'' \<notin> set x'"
    for x y x' y' :: string
    using that by (induction x arbitrary: x') (case_tac x'; auto)+
  show ?thesis
    by (auto simp: CreateConnectionName_def dest!: split split: if_splits)
qed

theorem connection_name_identifies_witness:
  "CreateConnectionName ''fluid'' ''solid'' = ''fluid_solid'' \<and>
   {''fluid'', ''solid''} = {''solid'', ''fluid''}"
  using connection_name_identifies [of "''fluid''" "''solid''" "''solid''" "''fluid''"]
  by (auto simp: CreateConnectionName_def)

text \<open>
  Property C33. With underscores, which \<open>CheckEntry\<close> allows, two different pairs of partners
  share one connection name (and with it the communication directory and the entry of the
  table of connections).
\<close>

theorem connection_names_collide:
  "\<exists>a b c d. CheckEntry a ''my_name'' = Inr () \<and> CheckEntry b ''connect_to'' = Inr () \<and>
     CheckEntry c ''my_name'' = Inr () \<and> CheckEntry d ''connect_to'' = Inr () \<and>
     a \<noteq> b \<and> c \<noteq> d \<and> {a, b} \<inter> {c, d} = {} \<and>
     CreateConnectionName a b = CreateConnectionName c d"
proof (intro exI conjI)
  show "CreateConnectionName ''a_b'' ''c'' = CreateConnectionName ''a'' ''b_c''"
    by (simp add: CreateConnectionName_def)
qed (simp_all add: CheckEntry_Inr max_allowed_size_def disallowed_chars_def)

lemma find_element_name:
  "t \<noteq> Triangle2D3 \<Longrightarrow> \<forall>v. t \<noteq> OtherType v \<Longrightarrow>
     List.find (\<lambda>u. GetElementName u = GetElementName t)
       (filter (\<lambda>u. u \<noteq> Triangle2D3) element_types) = Some t"
  by (cases t) (simp_all add: GetElementName_def element_types_def)

lemma GetElementName_other: "GetElementName t = Inr nm \<Longrightarrow> t \<noteq> OtherType v"
  by (auto simp: GetElementName_def)

text \<open>
  Property C34. The printed name of an element type identifies it, except that a 2D triangle with
  three nodes is printed with the name of the 3D one.
\<close>

theorem element_names:
  "GetElementName Triangle2D3 = Inr ''Triangle3D3'' \<and>
   (s \<noteq> Triangle2D3 \<longrightarrow> t \<noteq> Triangle2D3 \<longrightarrow>
     GetElementName s = Inr nm \<longrightarrow> GetElementName t = Inr nm \<longrightarrow> s = t)"
proof -
  have "s = t" if "s \<noteq> Triangle2D3" "t \<noteq> Triangle2D3"
    "GetElementName s = Inr nm" "GetElementName t = Inr nm"
    using that by (metis find_element_name GetElementName_other option.inject)
  then show ?thesis by (auto simp: GetElementName_def)
qed

theorem element_names_witness:
  "GetElementName Point3D = Inr ''Point3D'' \<and> Point3D \<noteq> Triangle2D3"
  using element_names [of Point3D Point3D "''Point3D''"] by (simp add: GetElementName_def)

end
