(* ===== verification/PartnerRanks.thy ===== *)
theory PartnerRanks
  imports Utilities
begin

text \<open>
  The assignment of partner ranks in a parallel coupling (\<open>sources/utilities.cpp\<close>). The number of
  ranks for one partner is a quotient of two sizes in \<open>double\<close>, rounded up and converted back to
  \<open>std::size_t\<close>; the model rounds to 53 bits where the code does, and its products wrap. Below
  \<open>2^53\<close> the result is the exact quotient rounded up (\<open>ceil_div_exact\<close>).
\<close>

section \<open>Doubles that hold sizes\<close>

text \<open>The number of binary digits, and the nearest integer to \<open>n / d\<close>, to the even one of two.\<close>

fun bit_length :: "nat \<Rightarrow> nat" where
  "bit_length n = (if n = 0 then 0 else Suc (bit_length (n div 2)))"

declare bit_length.simps [simp del]

definition div_half_even :: "nat \<Rightarrow> nat \<Rightarrow> nat" where
  "div_half_even n d =
     (let q = n div d; r = n mod d in
      if 2 * r < d \<or> (2 * r = d \<and> even q) then q else q + 1)"

text \<open>
  The conversion of an integer to \<open>double\<close> keeps 53 binary digits. The quotient of two doubles is the
  number with a mantissa of 53 digits next to the exact one: \<open>double_div\<close> gives its numerator and
  denominator, where the exponent is chosen so that the mantissa is at least \<open>2^52\<close>.
\<close>

definition double_of :: "nat \<Rightarrow> nat" where
  "double_of n = (let k = bit_length n - 53 in div_half_even n (2 ^ k) * 2 ^ k)"

definition double_div :: "nat \<Rightarrow> nat \<Rightarrow> nat \<times> nat" where
  "double_div x y =
     (let e = (if x * 2 ^ (52 + bit_length y) < 2 ^ 52 * (y * 2 ^ bit_length x) then 53 else 52);
          m = div_half_even (x * 2 ^ (e + bit_length y)) (y * 2 ^ bit_length x)
      in (m * 2 ^ bit_length x, 2 ^ (e + bit_length y)))"

text \<open>\<open>static_cast<std::size_t>(std::ceil(a / static_cast<double>(b)))\<close>.\<close>

definition ceil_div :: "u64 \<Rightarrow> u64 \<Rightarrow> u64" where
  "ceil_div a b = (case double_div (double_of (unat a)) (double_of (unat b)) of
     (n, d) \<Rightarrow> word_of_nat ((n + d - 1) div d))"

section \<open>The two sides\<close>

definition check_ranks :: "u64 \<Rightarrow> u64 \<Rightarrow> u64 \<Rightarrow> error + unit" where
  "check_ranks MyRank MySize PartnerSize =
     (if MySize = 0 then Inl (CoSimError ''Error: MySize cannot be zero!'')
      else if PartnerSize = 0 then Inl (CoSimError ''Error: PartnerSize cannot be zero!'')
      else if \<not> MyRank < MySize then Inl (CoSimError ''Error: MyRank must be smaller MySize!'')
      else Inr ())"

text \<open>The values \<open>i\<close> of a loop \<open>for (std::size_t i=0; i<n; ++i)\<close>.\<close>

definition ranks_below :: "u64 \<Rightarrow> u64 list" where
  "ranks_below n = List.map word_of_nat [0..<unat n]"

definition ComputePartnerRanksAsImporter :: "u64 \<Rightarrow> u64 \<Rightarrow> u64 \<Rightarrow> error + u64 set" where
  "ComputePartnerRanksAsImporter MyRank MySize PartnerSize =
     bindR (check_ranks MyRank MySize PartnerSize) (\<lambda>_.
       if MySize = 1 then Inr (set (ranks_below PartnerSize))
       else if MySize = PartnerSize then Inr {MyRank}
       else if MySize > PartnerSize then
         (if MyRank < PartnerSize then Inr {MyRank} else Inr {})
       else
         (let num_ranks_per_partner_rank = ceil_div PartnerSize MySize;
              lower_end = MyRank * num_ranks_per_partner_rank;
              upper_end = (MyRank + 1) * num_ranks_per_partner_rank
          in Inr (set (filter (\<lambda>i. i \<ge> lower_end \<and> i < upper_end) (ranks_below PartnerSize)))))"

definition ComputePartnerRanksAsExporter :: "u64 \<Rightarrow> u64 \<Rightarrow> u64 \<Rightarrow> error + u64 set" where
  "ComputePartnerRanksAsExporter MyRank MySize PartnerSize =
     bindR (check_ranks MyRank MySize PartnerSize) (\<lambda>_.
       if MySize = 1 then Inr {0}
       else if PartnerSize = 1 then Inr {0}
       else if MySize = PartnerSize then Inr {MyRank}
       else if MySize > PartnerSize then
         (let num_ranks_per_partner_rank = ceil_div MySize PartnerSize
          in Inr {MyRank div num_ranks_per_partner_rank})
       else Inr {MyRank})"

section \<open>The quotient\<close>

lemma bit_length_upper: "n < 2 ^ bit_length n"
proof (induction n rule: bit_length.induct)
  case (1 n)
  show ?case
  proof (cases "n = 0")
    case True
    then show ?thesis by (simp add: bit_length.simps)
  next
    case False
    with 1 have "n div 2 < 2 ^ bit_length (n div 2)" by simp
    then show ?thesis using False by (subst bit_length.simps) auto
  qed
qed

lemma bit_length_le: "n < 2 ^ k \<Longrightarrow> bit_length n \<le> k"
proof (induction k arbitrary: n)
  case 0
  then show ?case by (simp add: bit_length.simps)
next
  case (Suc k)
  then have "bit_length (n div 2) \<le> k" by simp
  then show ?case by (subst bit_length.simps) simp
qed

lemma div_half_even_upper: "0 < d \<Longrightarrow> n \<le> k * d \<Longrightarrow> div_half_even n d \<le> k"
proof -
  assume d: "0 < d" and n: "n \<le> k * d"
  show ?thesis
  proof (cases "n = k * d")
    case True
    then show ?thesis using d by (simp add: div_half_even_def Let_def)
  next
    case False
    then have "n div d < k" using n d by (simp add: div_less_iff_less_mult)
    then show ?thesis by (simp add: div_half_even_def Let_def)
  qed
qed

lemma div_half_even_lower:
  assumes "0 < d" "2 * k * d + d < 2 * n"
  shows "k < div_half_even n d"
proof (cases "k < n div d")
  case True
  then show ?thesis by (simp add: div_half_even_def Let_def)
next
  case False
  have "k * d \<le> n" using assms(2) by linarith
  then have q: "n div d = k" using False assms(1) by (simp add: div_le_mono less_eq_div_iff_mult_less_eq not_less eq_iff)
  have "n = k * d + n mod d" using q by (metis div_mult_mod_eq)
  then have "d < 2 * (n mod d)" using assms(2) by linarith
  then show ?thesis using q by (simp add: div_half_even_def Let_def)
qed

lemma double_of_exact: "n < 2 ^ 53 \<Longrightarrow> double_of n = n"
  using bit_length_le [of n 53] by (simp add: double_of_def div_half_even_def)

definition exact_ceil :: "nat \<Rightarrow> nat \<Rightarrow> nat" where
  "exact_ceil a b = (a + b - 1) div b"

lemma exact_ceil_unique: "0 < b \<Longrightarrow> a \<le> c * b \<Longrightarrow> c * b < a + b \<Longrightarrow> exact_ceil a b = c"
  unfolding exact_ceil_def by (intro div_nat_eqI) (auto simp: mult.commute)

lemma exact_ceil_bounds: "0 < b \<Longrightarrow> a \<le> exact_ceil a b * b" "0 < b \<Longrightarrow> 0 < a \<Longrightarrow> exact_ceil a b * b < a + b"
proof -
  assume b: "0 < b"
  have e: "a + b - 1 = exact_ceil a b * b + (a + b - 1) mod b" by (simp add: exact_ceil_def)
  moreover have "(a + b - 1) mod b < b" using b by simp
  ultimately show "a \<le> exact_ceil a b * b" by linarith
  show "exact_ceil a b * b < a + b" if "0 < a" using e that b by linarith
qed

lemma double_div_ceil:
  assumes "0 < x" "x < 2 ^ 53" "0 < y" "y < 2 ^ 53" "double_div x y = (n, d)"
  shows "(n + d - 1) div d = exact_ceil x y"
proof -
  obtain e where e: "52 \<le> e" "n = div_half_even (x * 2 ^ (e + bit_length y)) (y * 2 ^ bit_length x) * 2 ^ bit_length x"
    "d = 2 ^ (e + bit_length y)"
    using assms(5) unfolding double_div_def Let_def by (cases "x * 2 ^ (52 + bit_length y) < 2 ^ 52 * (y * 2 ^ bit_length x)") auto
  let ?B = "2 ^ bit_length x :: nat" and ?c = "exact_ceil x y" and ?m = "div_half_even (x * d) (y * 2 ^ bit_length x)"
  have n: "n = ?m * ?B" using e by simp
  have "bit_length y \<noteq> 0" using bit_length_upper [of y] assms(3) by (cases "bit_length y = 0") auto
  moreover have bx: "bit_length x \<le> 53" by (rule bit_length_le [OF assms(2)])
  ultimately have "bit_length x \<le> e + bit_length y" using e(1) by linarith
  then have d: "d = 2 ^ (e + bit_length y - bit_length x) * ?B" unfolding e(3) by (simp flip: power_add)
  let ?k = "2 ^ (e + bit_length y - bit_length x) :: nat"
  note c = exact_ceil_bounds [OF assms(3), of x]
  have pos: "0 < ?c" using c(1) assms(1) by (cases "?c = 0") auto
  have "x * d \<le> (?c * ?k) * (y * ?B)"
    unfolding d using mult_le_mono1 [OF c(1), of "?k * ?B"] by (simp add: ac_simps)
  then have up: "?m \<le> ?c * ?k" using assms(3) by (intro div_half_even_upper) simp_all
  have small: "y * ?B < 2 * d"
  proof -
    have "?B \<le> 2 ^ 53" using bx by (intro power_increasing) simp_all
    then have "y * ?B \<le> y * 2 ^ 53" by simp
    also have "\<dots> < 2 ^ bit_length y * 2 ^ 53" using bit_length_upper [of y] by simp
    also have "\<dots> = 2 * 2 ^ (52 + bit_length y)" by (simp add: power_add)
    also have "\<dots> \<le> 2 * d" unfolding e(3) using e(1) by (simp add: power_increasing)
    finally show ?thesis .
  qed
  have low: "(?c - 1) * ?k < ?m"
  proof (rule div_half_even_lower)
    obtain c' where "?c = Suc c'" using pos by (cases ?c) auto
    then have "(?c - 1) * y + 1 \<le> x" using c(2) [OF assms(1)] by simp
    then have "((?c - 1) * y + 1) * d \<le> x * d" by (rule mult_le_mono1)
    then have "2 * ((?c - 1) * y * d) + 2 * d \<le> 2 * (x * d)" by (simp add: algebra_simps)
    moreover have "2 * ((?c - 1) * ?k) * (y * ?B) = 2 * ((?c - 1) * y * d)" unfolding d by (simp add: ac_simps)
    ultimately show "2 * ((?c - 1) * ?k) * (y * ?B) + y * ?B < 2 * (x * d)" using small by linarith
  qed (use assms(3) in simp)
  have "(n + d - 1) div d = exact_ceil n d" by (simp add: exact_ceil_def)
  also have "\<dots> = ?c"
  proof (rule exact_ceil_unique)
    have "?m * ?B \<le> ?c * ?k * ?B" using up by (rule mult_le_mono1)
    then show "n \<le> ?c * d" unfolding n unfolding d by (simp only: mult.assoc)
    have "(?c - 1) * ?k * ?B < ?m * ?B" using low by simp
    then have "(?c - 1) * d < n" unfolding n unfolding d by (simp only: mult.assoc)
    then show "?c * d < n + d" using pos by (simp add: diff_mult_distrib)
  qed (simp add: e(3))
  finally show ?thesis .
qed

lemma ceil_div_exact:
  assumes "0 < a" "0 < b" "unat a < 2 ^ 53" "unat b < 2 ^ 53"
  shows "unat (ceil_div a b) = exact_ceil (unat a) (unat b)"
proof -
  obtain n d where nd: "double_div (unat a) (unat b) = (n, d)" by (cases "double_div (unat a) (unat b)")
  have p: "0 < unat a" "0 < unat b" using assms(1,2) by (simp_all add: unat_gt_0 word_neq_0_conv)
  have "exact_ceil (unat a) (unat b) * 1 \<le> exact_ceil (unat a) (unat b) * unat b" using p by (intro mult_le_mono2) simp
  then have small: "exact_ceil (unat a) (unat b) < unat a + unat b" using exact_ceil_bounds(2) [OF p(2,1)] by linarith
  have "exact_ceil (unat a) (unat b) < 2 ^ 64" using small assms(3,4) by simp
  then show ?thesis
    using double_div_ceil [OF p(1) assms(3) p(2) assms(4) nd] nd
    by (simp add: ceil_div_def double_of_exact [OF assms(3)] double_of_exact [OF assms(4)] unat_word_of_nat)
qed

section \<open>The ranks of each side\<close>

lemma check_ranks_Inr: "check_ranks r m n = Inr u \<longleftrightarrow> m \<noteq> 0 \<and> n \<noteq> 0 \<and> r < m"
  by (auto simp: check_ranks_def)

lemma set_ranks_below: "set (ranks_below n) = {i. i < n}"
proof -
  have "i \<in> word_of_nat ` {0..<unat n}" if "i < n" for i :: u64
    using that by (intro image_eqI [of _ _ "unat i"]) (simp_all add: word_less_nat_alt)
  moreover have "word_of_nat k < n" if "k < unat n" for k
    using that unsigned_less [where w = n and ?'a = nat] by (simp add: word_less_nat_alt unat_word_of_nat order.strict_trans)
  ultimately show ?thesis by (auto simp: ranks_below_def)
qed

lemma exporter_Inr:
  "ComputePartnerRanksAsExporter r m n = Inr E \<longleftrightarrow> m \<noteq> 0 \<and> n \<noteq> 0 \<and> r < m \<and>
     E = (if m = 1 \<or> n = 1 then {0} else if m > n then {r div ceil_div m n} else {r})"
  by (auto simp: ComputePartnerRanksAsExporter_def bindR_eq_Inr check_ranks_Inr Let_def)

lemma importer_Inr:
  "ComputePartnerRanksAsImporter p n m = Inr I \<longleftrightarrow> n \<noteq> 0 \<and> m \<noteq> 0 \<and> p < n \<and>
     I = (if n = 1 then {r. r < m} else if n = m then {p} else if n > m then (if p < m then {p} else {})
          else {r. r < m \<and> p * ceil_div m n \<le> r \<and> r < (p + 1) * ceil_div m n})"
  by (auto simp: ComputePartnerRanksAsImporter_def bindR_eq_Inr check_ranks_Inr Let_def set_ranks_below)

text \<open>
  Below \<open>2^53\<close> the number of ranks per partner rank is positive, its product with the smaller size covers
  the larger one, and no product of the code wraps.
\<close>

lemma ranks_per_partner:
  assumes "n \<noteq> 0" "n < m" "unat m < 2 ^ 53"
  shows "0 < unat (ceil_div m n)" "unat m \<le> unat n * unat (ceil_div m n)" "unat n * unat (ceil_div m n) < 2 ^ 54"
proof -
  have m: "0 < unat m" "unat n < unat m" using assms(1,2) by (simp_all add: word_less_nat_alt)
  have n: "0 < unat n" using assms(1) by (simp add: unat_gt_0)
  have "m \<noteq> 0" using m(1) by (simp add: unat_gt_0)
  then have "unat (ceil_div m n) = exact_ceil (unat m) (unat n)"
    using assms m(2) by (intro ceil_div_exact) (simp_all add: word_neq_0_conv)
  note e = exact_ceil_bounds [OF n, of "unat m", folded this]
  show "0 < unat (ceil_div m n)" "unat m \<le> unat n * unat (ceil_div m n)"
    using e(1) m(1) by (cases "unat (ceil_div m n) = 0", simp_all add: mult.commute)
  show "unat n * unat (ceil_div m n) < 2 ^ 54" using e(2) [OF m(1)] m(2) assms(3) by (simp add: mult.commute)
qed

lemma div_eq_iff_between: "0 < k \<Longrightarrow> p * k \<le> r \<and> r < (p + 1) * k \<longleftrightarrow> p = r div k" for k p r :: nat
  by (metis add.commute div_nat_eqI dividend_less_times_div mult.commute mult_Suc_right plus_1_eq_Suc times_div_less_eq_dividend)

lemma importer_range:
  assumes "n \<noteq> 0" "n < m" "unat m < 2 ^ 53" "p < n"
  shows "p * ceil_div m n \<le> r \<and> r < (p + 1) * ceil_div m n \<longleftrightarrow> p = r div ceil_div m n"
proof -
  let ?k = "ceil_div m n"
  note k = ranks_per_partner [OF assms(1-3)]
  have "unat p + 1 < 2 ^ 64" using assms(4) unsigned_less [where w = n and ?'a = nat] by (simp add: word_less_nat_alt)
  then have s: "unat (p + 1) = unat p + 1" by (simp add: unat_add_lem [THEN iffD1])
  have "(unat p + 1) * unat ?k \<le> unat n * unat ?k" using assms(4) by (intro mult_le_mono1) (simp add: word_less_nat_alt)
  then have b: "(unat p + 1) * unat ?k < 2 ^ 64" using k(3) by simp
  have "unat (p + 1) * unat ?k < 2 ^ LENGTH(64)" using b s by simp
  then have "unat ((p + 1) * ?k) = (unat p + 1) * unat ?k" unfolding s [symmetric] by (rule unat_mult_lem [THEN iffD1])
  moreover have "unat p * unat ?k < 2 ^ LENGTH(64)" using b by simp
  then have "unat (p * ?k) = unat p * unat ?k" by (rule unat_mult_lem [THEN iffD1])
  ultimately have "p * ?k \<le> r \<and> r < (p + 1) * ?k \<longleftrightarrow> unat p * unat ?k \<le> unat r \<and> unat r < (unat p + 1) * unat ?k"
    by (simp add: word_le_nat_alt word_less_nat_alt)
  also have "\<dots> \<longleftrightarrow> unat p = unat r div unat ?k" using div_eq_iff_between [OF k(1)] .
  finally show ?thesis by (simp only: unat_div [symmetric] word_unat_eq_iff [symmetric])
qed

section \<open>Properties\<close>

text \<open>
  Property C28. The two sides of a parallel coupling agree on who talks to whom: with fewer than \<open>2^53\<close> ranks
  on either side, exporter rank \<open>r\<close> (of \<open>m\<close>) sends to importer rank \<open>p\<close> (of \<open>n\<close>) exactly when importer rank
  \<open>p\<close> expects data from exporter rank \<open>r\<close>. Each side computes its set alone, from the two sizes.
\<close>

theorem partner_ranks_dual:
  assumes "unat m < 2 ^ 53" "unat n < 2 ^ 53"
    and "ComputePartnerRanksAsExporter r m n = Inr E" "ComputePartnerRanksAsImporter p n m = Inr I"
  shows "p \<in> E \<longleftrightarrow> r \<in> I"
proof -
  have e: "m \<noteq> 0" "r < m" "E = (if m = 1 \<or> n = 1 then {0} else if m > n then {r div ceil_div m n} else {r})"
    using assms(3) unfolding exporter_Inr by simp_all
  have i: "n \<noteq> 0" "p < n" "I = (if n = 1 then {r. r < m} else if n = m then {p} else if n > m then (if p < m then {p} else {})
      else {r. r < m \<and> p * ceil_div m n \<le> r \<and> r < (p + 1) * ceil_div m n})"
    using assms(4) unfolding importer_Inr by simp_all
  have one: "x < 1 \<longleftrightarrow> x = 0" for x :: u64 by (simp add: word_less_nat_alt unat_eq_0)
  consider "n = 1" | "m = 1" "n \<noteq> 1" | "m \<noteq> 1" "n \<noteq> 1" "n = m" | "m \<noteq> 1" "n \<noteq> 1" "m < n" | "m \<noteq> 1" "n \<noteq> 1" "n < m"
    by (metis linorder_less_linear)
  then show ?thesis
  proof cases
    case 1
    then show ?thesis using e i one by simp
  next
    case 2
    have "unat n \<noteq> 0" "unat n \<noteq> 1" using i(1) 2(2) by (simp_all add: word_unat_eq_iff)
    then have "1 < n" by (simp add: word_less_nat_alt)
    then show ?thesis using e i 2 one by auto
  next
    case 5
    then have "n \<noteq> m" "\<not> m < n" by auto
    then have "E = {r div ceil_div m n}" "I = {r. r < m \<and> p = r div ceil_div m n}"
      using e(3) i(3) 5 by (simp_all add: importer_range [OF i(1) 5(3) assms(1) i(2)])
    then show ?thesis using e(2) by simp
  qed (use e i one in auto)
qed

lemma five_by_three: "ceil_div 5 3 = 2"
proof -
  have "unat (ceil_div 5 3) = exact_ceil (unat (5 :: u64)) (unat (3 :: u64))" by (rule ceil_div_exact) simp_all
  also have "\<dots> = 2" by (simp add: exact_ceil_def)
  finally show ?thesis by (simp add: word_unat_eq_iff)
qed

theorem partner_ranks_dual_witness:
  "ComputePartnerRanksAsExporter 4 5 3 = Inr {2} \<and> ComputePartnerRanksAsImporter 2 3 5 = Inr {4}
   \<and> ((2 :: u64) \<in> {2 :: u64}) = ((4 :: u64) \<in> {4 :: u64})"
proof -
  have e: "ComputePartnerRanksAsExporter 4 5 3 = Inr {2}" by (simp add: exporter_Inr five_by_three)
  have "{r :: u64. r < 5 \<and> 4 \<le> r \<and> r < 6} = {4}"
    by (auto simp: word_less_nat_alt word_le_nat_alt word_unat_eq_iff)
  then have i: "ComputePartnerRanksAsImporter 2 3 5 = Inr {4}" by (simp add: importer_Inr five_by_three)
  have "unat (5 :: u64) < 2 ^ 53" "unat (3 :: u64) < 2 ^ 53" by simp_all
  then show ?thesis using e i partner_ranks_dual [OF _ _ e i] by simp
qed

text \<open>
  Property C29. Every exporter rank has exactly one partner rank, which exists on the importer's side and
  expects it, for less than \<open>2^53\<close> ranks: no data is sent to a rank that is not there or does not listen.
\<close>

theorem exporter_has_one_partner:
  assumes "unat m < 2 ^ 53" "unat n < 2 ^ 53" and "r < m" "0 < n"
  shows "\<exists>p < n. ComputePartnerRanksAsExporter r m n = Inr {p} \<and>
           (\<exists>I. ComputePartnerRanksAsImporter p n m = Inr I \<and> r \<in> I)"
proof -
  have nz: "m \<noteq> 0" "n \<noteq> 0" using assms(3,4) by auto
  have "r div ceil_div m n < n" if l: "n < m"
  proof -
    note k = ranks_per_partner [OF nz(2) l assms(1)]
    have "unat r < unat n * unat (ceil_div m n)" using k(2) assms(3) by (simp add: word_less_nat_alt)
    then show ?thesis using k(1) by (simp add: word_less_nat_alt unat_div div_less_iff_less_mult)
  qed
  moreover have "(if m = 1 \<or> n = 1 then {0} else if m > n then {r div ceil_div m n} else {r}) =
      {if m = 1 \<or> n = 1 then 0 else if m > n then r div ceil_div m n else r}" by simp
  ultimately show ?thesis
    using nz assms(3,4) importer_range [OF nz(2) _ assms(1), of "r div ceil_div m n" r]
    unfolding exporter_Inr importer_Inr
    by (intro exI [of _ "if m = 1 \<or> n = 1 then 0 else if m > n then r div ceil_div m n else r"])
      (auto simp: not_less)
qed

theorem exporter_has_one_partner_witness:
  "\<exists>p < (3 :: u64). ComputePartnerRanksAsExporter 6 7 3 = Inr {p} \<and>
     (\<exists>I. ComputePartnerRanksAsImporter p 3 7 = Inr I \<and> 6 \<in> I)"
  using exporter_has_one_partner [of 7 3 6] by simp

end
