(* ===== verification/Info.thy ===== *)
theory Info
  imports Utilities
begin

text \<open>
  \<open>includes/info.hpp\<close> and \<open>sources/info.cpp\<close>: the heterogeneous dictionary that carries settings
  and results. \<open>mOptions\<close> is a \<open>std::map\<close> from names to shared pointers to immutable objects
  \<open>InfoData<T>\<close>; an entry of the model is the name, the address of the object and its value. The
  address is the identity of the shared object: copying an \<open>Info\<close> copies the pointers, so the
  copies share their entries, which only the serialization can observe.
\<close>

section \<open>Data\<close>

datatype info_data =
    DInt i32
  | DSize u64
  | DDouble dbl
  | DBool bool
  | DString string
  | DInfo "(string \<times> (addr \<times> info_data)) list"

type_synonym info = "(string, addr \<times> info_data) smap"

text \<open>The types that \<open>ValidateType\<close> admits, and their names.\<close>

datatype info_type = TInt | TSize | TDouble | TBool | TString | TInfo

fun data_type :: "info_data \<Rightarrow> info_type" where
  "data_type (DInt _) = TInt"
| "data_type (DSize _) = TSize"
| "data_type (DDouble _) = TDouble"
| "data_type (DBool _) = TBool"
| "data_type (DString _) = TString"
| "data_type (DInfo _) = TInfo"

fun type_name :: "info_type \<Rightarrow> string" where
  "type_name TInt = ''int''"
| "type_name TSize = ''size_t''"
| "type_name TDouble = ''double''"
| "type_name TBool = ''bool''"
| "type_name TString = ''string''"
| "type_name TInfo = ''info''"

definition GetDataTypeName :: "info_data \<Rightarrow> string" where
  "GetDataTypeName d = type_name (data_type d)"

section \<open>Operations\<close>

definition Info_new :: info where
  "Info_new = []"

definition Info_copy :: "info \<Rightarrow> info" where
  "Info_copy Other = Other"

definition Info_Has :: "info \<Rightarrow> string \<Rightarrow> bool" where
  "Info_Has m I_Key = (smap_find m I_Key \<noteq> None)"

text \<open>
  \<open>mOptions.at\<close> throws \<open>std::out_of_range\<close> on a missing key; the callers have checked \<open>Has\<close>.
\<close>

definition GetExistingKey :: "info_type \<Rightarrow> info \<Rightarrow> string \<Rightarrow> error + info_data" where
  "GetExistingKey T m I_Key =
     (case smap_find m I_Key of
        None \<Rightarrow> Inl (Thrown ''out_of_range'')
      | Some (a, r_val) \<Rightarrow>
          (if GetDataTypeName r_val \<noteq> type_name T
           then Inl (CoSimError (''Error: Wrong DataType! Trying to get '' @ dq I_Key @
                  '' which is of type '' @ dq (GetDataTypeName r_val) @ '' with '' @
                  dq (type_name T) @ ''!''))
           else Inr r_val))"

text \<open>
  The error text of \<open>Get\<close> goes on with the listing of the available entries (\<open>Print\<close> below),
  which is left out of the modelled text.
\<close>

definition Info_Get :: "info_type \<Rightarrow> info \<Rightarrow> string \<Rightarrow> error + info_data" where
  "Info_Get T m I_Key =
     (if \<not> Info_Has m I_Key
      then Inl (CoSimError (''Error: Trying to get '' @ dq I_Key @ '' which does not exist!''))
      else GetExistingKey T m I_Key)"

definition Info_Get_default :: "info_type \<Rightarrow> info \<Rightarrow> string \<Rightarrow> info_data \<Rightarrow> error + info_data" where
  "Info_Get_default T m I_Key I_Default =
     (if Info_Has m I_Key then GetExistingKey T m I_Key else Inr I_Default)"

text \<open>\<open>Set\<close> allocates a new object (\<open>std::make_shared\<close>), whose address is an argument.\<close>

definition Info_Set :: "addr \<Rightarrow> string \<Rightarrow> info_data \<Rightarrow> info \<Rightarrow> info" where
  "Info_Set a I_Key I_Value m = smap_assign I_Key (a, I_Value) m"

definition Info_Erase :: "string \<Rightarrow> info \<Rightarrow> info" where
  "Info_Erase I_Key m = smap_erase I_Key m"

definition Info_Clear :: "info \<Rightarrow> info" where
  "Info_Clear m = []"

definition Info_Size :: "info \<Rightarrow> nat" where
  "Info_Size m = length m"

text \<open>Typed reads, as the callers use them.\<close>

definition get_int :: "info \<Rightarrow> string \<Rightarrow> error + i32" where
  "get_int m k = bindR (Info_Get TInt m k)
     (\<lambda>d. case d of DInt v \<Rightarrow> Inr v | _ \<Rightarrow> Inl (UndefinedBehaviour ''static_cast''))"

definition get_size :: "info \<Rightarrow> string \<Rightarrow> error + u64" where
  "get_size m k = bindR (Info_Get TSize m k)
     (\<lambda>d. case d of DSize v \<Rightarrow> Inr v | _ \<Rightarrow> Inl (UndefinedBehaviour ''static_cast''))"

definition get_double :: "info \<Rightarrow> string \<Rightarrow> error + dbl" where
  "get_double m k = bindR (Info_Get TDouble m k)
     (\<lambda>d. case d of DDouble v \<Rightarrow> Inr v | _ \<Rightarrow> Inl (UndefinedBehaviour ''static_cast''))"

definition get_bool :: "info \<Rightarrow> string \<Rightarrow> error + bool" where
  "get_bool m k = bindR (Info_Get TBool m k)
     (\<lambda>d. case d of DBool v \<Rightarrow> Inr v | _ \<Rightarrow> Inl (UndefinedBehaviour ''static_cast''))"

definition get_string :: "info \<Rightarrow> string \<Rightarrow> error + string" where
  "get_string m k = bindR (Info_Get TString m k)
     (\<lambda>d. case d of DString v \<Rightarrow> Inr v | _ \<Rightarrow> Inl (UndefinedBehaviour ''static_cast''))"

definition get_info :: "info \<Rightarrow> string \<Rightarrow> error + info" where
  "get_info m k = bindR (Info_Get TInfo m k)
     (\<lambda>d. case d of DInfo v \<Rightarrow> Inr v | _ \<Rightarrow> Inl (UndefinedBehaviour ''static_cast''))"

definition get_bool_default :: "info \<Rightarrow> string \<Rightarrow> bool \<Rightarrow> error + bool" where
  "get_bool_default m k d = bindR (Info_Get_default TBool m k (DBool d))
     (\<lambda>d. case d of DBool v \<Rightarrow> Inr v | _ \<Rightarrow> Inl (UndefinedBehaviour ''static_cast''))"

definition get_int_default :: "info \<Rightarrow> string \<Rightarrow> i32 \<Rightarrow> error + i32" where
  "get_int_default m k d = bindR (Info_Get_default TInt m k (DInt d))
     (\<lambda>d. case d of DInt v \<Rightarrow> Inr v | _ \<Rightarrow> Inl (UndefinedBehaviour ''static_cast''))"

definition get_string_default :: "info \<Rightarrow> string \<Rightarrow> string \<Rightarrow> error + string" where
  "get_string_default m k d = bindR (Info_Get_default TString m k (DString d))
     (\<lambda>d. case d of DString v \<Rightarrow> Inr v | _ \<Rightarrow> Inl (UndefinedBehaviour ''static_cast''))"

definition get_info_default :: "info \<Rightarrow> string \<Rightarrow> info \<Rightarrow> error + info" where
  "get_info_default m k d = bindR (Info_Get_default TInfo m k (DInfo d))
     (\<lambda>d. case d of DInfo v \<Rightarrow> Inr v | _ \<Rightarrow> Inl (UndefinedBehaviour ''static_cast''))"

section \<open>Printing\<close>

text \<open>
  \<open>InfoData<T>::Print\<close> and \<open>Info::Print\<close>; \<open>show_dbl\<close> stands for \<open>operator<<\<close> on doubles. A
  nested \<open>Info\<close> is printed with its own header after \<open>type: \<close>.
\<close>

fun Print_data :: "(dbl \<Rightarrow> string) \<Rightarrow> string \<Rightarrow> info_data \<Rightarrow> string"
and Print_entries :: "(dbl \<Rightarrow> string) \<Rightarrow> string \<Rightarrow> (string \<times> (addr \<times> info_data)) list \<Rightarrow> string" where
  "Print_data show_dbl pre (DInt v) = ''value: '' @ show_int (sint v) @ '' | type: int'' @ [nl]"
| "Print_data show_dbl pre (DSize v) = ''value: '' @ show_nat (unat v) @ '' | type: size_t'' @ [nl]"
| "Print_data show_dbl pre (DDouble v) = ''value: '' @ show_dbl v @ '' | type: double'' @ [nl]"
| "Print_data show_dbl pre (DBool v) =
     ''value: '' @ (if v then ''true'' else ''false'') @ '' | type: bool'' @ [nl]"
| "Print_data show_dbl pre (DString v) = ''value: '' @ v @ '' | type: string'' @ [nl]"
| "Print_data show_dbl pre (DInfo m) =
     ''type: '' @ ''CoSimIO-Info; containing '' @ show_nat (length m) @ '' entries'' @ [nl] @
     Print_entries show_dbl pre m"
| "Print_entries show_dbl pre [] = []"
| "Print_entries show_dbl pre ((k, (a, d)) # m) =
     pre @ ''  name: '' @ k @ '' | '' @ Print_data show_dbl (pre @ ''  '') d @
     Print_entries show_dbl pre m"

definition Info_Print :: "(dbl \<Rightarrow> string) \<Rightarrow> string \<Rightarrow> info \<Rightarrow> string" where
  "Info_Print show_dbl rPrefixString m =
     ''CoSimIO-Info; containing '' @ show_nat (Info_Size m) @ '' entries'' @ [nl] @
     Print_entries show_dbl rPrefixString m"

section \<open>Well-formedness\<close>

text \<open>Every level of a nested \<open>Info\<close> is a map: sorted strictly by key.\<close>

fun data_wf :: "info_data \<Rightarrow> bool"
and entries_wf :: "(string \<times> (addr \<times> info_data)) list \<Rightarrow> bool" where
  "data_wf (DInfo m) = (smap_wf m \<and> entries_wf m)"
| "data_wf (DInt _) = True"
| "data_wf (DSize _) = True"
| "data_wf (DDouble _) = True"
| "data_wf (DBool _) = True"
| "data_wf (DString _) = True"
| "entries_wf [] = True"
| "entries_wf ((k, (a, d)) # m) = (data_wf d \<and> entries_wf m)"

definition info_wf :: "info \<Rightarrow> bool" where
  "info_wf m \<longleftrightarrow> data_wf (DInfo m)"

lemma info_wf_smap [simp]: "info_wf m \<Longrightarrow> smap_wf m"
  by (simp add: info_wf_def)

lemma entries_wf_iff: "entries_wf m \<longleftrightarrow> (\<forall>k a d. (k, (a, d)) \<in> set m \<longrightarrow> data_wf d)"
  by (induction m) auto

lemma set_smap_assign_subset: "set (smap_assign k v m) \<subseteq> insert (k, v) (set m)"
  by (induction k v m rule: smap_assign.induct) auto

lemma type_name_inj: "type_name a = type_name b \<longleftrightarrow> a = b"
  by (cases a; cases b) simp_all

section \<open>The interface of the dictionary\<close>

text \<open>
  What the users of \<open>Info\<close> rely on: a value is read back under its key with its type, a read
  with another type is an error, and no operation disturbs the other keys.
\<close>

locale dictionary =
  fixes has :: "'m \<Rightarrow> 'k \<Rightarrow> bool"
    and get :: "'t \<Rightarrow> 'm \<Rightarrow> 'k \<Rightarrow> error + 'v"
    and put :: "addr \<Rightarrow> 'k \<Rightarrow> 'v \<Rightarrow> 'm \<Rightarrow> 'm"
    and erase :: "'k \<Rightarrow> 'm \<Rightarrow> 'm"
    and type_of :: "'v \<Rightarrow> 't"
    and good :: "'v \<Rightarrow> bool"
    and wf :: "'m \<Rightarrow> bool"
  assumes wf_put: "wf m \<Longrightarrow> good v \<Longrightarrow> wf (put a k v m)"
    and wf_erase: "wf m \<Longrightarrow> wf (erase k m)"
    and has_put: "wf m \<Longrightarrow> has (put a k v m) k' \<longleftrightarrow> k' = k \<or> has m k'"
    and has_erase: "wf m \<Longrightarrow> has (erase k m) k' \<longleftrightarrow> k' \<noteq> k \<and> has m k'"
    and get_put_same: "wf m \<Longrightarrow> get (type_of v) (put a k v m) k = Inr v"
    and get_put_other: "wf m \<Longrightarrow> k' \<noteq> k \<Longrightarrow> get t (put a k v m) k' = get t m k'"
    and get_erase_other: "wf m \<Longrightarrow> k' \<noteq> k \<Longrightarrow> get t (erase k m) k' = get t m k'"
    and get_typed: "get t m k = Inr v \<Longrightarrow> type_of v = t \<and> has m k"
    and get_unique: "get t m k = Inr v \<Longrightarrow> get t' m k = Inr v' \<Longrightarrow> v' = v"
begin

lemma get_wrong_type:
  assumes "wf m" and "t \<noteq> type_of v"
  shows "\<exists>e. get t (put a k v m) k = Inl e"
proof (cases "get t (put a k v m) k")
  case (Inr w)
  then have "w = v" using get_unique [OF get_put_same [OF assms(1)]] by blast
  with Inr have "type_of v = t" using get_typed by blast
  with assms(2) show ?thesis by simp
qed simp

lemma get_erased: "wf m \<Longrightarrow> \<exists>e. get t (erase k m) k = Inl e"
  using get_typed [of t "erase k m" k] has_erase [of m k k] by (cases "get t (erase k m) k") auto

text \<open>A run of writes: the last value written under a key is the one that is read.\<close>

lemma wf_puts:
  "wf m \<Longrightarrow> (\<forall>(a, k, v) \<in> set kvs. good v) \<Longrightarrow> wf (fold (\<lambda>(a, k, v). put a k v) kvs m)"
  by (induction kvs arbitrary: m) (auto simp: wf_put)

lemma get_puts_other:
  "wf m \<Longrightarrow> (\<forall>(a, k', v) \<in> set kvs. good v \<and> k' \<noteq> k) \<Longrightarrow>
     get t (fold (\<lambda>(a, k, v). put a k v) kvs m) k = get t m k"
  by (induction kvs arbitrary: m) (auto simp: wf_put get_put_other)

lemma get_puts_last:
  assumes "wf m" "\<forall>(a, k', v') \<in> set (pre @ post). good v'" "good v"
    "\<forall>(a, k', v') \<in> set post. k' \<noteq> k"
  shows "get (type_of v) (fold (\<lambda>(a, k, v). put a k v) (pre @ (a, k, v) # post) m) k = Inr v"
proof -
  let ?w = "fold (\<lambda>(a, k, v). put a k v) pre m"
  have "wf ?w" using assms by (intro wf_puts) auto
  moreover have "\<forall>(a, k', v) \<in> set post. good v \<and> k' \<noteq> k" using assms by fastforce
  ultimately show ?thesis
    using assms(3) by (simp add: get_puts_other wf_put get_put_same)
qed

end

lemma data_wf_DInfo: "data_wf (DInfo m) = info_wf m"
  by (simp only: info_wf_def)

lemma info_wf_Set: "info_wf m \<Longrightarrow> data_wf v \<Longrightarrow> info_wf (Info_Set a k v m)"
  using set_smap_assign_subset [of k "(a, v)" m]
  by (auto simp: info_wf_def Info_Set_def smap_wf_assign entries_wf_iff)

lemma info_wf_Erase: "info_wf m \<Longrightarrow> info_wf (Info_Erase k m)"
  using set_smap_erase [of k m]
  by (auto simp: info_wf_def Info_Erase_def smap_wf_erase entries_wf_iff)

lemma info_wf_new [simp]: "info_wf Info_new" "info_wf []"
  by (simp_all add: info_wf_def Info_new_def)

lemmas info_defs = Info_Has_def Info_Get_def GetExistingKey_def Info_Set_def Info_Erase_def
  GetDataTypeName_def type_name_inj

interpretation info: dictionary Info_Has Info_Get Info_Set Info_Erase data_type data_wf info_wf
proof unfold_locales
  fix m a k v assume "info_wf m" "data_wf v"
  then show "info_wf (Info_Set a k v m)" by (rule info_wf_Set)
next
  fix m k assume "info_wf m"
  then show "info_wf (Info_Erase k m)" by (rule info_wf_Erase)
qed (auto simp: info_defs sm.find_assign sm.find_erase split: if_splits option.splits)

text \<open>The typed reads after a write.\<close>

lemma get_typed_Set [simp]:
  assumes "info_wf m"
  shows "get_int (Info_Set a k (DInt i) m) k' = (if k' = k then Inr i else get_int m k')"
    "get_size (Info_Set a k (DSize n) m) k' = (if k' = k then Inr n else get_size m k')"
    "get_double (Info_Set a k (DDouble x) m) k' = (if k' = k then Inr x else get_double m k')"
    "get_bool (Info_Set a k (DBool b) m) k' = (if k' = k then Inr b else get_bool m k')"
    "get_string (Info_Set a k (DString s) m) k' = (if k' = k then Inr s else get_string m k')"
    "get_info (Info_Set a k (DInfo n') m) k' = (if k' = k then Inr n' else get_info m k')"
  using assms info.get_put_same [of m "DInt i" a k] info.get_put_same [of m "DSize n" a k]
    info.get_put_same [of m "DDouble x" a k] info.get_put_same [of m "DBool b" a k]
    info.get_put_same [of m "DString s" a k] info.get_put_same [of m "DInfo n'" a k]
  by (auto simp: get_int_def get_size_def get_double_def get_bool_def get_string_def get_info_def
      info.get_put_other)

lemma get_typed_Set_other [simp]:
  assumes "info_wf m" "k' \<noteq> k"
  shows "get_int (Info_Set a k v m) k' = get_int m k'"
    "get_size (Info_Set a k v m) k' = get_size m k'"
    "get_double (Info_Set a k v m) k' = get_double m k'"
    "get_bool (Info_Set a k v m) k' = get_bool m k'"
    "get_string (Info_Set a k v m) k' = get_string m k'"
    "get_info (Info_Set a k v m) k' = get_info m k'"
  using assms
  by (auto simp: get_int_def get_size_def get_double_def get_bool_def get_string_def get_info_def
      info.get_put_other)

lemma Info_Has_Set [simp]: "info_wf m \<Longrightarrow> Info_Has (Info_Set a k v m) k' \<longleftrightarrow> k' = k \<or> Info_Has m k'"
  by (rule info.has_put)

text \<open>A typed read never reaches the branch of a wrong cast: the name of the type guards it.\<close>

lemma typed_read_defined:
  "get_int m k \<noteq> Inl (UndefinedBehaviour u)" "get_size m k \<noteq> Inl (UndefinedBehaviour u)"
  "get_double m k \<noteq> Inl (UndefinedBehaviour u)" "get_bool m k \<noteq> Inl (UndefinedBehaviour u)"
  "get_string m k \<noteq> Inl (UndefinedBehaviour u)" "get_info m k \<noteq> Inl (UndefinedBehaviour u)"
  by (auto simp: get_int_def get_size_def get_double_def get_bool_def get_string_def get_info_def
      bindR_def info_defs split: sum.splits option.splits if_splits info_data.splits
      dest!: sym [of "data_type _"])

section \<open>Refinement of a finite map\<close>

text \<open>
  The contract of an \<open>Info\<close>: a finite map from names to typed values. \<open>info_op\<close> is a call of one of
  the operations that change an \<open>Info\<close>; the address is that of the object \<open>Set\<close> allocates.
\<close>

datatype info_op = OpSet addr string info_data | OpErase string | OpClear

fun run_op :: "info_op \<Rightarrow> info \<Rightarrow> info" where
  "run_op (OpSet a k v) m = Info_Set a k v m"
| "run_op (OpErase k) m = Info_Erase k m"
| "run_op OpClear m = Info_Clear m"

fun spec_op :: "info_op \<Rightarrow> (string \<Rightarrow> info_data option) \<Rightarrow> string \<Rightarrow> info_data option" where
  "spec_op (OpSet a k v) f = f(k \<mapsto> v)"
| "spec_op (OpErase k) f = f(k := None)"
| "spec_op OpClear f = Map.empty"

definition spec_get :: "info_type \<Rightarrow> (string \<Rightarrow> info_data option) \<Rightarrow> string \<Rightarrow> error + info_data" where
  "spec_get t f k = (case f k of
       None \<Rightarrow> Inl (CoSimError (''Error: Trying to get '' @ dq k @ '' which does not exist!''))
     | Some v \<Rightarrow> (if data_type v = t then Inr v
         else Inl (CoSimError (''Error: Wrong DataType! Trying to get '' @ dq k @
            '' which is of type '' @ dq (type_name (data_type v)) @ '' with '' @
            dq (type_name t) @ ''!''))))"

definition info_abs :: "info \<Rightarrow> string \<Rightarrow> info_data option" where
  "info_abs m k = map_option snd (smap_find m k)"

fun op_good :: "info_op \<Rightarrow> bool" where
  "op_good (OpSet a k v) = data_wf v"
| "op_good _ = True"

lemma info_abs_op: "info_wf m \<Longrightarrow> info_abs (run_op p m) = spec_op p (info_abs m)"
  by (cases p) (auto simp: info_abs_def fun_eq_iff Info_Set_def Info_Erase_def Info_Clear_def
      sm.find_assign sm.find_erase)

lemma info_wf_op: "info_wf m \<Longrightarrow> op_good p \<Longrightarrow> info_wf (run_op p m)"
  by (cases p) (auto simp: info.wf_put info.wf_erase Info_Clear_def)

lemma info_abs_ops:
  "info_wf m \<Longrightarrow> (\<forall>p \<in> set ops. op_good p) \<Longrightarrow>
     info_wf (fold run_op ops m) \<and> info_abs (fold run_op ops m) = fold spec_op ops (info_abs m)"
  by (induction ops arbitrary: m) (auto simp: info_wf_op info_abs_op)

lemma Info_Get_abs: "Info_Get t m k = spec_get t (info_abs m) k"
  by (auto simp: Info_Get_def Info_Has_def GetExistingKey_def spec_get_def info_abs_def
      GetDataTypeName_def type_name_inj split: option.splits)

lemma Info_Has_abs: "Info_Has m k \<longleftrightarrow> info_abs m k \<noteq> None"
  by (simp add: Info_Has_def info_abs_def)

lemma Info_Size_abs: "info_wf m \<Longrightarrow> Info_Size m = card (dom (info_abs m))"
proof -
  assume "info_wf m"
  then have "distinct (List.map fst m)" by (simp add: smap_wf_distinct)
  then have "card (fst ` set m) = length m"
    by (metis distinct_card length_map set_map)
  moreover have "dom (info_abs m) = fst ` set m"
    by (auto simp: dom_def info_abs_def smap_find_map_of map_of_eq_None_iff image_iff
        simp flip: not_None_eq)
  ultimately show ?thesis by (simp add: Info_Size_def)
qed

section \<open>Properties\<close>

text \<open>
  Property C18. However an \<open>Info\<close> is built, by any sequence of \<open>Set\<close>, \<open>Erase\<close> and \<open>Clear\<close>, it behaves
  like the finite map that the same sequence builds: \<open>Has\<close>, \<open>Size\<close> and \<open>Get\<close> (value, missing key and
  wrong type included) are functions of that map, and the invariant of the tree is kept.
\<close>

theorem info_refines_map:
  assumes "\<forall>p \<in> set ops. op_good p"
  shows "let m = fold run_op ops Info_new; f = fold spec_op ops Map.empty in
     info_wf m \<and> (\<forall>k. Info_Has m k \<longleftrightarrow> f k \<noteq> None) \<and> Info_Size m = card (dom f) \<and>
     (\<forall>t k. Info_Get t m k = spec_get t f k)"
proof -
  have "info_abs Info_new = Map.empty" by (simp add: Info_new_def info_abs_def fun_eq_iff)
  then show ?thesis
    using info_abs_ops [OF info_wf_new(1) assms]
    by (simp add: Let_def Info_Has_abs Info_Get_abs Info_Size_abs)
qed

theorem info_refines_map_witness:
  "Info_Get TInt (fold run_op [OpSet 1 ''a'' (DInt 3), OpSet 2 ''b'' (DBool True),
      OpSet 3 ''a'' (DInt 4), OpErase ''b''] Info_new) ''a'' = Inr (DInt 4) \<and>
   Info_Size (fold run_op [OpSet 1 ''a'' (DInt 3), OpSet 2 ''b'' (DBool True),
      OpSet 3 ''a'' (DInt 4), OpErase ''b''] Info_new) = 1"
  using info_refines_map [of "[OpSet 1 ''a'' (DInt 3), OpSet 2 ''b'' (DBool True),
      OpSet 3 ''a'' (DInt 4), OpErase ''b'']"]
  by (simp add: Let_def spec_get_def dom_if fun_upd_def Collect_conv_if)

text \<open>
  Property C19. \<open>Get\<close> with a default returns the entry when it is there with the asked type, refuses an
  entry of another type, and returns the default otherwise, without inserting it.
\<close>

theorem info_get_default:
  assumes "info_wf m"
  shows "Info_Get_default t (Info_Erase k m) k d = Inr d \<and>
     Info_Get_default (data_type v) (Info_Set a k v m) k d = Inr v \<and>
     (t \<noteq> data_type v \<longrightarrow> (\<exists>e. Info_Get_default t (Info_Set a k v m) k d = Inl (CoSimError e)))"
  using assms
  by (auto simp: Info_Get_default_def Info_Has_def GetExistingKey_def Info_Set_def Info_Erase_def
      sm.find_assign sm.find_erase GetDataTypeName_def type_name_inj)

theorem info_get_default_witness:
  "Info_Get_default TInt (Info_Set 1 ''n'' (DInt 7) Info_new) ''n'' (DInt 0) = Inr (DInt 7) \<and>
   (\<exists>e. Info_Get_default TBool (Info_Set 1 ''n'' (DInt 7) Info_new) ''n'' (DBool True) = Inl (CoSimError e))"
  using info_get_default [OF info_wf_new(1), of TInt "''n''" "DInt 0" "DInt 7" 1]
    info_get_default [OF info_wf_new(1), of TBool "''n''" "DBool True" "DInt 7" 1]
  by simp

end
