(* ===== verification/Serializer.thy ===== *)
theory Serializer
  imports Utilities
begin

text \<open>
  \<open>includes/serializer.hpp\<close>, \<open>sources/serializer.cpp\<close>, \<open>sources/stream_serializer.cpp\<close>: the
  serializer that turns an object into a stream of characters and back. The state is the
  buffer (a FIFO of characters: writes append, reads consume), the trace mode, the line counter
  and the tables of pointers already saved and already loaded.

  Everything that does not depend on the type being serialized is here: scalars in the binary
  and the text form, strings, trace points, vectors, arrays, pairs and maps over the codec of
  their elements, and pointers over the operations of the object they point to. The interface
  is the locale \<open>codec\<close>: what \<open>save\<close> writes, \<open>load\<close> reads back, and reads no more.
\<close>

section \<open>Trace modes\<close>

datatype TraceType = SERIALIZER_NO_TRACE | SERIALIZER_TRACE_ERROR | SERIALIZER_TRACE_ALL
  | SERIALIZER_ASCII

definition TraceTypeToString :: "TraceType \<Rightarrow> string" where
  "TraceTypeToString t = (case t of
       SERIALIZER_NO_TRACE \<Rightarrow> ''no_trace''
     | SERIALIZER_TRACE_ERROR \<Rightarrow> ''trace_error''
     | SERIALIZER_TRACE_ALL \<Rightarrow> ''trace_all''
     | SERIALIZER_ASCII \<Rightarrow> ''ascii'')"

definition StringToTraceType :: "string \<Rightarrow> error + TraceType" where
  "StringToTraceType Trace =
     (if Trace = ''no_trace'' then Inr SERIALIZER_NO_TRACE
      else if Trace = ''trace_error'' then Inr SERIALIZER_TRACE_ERROR
      else if Trace = ''trace_all'' then Inr SERIALIZER_TRACE_ALL
      else if Trace = ''ascii'' then Inr SERIALIZER_ASCII
      else Inl (CoSimError (''Error: Invalid trace_type! Valid options are: '' @
             ''no_trace, trace_error, trace_all, ascii'')))"

section \<open>State\<close>

text \<open>
  What the machine and its C++ library decide: the byte order, and the text form of doubles
  (\<open>operator<<\<close> with 14 digits, \<open>operator>>\<close>), which are not code of the repository.
\<close>

record platform =
  machine_big_endian :: bool
  print_double :: "dbl \<Rightarrow> string"
  parse_double :: "string \<Rightarrow> (dbl \<times> string) option"

text \<open>
  A value of \<open>mLoadedPointers\<close> is the address of the smart pointer that an object was loaded into.
  It is read when the same object comes again: then the smart pointer may hold the object
  (\<open>Slot\<close>), be one whose object is still being loaded (\<open>Loading\<close>), or be a temporary that is
  gone (\<open>Dangling\<close>). The objects are those of the client, hence the type parameter.
\<close>

datatype 'o slot = Loading | Slot addr 'o | Dangling

record 'o ser =
  mBuffer :: string
  mTrace :: TraceType
  mNumberOfLines :: nat
  mSavedPointers :: "addr set"
  mLoadedPointers :: "addr \<Rightarrow> 'o slot option"
  msRegisteredObjects :: "(string, 'o) smap"
  msRegisteredObjectsName :: "(string, string) smap"
  mPlatform :: platform
  mHeap :: addr

text \<open>
  A factory is the object it creates (\<open>new TDataType\<close>, its default constructor); \<open>mHeap\<close> is the
  address that the next \<open>new\<close> returns. \<open>StreamSerializer\<close>: with an empty stream, or with data
  received from the partner (\<open>*pGetBuffer() << rData << std::endl\<close>).
\<close>

definition StreamSerializer :: "platform \<Rightarrow> addr \<Rightarrow> TraceType \<Rightarrow> 'o ser" where
  "StreamSerializer P h rTrace =
     \<lparr>mBuffer = [], mTrace = rTrace, mNumberOfLines = 0, mSavedPointers = {},
      mLoadedPointers = Map.empty, msRegisteredObjects = [], msRegisteredObjectsName = [],
      mPlatform = P, mHeap = h\<rparr>"

definition StreamSerializer_data :: "platform \<Rightarrow> addr \<Rightarrow> string \<Rightarrow> TraceType \<Rightarrow> 'o ser" where
  "StreamSerializer_data P h rData rTrace =
     (StreamSerializer P h rTrace)\<lparr>mBuffer := rData @ [nl]\<rparr>"

definition GetStringRepresentation :: "'o ser \<Rightarrow> string" where
  "GetStringRepresentation s = mBuffer s"

definition put_chars :: "string \<Rightarrow> ('o ser, unit) cpp" where
  "put_chars cs = modE (\<lambda>s. s\<lparr>mBuffer := mBuffer s @ cs\<rparr>)"

text \<open>\<open>mpBuffer->read(p, n)\<close>.\<close>

definition get_chars :: "nat \<Rightarrow> ('o ser, string) cpp" where
  "get_chars n = (\<lambda>s.
     if length (mBuffer s) < n then (Inl (StreamFailure ''read''), s)
     else (Inr (take n (mBuffer s)), s\<lparr>mBuffer := drop n (mBuffer s)\<rparr>))"

definition count_line :: "('o ser, unit) cpp" where
  "count_line = modE (\<lambda>s. s\<lparr>mNumberOfLines := mNumberOfLines s + 1\<rparr>)"

section \<open>Scalars\<close>

text \<open>
  The serialization of a scalar type: its size, its object representation, and its text form
  as \<open>operator<<\<close> prints and \<open>operator>>\<close> reads it (after white space; \<open>None\<close> when \<open>operator>>\<close> sets
  the failure bit).
\<close>

record 'a scalar =
  sc_size :: nat
  sc_bytes :: "platform \<Rightarrow> 'a \<Rightarrow> string"
  sc_value :: "platform \<Rightarrow> string \<Rightarrow> 'a"
  sc_show :: "platform \<Rightarrow> 'a \<Rightarrow> string"
  sc_scan :: "platform \<Rightarrow> string \<Rightarrow> ('a \<times> string) option"

fun scan_sign :: "string \<Rightarrow> bool \<times> string" where
  "scan_sign [] = (False, [])"
| "scan_sign (c # cs) =
     (if c = CHR 0x2D then (True, cs) else if c = CHR 0x2B then (False, cs) else (False, c # cs))"

definition scan_digits :: "nat \<Rightarrow> string \<Rightarrow> (nat \<times> string) option" where
  "scan_digits b cs = (if cs \<noteq> [] \<and> is_digit b (hd cs) then Some (scan_base b 0 cs) else None)"

text \<open>\<open>operator>>\<close> into a signed and into an unsigned integer of the width of the word.\<close>

definition scan_signed :: "string \<Rightarrow> ('a::len word \<times> string) option" where
  "scan_signed cs = (case scan_sign cs of (neg, ds) \<Rightarrow>
     (case scan_digits 10 ds of
        None \<Rightarrow> None
      | Some (n, r) \<Rightarrow>
          (let v = (if neg then - int n else int n) in
           if - (2 ^ (LENGTH('a) - 1)) \<le> v \<and> v < 2 ^ (LENGTH('a) - 1)
           then Some (word_of_int v, r) else None)))"

definition scan_unsigned :: "string \<Rightarrow> ('a::len word \<times> string) option" where
  "scan_unsigned cs = (case scan_sign cs of (neg, ds) \<Rightarrow>
     (case scan_digits 10 ds of
        None \<Rightarrow> None
      | Some (n, r) \<Rightarrow>
          (if int n < 2 ^ LENGTH('a)
           then Some (if neg then - word_of_nat n else word_of_nat n, r) else None)))"

text \<open>Pointers are printed as \<open>0x\<close> and hexadecimal digits, the null pointer as \<open>0\<close>.\<close>

definition show_addr :: "addr \<Rightarrow> string" where
  "show_addr a = (if a = 0 then ''0'' else ''0x'' @ show_base 16 (unat a))"

definition scan_addr :: "string \<Rightarrow> (addr \<times> string) option" where
  "scan_addr cs =
     (let ds = (if starts_with cs ''0x'' then drop 2 cs else cs) in
      case scan_digits 16 ds of
        None \<Rightarrow> None
      | Some (n, r) \<Rightarrow> (if int n < 2 ^ 64 then Some (word_of_nat n, r) else None))"

definition sc_int :: "i32 scalar" where
  "sc_int = \<lparr>sc_size = 4,
     sc_bytes = (\<lambda>P. object_bytes (machine_big_endian P) 4),
     sc_value = (\<lambda>P. object_value (machine_big_endian P)),
     sc_show = (\<lambda>_ v. show_int (sint v)), sc_scan = (\<lambda>_. scan_signed)\<rparr>"

definition sc_id :: "id_type scalar" where
  "sc_id = \<lparr>sc_size = 8,
     sc_bytes = (\<lambda>P. object_bytes (machine_big_endian P) 8),
     sc_value = (\<lambda>P. object_value (machine_big_endian P)),
     sc_show = (\<lambda>_ v. show_int (sint v)), sc_scan = (\<lambda>_. scan_signed)\<rparr>"

definition sc_size_t :: "u64 scalar" where
  "sc_size_t = \<lparr>sc_size = 8,
     sc_bytes = (\<lambda>P. object_bytes (machine_big_endian P) 8),
     sc_value = (\<lambda>P. object_value (machine_big_endian P)),
     sc_show = (\<lambda>_ v. show_nat (unat v)), sc_scan = (\<lambda>_. scan_unsigned)\<rparr>"

definition sc_pointer :: "addr scalar" where
  "sc_pointer = \<lparr>sc_size = 8,
     sc_bytes = (\<lambda>P. object_bytes (machine_big_endian P) 8),
     sc_value = (\<lambda>P. object_value (machine_big_endian P)),
     sc_show = (\<lambda>_. show_addr), sc_scan = (\<lambda>_. scan_addr)\<rparr>"

definition sc_bool :: "bool scalar" where
  "sc_bool = \<lparr>sc_size = 1,
     sc_bytes = (\<lambda>_ v. [char_of (if v then 1 else 0 :: nat)]),
     sc_value = (\<lambda>_ cs. cs \<noteq> [char_of (0::nat)]),
     sc_show = (\<lambda>_ v. if v then ''1'' else ''0''),
     sc_scan = (\<lambda>_ cs. case (scan_signed cs :: (64 word \<times> string) option) of
         None \<Rightarrow> None
       | Some (v, r) \<Rightarrow> (if v = 0 then Some (False, r) else if v = 1 then Some (True, r) else None))\<rparr>"

definition sc_double :: "dbl scalar" where
  "sc_double = \<lparr>sc_size = 8,
     sc_bytes = (\<lambda>P. object_bytes (machine_big_endian P) 8),
     sc_value = (\<lambda>P. object_value (machine_big_endian P)),
     sc_show = print_double, sc_scan = parse_double\<rparr>"

text \<open>\<open>write\<close> and \<open>read\<close> of a scalar.\<close>

definition write_scalar :: "'a scalar \<Rightarrow> 'a \<Rightarrow> ('o ser, unit) cpp" where
  "write_scalar c rData = (\<lambda>s.
     put_chars (if mTrace s = SERIALIZER_NO_TRACE then sc_bytes c (mPlatform s) rData
                else sc_show c (mPlatform s) rData @ [nl]) s)"

definition read_scalar :: "'a scalar \<Rightarrow> ('o ser, 'a) cpp" where
  "read_scalar c = (\<lambda>s.
     if mTrace s = SERIALIZER_NO_TRACE
     then bindE (get_chars (sc_size c)) (\<lambda>cs. retE (sc_value c (mPlatform s) cs)) s
     else (case sc_scan c (mPlatform s) (dropWhile is_space (mBuffer s)) of
             None \<Rightarrow> (Inl (StreamFailure ''operator>>''), s)
           | Some (v, r) \<Rightarrow> thenE count_line (retE v) (s\<lparr>mBuffer := r\<rparr>)))"

section \<open>Strings and trace points\<close>

text \<open>\<open>std::getline\<close> up to a delimiter: the text before it and what follows it.\<close>

fun split_at_char :: "char \<Rightarrow> string \<Rightarrow> (string \<times> string) option" where
  "split_at_char d [] = None"
| "split_at_char d (c # cs) =
     (if c = d then Some ([], cs)
      else map_option (\<lambda>(x, y). (c # x, y)) (split_at_char d cs))"

definition get_line :: "char \<Rightarrow> ('o ser, string) cpp" where
  "get_line d = (\<lambda>s. case split_at_char d (mBuffer s) of
       None \<Rightarrow> (Inl (StreamFailure ''getline''), s)
     | Some (x, r) \<Rightarrow> (Inr x, s\<lparr>mBuffer := r\<rparr>))"

definition write_string :: "string \<Rightarrow> ('o ser, unit) cpp" where
  "write_string rValue = (\<lambda>s.
     if mTrace s = SERIALIZER_NO_TRACE
     then thenE (write_scalar sc_size_t (word_of_nat (length rValue))) (put_chars rValue) s
     else put_chars (quote # rValue @ [quote, nl]) s)"

definition read_string :: "('o ser, string) cpp" where
  "read_string = (\<lambda>s.
     if mTrace s = SERIALIZER_NO_TRACE
     then bindE (read_scalar sc_size_t) (\<lambda>size. get_chars (unat size)) s
     else bindE (get_line quote) (\<lambda>_. bindE (get_line quote) (\<lambda>v.
            thenE count_line (retE v))) s)"

definition traced :: "TraceType \<Rightarrow> bool" where
  "traced t = (t = SERIALIZER_TRACE_ERROR \<or> t = SERIALIZER_TRACE_ALL)"

definition save_trace_point :: "string \<Rightarrow> ('o ser, unit) cpp" where
  "save_trace_point rTag = (\<lambda>s. if traced (mTrace s) then write_string rTag s else (Inr (), s))"

text \<open>The information printed in the mode \<open>SERIALIZER_TRACE_ALL\<close> is left out.\<close>

definition load_trace_point :: "string \<Rightarrow> ('o ser, unit) cpp" where
  "load_trace_point rTag = (\<lambda>s.
     if traced (mTrace s)
     then bindE read_string (\<lambda>read_tag. bindE (getE mNumberOfLines) (\<lambda>n.
            checkE (read_tag \<noteq> rTag) (CoSimError (''Error: In line '' @ show_nat n @
              '' the trace tag is not the expected one:'' @ [nl] @
              ''    Tag found : '' @ read_tag @ [nl] @ ''    Tag given : '' @ rTag @ [nl])))) s
     else (Inr (), s))"

text \<open>The \<open>save\<close> and \<open>load\<close> that \<open>CO_SIM_IO_SERIALIZATION_DIRECT_SAVE\<close> and \<open>_LOAD\<close> generate.\<close>

definition save_direct :: "'a scalar \<Rightarrow> string \<Rightarrow> 'a \<Rightarrow> ('o ser, unit) cpp" where
  "save_direct c rTag rValue = thenE (save_trace_point rTag) (write_scalar c rValue)"

definition load_direct :: "'a scalar \<Rightarrow> string \<Rightarrow> ('o ser, 'a) cpp" where
  "load_direct c rTag = thenE (load_trace_point rTag) (read_scalar c)"

definition save_string :: "string \<Rightarrow> string \<Rightarrow> ('o ser, unit) cpp" where
  "save_string rTag rValue = thenE (save_trace_point rTag) (write_string rValue)"

definition load_string :: "string \<Rightarrow> ('o ser, string) cpp" where
  "load_string rTag = thenE (load_trace_point rTag) read_string"

text \<open>An object with its own \<open>save\<close> and \<open>load\<close>, and the part of its base class.\<close>

definition save_object :: "(('a \<Rightarrow> ('o ser, unit) cpp)) \<Rightarrow> string \<Rightarrow> 'a \<Rightarrow> ('o ser, unit) cpp" where
  "save_object save rTag rObject = thenE (save_trace_point rTag) (save rObject)"

definition load_object :: "('o ser, 'a) cpp \<Rightarrow> string \<Rightarrow> ('o ser, 'a) cpp" where
  "load_object load rTag = thenE (load_trace_point rTag) load"

definition save_base :: "(('a \<Rightarrow> ('o ser, unit) cpp)) \<Rightarrow> string \<Rightarrow> 'a \<Rightarrow> ('o ser, unit) cpp" where
  "save_base save rTag rObject = thenE (save_trace_point rTag) (save rObject)"

definition load_base :: "('o ser, 'a) cpp \<Rightarrow> string \<Rightarrow> ('o ser, 'a) cpp" where
  "load_base load rTag = thenE (load_trace_point rTag) load"

section \<open>Containers\<close>

text \<open>
  The codec of the elements is an argument: \<open>save\<close> and \<open>load\<close> with the tag of the element. \<open>load\<close>
  of an element gets what the slot holds so far.
\<close>

definition save_array :: "(string \<Rightarrow> 'a \<Rightarrow> ('o ser, unit) cpp) \<Rightarrow> string \<Rightarrow> 'a list \<Rightarrow>
    ('o ser, unit) cpp" where
  "save_array save rTag rObject = thenE (save_trace_point rTag) (forE (save ''E'') rObject)"

definition load_array :: "(string \<Rightarrow> 'a \<Rightarrow> ('o ser, 'a) cpp) \<Rightarrow> string \<Rightarrow> 'a list \<Rightarrow>
    ('o ser, 'a list) cpp" where
  "load_array load rTag rObject = thenE (load_trace_point rTag) (mapE (load ''E'') rObject)"

definition save_vector :: "(string \<Rightarrow> 'a \<Rightarrow> ('o ser, unit) cpp) \<Rightarrow> string \<Rightarrow> 'a list \<Rightarrow>
    ('o ser, unit) cpp" where
  "save_vector save rTag rObject =
     thenE (save_trace_point rTag)
       (thenE (save_direct sc_size_t ''size'' (word_of_nat (length rObject)))
         (forE (save ''E'') rObject))"

definition load_vector :: "(string \<Rightarrow> 'a \<Rightarrow> ('o ser, 'a) cpp) \<Rightarrow> 'a \<Rightarrow> string \<Rightarrow> 'a list \<Rightarrow>
    ('o ser, 'a list) cpp" where
  "load_vector load dflt rTag rObject =
     thenE (load_trace_point rTag)
       (bindE (load_direct sc_size_t ''size'') (\<lambda>size.
         mapE (load ''E'') (vec_resize dflt (unat size) rObject)))"

definition save_pair :: "(string \<Rightarrow> 'k \<Rightarrow> ('o ser, unit) cpp) \<Rightarrow>
    (string \<Rightarrow> 'v \<Rightarrow> ('o ser, unit) cpp) \<Rightarrow> string \<Rightarrow> 'k \<times> 'v \<Rightarrow> ('o ser, unit) cpp" where
  "save_pair save1 save2 rTag rObject =
     thenE (save_trace_point rTag)
       (thenE (save1 ''First'' (fst rObject)) (save2 ''Second'' (snd rObject)))"

definition load_pair :: "(string \<Rightarrow> ('o ser, 'k) cpp) \<Rightarrow> (string \<Rightarrow> ('o ser, 'v) cpp) \<Rightarrow>
    string \<Rightarrow> ('o ser, 'k \<times> 'v) cpp" where
  "load_pair load1 load2 rTag =
     thenE (load_trace_point rTag)
       (bindE (load1 ''First'') (\<lambda>k. bindE (load2 ''Second'') (\<lambda>v. retE (k, v))))"

text \<open>\<open>save_map\<close> and \<open>load_map\<close> for a map given by the list of its entries in the order of iteration.\<close>

definition save_map :: "(string \<Rightarrow> 'k \<times> 'v \<Rightarrow> ('o ser, unit) cpp) \<Rightarrow> string \<Rightarrow> ('k \<times> 'v) list \<Rightarrow>
    ('o ser, unit) cpp" where
  "save_map save rTag rObject =
     thenE (save_trace_point rTag)
       (thenE (save_direct sc_size_t ''size'' (word_of_nat (length rObject)))
         (forE (save ''E'') rObject))"

fun load_entries :: "(string \<Rightarrow> ('o ser, 'k \<times> 'v) cpp) \<Rightarrow> nat \<Rightarrow> ('k::linorder, 'v) smap \<Rightarrow>
    ('o ser, ('k, 'v) smap) cpp" where
  "load_entries load 0 rObject = retE rObject"
| "load_entries load (Suc n) rObject =
     bindE (load ''E'') (\<lambda>(k, v). load_entries load n (smap_insert k v rObject))"

definition load_map :: "(string \<Rightarrow> ('o ser, 'k \<times> 'v) cpp) \<Rightarrow> string \<Rightarrow> ('k::linorder, 'v) smap \<Rightarrow>
    ('o ser, ('k, 'v) smap) cpp" where
  "load_map load rTag rObject =
     thenE (load_trace_point rTag)
       (bindE (load_direct sc_size_t ''size'') (\<lambda>size. load_entries load (unat size) rObject))"

section \<open>Pointers\<close>

text \<open>\<open>Register\<close>: a type (its \<open>typeid\<close> name), the name it is stored under and what its factory creates.\<close>

definition Register :: "string \<Rightarrow> string \<Rightarrow> 'o \<Rightarrow> ('o ser, unit) cpp" where
  "Register rName tid proto = modE (\<lambda>s.
     s\<lparr>msRegisteredObjects := smap_insert rName proto (msRegisteredObjects s),
       msRegisteredObjectsName := smap_insert tid rName (msRegisteredObjectsName s)\<rparr>)"

datatype PointerType = SP_INVALID_POINTER | SP_BASE_CLASS_POINTER | SP_DERIVED_CLASS_POINTER

definition pointer_type_int :: "PointerType \<Rightarrow> i32" where
  "pointer_type_int t = (case t of SP_INVALID_POINTER \<Rightarrow> 0 | SP_BASE_CLASS_POINTER \<Rightarrow> 1
     | SP_DERIVED_CLASS_POINTER \<Rightarrow> 2)"

definition write_pointer_type :: "PointerType \<Rightarrow> ('o ser, unit) cpp" where
  "write_pointer_type t = write_scalar sc_int (pointer_type_int t)"

definition read_pointer_type :: "('o ser, PointerType) cpp" where
  "read_pointer_type = bindE (read_scalar sc_int) (\<lambda>temp.
     if temp = 0 then retE SP_INVALID_POINTER
     else if temp = 1 then retE SP_BASE_CLASS_POINTER
     else if temp = 2 then retE SP_DERIVED_CLASS_POINTER
     else throwE (UndefinedBehaviour ''PointerType''))"

text \<open>
  \<open>SavePointer\<close> and the overloads of \<open>save\<close> for smart and raw pointers. \<open>derived\<close> is the \<open>typeid\<close> of
  the object when it is not the static type of the pointer (\<open>IsDerived\<close>); \<open>save\<close> is the virtual
  \<open>save\<close> of the object.
\<close>

definition SavePointer :: "('a \<Rightarrow> ('o ser, unit) cpp) \<Rightarrow> ('a \<Rightarrow> string option) \<Rightarrow> string \<Rightarrow>
    addr \<times> 'a \<Rightarrow> ('o ser, unit) cpp" where
  "SavePointer save derived rTag p =
     thenE (write_scalar sc_pointer (fst p)) (bindE (getE mSavedPointers) (\<lambda>saved.
       if fst p \<in> saved then retE ()
       else
         thenE (modE (\<lambda>s. s\<lparr>mSavedPointers := insert (fst p) saved\<rparr>))
         (thenE (case derived (snd p) of
                   None \<Rightarrow> retE ()
                 | Some tid \<Rightarrow> bindE (getE msRegisteredObjectsName) (\<lambda>names.
                     (case smap_find names tid of
                        None \<Rightarrow> throwE (CoSimError
                          (''Error: There is no object registered in CoSimIO with type id : '' @ tid))
                      | Some name \<Rightarrow> write_string name)))
           (save_object save rTag (snd p)))))"

definition save_pointer :: "('a \<Rightarrow> ('o ser, unit) cpp) \<Rightarrow> ('a \<Rightarrow> string option) \<Rightarrow> string \<Rightarrow>
    (addr \<times> 'a) option \<Rightarrow> ('o ser, unit) cpp" where
  "save_pointer save derived rTag pValue = (case pValue of
       None \<Rightarrow> write_pointer_type SP_INVALID_POINTER
     | Some p \<Rightarrow>
         thenE (write_pointer_type
                  (if derived (snd p) \<noteq> None then SP_DERIVED_CLASS_POINTER
                   else SP_BASE_CLASS_POINTER))
           (SavePointer save derived rTag p))"

definition new_object :: "'a \<Rightarrow> ('o ser, addr \<times> 'a) cpp" where
  "new_object d = (\<lambda>s. (Inr (mHeap s, d), s\<lparr>mHeap := mHeap s + 1\<rparr>))"

text \<open>
  What the four overloads of \<open>load\<close> for pointers share: the object that a pointer not seen before
  is loaded into, which is the one the smart pointer holds already or a new one. \<open>dflt\<close> is the
  default object of the static type, \<open>None\<close> for the base class of the entries of an \<open>Info\<close>: it holds
  no value, so the model stops there (no \<open>save\<close> of the library writes such a pointer).
\<close>

definition pointee :: "('o \<Rightarrow> 'a option) \<Rightarrow> 'a option \<Rightarrow> PointerType \<Rightarrow> (addr \<times> 'a) option \<Rightarrow>
    ('o ser, addr \<times> 'a) cpp" where
  "pointee prj dflt pointer_type pValue =
     (if pointer_type = SP_BASE_CLASS_POINTER then
        (case pValue of
           Some p \<Rightarrow> retE p
         | None \<Rightarrow> (case dflt of
             None \<Rightarrow> throwE (UndefinedBehaviour ''object of the base class'')
           | Some d \<Rightarrow> new_object d))
      else
        bindE read_string (\<lambda>object_name. bindE (getE msRegisteredObjects) (\<lambda>registered.
          (case smap_find registered object_name of
             None \<Rightarrow> throwE (CoSimError
               (''Error: There is no object registered in CoSimIO with name : '' @ object_name))
           | Some prototype \<Rightarrow>
               (case pValue of
                  Some p \<Rightarrow> retE p
                | None \<Rightarrow> (case prj prototype of
                    None \<Rightarrow> throwE (UndefinedBehaviour ''static_cast'')
                  | Some d \<Rightarrow> new_object d))))))"

definition set_slot :: "addr \<Rightarrow> 'o slot \<Rightarrow> ('o ser, unit) cpp" where
  "set_slot p x = modE (\<lambda>s. s\<lparr>mLoadedPointers := (mLoadedPointers s)(p \<mapsto> x)\<rparr>)"

text \<open>
  \<open>load\<close> for \<open>std::shared_ptr\<close>, and with the same body for \<open>intrusive_ptr\<close> and for raw pointers.
  \<open>load\<close> is the virtual \<open>load\<close> of the object, given what it holds; \<open>emb\<close> and \<open>prj\<close> move it into and
  out of the untyped table. \<open>temporary\<close> says that the smart pointer lives in a local variable of
  the caller, whose address is left in the table when the variable is gone. An object that is met
  again while it is being loaded would contain itself, which no class of the library allows.
\<close>

definition load_shared_ptr :: "('a \<Rightarrow> 'o) \<Rightarrow> ('o \<Rightarrow> 'a option) \<Rightarrow> ('a \<Rightarrow> ('o ser, 'a) cpp) \<Rightarrow> 'a option \<Rightarrow>
    bool \<Rightarrow> string \<Rightarrow> (addr \<times> 'a) option \<Rightarrow> ('o ser, (addr \<times> 'a) option) cpp" where
  "load_shared_ptr emb prj load dflt temporary rTag pValue =
     bindE read_pointer_type (\<lambda>pointer_type.
       if pointer_type = SP_INVALID_POINTER then retE pValue
       else
         bindE (read_scalar sc_pointer) (\<lambda>p_pointer.
         bindE (getE mLoadedPointers) (\<lambda>loaded.
           (case loaded p_pointer of
              None \<Rightarrow>
                bindE (pointee prj dflt pointer_type pValue) (\<lambda>(a, x).
                thenE (set_slot p_pointer Loading)
                (bindE (load_object (load x) rTag) (\<lambda>y.
                thenE (set_slot p_pointer (if temporary then Dangling else Slot a (emb y)))
                (retE (Some (a, y))))))
            | Some Loading \<Rightarrow> throwE (UndefinedBehaviour ''object inside itself'')
            | Some Dangling \<Rightarrow> throwE (UndefinedBehaviour ''dangling pointer'')
            | Some (Slot a x) \<Rightarrow>
                (case prj x of
                   None \<Rightarrow> throwE (UndefinedBehaviour ''static_cast'')
                 | Some y \<Rightarrow> retE (Some (a, y)))))))"

definition load_intrusive_ptr :: "('a \<Rightarrow> 'o) \<Rightarrow> ('o \<Rightarrow> 'a option) \<Rightarrow> ('a \<Rightarrow> ('o ser, 'a) cpp) \<Rightarrow> 'a option \<Rightarrow>
    bool \<Rightarrow> string \<Rightarrow> (addr \<times> 'a) option \<Rightarrow> ('o ser, (addr \<times> 'a) option) cpp" where
  "load_intrusive_ptr = load_shared_ptr"

definition load_raw_ptr :: "('a \<Rightarrow> 'o) \<Rightarrow> ('o \<Rightarrow> 'a option) \<Rightarrow> ('a \<Rightarrow> ('o ser, 'a) cpp) \<Rightarrow> 'a option \<Rightarrow>
    bool \<Rightarrow> string \<Rightarrow> (addr \<times> 'a) option \<Rightarrow> ('o ser, (addr \<times> 'a) option) cpp" where
  "load_raw_ptr = load_shared_ptr"

text \<open>
  \<open>load\<close> for \<open>std::unique_ptr\<close> stores the address of the object itself; an object that comes a
  second time gets a second owner and is deleted twice.
\<close>

definition load_unique_ptr :: "('a \<Rightarrow> 'o) \<Rightarrow> ('o \<Rightarrow> 'a option) \<Rightarrow> ('a \<Rightarrow> ('o ser, 'a) cpp) \<Rightarrow> 'a option \<Rightarrow>
    string \<Rightarrow> (addr \<times> 'a) option \<Rightarrow> ('o ser, (addr \<times> 'a) option) cpp" where
  "load_unique_ptr emb prj load dflt rTag pValue =
     bindE read_pointer_type (\<lambda>pointer_type.
       if pointer_type = SP_INVALID_POINTER then retE pValue
       else
         bindE (read_scalar sc_pointer) (\<lambda>p_pointer.
         bindE (getE mLoadedPointers) (\<lambda>loaded.
           (case loaded p_pointer of
              None \<Rightarrow>
                bindE (pointee prj dflt pointer_type pValue) (\<lambda>(a, x).
                thenE (set_slot p_pointer Loading)
                (bindE (load_object (load x) rTag) (\<lambda>y.
                thenE (set_slot p_pointer (Slot a (emb y)))
                (retE (Some (a, y))))))
            | Some _ \<Rightarrow> throwE (UndefinedBehaviour ''two owners'')))))"

end
