(* ===== verification/SerializerLaws.thy ===== *)
theory SerializerLaws
  imports Serializer
begin

text \<open>
  The round trips of the serializer. \<open>writes\<close> says which characters an operation appends,
  \<open>reads\<close> that an operation consumes exactly given characters and returns a value. In the text
  modes \<open>operator>>\<close> stops before the end of the line, which the next read skips: \<open>gap\<close> is that
  pending end of line. The interface \<open>codec\<close> is interpreted on every scalar type and on strings;
  vectors, arrays, pairs and maps are codecs when their elements are.
\<close>

definition gap :: "TraceType \<Rightarrow> string" where
  "gap T = (if T = SERIALIZER_NO_TRACE then [] else [nl])"

definition writes :: "('o ser, unit) cpp \<Rightarrow> platform \<Rightarrow> TraceType \<Rightarrow> string \<Rightarrow> bool" where
  "writes m P T out \<longleftrightarrow> (\<forall>s. mPlatform s = P \<longrightarrow> mTrace s = T \<longrightarrow>
     m s = (Inr (), s\<lparr>mBuffer := mBuffer s @ out\<rparr>))"

lemma writes_stream:
  assumes "writes m P T out"
  shows "m (StreamSerializer P h T) = (Inr (), (StreamSerializer P h T)\<lparr>mBuffer := out\<rparr>)"
  using assms [unfolded writes_def, rule_format, of "StreamSerializer P h T"]
  by (simp add: StreamSerializer_def)

definition reads :: "('o ser, 'a) cpp \<Rightarrow> platform \<Rightarrow> TraceType \<Rightarrow> string \<Rightarrow> 'a \<Rightarrow> bool" where
  "reads m P T out v \<longleftrightarrow> (\<forall>s g rest. mPlatform s = P \<longrightarrow> mTrace s = T \<longrightarrow> g \<in> {[], gap T} \<longrightarrow>
     mBuffer s = g @ out @ rest \<longrightarrow>
     (\<exists>g' n. g' \<in> {[], gap T} \<and> m s = (Inr v, s\<lparr>mBuffer := g' @ rest, mNumberOfLines := n\<rparr>)))"

section \<open>Composition\<close>

lemma writes_ret [intro, simp]: "writes (retE ()) P T []"
  by (simp add: writes_def retE_def)

lemma writes_then [intro]:
  "writes m P T out1 \<Longrightarrow> writes k P T out2 \<Longrightarrow> writes (thenE m k) P T (out1 @ out2)"
  by (simp add: writes_def thenE_def bindE_def)

lemma writes_forE:
  "(\<And>x. x \<in> set xs \<Longrightarrow> writes (f x) P T (out x)) \<Longrightarrow>
     writes (forE f xs) P T (concat (List.map out xs))"
  by (induction xs) (auto intro!: writes_then)

lemma reads_ret [intro, simp]: "reads (retE v) P T [] v"
proof -
  have "s = s\<lparr>mBuffer := mBuffer s, mNumberOfLines := mNumberOfLines s\<rparr>" for s :: "'a ser"
    by simp
  then show ?thesis
    unfolding reads_def retE_def by (metis append_Nil prod.inject)
qed

lemma readsD:
  assumes "reads m P T out v" "mPlatform s = P" "mTrace s = T" "g \<in> {[], gap T}"
    "mBuffer s = g @ out @ rest"
  obtains g' n where "g' \<in> {[], gap T}"
    "m s = (Inr v, s\<lparr>mBuffer := g' @ rest, mNumberOfLines := n\<rparr>)"
  using assms unfolding reads_def by blast

lemma reads_bind [intro]:
  assumes "reads m P T out1 v" "reads (f v) P T out2 w"
  shows "reads (bindE m f) P T (out1 @ out2) w"
  unfolding reads_def
proof (intro allI impI)
  fix s :: "'a ser" and g rest
  assume s: "mPlatform s = P" "mTrace s = T" "g \<in> {[], gap T}"
    "mBuffer s = g @ (out1 @ out2) @ rest"
  have b: "mBuffer s = g @ out1 @ (out2 @ rest)" using s(4) by simp
  obtain g1 n1 where m: "g1 \<in> {[], gap T}"
    "m s = (Inr v, s\<lparr>mBuffer := g1 @ out2 @ rest, mNumberOfLines := n1\<rparr>)"
    using readsD [OF assms(1) s(1-3) b] by metis
  let ?s = "s\<lparr>mBuffer := g1 @ out2 @ rest, mNumberOfLines := n1\<rparr>"
  obtain g2 n2 where f: "g2 \<in> {[], gap T}"
    "f v ?s = (Inr w, ?s\<lparr>mBuffer := g2 @ rest, mNumberOfLines := n2\<rparr>)"
    using readsD [OF assms(2), of ?s g1 rest] s m(1) by auto
  have "bindE m f s = (Inr w, s\<lparr>mBuffer := g2 @ rest, mNumberOfLines := n2\<rparr>)"
    using m f by (simp add: bindE_def)
  then show "\<exists>g' n. g' \<in> {[], gap T} \<and>
      bindE m f s = (Inr w, s\<lparr>mBuffer := g' @ rest, mNumberOfLines := n\<rparr>)"
    using f(1) by metis
qed

lemma reads_then [intro]:
  "reads m P T out1 u \<Longrightarrow> reads k P T out2 w \<Longrightarrow> reads (thenE m k) P T (out1 @ out2) w"
  unfolding thenE_def by (rule reads_bind)

lemma reads_bind_ret: "reads m P T out v \<Longrightarrow> f v = retE w \<Longrightarrow> reads (bindE m f) P T out w"
  using reads_bind [of m P T out v f "[]" w] by simp

lemma reads_mapE:
  assumes "length us = length vs" "\<And>u v. v \<in> set vs \<Longrightarrow> reads (f u) P T (out v) v"
  shows "reads (mapE f us) P T (concat (List.map out vs)) vs"
  using assms
proof (induction us vs rule: list_induct2)
  case (Cons u us v vs)
  have "reads (mapE f us) P T (concat (List.map out vs)) vs"
    using Cons by simp
  then have "reads (bindE (mapE f us) (\<lambda>ys. retE (v # ys))) P T (concat (List.map out vs)) (v # vs)"
    by (rule reads_bind_ret) simp
  then show ?case
    using Cons(3) [of v u] by (auto intro!: reads_bind)
qed simp

section \<open>Scalars\<close>

definition scalar_out :: "'a scalar \<Rightarrow> platform \<Rightarrow> TraceType \<Rightarrow> 'a \<Rightarrow> string" where
  "scalar_out c P T v =
     (if T = SERIALIZER_NO_TRACE then sc_bytes c P v else sc_show c P v @ [nl])"

text \<open>
  What a scalar type promises: its object representation has its size and determines the value,
  and a printed value that is \<open>good\<close> is read back, up to the end of the line.
\<close>

locale scalar_format =
  fixes c :: "'a scalar" and P :: platform and good :: "'a \<Rightarrow> bool"
  assumes size: "length (sc_bytes c P v) = sc_size c"
    and bytes: "sc_value c P (sc_bytes c P v) = v"
    and show_start: "good v \<Longrightarrow> sc_show c P v \<noteq> [] \<and> \<not> is_space (hd (sc_show c P v))"
    and scan: "good v \<Longrightarrow> sc_scan c P (sc_show c P v @ nl # r) = Some (v, nl # r)"
begin

lemma writes_scalar: "writes (write_scalar c v) P T (scalar_out c P T v)"
  by (auto simp: writes_def write_scalar_def scalar_out_def put_chars_def modE_def)

lemma reads_scalar:
  assumes "T = SERIALIZER_NO_TRACE \<or> good v"
  shows "reads (read_scalar c) P T (scalar_out c P T v) v"
  unfolding reads_def
proof (intro allI impI)
  fix s :: "'o ser" and g rest
  assume s: "mPlatform s = P" "mTrace s = T" "g \<in> {[], gap T}"
    "mBuffer s = g @ scalar_out c P T v @ rest"
  show "\<exists>g' n. g' \<in> {[], gap T} \<and>
      read_scalar c s = (Inr v, s\<lparr>mBuffer := g' @ rest, mNumberOfLines := n\<rparr>)"
  proof (cases "T = SERIALIZER_NO_TRACE")
    case True
    then have "mBuffer s = sc_bytes c P v @ rest" using s by (auto simp: gap_def scalar_out_def)
    note this [simp]
    have "read_scalar c s = (Inr v, s\<lparr>mBuffer := rest\<rparr>)"
      using True s(1,2) size [of v] bytes [of v]
      by (simp add: read_scalar_def get_chars_def bindE_def retE_def)
    then have "read_scalar c s = (Inr v, s\<lparr>mBuffer := [] @ rest, mNumberOfLines := mNumberOfLines s\<rparr>)"
      by simp
    then show ?thesis by blast
  next
    case False
    then have v: "good v" using assms by simp
    obtain x xs where x: "sc_show c P v = x # xs" "\<not> is_space x"
      using show_start [OF v] by (cases "sc_show c P v") auto
    have "is_space nl" by (simp add: is_space_def nl_def)
    then have "dropWhile is_space (mBuffer s) = sc_show c P v @ nl # rest"
      using s x False by (auto simp: gap_def scalar_out_def)
    then have "read_scalar c s =
        (Inr v, s\<lparr>mBuffer := [nl] @ rest, mNumberOfLines := mNumberOfLines s + 1\<rparr>)"
      using False s scan [OF v, of rest]
      by (simp add: read_scalar_def thenE_def bindE_def retE_def count_line_def modE_def)
    moreover have "[nl] \<in> {[], gap T}" using False by (simp add: gap_def)
    ultimately show ?thesis by blast
  qed
qed

end

lemma scan_digits_show:
  assumes "2 \<le> b" "b \<le> 16"
  shows "scan_digits b (show_base b n @ nl # r) = Some (n, nl # r)"
proof -
  have "is_digit b (hd (show_base b n @ nl # r))"
    using assms show_base_digits [of b "hd (show_base b n)" n] show_base_nonempty [of b n]
    by (simp add: hd_append)
  then show ?thesis
    using assms show_base_nonempty [of b n]
    by (simp add: scan_digits_def scan_base_show scan_base_stop hd_append)
qed

lemma scan_sign_digits: "is_digit 10 (hd ds) \<Longrightarrow> ds \<noteq> [] \<Longrightarrow> scan_sign ds = (False, ds)"
  by (cases ds) (auto simp: is_digit_def digit_val_def)

lemma hd_show_nat:
  shows "is_digit 10 (hd (show_nat n @ r))" and "is_digit 10 (hd (show_nat n))"
    and "show_nat n \<noteq> []"
  using show_base_digits [of 10 "hd (show_base 10 n)" n] show_base_nonempty [of 10 n]
  by (simp_all add: show_nat_def hd_append)

lemma scan_sign_show_nat: "scan_sign (show_nat n @ r) = (False, show_nat n @ r)"
  by (rule scan_sign_digits) (simp_all add: hd_show_nat)

lemma show_nat_start: "show_nat n \<noteq> [] \<and> \<not> is_space (hd (show_nat n))"
  using hd_show_nat(2,3) [of n] by (auto dest: digit_not_space)

lemma show_int_start: "show_int i \<noteq> [] \<and> \<not> is_space (hd (show_int i))"
  using show_nat_start by (auto simp: show_int_def is_space_def)

lemma scan_signed_show:
  "scan_signed (show_int (sint (v :: 'a::len word)) @ nl # r) = Some (v, nl # r)"
proof (cases "sint v < 0")
  case True
  then show ?thesis
    using sint_ge [of v] sint_lt [of v] scan_digits_show [of 10 "nat (- sint v)" r]
    by (simp add: scan_signed_def show_int_def show_nat_def)
next
  case False
  then show ?thesis
    using sint_ge [of v] sint_lt [of v] scan_digits_show [of 10 "nat (sint v)" r]
    by (simp add: scan_signed_def show_int_def scan_sign_show_nat)
       (simp add: show_nat_def)
qed

lemma scan_unsigned_show:
  "scan_unsigned (show_nat (unat (v :: 'a::len word)) @ nl # r) = Some (v, nl # r)"
  using scan_digits_show [of 10 "unat v" r] unsigned_less [of v]
  by (simp add: scan_unsigned_def scan_sign_show_nat) (simp add: show_nat_def)

lemma show_addr_start: "show_addr a \<noteq> [] \<and> \<not> is_space (hd (show_addr a))"
  by (auto simp: show_addr_def is_space_def)

lemma scan_addr_show: "scan_addr (show_addr a @ nl # r) = Some (a, nl # r)"
proof (cases "a = 0")
  case True
  then show ?thesis
    by (simp add: show_addr_def scan_addr_def nl_def scan_digits_def is_digit_def digit_val_def)
next
  case False
  have "unat a < 18446744073709551616" using unsigned_less [of a] by simp
  with False show ?thesis
    using scan_digits_show [of 16 "unat a" r]
    by (simp add: show_addr_def scan_addr_def)
qed

interpretation int_format: scalar_format sc_int P "\<lambda>_. True" for P
  by unfold_locales
     (simp_all add: sc_int_def object_roundtrip scan_signed_show show_int_start)

interpretation id_format: scalar_format sc_id P "\<lambda>_. True" for P
  by unfold_locales
     (simp_all add: sc_id_def object_roundtrip scan_signed_show show_int_start)

interpretation size_format: scalar_format sc_size_t P "\<lambda>_. True" for P
  by unfold_locales
     (simp_all add: sc_size_t_def object_roundtrip scan_unsigned_show show_nat_start)

interpretation pointer_format: scalar_format sc_pointer P "\<lambda>_. True" for P
  by unfold_locales
     (simp_all add: sc_pointer_def object_roundtrip scan_addr_show show_addr_start)

lemma scan_bool:
  "scan_signed (''1'' @ nl # r) = Some (1 :: 64 word, nl # r)"
  "scan_signed (''0'' @ nl # r) = Some (0 :: 64 word, nl # r)"
  by (simp_all add: scan_signed_def scan_digits_def is_digit_def digit_val_def nl_def)

interpretation bool_format: scalar_format sc_bool P "\<lambda>_. True" for P
  using scan_bool
  by unfold_locales (auto simp: sc_bool_def is_space_def)

text \<open>A double survives the text form when the library prints it with enough digits.\<close>

definition prints_exactly :: "platform \<Rightarrow> dbl \<Rightarrow> bool" where
  "prints_exactly P d \<longleftrightarrow> print_double P d \<noteq> [] \<and> \<not> is_space (hd (print_double P d)) \<and>
     (\<forall>r. parse_double P (print_double P d @ nl # r) = Some (d, nl # r))"

interpretation double_format: scalar_format sc_double P "prints_exactly P" for P
  by unfold_locales (auto simp: sc_double_def object_roundtrip prints_exactly_def)

section \<open>Strings and trace points\<close>

definition string_out :: "platform \<Rightarrow> TraceType \<Rightarrow> string \<Rightarrow> string" where
  "string_out P T v =
     (if T = SERIALIZER_NO_TRACE
      then sc_bytes sc_size_t P (word_of_nat (length v)) @ v
      else quote # v @ [quote, nl])"

definition string_good :: "TraceType \<Rightarrow> string \<Rightarrow> bool" where
  "string_good T v \<longleftrightarrow>
     (if T = SERIALIZER_NO_TRACE then length v < 2 ^ 64 else quote \<notin> set v)"

lemma split_at_char_append:
  "d \<notin> set x \<Longrightarrow> split_at_char d (x @ d # r) = Some (x, r)"
  by (induction x) auto

lemma writes_string: "writes (write_string v) P T (string_out P T v)"
  using size_format.writes_scalar [where v = "word_of_nat (length v)" and P = P and T = SERIALIZER_NO_TRACE]
  by (auto simp: writes_def write_string_def string_out_def put_chars_def modE_def thenE_def
      bindE_def scalar_out_def)

lemma quote_neq_nl [simp]: "quote \<noteq> nl" "nl \<noteq> quote"
  by (simp_all add: quote_def nl_def)

lemma reads_get_chars:
  "T = SERIALIZER_NO_TRACE \<Longrightarrow> n = length v \<Longrightarrow> reads (get_chars n) P T v v"
  unfolding reads_def
proof (intro allI impI)
  fix s :: "'o ser" and g rest
  assume "T = SERIALIZER_NO_TRACE" "n = length v" "mPlatform s = P" "mTrace s = T"
    "g \<in> {[], gap T}" "mBuffer s = g @ v @ rest"
  then have "get_chars n s = (Inr v, s\<lparr>mBuffer := [] @ rest, mNumberOfLines := mNumberOfLines s\<rparr>)"
    by (auto simp: get_chars_def gap_def)
  then show "\<exists>g' n'. g' \<in> {[], gap T} \<and>
      get_chars n s = (Inr v, s\<lparr>mBuffer := g' @ rest, mNumberOfLines := n'\<rparr>)"
    by blast
qed

lemma reads_cong:
  assumes "\<And>s. mTrace s = T \<Longrightarrow> m s = m' s" "reads m' P T out v"
  shows "reads m P T out v"
  using assms unfolding reads_def by metis

lemma reads_string:
  assumes "string_good T v"
  shows "reads read_string P T (string_out P T v) v"
proof (cases "T = SERIALIZER_NO_TRACE")
  case True
  have "reads (read_scalar sc_size_t) P T (sc_bytes sc_size_t P (word_of_nat (length v)))
      (word_of_nat (length v))"
    using size_format.reads_scalar [where v = "word_of_nat (length v)" and P = P and T = T] True
    by (simp add: scalar_out_def)
  moreover have "unat (word_of_nat (length v) :: u64) = length v"
    using assms True by (simp add: string_good_def unat_word_of_nat)
  ultimately have "reads (bindE (read_scalar sc_size_t) (\<lambda>size. get_chars (unat size))) P T
      (sc_bytes sc_size_t P (word_of_nat (length v)) @ v) v"
    using True by (intro reads_bind) (auto intro: reads_get_chars)
  then show ?thesis
    using True by (intro reads_cong [where m = read_string]) (auto simp: read_string_def string_out_def)
next
  case False
  show ?thesis
    unfolding reads_def
  proof (intro allI impI)
    fix s :: "'o ser" and g rest
    assume s: "mPlatform s = P" "mTrace s = T" "g \<in> {[], gap T}"
      "mBuffer s = g @ string_out P T v @ rest"
    have q: "quote \<notin> set v" using assms False by (simp add: string_good_def)
    have "split_at_char quote (mBuffer s) = Some (g, v @ quote # nl # rest)"
      using s False split_at_char_append [of quote g "v @ quote # nl # rest"]
      by (auto simp: string_out_def gap_def)
    moreover have "split_at_char quote (v @ quote # nl # rest) = Some (v, nl # rest)"
      using q by (rule split_at_char_append)
    ultimately have "read_string s =
        (Inr v, s\<lparr>mBuffer := [nl] @ rest, mNumberOfLines := mNumberOfLines s + 1\<rparr>)"
      using False s by (simp add: read_string_def get_line_def thenE_def bindE_def retE_def
          count_line_def modE_def)
    moreover have "[nl] \<in> {[], gap T}" using False by (simp add: gap_def)
    ultimately show "\<exists>g' n. g' \<in> {[], gap T} \<and>
        read_string s = (Inr v, s\<lparr>mBuffer := g' @ rest, mNumberOfLines := n\<rparr>)"
      by blast
  qed
qed

definition tag_out :: "platform \<Rightarrow> TraceType \<Rightarrow> string \<Rightarrow> string" where
  "tag_out P T tag = (if traced T then string_out P T tag else [])"

lemma writes_tag: "writes (save_trace_point tag) P T (tag_out P T tag)"
proof (cases "traced T")
  case True
  then show ?thesis
    using writes_string [of tag P T] by (simp add: writes_def save_trace_point_def tag_out_def)
qed (simp add: writes_def save_trace_point_def tag_out_def)

lemma traced_text: "traced T \<Longrightarrow> T \<noteq> SERIALIZER_NO_TRACE"
  by (auto simp: traced_def)

lemma reads_getE_check:
  "(\<And>n. \<not> bad n) \<Longrightarrow> reads (bindE (getE mNumberOfLines) (\<lambda>n. checkE (bad n) (e n))) P T [] ()"
proof -
  assume b: "\<And>n. \<not> bad n"
  have "bindE (getE mNumberOfLines) (\<lambda>n. checkE (bad n) (e n)) = (retE () :: ('o ser, unit) cpp)"
    using b by (simp add: fun_eq_iff bindE_def getE_def checkE_def)
  then show ?thesis by (metis reads_ret)
qed

lemma reads_tag:
  assumes "quote \<notin> set tag"
  shows "reads (load_trace_point tag) P T (tag_out P T tag) ()"
proof (cases "traced T")
  case True
  have good: "string_good T tag" using assms True traced_text by (auto simp: string_good_def)
  have "reads (bindE read_string (\<lambda>read_tag. bindE (getE mNumberOfLines) (\<lambda>n.
            checkE (read_tag \<noteq> tag) (CoSimError (''Error: In line '' @ show_nat n @
              '' the trace tag is not the expected one:'' @ [nl] @
              ''    Tag found : '' @ read_tag @ [nl] @ ''    Tag given : '' @ tag @ [nl])))))
        P T (string_out P T tag @ []) ()"
    by (rule reads_bind [OF reads_string [OF good]]) (rule reads_getE_check, simp)
  then have "reads (\<lambda>s. bindE read_string (\<lambda>read_tag. bindE (getE mNumberOfLines) (\<lambda>n.
            checkE (read_tag \<noteq> tag) (CoSimError (''Error: In line '' @ show_nat n @
              '' the trace tag is not the expected one:'' @ [nl] @
              ''    Tag found : '' @ read_tag @ [nl] @ ''    Tag given : '' @ tag @ [nl])))) s)
        P T (string_out P T tag) ()"
    by simp
  then show ?thesis
    using True by (intro reads_cong [where m = "load_trace_point tag"])
      (auto simp: load_trace_point_def tag_out_def)
next
  case False
  then show ?thesis
    using reads_ret [of "()" P T]
    by (intro reads_cong [where m = "load_trace_point tag" and m' = "retE ()"])
       (auto simp: load_trace_point_def retE_def tag_out_def)
qed

section \<open>The interface of a serialized type\<close>

text \<open>
  \<open>save\<close> writes an encoding that depends on the tag and the value only, and \<open>load\<close> consumes exactly
  that encoding and returns the value, whatever its target held before and whatever follows.
\<close>

locale codec =
  fixes save :: "string \<Rightarrow> 'a \<Rightarrow> ('o ser, unit) cpp"
    and load :: "string \<Rightarrow> 'a \<Rightarrow> ('o ser, 'a) cpp"
    and P :: platform and T :: TraceType
    and out :: "string \<Rightarrow> 'a \<Rightarrow> string"
    and good :: "'a \<Rightarrow> bool"
  assumes save_out: "good v \<Longrightarrow> writes (save tag v) P T (out tag v)"
    and load_out: "good v \<Longrightarrow> quote \<notin> set tag \<Longrightarrow> reads (load tag u) P T (out tag v) v"
begin

lemma roundtrip:
  assumes "good v" "quote \<notin> set tag" "mPlatform s = P" "mTrace s = T" "mBuffer s = []"
    and "mPlatform s' = P" "mTrace s' = T"
    and "save tag v s = (r, t)" "mBuffer s' = mBuffer t @ rest"
  shows "r = Inr () \<and> (\<exists>g n. g \<in> {[], gap T} \<and>
     load tag u s' = (Inr v, s'\<lparr>mBuffer := g @ rest, mNumberOfLines := n\<rparr>))"
proof -
  have "save tag v s = (Inr (), s\<lparr>mBuffer := out tag v\<rparr>)"
    using save_out [OF assms(1), of tag] assms(3-5) by (simp add: writes_def)
  then have r: "r = Inr ()" and t: "mBuffer t = out tag v" using assms(8) by auto
  have "mBuffer s' = [] @ out tag v @ rest" using assms(9) t by simp
  then have "\<exists>g n. g \<in> {[], gap T} \<and>
      load tag u s' = (Inr v, s'\<lparr>mBuffer := g @ rest, mNumberOfLines := n\<rparr>)"
    using load_out [OF assms(1,2), of u] assms(6,7) unfolding reads_def by blast
  then show ?thesis using r by (rule conjI [rotated])
qed

lemma writes_elems:
  "(\<forall>v \<in> set vs. good v) \<Longrightarrow> writes (forE (save tag) vs) P T (concat (List.map (out tag) vs))"
  by (rule writes_forE) (simp add: save_out)

lemma reads_elems:
  "length us = length vs \<Longrightarrow> (\<forall>v \<in> set vs. good v) \<Longrightarrow> quote \<notin> set tag \<Longrightarrow>
     reads (mapE (load tag) us) P T (concat (List.map (out tag) vs)) vs"
  by (rule reads_mapE) (simp_all add: load_out)

end

lemma tags_ok:
  "quote \<notin> set ''E''" "quote \<notin> set ''size''" "quote \<notin> set ''First''" "quote \<notin> set ''Second''"
  by (simp_all add: quote_def)

text \<open>Every scalar is a codec, and so are strings.\<close>

context scalar_format
begin

lemma writes_direct:
  "writes (save_direct c tag v) P T (tag_out P T tag @ scalar_out c P T v)"
  unfolding save_direct_def by (intro writes_then writes_tag writes_scalar)

lemma direct_codec:
  shows "codec (save_direct c) (\<lambda>tag _. load_direct c tag) P T
     (\<lambda>tag v. tag_out P T tag @ scalar_out c P T v)
     (\<lambda>v. T = SERIALIZER_NO_TRACE \<or> good v)"
  by unfold_locales
    (auto simp: save_direct_def load_direct_def
      intro!: writes_then reads_then writes_tag reads_tag writes_scalar reads_scalar)

end

interpretation int_codec: codec "save_direct sc_int" "\<lambda>tag _. load_direct sc_int tag" P T
  "\<lambda>tag v. tag_out P T tag @ scalar_out sc_int P T v" "\<lambda>_. True" for P T
  using int_format.direct_codec [of P T] by simp

interpretation id_codec: codec "save_direct sc_id" "\<lambda>tag _. load_direct sc_id tag" P T
  "\<lambda>tag v. tag_out P T tag @ scalar_out sc_id P T v" "\<lambda>_. True" for P T
  using id_format.direct_codec [of P T] by simp

interpretation size_codec: codec "save_direct sc_size_t" "\<lambda>tag _. load_direct sc_size_t tag" P T
  "\<lambda>tag v. tag_out P T tag @ scalar_out sc_size_t P T v" "\<lambda>_. True" for P T
  using size_format.direct_codec [of P T] by simp

interpretation bool_codec: codec "save_direct sc_bool" "\<lambda>tag _. load_direct sc_bool tag" P T
  "\<lambda>tag v. tag_out P T tag @ scalar_out sc_bool P T v" "\<lambda>_. True" for P T
  using bool_format.direct_codec [of P T] by simp

interpretation double_codec: codec "save_direct sc_double" "\<lambda>tag _. load_direct sc_double tag" P T
  "\<lambda>tag v. tag_out P T tag @ scalar_out sc_double P T v"
  "\<lambda>v. T = SERIALIZER_NO_TRACE \<or> prints_exactly P v" for P T
  by (rule double_format.direct_codec)

interpretation string_codec: codec save_string "\<lambda>tag _. load_string tag" P T
  "\<lambda>tag v. tag_out P T tag @ string_out P T v" "string_good T" for P T
  by unfold_locales
    (auto simp: save_string_def load_string_def
      intro!: writes_then reads_then writes_tag reads_tag writes_string reads_string)

section \<open>Containers\<close>

definition vector_out :: "platform \<Rightarrow> TraceType \<Rightarrow> (string \<Rightarrow> 'a \<Rightarrow> string) \<Rightarrow> string \<Rightarrow> 'a list \<Rightarrow> string" where
  "vector_out P T out tag vs = tag_out P T tag @
     (tag_out P T ''size'' @ scalar_out sc_size_t P T (word_of_nat (length vs))) @
     concat (List.map (out ''E'') vs)"

definition array_out :: "platform \<Rightarrow> TraceType \<Rightarrow> (string \<Rightarrow> 'a \<Rightarrow> string) \<Rightarrow> string \<Rightarrow> 'a list \<Rightarrow> string" where
  "array_out P T out tag vs = tag_out P T tag @ concat (List.map (out ''E'') vs)"

context codec
begin

lemma vector_codec:
  "codec (save_vector save) (load_vector load dflt) P T (vector_out P T out)
     (\<lambda>vs. length vs < 2 ^ 64 \<and> (\<forall>v \<in> set vs. good v))"
proof (unfold_locales, goal_cases)
  case (1 v tag)
  then show ?case
    unfolding save_vector_def vector_out_def
    by (intro writes_then writes_tag size_codec.save_out writes_elems) auto
next
  case (2 v tag u)
  have "unat (word_of_nat (length v) :: u64) = length v" using 2 by (simp add: unat_word_of_nat)
  then show ?case
    unfolding load_vector_def vector_out_def using 2
    by (intro reads_then reads_bind, auto intro!: reads_tag size_codec.load_out reads_elems)
       (auto simp: quote_def)
qed

lemma writes_array:
  "(\<forall>v \<in> set vs. good v) \<Longrightarrow> writes (save_array save tag vs) P T (array_out P T out tag vs)"
  unfolding save_array_def array_out_def by (intro writes_then writes_tag writes_elems)

lemma reads_array:
  "length us = length vs \<Longrightarrow> (\<forall>v \<in> set vs. good v) \<Longrightarrow> quote \<notin> set tag \<Longrightarrow>
     reads (load_array load tag us) P T (array_out P T out tag vs) vs"
  unfolding load_array_def array_out_def by (intro reads_then, auto intro!: reads_tag reads_elems)
     (auto simp: quote_def)

end

section \<open>A platform\<close>

text \<open>
  A concrete platform for the instances below: its text form of a double is the number of its bits,
  which is printed exactly.
\<close>

definition bits_platform :: platform where
  "bits_platform = \<lparr>machine_big_endian = False, print_double = (\<lambda>d. show_nat (unat d)),
     parse_double = scan_unsigned\<rparr>"

lemma bits_platform_exact: "prints_exactly bits_platform d"
  by (simp add: prints_exactly_def bits_platform_def scan_unsigned_show show_nat_start)

end
