(* ===== verification/InfoSerialization.thy ===== *)
theory InfoSerialization
  imports Info SerializerLaws
begin

text \<open>
  \<open>Info::save\<close>, \<open>Info::load\<close> and \<open>InfoData<T>::save\<close>, \<open>load\<close>: an \<open>Info\<close> is a map from names to
  shared pointers to polymorphic entries, written through the pointer operations of the
  serializer, nested to any depth. The round trip holds when every entry is a shared object of
  its own; when two nested copies share an entry, as copying an \<open>Info\<close> makes them do, loading
  dereferences the address of a temporary that is gone.
\<close>

section \<open>Registration\<close>

text \<open>
  The \<open>typeid\<close> names of \<open>InfoData<T>\<close> are some distinct strings; the name of the type stands for
  them. The flag of \<open>RegisterTypesInSerializer\<close> only avoids a second registration, which changes
  nothing (\<open>RegisterTypes_again\<close>).
\<close>

definition type_id :: "info_data \<Rightarrow> string" where
  "type_id d = ''InfoData<'' @ GetDataTypeName d @ ''>''"

definition info_prototypes :: "(string \<times> info_data) list" where
  "info_prototypes =
    [(''info_data_int'', DInt 0), (''info_data_size_t'', DSize 0), (''info_data_double'', DDouble 0),
     (''info_data_bool'', DBool False), (''info_data_string'', DString []), (''info_data_info'', DInfo [])]"

definition RegisterTypesInSerializer :: "(info_data ser, unit) cpp" where
  "RegisterTypesInSerializer =
     forE (\<lambda>(name, proto). Register name (type_id proto) proto) info_prototypes"

section \<open>Saving\<close>

fun save_data :: "info_data \<Rightarrow> (info_data ser, unit) cpp"
and save_options :: "(string \<times> (addr \<times> info_data)) list \<Rightarrow> (info_data ser, unit) cpp" where
  "save_data (DInt v) = thenE (save_base retE ''BaseClass'' ()) (save_direct sc_int ''mData'' v)"
| "save_data (DSize v) = thenE (save_base retE ''BaseClass'' ()) (save_direct sc_size_t ''mData'' v)"
| "save_data (DDouble v) = thenE (save_base retE ''BaseClass'' ()) (save_direct sc_double ''mData'' v)"
| "save_data (DBool v) = thenE (save_base retE ''BaseClass'' ()) (save_direct sc_bool ''mData'' v)"
| "save_data (DString v) = thenE (save_base retE ''BaseClass'' ()) (save_string ''mData'' v)"
| "save_data (DInfo m) = thenE (save_base retE ''BaseClass'' ())
     (thenE (save_trace_point ''mData'')
     (thenE RegisterTypesInSerializer
     (thenE (save_trace_point ''mOptions'')
     (thenE (save_direct sc_size_t ''size'' (word_of_nat (length m)))
       (save_options m)))))"
| "save_options [] = retE ()"
| "save_options ((k, (a, d)) # m) =
     thenE (save_pair save_string
              (\<lambda>tag _. save_pointer (\<lambda>_. save_data d) (\<lambda>_. Some (type_id d)) tag (Some (a, d)))
              ''E'' (k, ()))
       (save_options m)"

definition Info_save :: "info \<Rightarrow> (info_data ser, unit) cpp" where
  "Info_save m =
     thenE RegisterTypesInSerializer
       (save_map (save_pair save_string (save_pointer save_data (\<lambda>d. Some (type_id d))))
         ''mOptions'' (List.map (\<lambda>(k, p). (k, Some p)) m))"

section \<open>Loading\<close>

text \<open>
  The object that is loaded into has been created by the factory for its registered name, so its
  constructor says which \<open>InfoData<T>::load\<close> runs. The nesting is not known before the stream is
  read: the first argument bounds it. A level of nesting consumes characters, so any bound above
  the length of the stream gives the same result (\<open>load_data_fuel\<close>), and \<open>Info_load\<close> takes that
  one. A null pointer in place of an entry is written by no \<open>save\<close>.
\<close>

definition load_entry :: "(info_data \<Rightarrow> (info_data ser, info_data) cpp) \<Rightarrow> string \<Rightarrow>
    (info_data ser, string \<times> (addr \<times> info_data)) cpp" where
  "load_entry load_data rTag =
     bindE (load_pair load_string
              (\<lambda>tag. load_shared_ptr (\<lambda>x. x) Some load_data None True tag None) rTag)
       (\<lambda>(k, p). case p of None \<Rightarrow> throwE (UndefinedBehaviour ''null entry'') | Some q \<Rightarrow> retE (k, q))"

definition load_options :: "(info_data \<Rightarrow> (info_data ser, info_data) cpp) \<Rightarrow> info \<Rightarrow>
    (info_data ser, info) cpp" where
  "load_options load_data m =
     thenE RegisterTypesInSerializer (load_map (load_entry load_data) ''mOptions'' m)"

primrec load_data :: "nat \<Rightarrow> info_data \<Rightarrow> (info_data ser, info_data) cpp" where
  "load_data 0 d = throwE (StreamFailure ''nesting'')"
| "load_data (Suc n) d =
     thenE (load_base (retE ()) ''BaseClass'')
       (case d of
          DInt _ \<Rightarrow> bindE (load_direct sc_int ''mData'') (\<lambda>v. retE (DInt v))
        | DSize _ \<Rightarrow> bindE (load_direct sc_size_t ''mData'') (\<lambda>v. retE (DSize v))
        | DDouble _ \<Rightarrow> bindE (load_direct sc_double ''mData'') (\<lambda>v. retE (DDouble v))
        | DBool _ \<Rightarrow> bindE (load_direct sc_bool ''mData'') (\<lambda>v. retE (DBool v))
        | DString _ \<Rightarrow> bindE (load_string ''mData'') (\<lambda>v. retE (DString v))
        | DInfo m \<Rightarrow> bindE (load_object (load_options (load_data n) m) ''mData'') (\<lambda>v. retE (DInfo v)))"

definition Info_load :: "info \<Rightarrow> (info_data ser, info) cpp" where
  "Info_load m = (\<lambda>s. load_options (load_data (length (mBuffer s) + 1)) m s)"

section \<open>Values\<close>

text \<open>What an \<open>Info\<close> says, without the identity of its entries; and the identities.\<close>

fun data_value :: "info_data \<Rightarrow> info_data"
and entries_value :: "(string \<times> (addr \<times> info_data)) list \<Rightarrow> (string \<times> (addr \<times> info_data)) list" where
  "data_value (DInfo m) = DInfo (entries_value m)"
| "data_value (DInt v) = DInt v"
| "data_value (DSize v) = DSize v"
| "data_value (DDouble v) = DDouble v"
| "data_value (DBool v) = DBool v"
| "data_value (DString v) = DString v"
| "entries_value [] = []"
| "entries_value ((k, (a, d)) # m) = (k, (0, data_value d)) # entries_value m"

fun data_addrs :: "info_data \<Rightarrow> addr list"
and entries_addrs :: "(string \<times> (addr \<times> info_data)) list \<Rightarrow> addr list" where
  "data_addrs (DInfo m) = entries_addrs m"
| "data_addrs (DInt _) = []"
| "data_addrs (DSize _) = []"
| "data_addrs (DDouble _) = []"
| "data_addrs (DBool _) = []"
| "data_addrs (DString _) = []"
| "entries_addrs [] = []"
| "entries_addrs ((k, (a, d)) # m) = a # data_addrs d @ entries_addrs m"

text \<open>What the mode of the serializer can carry: no quotation mark in a string in the text modes,
  no double that the text form changes.\<close>

fun data_good :: "platform \<Rightarrow> TraceType \<Rightarrow> info_data \<Rightarrow> bool"
and entries_good :: "platform \<Rightarrow> TraceType \<Rightarrow> (string \<times> (addr \<times> info_data)) list \<Rightarrow> bool" where
  "data_good P T (DInfo m) = (length m < 2 ^ 64 \<and> entries_good P T m)"
| "data_good P T (DInt _) = True"
| "data_good P T (DSize _) = True"
| "data_good P T (DDouble x) = (T = SERIALIZER_NO_TRACE \<or> prints_exactly P x)"
| "data_good P T (DBool _) = True"
| "data_good P T (DString v) = string_good T v"
| "entries_good P T [] = True"
| "entries_good P T ((k, (a, d)) # m) = (string_good T k \<and> data_good P T d \<and> entries_good P T m)"

section \<open>The registry\<close>

definition info_objects :: "(string, info_data) smap" where
  "info_objects = fold (\<lambda>(k, v). smap_insert k v) info_prototypes []"

definition info_names :: "(string, string) smap" where
  "info_names = fold (\<lambda>(k, v). smap_insert k v)
     (List.map (\<lambda>(name, proto). (type_id proto, name)) info_prototypes) []"

definition prototype :: "info_data \<Rightarrow> info_data" where
  "prototype d = (case d of DInt _ \<Rightarrow> DInt 0 | DSize _ \<Rightarrow> DSize 0 | DDouble _ \<Rightarrow> DDouble 0
     | DBool _ \<Rightarrow> DBool False | DString _ \<Rightarrow> DString [] | DInfo _ \<Rightarrow> DInfo [])"

definition registered_name :: "info_data \<Rightarrow> string" where
  "registered_name d = ''info_data_'' @ GetDataTypeName d"

lemma registry_lookups:
  "smap_find info_names (type_id d) = Some (registered_name d)"
  "smap_find info_objects (registered_name d) = Some (prototype d)"
  unfolding info_names_def info_objects_def sm.find_inserts [OF smap_wf_Nil]
  by (cases d; simp add: info_prototypes_def type_id_def GetDataTypeName_def registered_name_def
      prototype_def)+

lemma forE_Register:
  "forE (\<lambda>(name, proto). Register name (type_id proto) proto) ps s =
     (Inr (), s\<lparr>msRegisteredObjects := fold (\<lambda>(k, v). smap_insert k v) ps (msRegisteredObjects s),
        msRegisteredObjectsName := fold (\<lambda>(k, v). smap_insert k v)
          (List.map (\<lambda>(name, proto). (type_id proto, name)) ps) (msRegisteredObjectsName s)\<rparr>)"
  by (induction ps arbitrary: s) (auto simp: cpp_defs Register_def)

definition reg_ok :: "info_data ser \<Rightarrow> bool" where
  "reg_ok s \<longleftrightarrow> msRegisteredObjects s = info_objects \<and> msRegisteredObjectsName s = info_names"

text \<open>A program in which nothing is registered yet, or in which \<open>Info\<close> has registered its types.\<close>

definition reg_start :: "info_data ser \<Rightarrow> bool" where
  "reg_start s \<longleftrightarrow> reg_ok s \<or> (msRegisteredObjects s = [] \<and> msRegisteredObjectsName s = [])"

lemma RegisterTypes_again: "reg_ok s \<Longrightarrow> RegisterTypesInSerializer s = (Inr (), s)"
  using sm.inserts_idem [of "[]" info_prototypes]
    sm.inserts_idem [of "[]" "List.map (\<lambda>(name, proto). (type_id proto, name)) info_prototypes"]
  by (simp add: RegisterTypesInSerializer_def forE_Register reg_ok_def info_objects_def info_names_def)

lemma RegisterTypes_start:
  assumes "reg_start s"
  shows "RegisterTypesInSerializer s =
      (Inr (), s\<lparr>msRegisteredObjects := info_objects, msRegisteredObjectsName := info_names\<rparr>)"
proof (cases "reg_ok s")
  case True
  then show ?thesis using RegisterTypes_again [OF True] by (simp add: reg_ok_def)
next
  case False
  then show ?thesis
    using assms by (simp add: reg_start_def RegisterTypesInSerializer_def forE_Register
        info_objects_def info_names_def)
qed

end
