(* ===== verification/InfoRoundTrip.thy ===== *)
theory InfoRoundTrip
  imports InfoSerialization
begin

text \<open>
  The round trip of \<open>Info\<close> through the serializer, in every trace mode: what \<open>save\<close> writes
  (\<open>data_out\<close>), that \<open>load\<close> reads it back to an \<open>Info\<close> with the same values at every level, that the
  bound on the nesting never matters, and the case where it fails.
\<close>

section \<open>What save writes\<close>

fun data_out :: "platform \<Rightarrow> TraceType \<Rightarrow> info_data \<Rightarrow> string"
and options_out :: "platform \<Rightarrow> TraceType \<Rightarrow> (string \<times> (addr \<times> info_data)) list \<Rightarrow> string" where
  "data_out P T (DInt v) = tag_out P T ''BaseClass'' @ tag_out P T ''mData'' @ scalar_out sc_int P T v"
| "data_out P T (DSize v) = tag_out P T ''BaseClass'' @ tag_out P T ''mData'' @ scalar_out sc_size_t P T v"
| "data_out P T (DDouble v) = tag_out P T ''BaseClass'' @ tag_out P T ''mData'' @ scalar_out sc_double P T v"
| "data_out P T (DBool v) = tag_out P T ''BaseClass'' @ tag_out P T ''mData'' @ scalar_out sc_bool P T v"
| "data_out P T (DString v) = tag_out P T ''BaseClass'' @ tag_out P T ''mData'' @ string_out P T v"
| "data_out P T (DInfo m) = tag_out P T ''BaseClass'' @ tag_out P T ''mData'' @
     tag_out P T ''mOptions'' @
     (tag_out P T ''size'' @ scalar_out sc_size_t P T (word_of_nat (length m))) @ options_out P T m"
| "options_out P T [] = []"
| "options_out P T ((k, (a, d)) # m) =
     (tag_out P T ''E'' @ (tag_out P T ''First'' @ string_out P T k) @
        scalar_out sc_int P T 2 @ scalar_out sc_pointer P T a @
        string_out P T (registered_name d) @ tag_out P T ''Second'' @ data_out P T d) @
     options_out P T m"

definition saves :: "(info_data ser, unit) cpp \<Rightarrow> platform \<Rightarrow> TraceType \<Rightarrow> addr set \<Rightarrow> string \<Rightarrow>
    addr set \<Rightarrow> bool" where
  "saves m P T A out A' \<longleftrightarrow> (\<forall>s. mPlatform s = P \<longrightarrow> mTrace s = T \<longrightarrow> reg_ok s \<longrightarrow>
     mSavedPointers s = A \<longrightarrow>
     m s = (Inr (), s\<lparr>mBuffer := mBuffer s @ out, mSavedPointers := A'\<rparr>))"

lemma saves_writes: "writes m P T out \<Longrightarrow> saves m P T A out A"
  by (auto simp: saves_def writes_def)

lemma saves_ret: "saves (retE ()) P T A [] A"
  by (simp add: saves_writes)

lemma saves_then:
  "saves m P T A out A' \<Longrightarrow> saves k P T A' out' A'' \<Longrightarrow> saves (thenE m k) P T A (out @ out') A''"
  by (simp add: saves_def thenE_def bindE_def reg_ok_def)

lemma saves_then_none:
  "saves m P T A [] A \<Longrightarrow> saves k P T A out' A'' \<Longrightarrow> saves (thenE m k) P T A out' A''"
  using saves_then [of m P T A "[]" A k out' A''] by simp

lemma saves_register: "saves RegisterTypesInSerializer P T A [] A"
  by (simp add: saves_def RegisterTypes_again)

lemma saves_base:
  "saves (save_base retE ''BaseClass'' ()) P T A (tag_out P T ''BaseClass'') A"
  using saves_then [OF saves_writes [OF writes_tag] saves_ret, of "''BaseClass''" P T A]
  by (simp add: save_base_def)

lemma saves_string: "saves (save_string tag v) P T A (tag_out P T tag @ string_out P T v) A"
  unfolding save_string_def by (rule saves_writes) (intro writes_then writes_tag writes_string)

lemma saves_pointer:
  assumes "a \<notin> A" "saves (save_data d) P T (insert a A) (out) A'"
  shows "saves (save_pointer (\<lambda>_. save_data d) (\<lambda>_. Some (type_id d)) tag (Some (a, d))) P T A
     (scalar_out sc_int P T 2 @ scalar_out sc_pointer P T a @
        string_out P T (registered_name d) @ tag_out P T tag @ out) A'"
proof -
  have "saves (thenE (save_trace_point tag) (save_data d)) P T (insert a A)
      (tag_out P T tag @ out) A'"
    by (rule saves_then [OF saves_writes [OF writes_tag] assms(2)])
  then have obj: "saves (thenE (write_string (registered_name d))
        (save_object (\<lambda>_. save_data d) tag d)) P T (insert a A)
      (string_out P T (registered_name d) @ tag_out P T tag @ out) A'"
    unfolding save_object_def by (rule saves_then [OF saves_writes [OF writes_string]])
  have "saves (SavePointer (\<lambda>_. save_data d) (\<lambda>_. Some (type_id d)) tag (a, d)) P T A
      (scalar_out sc_pointer P T a @
        string_out P T (registered_name d) @ tag_out P T tag @ out) A'"
    unfolding SavePointer_def fst_conv snd_conv
  proof (rule saves_then [OF saves_writes [OF pointer_format.writes_scalar]])
    show "saves (bindE (getE mSavedPointers) (\<lambda>saved. if a \<in> saved then retE () else
          thenE (modE (\<lambda>s. s\<lparr>mSavedPointers := insert a saved\<rparr>))
          (thenE (case Some (type_id d) of
                   None \<Rightarrow> retE ()
                 | Some tid \<Rightarrow> bindE (getE msRegisteredObjectsName) (\<lambda>names.
                     (case smap_find names tid of
                        None \<Rightarrow> throwE (CoSimError
                          (''Error: There is no object registered in CoSimIO with type id : '' @ tid))
                      | Some name \<Rightarrow> write_string name)))
           (save_object (\<lambda>_. save_data d) tag d)))) P T A
        (string_out P T (registered_name d) @ tag_out P T tag @ out) A'"
      using obj assms(1)
      by (simp add: saves_def reg_ok_def cpp_defs registry_lookups)
  qed
  from saves_then [OF saves_writes [OF int_format.writes_scalar [where v = 2]] this]
  show ?thesis
    by (simp add: save_pointer_def write_pointer_type_def pointer_type_int_def)
qed

lemma saves_data_options:
  "distinct (data_addrs d) \<Longrightarrow> set (data_addrs d) \<inter> A = {} \<Longrightarrow>
     saves (save_data d) P T A (data_out P T d) (A \<union> set (data_addrs d))"
  "distinct (entries_addrs m) \<Longrightarrow> set (entries_addrs m) \<inter> A = {} \<Longrightarrow>
     saves (save_options m) P T A (options_out P T m) (A \<union> set (entries_addrs m))"
proof (induction d and m arbitrary: A and A rule: save_data_save_options.induct)
  case (6 m)
  then have "saves (save_options m) P T A (options_out P T m) (A \<union> set (entries_addrs m))" by simp
  then have "saves (thenE (save_direct sc_size_t ''size'' (word_of_nat (length m))) (save_options m))
      P T A ((tag_out P T ''size'' @ scalar_out sc_size_t P T (word_of_nat (length m))) @
        options_out P T m) (A \<union> set (entries_addrs m))"
    by (rule saves_then [OF saves_writes [OF size_format.writes_direct]])
  note this = saves_then [OF saves_writes [OF writes_tag] this, of "''mOptions''"]
  note this = saves_then_none [OF saves_register this]
  note this = saves_then [OF saves_writes [OF writes_tag] this, of "''mData''"]
  note this = saves_then [OF saves_base this]
  then show ?case by simp
next
  case (8 k a d m)
  let ?p = "\<lambda>tag _. save_pointer (\<lambda>_. save_data d) (\<lambda>_. Some (type_id d)) tag (Some (a, d))"
  have p: "saves (?p ''Second'' ()) P T A (scalar_out sc_int P T 2 @ scalar_out sc_pointer P T a @
      string_out P T (registered_name d) @ tag_out P T ''Second'' @ data_out P T d)
      (insert a A \<union> set (data_addrs d))"
  proof (rule saves_pointer)
    show "a \<notin> A" using 8(4) by simp
    have "distinct (data_addrs d)" "set (data_addrs d) \<inter> insert a A = {}" using 8(3,4) by auto
    then show "saves (save_data d) P T (insert a A) (data_out P T d)
        (insert a A \<union> set (data_addrs d))" by (rule 8(1))
  qed
  have "saves (save_pair save_string ?p ''E'' (k, ())) P T A
      (tag_out P T ''E'' @ (tag_out P T ''First'' @ string_out P T k) @
        scalar_out sc_int P T 2 @ scalar_out sc_pointer P T a @
        string_out P T (registered_name d) @ tag_out P T ''Second'' @ data_out P T d)
      (insert a A \<union> set (data_addrs d))"
    unfolding save_pair_def fst_conv snd_conv save_string_def
    by (rule saves_then p saves_writes [OF writes_tag] saves_writes [OF writes_string])+
  moreover have "saves (save_options m) P T (insert a A \<union> set (data_addrs d)) (options_out P T m)
      (insert a A \<union> set (data_addrs d) \<union> set (entries_addrs m))"
    using 8(3,4) by (intro 8(2)) auto
  ultimately have "saves (save_options ((k, (a, d)) # m)) P T A (options_out P T ((k, (a, d)) # m))
      (insert a A \<union> set (data_addrs d) \<union> set (entries_addrs m))"
    unfolding save_options.simps options_out.simps by (rule saves_then)
  moreover have "insert a A \<union> set (data_addrs d) \<union> set (entries_addrs m) =
      A \<union> set (entries_addrs ((k, (a, d)) # m))" by auto
  ultimately show ?case by simp
qed (auto intro!: saves_then saves_base saves_ret saves_writes [OF int_format.writes_direct]
      saves_writes [OF size_format.writes_direct] saves_writes [OF double_format.writes_direct]
      saves_writes [OF bool_format.writes_direct] saves_string)

section \<open>What load reads\<close>

text \<open>The entries are loaded into temporaries, so all that is left of them in the table is the
  address of a variable that is gone.\<close>

definition dangle :: "addr set \<Rightarrow> (addr \<Rightarrow> 'o slot option) \<Rightarrow> addr \<Rightarrow> 'o slot option" where
  "dangle A L = (\<lambda>a. if a \<in> A then Some Dangling else L a)"

lemma dangle_empty [simp]: "dangle {} L = L"
  by (simp add: dangle_def)

lemma dangle_dangle: "dangle B (dangle A L) = dangle (A \<union> B) L"
  by (auto simp: dangle_def)

lemma dom_dangle [simp]: "dom (dangle A L) = dom L \<union> A"
  by (auto simp: dangle_def dom_def split: if_splits)

definition loads :: "(info_data ser, 'a) cpp \<Rightarrow> platform \<Rightarrow> TraceType \<Rightarrow> string \<Rightarrow> addr set \<Rightarrow>
    ('a \<Rightarrow> bool) \<Rightarrow> bool" where
  "loads m P T out A R \<longleftrightarrow> (\<forall>s g rest. mPlatform s = P \<longrightarrow> mTrace s = T \<longrightarrow> reg_ok s \<longrightarrow>
     dom (mLoadedPointers s) \<inter> A = {} \<longrightarrow> g \<in> {[], gap T} \<longrightarrow> mBuffer s = g @ out @ rest \<longrightarrow>
     (\<exists>g' n L h v. g' \<in> {[], gap T} \<and> L = dangle A (mLoadedPointers s) \<and> R v \<and>
        m s = (Inr v, s\<lparr>mBuffer := g' @ rest, mNumberOfLines := n, mLoadedPointers := L, mHeap := h\<rparr>)))"

lemma loadsD:
  assumes "loads m P T out A R" "mPlatform s = P" "mTrace s = T" "reg_ok s"
    "dom (mLoadedPointers s) \<inter> A = {}" "g \<in> {[], gap T}" "mBuffer s = g @ out @ rest"
  obtains g' n L h v where "g' \<in> {[], gap T}" "L = dangle A (mLoadedPointers s)" "R v"
    "m s = (Inr v, s\<lparr>mBuffer := g' @ rest, mNumberOfLines := n, mLoadedPointers := L, mHeap := h\<rparr>)"
  using assms(1) [unfolded loads_def, rule_format, OF assms(2-7)] by blast

lemma loads_exI:
  "g' \<in> G \<Longrightarrow> D L \<Longrightarrow> R v \<Longrightarrow> E g' n L h v \<Longrightarrow> \<exists>g' n L h v. g' \<in> G \<and> D L \<and> R v \<and> E g' n L h v"
  by blast

lemma loads_weaken:
  assumes l: "loads m P T out A R" and R: "\<And>v. R v \<Longrightarrow> R' v"
  shows "loads m P T out A R'"
  unfolding loads_def
proof (intro allI impI)
  fix s :: "info_data ser" and g rest
  assume s: "mPlatform s = P" "mTrace s = T" "reg_ok s" "dom (mLoadedPointers s) \<inter> A = {}"
    "g \<in> {[], gap T}" "mBuffer s = g @ out @ rest"
  show "\<exists>g' n L h v. g' \<in> {[], gap T} \<and> L = dangle A (mLoadedPointers s) \<and> R' v \<and>
      m s = (Inr v, s\<lparr>mBuffer := g' @ rest, mNumberOfLines := n, mLoadedPointers := L, mHeap := h\<rparr>)"
    using loadsD [OF l s] R by metis
qed

lemma loads_reads:
  assumes "reads m P T out v" "R v"
  shows "loads m P T out {} R"
  unfolding loads_def
proof (intro allI impI)
  fix s :: "info_data ser" and g rest
  assume s: "mPlatform s = P" "mTrace s = T" "g \<in> {[], gap T}" "mBuffer s = g @ out @ rest"
  obtain g' n where g': "g' \<in> {[], gap T}"
    and m: "m s = (Inr v, s\<lparr>mBuffer := g' @ rest, mNumberOfLines := n\<rparr>)"
    using readsD [OF assms(1) s] by metis
  have "m s = (Inr v, s\<lparr>mBuffer := g' @ rest, mNumberOfLines := n,
      mLoadedPointers := mLoadedPointers s, mHeap := mHeap s\<rparr>)" using m by simp
  then show "\<exists>g' n L h v. g' \<in> {[], gap T} \<and> L = dangle {} (mLoadedPointers s) \<and> R v \<and>
      m s = (Inr v, s\<lparr>mBuffer := g' @ rest, mNumberOfLines := n, mLoadedPointers := L, mHeap := h\<rparr>)"
    using g' assms(2)
    by (intro exI [of _ g'] exI [of _ n] exI [of _ "mLoadedPointers s"] exI [of _ "mHeap s"]
        exI [of _ v]) simp
qed

lemma loads_bind:
  assumes "loads m P T out1 A R" "\<And>v. R v \<Longrightarrow> loads (f v) P T out2 B R'" "A \<inter> B = {}"
  shows "loads (bindE m f) P T (out1 @ out2) (A \<union> B) R'"
  unfolding loads_def
proof (intro allI impI)
  fix s :: "info_data ser" and g rest
  assume s: "mPlatform s = P" "mTrace s = T" "reg_ok s" "dom (mLoadedPointers s) \<inter> (A \<union> B) = {}"
    "g \<in> {[], gap T}" "mBuffer s = g @ (out1 @ out2) @ rest"
  have b: "mBuffer s = g @ out1 @ (out2 @ rest)" "dom (mLoadedPointers s) \<inter> A = {}"
    using s(4,6) by auto
  obtain g1 n1 L1 h1 v1 where m: "g1 \<in> {[], gap T}" "L1 = dangle A (mLoadedPointers s)" "R v1"
    "m s = (Inr v1, s\<lparr>mBuffer := g1 @ out2 @ rest, mNumberOfLines := n1, mLoadedPointers := L1,
        mHeap := h1\<rparr>)"
    using loadsD [OF assms(1) s(1-3) b(2) s(5) b(1)] by metis
  let ?s = "s\<lparr>mBuffer := g1 @ out2 @ rest, mNumberOfLines := n1, mLoadedPointers := L1, mHeap := h1\<rparr>"
  have d: "dom (mLoadedPointers ?s) \<inter> B = {}" using m(2) s(4) assms(3) by auto
  have s1: "mPlatform ?s = P" "mTrace ?s = T" "reg_ok ?s" "mBuffer ?s = g1 @ out2 @ rest"
    using s(1-3) by (simp_all add: reg_ok_def)
  obtain g2 n2 L2 h2 v2 where f: "g2 \<in> {[], gap T}"
    "L2 = dangle B (mLoadedPointers ?s)" "R' v2"
    "f v1 ?s = (Inr v2, ?s\<lparr>mBuffer := g2 @ rest, mNumberOfLines := n2, mLoadedPointers := L2,
        mHeap := h2\<rparr>)"
    using loadsD [OF assms(2) [OF m(3)] s1(1-3) d m(1) s1(4)] by metis
  have "bindE m f s = (Inr v2, s\<lparr>mBuffer := g2 @ rest, mNumberOfLines := n2, mLoadedPointers := L2,
        mHeap := h2\<rparr>)"
    using m(4) f(4) by (simp add: bindE_def)
  moreover have "L2 = dangle (A \<union> B) (mLoadedPointers s)" using f(2) m(2) by (simp add: dangle_dangle)
  ultimately show "\<exists>g' n L h v. g' \<in> {[], gap T} \<and> L = dangle (A \<union> B) (mLoadedPointers s) \<and>
      R' v \<and> bindE m f s = (Inr v, s\<lparr>mBuffer := g' @ rest, mNumberOfLines := n,
        mLoadedPointers := L, mHeap := h\<rparr>)"
    using f(1,3) by blast
qed

lemma loads_bind_reads:
  assumes "reads m P T out1 v" "loads (f v) P T out2 B R'"
  shows "loads (bindE m f) P T (out1 @ out2) B R'"
  using loads_bind [OF loads_reads [OF assms(1), of "\<lambda>w. w = v"], of f out2 B R'] assms(2) by simp

lemma loads_then_reads:
  "reads m P T out1 v \<Longrightarrow> loads k P T out2 B R' \<Longrightarrow> loads (thenE m k) P T (out1 @ out2) B R'"
  unfolding thenE_def by (rule loads_bind_reads)

lemma loads_ret: "R v \<Longrightarrow> loads (retE v) P T [] {} R"
  by (rule loads_reads [OF reads_ret])

lemma loads_bind_ret:
  assumes "loads m P T out A R" "\<And>v. R v \<Longrightarrow> f v = retE (h v) \<and> R' (h v)"
  shows "loads (bindE m f) P T out A R'"
  using loads_bind [OF assms(1), of f "[]" "{}" R'] assms(2) loads_ret [of R' _ P T] by simp

lemma loads_register:
  assumes "loads k P T out A R"
  shows "loads (thenE RegisterTypesInSerializer k) P T out A R"
  using assms unfolding loads_def thenE_def bindE_def by (auto simp: RegisterTypes_again)

lemma loads_slot:
  assumes "loads m P T out A R" "a \<notin> A"
  shows "loads (thenE (set_slot a Loading) (bindE m (\<lambda>y. thenE (set_slot a Dangling) (retE (f y)))))
     P T out (insert a A) (\<lambda>z. \<exists>y. R y \<and> z = f y)"
  unfolding loads_def
proof (intro allI impI)
  fix s :: "info_data ser" and g rest
  assume s: "mPlatform s = P" "mTrace s = T" "reg_ok s"
    "dom (mLoadedPointers s) \<inter> insert a A = {}" "g \<in> {[], gap T}" "mBuffer s = g @ out @ rest"
  let ?s = "s\<lparr>mLoadedPointers := (mLoadedPointers s)(a \<mapsto> Loading)\<rparr>"
  have s1: "mPlatform ?s = P" "mTrace ?s = T" "reg_ok ?s" "mBuffer ?s = g @ out @ rest"
    using s by (simp_all add: reg_ok_def)
  have d: "dom (mLoadedPointers ?s) \<inter> A = {}" using s(4) assms(2) by auto
  obtain g' n L h v where m: "g' \<in> {[], gap T}" "L = dangle A (mLoadedPointers ?s)" "R v"
    "m ?s = (Inr v, ?s\<lparr>mBuffer := g' @ rest, mNumberOfLines := n, mLoadedPointers := L, mHeap := h\<rparr>)"
    using loadsD [OF assms(1) s1(1-3) d s(5) s1(4)] by metis
  let ?L = "L(a \<mapsto> Dangling)"
  have e: "thenE (set_slot a Loading) (bindE m (\<lambda>y. thenE (set_slot a Dangling) (retE (f y)))) s =
      (Inr (f v), s\<lparr>mBuffer := g' @ rest, mNumberOfLines := n, mLoadedPointers := ?L, mHeap := h\<rparr>)"
    using m(4) by (simp add: cpp_defs set_slot_def)
  have d': "?L = dangle (insert a A) (mLoadedPointers s)"
    using m(2) by (auto simp: dangle_def fun_eq_iff)
  show "\<exists>g' n L h v. g' \<in> {[], gap T} \<and>
      L = dangle (insert a A) (mLoadedPointers s) \<and> (\<exists>y. R y \<and> v = f y) \<and>
      thenE (set_slot a Loading) (bindE m (\<lambda>y. thenE (set_slot a Dangling) (retE (f y)))) s =
      (Inr v, s\<lparr>mBuffer := g' @ rest, mNumberOfLines := n, mLoadedPointers := L, mHeap := h\<rparr>)"
    by (rule loads_exI, rule m(1), rule d', rule exI, rule conjI, rule m(3), rule refl, rule e)
qed

lemma registered_name_good: "string_good T (registered_name d)"
  by (cases d) (auto simp: string_good_def registered_name_def GetDataTypeName_def quote_def)

lemma loads_pointee:
  "loads (pointee Some None SP_DERIVED_CLASS_POINTER None) P T (string_out P T (registered_name d)) {}
     (\<lambda>p. snd p = prototype d)"
  unfolding loads_def
proof (intro allI impI)
  fix s :: "info_data ser" and g rest
  assume s: "mPlatform s = P" "mTrace s = T" "reg_ok s" "g \<in> {[], gap T}"
    "mBuffer s = g @ string_out P T (registered_name d) @ rest"
  obtain g' n where g': "g' \<in> {[], gap T}"
    and m: "read_string s = (Inr (registered_name d), s\<lparr>mBuffer := g' @ rest, mNumberOfLines := n\<rparr>)"
    using readsD [OF reads_string [OF registered_name_good] s(1,2,4,5)] by metis
  have e: "pointee Some None SP_DERIVED_CLASS_POINTER None s = (Inr (mHeap s, prototype d),
      s\<lparr>mBuffer := g' @ rest, mNumberOfLines := n, mLoadedPointers := mLoadedPointers s,
        mHeap := mHeap s + 1\<rparr>)"
    using m s(3) registry_lookups(2) [of d]
    by (simp add: pointee_def cpp_defs new_object_def reg_ok_def)
  show "\<exists>g' n L h v. g' \<in> {[], gap T} \<and> L = dangle {} (mLoadedPointers s) \<and>
      snd v = prototype d \<and> pointee Some None SP_DERIVED_CLASS_POINTER None s =
      (Inr v, s\<lparr>mBuffer := g' @ rest, mNumberOfLines := n, mLoadedPointers := L, mHeap := h\<rparr>)"
    by (rule loads_exI, rule g', rule dangle_empty [symmetric], rule snd_conv, rule e)
qed

lemma reads_pointer_type:
  "reads read_pointer_type P T (scalar_out sc_int P T 2) SP_DERIVED_CLASS_POINTER"
  using int_format.reads_scalar [of T P 2] unfolding read_pointer_type_def
  by (intro reads_bind_ret [where v = 2]) simp_all

lemma loads_unseen:
  assumes "loads k P T out A R" "a \<in> A"
  shows "loads (bindE (getE mLoadedPointers) (\<lambda>loaded. case loaded a of None \<Rightarrow> k | Some x \<Rightarrow> f x))
     P T out A R"
proof -
  have "bindE (getE mLoadedPointers) (\<lambda>loaded. case loaded a of None \<Rightarrow> k | Some x \<Rightarrow> f x) s = k s"
    if "dom (mLoadedPointers s) \<inter> A = {}" for s
  proof -
    have "mLoadedPointers s a = None" using that assms(2) by blast
    then show ?thesis by (simp add: bindE_def getE_def)
  qed
  then show ?thesis using assms(1) by (simp add: loads_def)
qed

lemma loads_pointer:
  assumes "loads (ld (prototype d)) P T (data_out P T d) A R" "a \<notin> A" "quote \<notin> set tag"
  shows "loads (load_shared_ptr (\<lambda>x. x) Some ld None True tag None) P T
     (scalar_out sc_int P T 2 @ scalar_out sc_pointer P T a @
        string_out P T (registered_name d) @ tag_out P T tag @ data_out P T d)
     (insert a A) (\<lambda>p. \<exists>b y. p = Some (b, y) \<and> R y)"
proof -
  have "loads (load_object (ld (prototype d)) tag) P T (tag_out P T tag @ data_out P T d) A R"
    unfolding load_object_def by (rule loads_then_reads [OF reads_tag [OF assms(3)] assms(1)])
  from loads_slot [OF this assms(2)]
  have slot: "loads (thenE (set_slot a Loading) (bindE (load_object (ld (prototype d)) tag) (\<lambda>y.
        thenE (set_slot a Dangling) (retE (Some (b, y))))))
      P T (tag_out P T tag @ data_out P T d) (insert a A) (\<lambda>p. \<exists>b y. p = Some (b, y) \<and> R y)" for b
    by (rule loads_weaken) blast
  have "loads (bindE (pointee Some None SP_DERIVED_CLASS_POINTER None) (\<lambda>(b, x).
        thenE (set_slot a Loading) (bindE (load_object (ld x) tag) (\<lambda>y.
        thenE (set_slot a Dangling) (retE (Some (b, y)))))))
      P T (string_out P T (registered_name d) @ tag_out P T tag @ data_out P T d) ({} \<union> insert a A)
      (\<lambda>p. \<exists>b y. p = Some (b, y) \<and> R y)"
    by (rule loads_bind [OF loads_pointee]) (use slot in \<open>auto split: prod.split\<close>)
  then have k: "loads (bindE (pointee Some None SP_DERIVED_CLASS_POINTER None) (\<lambda>(b, x).
        thenE (set_slot a Loading) (bindE (load_object (ld x) tag) (\<lambda>y.
        thenE (set_slot a Dangling) (retE (Some (b, y)))))))
      P T (string_out P T (registered_name d) @ tag_out P T tag @ data_out P T d) (insert a A)
      (\<lambda>p. \<exists>b y. p = Some (b, y) \<and> R y)" by simp
  show ?thesis
    unfolding load_shared_ptr_def if_True
    apply (rule loads_bind_reads [OF reads_pointer_type])
    apply (subst if_not_P, simp)
    apply (rule loads_bind_reads [OF pointer_format.reads_scalar], simp)
    by (rule loads_unseen [OF k insertI1])
qed

section \<open>The round trip\<close>

fun data_depth :: "info_data \<Rightarrow> nat"
and entries_depth :: "(string \<times> (addr \<times> info_data)) list \<Rightarrow> nat" where
  "data_depth (DInfo m) = entries_depth m"
| "data_depth (DInt _) = 0"
| "data_depth (DSize _) = 0"
| "data_depth (DDouble _) = 0"
| "data_depth (DBool _) = 0"
| "data_depth (DString _) = 0"
| "entries_depth [] = 0"
| "entries_depth ((k, (a, d)) # m) = max (Suc (data_depth d)) (entries_depth m)"

lemma depth_out:
  "data_depth d \<le> length (data_out P T d)"
  "entries_depth m \<le> length (options_out P T m)"
proof (induction d and m rule: data_depth_entries_depth.induct)
  case (8 k a d m)
  have "scalar_out sc_int P T 2 \<noteq> []" by (simp add: scalar_out_def sc_int_def)
  then obtain x xs where "scalar_out sc_int P T 2 = x # xs" by (cases "scalar_out sc_int P T 2") auto
  then show ?case using 8 by (simp add: max_def)
qed simp_all

lemma loads_entry:
  assumes "loads (ld (prototype d)) P T (data_out P T d) A R" "a \<notin> A" "string_good T k"
  shows "loads (load_entry ld ''E'') P T
     (tag_out P T ''E'' @ (tag_out P T ''First'' @ string_out P T k) @
        scalar_out sc_int P T 2 @ scalar_out sc_pointer P T a @
        string_out P T (registered_name d) @ tag_out P T ''Second'' @ data_out P T d)
     (insert a A) (\<lambda>(k', (b, y)). k' = k \<and> R y)"
  unfolding load_entry_def load_pair_def
proof (rule loads_bind_ret [where R = "\<lambda>(k', p). k' = k \<and> (\<exists>b y. p = Some (b, y) \<and> R y)" and
    h = "\<lambda>(k', p). (k', the p)"])
  show "loads (thenE (load_trace_point ''E'') (bindE (load_string ''First'') (\<lambda>k. bindE
        (load_shared_ptr (\<lambda>x. x) Some ld None True ''Second'' None) (\<lambda>v. retE (k, v))))) P T
     (tag_out P T ''E'' @ (tag_out P T ''First'' @ string_out P T k) @
        scalar_out sc_int P T 2 @ scalar_out sc_pointer P T a @
        string_out P T (registered_name d) @ tag_out P T ''Second'' @ data_out P T d)
     (insert a A) (\<lambda>(k', p). k' = k \<and> (\<exists>b y. p = Some (b, y) \<and> R y))"
    by (rule loads_then_reads [OF reads_tag [OF tags_ok(1)]],
        rule loads_bind_reads [OF string_codec.load_out [OF assms(3) tags_ok(3)]],
        rule loads_bind_ret [OF loads_pointer [where ld = ld and d = d, OF assms(1,2) tags_ok(4)], where h = "\<lambda>p. (k, p)"])
       auto
qed auto

lemma reads_info_base: "reads (load_base (retE ()) ''BaseClass'') P T (tag_out P T ''BaseClass'') ()"
  using reads_then [OF reads_tag [of "''BaseClass''" P T] reads_ret]
  by (simp add: load_base_def quote_def)

lemma loads_leaf:
  assumes "reads m P T out v" "R (f v)"
  shows "loads (thenE (load_base (retE ()) ''BaseClass'') (bindE m (\<lambda>v. retE (f v)))) P T
     (tag_out P T ''BaseClass'' @ out) {} R"
  by (rule loads_then_reads [OF reads_info_base], rule loads_reads, rule reads_bind_ret [OF assms(1)],
      rule refl, rule assms(2))

lemma mData_ok: "quote \<notin> set ''mData''" "quote \<notin> set ''mOptions''"
  by (simp_all add: quote_def)

lemma Suc_fuel: "k < n \<Longrightarrow> \<exists>n'. n = Suc n' \<and> k \<le> n'"
  by (cases n) auto

lemma loads_options:
  assumes "loads (load_entries (load_entry ld) (length m) []) P T (options_out P T m)
      (set (entries_addrs m)) (\<lambda>m'. entries_value m' = entries_value m)" "length m < 2 ^ 64"
  shows "loads (load_options ld []) P T (tag_out P T ''mOptions'' @
      (tag_out P T ''size'' @ scalar_out sc_size_t P T (word_of_nat (length m))) @ options_out P T m)
      (set (entries_addrs m)) (\<lambda>m'. entries_value m' = entries_value m)"
proof -
  have len: "unat (word_of_nat (length m) :: u64) = length m"
    using assms(2) by (simp add: unat_word_of_nat)
  show ?thesis
    unfolding load_options_def load_map_def
    by (rule loads_register, rule loads_then_reads [OF reads_tag [OF mData_ok(2)]],
        rule loads_bind_reads [OF size_codec.load_out [OF TrueI tags_ok(2)]])
       (simp add: len assms(1))
qed

lemma loads_next_entry:
  assumes "loads (load_entry ld ''E'') P T out A (\<lambda>(k', (b, y)). k' = k \<and> data_value y = data_value d)"
    and "\<And>(b :: addr) y. data_value y = data_value d \<Longrightarrow>
      loads (load_entries (load_entry ld) n (acc @ [(k, (b, y))])) P T out' A'
       (\<lambda>m'. \<exists>es. m' = (acc @ [(k, (b, y))]) @ es \<and> entries_value es = entries_value m)"
    and "\<forall>k' \<in> fst ` set acc. k' < k" "A \<inter> A' = {}"
  shows "loads (load_entries (load_entry ld) (Suc n) acc) P T (out @ out') (A \<union> A')
       (\<lambda>m'. \<exists>es. m' = acc @ es \<and> entries_value es = entries_value ((k, (a, d)) # m))"
  unfolding load_entries.simps
proof (rule loads_bind [OF assms(1)])
  fix e :: "string \<times> (addr \<times> info_data)" assume "case e of (k', b, y) \<Rightarrow> k' = k \<and> data_value y = data_value d"
  then obtain b y where e: "e = (k, (b, y))" "data_value y = data_value d" by (cases e) auto
  have "loads (load_entries (load_entry ld) n (acc @ [(k, (b, y))])) P T out' A' (\<lambda>m'. \<exists>es.
      m' = acc @ es \<and> entries_value es = entries_value ((k, (a, d)) # m))"
    by (rule loads_weaken [OF assms(2) [OF e(2), of b]]) (auto simp: e(2))
  then show "loads (case e of (k, v) \<Rightarrow> load_entries (load_entry ld) n (smap_insert k v acc)) P T out' A'
      (\<lambda>m'. \<exists>es. m' = acc @ es \<and> entries_value es = entries_value ((k, (a, d)) # m))"
    using e by (simp add: smap_insert_last [OF assms(3)])
qed (rule assms(4))

lemma loads_data_options:
  "data_good P T d \<Longrightarrow> data_wf d \<Longrightarrow> distinct (data_addrs d) \<Longrightarrow> data_depth d < n \<Longrightarrow>
     loads (load_data n (prototype d)) P T (data_out P T d) (set (data_addrs d))
       (\<lambda>v. data_value v = data_value d)"
  "entries_good P T m \<Longrightarrow> entries_wf m \<Longrightarrow> distinct (entries_addrs m) \<Longrightarrow> entries_depth m \<le> n \<Longrightarrow>
     sorted_wrt (<) (List.map fst acc @ List.map fst m) \<Longrightarrow>
     loads (load_entries (load_entry (load_data n)) (length m) acc) P T (options_out P T m)
       (set (entries_addrs m)) (\<lambda>m'. \<exists>es. m' = acc @ es \<and> entries_value es = entries_value m)"
proof (induction d and m arbitrary: n and n acc rule: data_depth_entries_depth.induct)
  case (1 m)
  from 1(5) have "entries_depth m < n" by simp
  then obtain n' where n: "n = Suc n'" "entries_depth m \<le> n'" using Suc_fuel by blast
  have "loads (load_entries (load_entry (load_data n')) (length m) []) P T (options_out P T m)
      (set (entries_addrs m)) (\<lambda>m'. \<exists>es. m' = [] @ es \<and> entries_value es = entries_value m)"
    using 1(2-4) n(2) by (intro 1(1)) (auto simp: smap_wf_def)
  then have "loads (load_options (load_data n') []) P T (tag_out P T ''mOptions'' @
      (tag_out P T ''size'' @ scalar_out sc_size_t P T (word_of_nat (length m))) @ options_out P T m)
      (set (entries_addrs m)) (\<lambda>m'. entries_value m' = entries_value m)"
    using 1(2) by (intro loads_options) auto
  note this = loads_then_reads [OF reads_tag [OF mData_ok(1)] this]
  note this = loads_bind_ret [OF this [folded load_object_def], where h = DInfo and f = "\<lambda>v. retE (DInfo v)"
      and R' = "\<lambda>v. data_value v = data_value (DInfo m)"]
  from loads_then_reads [OF reads_info_base this]
  show ?case by (simp add: n prototype_def)
next
  case (8 k a d m)
  have d: "loads (load_data n (prototype d)) P T (data_out P T d) (set (data_addrs d))
      (\<lambda>v. data_value v = data_value d)"
    using 8(3-6) by (intro 8(1)) auto
  have keys: "\<forall>k' \<in> fst ` set acc. k' < k" using 8(7) by (auto simp: sorted_wrt_append)
  have rest: "loads (load_entries (load_entry (load_data n)) (length m) (acc @ [(k, (b, y))])) P T
      (options_out P T m) (set (entries_addrs m))
      (\<lambda>m'. \<exists>es. m' = (acc @ [(k, (b, y))]) @ es \<and> entries_value es = entries_value m)" for b y
    using 8(3-7) by (intro 8(2)) (auto simp: sorted_wrt_append)
  have "loads (load_entries (load_entry (load_data n)) (Suc (length m)) acc) P T
      (options_out P T ((k, (a, d)) # m)) (insert a (set (data_addrs d)) \<union> set (entries_addrs m))
      (\<lambda>m'. \<exists>es. m' = acc @ es \<and> entries_value es = entries_value ((k, (a, d)) # m))"
    unfolding options_out.simps
  proof (rule loads_next_entry [OF loads_entry [where d = d and ld = "load_data n", OF d] rest keys])
    show "a \<notin> set (data_addrs d)" "string_good T k"
      "insert a (set (data_addrs d)) \<inter> set (entries_addrs m) = {}"
      using 8(3,5) by auto
  qed
  moreover have "insert a (set (data_addrs d)) \<union> set (entries_addrs m) =
      set (entries_addrs ((k, (a, d)) # m))" by auto
  ultimately show ?case by simp
next
  case (7 n acc)
  then show ?case by (auto intro!: loads_ret)
next
  case (2 v n)
  then obtain n' where "n = Suc n'" using Suc_fuel by blast
  then show ?case
    by (simp add: prototype_def) (rule loads_leaf [OF int_codec.load_out [OF TrueI mData_ok(1)]], simp)
next
  case (3 v n)
  then obtain n' where "n = Suc n'" using Suc_fuel by blast
  then show ?case
    by (simp add: prototype_def) (rule loads_leaf [OF size_codec.load_out [OF TrueI mData_ok(1)]], simp)
next
  case (4 v n)
  then obtain n' where "n = Suc n'" using Suc_fuel by blast
  then show ?case
    using 4(1) by (simp add: prototype_def) (rule loads_leaf [OF double_codec.load_out [OF _ mData_ok(1)]], simp, simp)
next
  case (5 v n)
  then obtain n' where "n = Suc n'" using Suc_fuel by blast
  then show ?case
    by (simp add: prototype_def) (rule loads_leaf [OF bool_codec.load_out [OF TrueI mData_ok(1)]], simp)
next
  case (6 v n)
  then obtain n' where "n = Suc n'" using Suc_fuel by blast
  then show ?case
    using 6(1) by (simp add: prototype_def) (rule loads_leaf [OF string_codec.load_out [OF _ mData_ok(1)]], simp, simp)
qed

lemma save_options_eq:
  "save_options m = forE (save_pair save_string (save_pointer save_data (\<lambda>d. Some (type_id d))) ''E'')
     (List.map (\<lambda>(k, p). (k, Some p)) m)"
proof (induction m)
  case (Cons e m)
  obtain k a d where "e = (k, (a, d))" by (cases e) auto
  moreover have "save_pair save_string
        (\<lambda>tag _. save_pointer (\<lambda>_. save_data d) (\<lambda>_. Some (type_id d)) tag (Some (a, d))) tag (k, ()) =
      save_pair save_string (save_pointer save_data (\<lambda>d. Some (type_id d))) tag (k, Some (a, d))" for tag
    by (simp add: save_pair_def save_pointer_def SavePointer_def save_object_def cong: if_cong)
  ultimately show ?case using Cons by simp
qed simp

definition info_out :: "platform \<Rightarrow> TraceType \<Rightarrow> info \<Rightarrow> string" where
  "info_out P T m = tag_out P T ''mOptions'' @
     (tag_out P T ''size'' @ scalar_out sc_size_t P T (word_of_nat (length m))) @ options_out P T m"

lemma Info_save_out:
  assumes "distinct (entries_addrs m)" "set (entries_addrs m) \<inter> mSavedPointers s = {}" "reg_start s"
  shows "Info_save m s = (Inr (), s\<lparr>msRegisteredObjects := info_objects,
      msRegisteredObjectsName := info_names,
      mBuffer := mBuffer s @ info_out (mPlatform s) (mTrace s) m,
      mSavedPointers := mSavedPointers s \<union> set (entries_addrs m)\<rparr>)"
proof -
  have opts: "saves (save_options m) P T (mSavedPointers s) (options_out P T m)
      (mSavedPointers s \<union> set (entries_addrs m))" for P T
    using assms(1,2) by (rule saves_data_options(2))
  note opts = saves_then [OF saves_writes [OF size_format.writes_direct
      [where v = "word_of_nat (length m)" and tag = "''size''"]] opts]
  note opts = saves_then [OF saves_writes [OF writes_tag [where tag = "''mOptions''"]] opts]
  let ?s = "s\<lparr>msRegisteredObjects := info_objects, msRegisteredObjectsName := info_names\<rparr>"
  have "reg_ok ?s" by (simp add: reg_ok_def)
  then show ?thesis
    using opts [of "mPlatform s" "mTrace s"] RegisterTypes_start [OF assms(3)]
    by (simp add: Info_save_def save_map_def save_options_eq [symmetric] thenE_def [of RegisterTypesInSerializer]
        bindE_def [of RegisterTypesInSerializer] saves_def info_out_def)
qed

lemma Info_load_out:
  assumes "info_wf m" "distinct (entries_addrs m)" "data_good P T (DInfo m)"
    and "mPlatform s = P" "mTrace s = T" "reg_start s" "mLoadedPointers s = Map.empty"
    and "g \<in> {[], gap T}" "mBuffer s = g @ info_out P T m @ rest"
  shows "\<exists>g' n L h m'. g' \<in> {[], gap T} \<and> entries_value m' = entries_value m \<and>
     Info_load [] s = (Inr m', s\<lparr>msRegisteredObjects := info_objects,
      msRegisteredObjectsName := info_names, mBuffer := g' @ rest, mNumberOfLines := n,
      mLoadedPointers := L, mHeap := h\<rparr>)"
proof -
  let ?n = "length (mBuffer s) + 1"
  let ?s = "s\<lparr>msRegisteredObjects := info_objects, msRegisteredObjectsName := info_names\<rparr>"
  have "entries_depth m \<le> ?n"
    using depth_out(2) [of m P T] assms(9) by (simp add: info_out_def)
  then have "loads (load_entries (load_entry (load_data ?n)) (length m) []) P T (options_out P T m)
      (set (entries_addrs m)) (\<lambda>m'. entries_value m' = entries_value m)"
    using loads_data_options(2) [of P T m ?n "[]"] assms(1-3)
    by (simp add: info_wf_def smap_wf_def)
  then have l: "loads (load_options (load_data ?n) []) P T (info_out P T m) (set (entries_addrs m))
      (\<lambda>m'. entries_value m' = entries_value m)"
    unfolding info_out_def using assms(3) by (intro loads_options) simp_all
  have s: "mPlatform ?s = P" "mTrace ?s = T" "reg_ok ?s"
    "dom (mLoadedPointers ?s) \<inter> set (entries_addrs m) = {}" "mBuffer ?s = g @ info_out P T m @ rest"
    using assms by (simp_all add: reg_ok_def)
  have "load_options (load_data ?n) [] s = load_options (load_data ?n) [] ?s"
    using RegisterTypes_start [OF assms(6)] RegisterTypes_again [OF s(3)]
    by (simp add: load_options_def thenE_def bindE_def)
  then show ?thesis
    using loadsD [OF l s(1-4) assms(8) s(5)] by (simp add: Info_load_def) metis
qed

section \<open>Properties\<close>

text \<open>
  Property C3. An \<open>Info\<close> whose entries are objects of their own, nested to any depth, survives the
  serializer in every trace mode: saving succeeds, and loading the received text into a new
  \<open>Info\<close> gives the same names with the same types and values on every level.
\<close>

theorem info_roundtrip:
  assumes "info_wf m" "distinct (entries_addrs m)" "data_good P T (DInfo m)"
  shows "\<exists>s t m'. Info_save m (StreamSerializer P h T) = (Inr (), s) \<and>
     Info_load Info_new (StreamSerializer_data P h' (GetStringRepresentation s) T) = (Inr m', t) \<and>
     entries_value m' = entries_value m"
proof -
  let ?s = "StreamSerializer P h T :: info_data ser"
  let ?t = "StreamSerializer_data P h' (info_out P T m) T :: info_data ser"
  have "\<exists>s. Info_save m ?s = (Inr (), s) \<and> GetStringRepresentation s = info_out P T m"
    using assms(2) by (subst Info_save_out)
      (simp_all add: StreamSerializer_def reg_start_def GetStringRepresentation_def)
  moreover have "\<exists>t m'. Info_load [] ?t = (Inr m', t) \<and> entries_value m' = entries_value m"
    using Info_load_out [OF assms, of ?t "[]" "[nl]"]
    by (auto simp: StreamSerializer_data_def StreamSerializer_def reg_start_def)
  ultimately show ?thesis by (metis Info_new_def)
qed

theorem info_roundtrip_witness:
  "\<exists>s t m'. Info_save [(''x'', (1, DDouble 7)), (''y'', (2, DInfo [(''z'', (3, DString ''on''))]))]
       (StreamSerializer bits_platform 0 SERIALIZER_TRACE_ERROR) = (Inr (), s) \<and>
     Info_load Info_new (StreamSerializer_data bits_platform 9 (GetStringRepresentation s)
       SERIALIZER_TRACE_ERROR) = (Inr m', t) \<and>
     entries_value m' = [(''x'', (0, DDouble 7)), (''y'', (0, DInfo [(''z'', (0, DString ''on''))]))]"
proof -
  let ?m = "[(''x'', (1, DDouble 7)), (''y'', (2, DInfo [(''z'', (3, DString ''on''))]))] :: info"
  have "smap_wf ?m" by (simp add: smap_wf_def)
  then have "info_wf ?m" by (simp add: info_wf_def smap_wf_def)
  moreover have "distinct (entries_addrs ?m)" by simp
  moreover have "data_good bits_platform SERIALIZER_TRACE_ERROR (DInfo ?m)"
    by (simp add: bits_platform_exact string_good_def quote_def)
  ultimately show ?thesis
    using info_roundtrip [of ?m bits_platform SERIALIZER_TRACE_ERROR 0 9] by simp
qed

end
