(* ===== verification/InfoFuel.thy ===== *)
theory InfoFuel
  imports InfoRoundTrip
begin

text \<open>
  Loading an \<open>Info\<close> terminates on every input: a level of nesting consumes at least one character,
  so the bound on the nesting that \<open>load_data\<close> takes never matters when it is above the number of
  characters left. \<open>shrinks\<close> and \<open>consumes\<close> say that an operation leaves no more, respectively
  fewer characters; \<open>agree\<close> that two operations coincide on short streams.
\<close>

definition shrinks :: "platform \<Rightarrow> ('o ser, 'a) cpp \<Rightarrow> bool" where
  "shrinks P m \<longleftrightarrow> (\<forall>s r t. mPlatform s = P \<longrightarrow> m s = (r, t) \<longrightarrow>
     mPlatform t = P \<and> length (mBuffer t) \<le> length (mBuffer s))"

definition consumes :: "platform \<Rightarrow> ('o ser, 'a) cpp \<Rightarrow> bool" where
  "consumes P m \<longleftrightarrow> (\<forall>s v t. mPlatform s = P \<longrightarrow> m s = (Inr v, t) \<longrightarrow>
     mPlatform t = P \<and> length (mBuffer t) < length (mBuffer s))"

definition agree :: "platform \<Rightarrow> nat \<Rightarrow> ('o ser, 'a) cpp \<Rightarrow> ('o ser, 'a) cpp \<Rightarrow> bool" where
  "agree P k m m' \<longleftrightarrow> (\<forall>s. mPlatform s = P \<longrightarrow> length (mBuffer s) < k \<longrightarrow> m s = m' s)"

lemma shrinksD: "shrinks P m \<Longrightarrow> mPlatform s = P \<Longrightarrow> m s = (r, t) \<Longrightarrow>
    mPlatform t = P \<and> length (mBuffer t) \<le> length (mBuffer s)"
  unfolding shrinks_def by blast

lemma consumesD: "consumes P m \<Longrightarrow> mPlatform s = P \<Longrightarrow> m s = (Inr v, t) \<Longrightarrow>
    mPlatform t = P \<and> length (mBuffer t) < length (mBuffer s)"
  unfolding consumes_def by blast

lemma shrinks_mode:
  assumes "shrinks P m" "shrinks P m'"
  shows "shrinks P (\<lambda>s. if b s then m s else m' s)"
  unfolding shrinks_def
proof (intro allI impI)
  fix s :: "'a ser" and r t
  assume s: "mPlatform s = P" "(if b s then m s else m' s) = (r, t)"
  show "mPlatform t = P \<and> length (mBuffer t) \<le> length (mBuffer s)"
    using shrinksD [OF assms(1) s(1)] shrinksD [OF assms(2) s(1)] s(2) by (cases "b s") simp_all
qed

lemma shrinks_bind:
  assumes "shrinks P m" "\<And>v. shrinks P (f v)"
  shows "shrinks P (bindE m f)"
  unfolding shrinks_def
proof (intro allI impI)
  fix s :: "'a ser" and r t
  assume s: "mPlatform s = P" "bindE m f s = (r, t)"
  obtain r' t' where m: "m s = (r', t')" by fastforce
  have t': "mPlatform t' = P" "length (mBuffer t') \<le> length (mBuffer s)"
    using shrinksD [OF assms(1) s(1) m] by simp_all
  show "mPlatform t = P \<and> length (mBuffer t) \<le> length (mBuffer s)"
  proof (cases r')
    case (Inl e)
    then show ?thesis using s(2) m t' by (simp add: bindE_def)
  next
    case (Inr v)
    then have "f v t' = (r, t)" using s(2) m by (simp add: bindE_def)
    from shrinksD [OF assms(2) t'(1) this] t'(2) show ?thesis by simp
  qed
qed

lemma shrinks_then: "shrinks P m \<Longrightarrow> shrinks P k \<Longrightarrow> shrinks P (thenE m k)"
  by (simp add: thenE_def shrinks_bind)

lemma shrinks_basic:
  "shrinks P (retE v)" "shrinks P (throwE e)" "shrinks P (getE f)" "shrinks P count_line"
  "shrinks P (set_slot a x)" "shrinks P (new_object d)" "shrinks P (checkE b e)"
  "shrinks P (get_chars n)"
  by (auto simp: shrinks_def cpp_defs count_line_def set_slot_def new_object_def get_chars_def
      split: if_splits)

lemma agree_refl: "agree P k m m"
  by (simp add: agree_def)

lemma agree_bind:
  assumes "agree P k m m'" "shrinks P m" "\<And>v. agree P k (f v) (f' v)"
  shows "agree P k (bindE m f) (bindE m' f')"
  unfolding agree_def
proof (intro allI impI)
  fix s :: "'a ser" assume s: "mPlatform s = P" "length (mBuffer s) < k"
  obtain r t where m: "m s = (r, t)" by fastforce
  have t: "mPlatform t = P" "length (mBuffer t) < k"
    using shrinksD [OF assms(2) s(1) m] s(2) by simp_all
  have "m' s = (r, t)" using assms(1) s m by (simp add: agree_def)
  with m t assms(3) show "bindE m f s = bindE m' f' s"
    by (cases r) (simp_all add: agree_def bindE_def)
qed

lemma agree_then: "shrinks P m \<Longrightarrow> agree P k n n' \<Longrightarrow> agree P k (thenE m n) (thenE m n')"
  unfolding thenE_def by (rule agree_bind [OF agree_refl])

lemma agree_consumed:
  assumes "consumes P m" "\<And>v. agree P k (f v) (f' v)"
  shows "agree P (Suc k) (bindE m f) (bindE m f')"
  unfolding agree_def
proof (intro allI impI)
  fix s :: "'a ser" assume s: "mPlatform s = P" "length (mBuffer s) < Suc k"
  obtain r t where m: "m s = (r, t)" by fastforce
  show "bindE m f s = bindE m f' s"
  proof (cases r)
    case (Inr v)
    with m have "m s = (Inr v, t)" by simp
    from consumesD [OF assms(1) s(1) this] s(2)
    have "mPlatform t = P" "length (mBuffer t) < k" by simp_all
    then have "f v t = f' v t" using assms(2) [of v] by (simp add: agree_def)
    then show ?thesis using m Inr by (simp add: bindE_def)
  qed (simp add: m bindE_def)
qed

section \<open>The operations of the serializer\<close>

text \<open>The library's reading of a double leaves a rest of the stream.\<close>

definition parse_rest :: "platform \<Rightarrow> bool" where
  "parse_rest P \<longleftrightarrow> (\<forall>cs d r. parse_double P cs = Some (d, r) \<longrightarrow> length r \<le> length cs)"

definition scalar_shrinks :: "platform \<Rightarrow> 'a scalar \<Rightarrow> bool" where
  "scalar_shrinks P c \<longleftrightarrow> (\<forall>cs v r. sc_scan c P cs = Some (v, r) \<longrightarrow> length r \<le> length cs)"

lemma scan_base_shrinks: "length (snd (scan_base b acc cs)) \<le> length cs"
  by (induction b acc cs rule: scan_base.induct) (auto split: option.splits)

lemma scan_digits_shrinks: "scan_digits b cs = Some (n, r) \<Longrightarrow> length r < length cs"
  using scan_base_shrinks [of b _ "tl cs"]
  by (cases cs) (auto simp: scan_digits_def is_digit_def split: if_splits option.splits
      dest: sym [of "scan_base _ _ _"] simp: less_Suc_eq_le, (metis snd_conv)+)

lemma scan_sign_shrinks: "scan_sign cs = (b, r) \<Longrightarrow> length r \<le> length cs"
  by (cases cs) (auto split: if_splits)

lemma scan_signed_shrinks: "scan_signed cs = Some (v, r) \<Longrightarrow> length r < length cs"
  by (auto simp: scan_signed_def Let_def split: prod.splits option.splits if_splits
      dest!: scan_digits_shrinks scan_sign_shrinks)

lemma scan_unsigned_shrinks: "scan_unsigned cs = Some (v, r) \<Longrightarrow> length r < length cs"
  by (auto simp: scan_unsigned_def Let_def split: prod.splits option.splits if_splits
      dest!: scan_digits_shrinks scan_sign_shrinks)

lemma scan_addr_shrinks: "scan_addr cs = Some (v, r) \<Longrightarrow> length r < length cs"
  by (auto simp: scan_addr_def Let_def split: option.splits if_splits
      dest!: scan_digits_shrinks)

lemma scalars_shrink:
  "scalar_shrinks P sc_int" "scalar_shrinks P sc_size_t" "scalar_shrinks P sc_bool"
  "scalar_shrinks P sc_pointer" "parse_rest P \<Longrightarrow> scalar_shrinks P sc_double"
  by (auto simp: scalar_shrinks_def sc_int_def sc_size_t_def sc_bool_def sc_pointer_def sc_double_def
      parse_rest_def split: option.splits if_splits
      dest!: scan_signed_shrinks scan_unsigned_shrinks scan_addr_shrinks)

lemma shrinks_read_scalar: "scalar_shrinks P c \<Longrightarrow> shrinks P (read_scalar c :: ('o ser, 'a) cpp)"
  unfolding shrinks_def
proof (intro allI impI)
  fix s :: "'o ser" and r t
  assume c: "scalar_shrinks P c" and s: "mPlatform s = P" "read_scalar c s = (r, t)"
  have "length (dropWhile is_space (mBuffer s)) \<le> length (mBuffer s)" by (rule length_dropWhile_le)
  then show "mPlatform t = P \<and> length (mBuffer t) \<le> length (mBuffer s)"
    using s c [unfolded scalar_shrinks_def, rule_format, of "dropWhile is_space (mBuffer s)"]
    by (auto simp: read_scalar_def cpp_defs get_chars_def count_line_def
        split: if_splits option.splits prod.splits sum.splits)
qed

lemma consumes_pointer_type: "consumes P (read_pointer_type :: ('o ser, PointerType) cpp)"
proof -
  have c: "consumes P (read_scalar sc_int :: ('o ser, i32) cpp)"
    unfolding consumes_def
  proof (intro allI impI)
    fix s :: "'o ser" and v t
    assume s: "mPlatform s = P" "read_scalar sc_int s = (Inr v, t)"
    have "length (dropWhile is_space (mBuffer s)) \<le> length (mBuffer s)" by (rule length_dropWhile_le)
    then show "mPlatform t = P \<and> length (mBuffer t) < length (mBuffer s)"
      using s by (auto simp: read_scalar_def sc_int_def cpp_defs get_chars_def count_line_def
          split: if_splits option.splits prod.splits sum.splits dest!: scan_signed_shrinks)
  qed
  show ?thesis
    unfolding consumes_def
  proof (intro allI impI)
    fix s :: "'o ser" and v t
    assume s: "mPlatform s = P" "read_pointer_type s = (Inr v, t)"
    then obtain i where "read_scalar sc_int s = (Inr i, t)"
      by (auto simp: read_pointer_type_def bindE_eq_Inr retE_def throwE_def split: if_splits)
    from consumesD [OF c s(1) this] show "mPlatform t = P \<and> length (mBuffer t) < length (mBuffer s)" .
  qed
qed

lemma shrinks_read_string: "shrinks P (read_string :: ('o ser, string) cpp)"
proof -
  have line: "shrinks P (get_line d :: ('o ser, string) cpp)" for d
  proof -
    have "split_at_char d cs = Some (x, r) \<Longrightarrow> length r \<le> length cs" for cs x r
      by (induction cs arbitrary: x) (auto split: if_splits)
    then show ?thesis by (auto simp: shrinks_def get_line_def split: option.splits)
  qed
  have "shrinks P (bindE (read_scalar sc_size_t) (\<lambda>size. get_chars (unat size)) :: ('o ser, string) cpp)"
    "shrinks P (bindE (get_line quote) (\<lambda>_. bindE (get_line quote) (\<lambda>v. thenE count_line (retE v)))
        :: ('o ser, string) cpp)"
    by (intro shrinks_bind shrinks_then line shrinks_basic shrinks_read_scalar scalars_shrink)+
  then show ?thesis
    unfolding read_string_def by (rule shrinks_mode)
qed

lemma shrinks_tag: "shrinks P (load_trace_point tag)"
proof -
  have "shrinks P (bindE read_string (\<lambda>read_tag. bindE (getE mNumberOfLines) (\<lambda>n.
            checkE (read_tag \<noteq> tag) (CoSimError (''Error: In line '' @ show_nat n @
              '' the trace tag is not the expected one:'' @ [nl] @
              ''    Tag found : '' @ read_tag @ [nl] @ ''    Tag given : '' @ tag @ [nl])))))"
    by (intro shrinks_bind shrinks_read_string shrinks_basic)
  from shrinks_mode [OF this shrinks_basic(1)] show ?thesis
    unfolding load_trace_point_def retE_def .
qed

lemmas shrinks_rules = shrinks_bind shrinks_then shrinks_basic shrinks_read_string shrinks_tag
  shrinks_read_scalar scalars_shrink

lemma shrinks_pointer_type: "shrinks P read_pointer_type"
  unfolding read_pointer_type_def by (auto intro!: shrinks_rules)

lemma shrinks_load_string: "shrinks P (load_string tag)"
  unfolding load_string_def by (intro shrinks_rules)

section \<open>The loading of an Info\<close>

lemma shrinks_pointee: "shrinks P (pointee prj dflt t pValue)"
  unfolding pointee_def by (auto intro!: shrinks_rules split: option.splits)

lemma shrinks_load_object: "shrinks P m \<Longrightarrow> shrinks P (load_object m tag)"
  unfolding load_object_def by (intro shrinks_rules)

lemma shrinks_shared_ptr:
  assumes "\<And>x. shrinks P (ld x)"
  shows "shrinks P (load_shared_ptr emb prj ld dflt temporary tag p)"
  unfolding load_shared_ptr_def
  by (auto intro!: shrinks_rules shrinks_pointer_type shrinks_pointee shrinks_load_object assms
      split: option.splits slot.splits prod.splits)

lemma shrinks_entry:
  assumes "\<And>x. shrinks P (ld x)"
  shows "shrinks P (load_entry ld tag)"
  unfolding load_entry_def load_pair_def
  by (auto intro!: shrinks_rules shrinks_load_string shrinks_shared_ptr assms split: option.splits)

lemma shrinks_entries:
  assumes "\<And>x. shrinks P (ld x)"
  shows "shrinks P (load_entries (load_entry ld) n m)"
  by (induction n arbitrary: m) (auto intro!: shrinks_rules shrinks_entry assms)

lemma shrinks_register: "shrinks P RegisterTypesInSerializer"
  by (simp add: shrinks_def RegisterTypesInSerializer_def forE_Register)

lemma shrinks_options:
  assumes "\<And>x. shrinks P (ld x)"
  shows "shrinks P (load_options ld m)"
  unfolding load_options_def load_map_def load_direct_def
  by (intro shrinks_rules shrinks_register shrinks_entries assms)

lemma shrinks_data:
  assumes "parse_rest P"
  shows "shrinks P (load_data n d)"
proof (induction n arbitrary: d)
  case (Suc n)
  then show ?case
    using assms
    by (cases d) (auto simp: load_base_def load_direct_def intro!: shrinks_rules shrinks_load_string
        shrinks_load_object shrinks_options)
qed (simp add: shrinks_basic)

lemma agree_entry:
  assumes "\<And>x. agree P k (ld x) (ld' x)" "\<And>x. shrinks P (ld x)"
  shows "agree P (Suc k) (load_entry ld tag) (load_entry ld' tag)"
proof -
  have obj: "agree P k (load_object (ld x) tag) (load_object (ld' x) tag)" for x tag
    unfolding load_object_def by (intro agree_then shrinks_tag assms)
  have body: "agree P k
      (bindE (pointee Some None t p) (\<lambda>(a, x). thenE (set_slot q Loading)
        (bindE (load_object (ld x) tag) (\<lambda>y. thenE (set_slot q (z a y)) (retE (Some (a, y)))))))
      (bindE (pointee Some None t p) (\<lambda>(a, x). thenE (set_slot q Loading)
        (bindE (load_object (ld' x) tag) (\<lambda>y. thenE (set_slot q (z a y)) (retE (Some (a, y)))))))"
    for t p q z tag
    by (rule agree_bind [OF agree_refl shrinks_pointee])
       (auto split: prod.split intro!: agree_then agree_bind [OF obj] shrinks_basic
         shrinks_load_object assms agree_refl)
  have ptr: "agree P (Suc k) (load_shared_ptr (\<lambda>x. x) Some ld None True tag p)
      (load_shared_ptr (\<lambda>x. x) Some ld' None True tag p)" for tag p
    unfolding load_shared_ptr_def
  proof (rule agree_consumed [OF consumes_pointer_type])
    fix t
    have "agree P k
        (bindE (getE mLoadedPointers) (\<lambda>loaded. case loaded q of
            None \<Rightarrow> bindE (pointee Some None t p) (\<lambda>(a, x). thenE (set_slot q Loading)
              (bindE (load_object (ld x) tag) (\<lambda>y. thenE (set_slot q (if True then Dangling else Slot a y))
                (retE (Some (a, y))))))
          | Some y \<Rightarrow> f y))
        (bindE (getE mLoadedPointers) (\<lambda>loaded. case loaded q of
            None \<Rightarrow> bindE (pointee Some None t p) (\<lambda>(a, x). thenE (set_slot q Loading)
              (bindE (load_object (ld' x) tag) (\<lambda>y. thenE (set_slot q (if True then Dangling else Slot a y))
                (retE (Some (a, y))))))
          | Some y \<Rightarrow> f y))" for q f
      by (rule agree_bind [OF agree_refl shrinks_basic(3)])
         (use body [where z = "\<lambda>a y. if True then Dangling else Slot a y"] in
           \<open>auto split: option.split intro: agree_refl\<close>)
    note this = agree_bind [OF agree_refl shrinks_read_scalar [OF scalars_shrink(4)] this]
    then show "agree P k
        (if t = SP_INVALID_POINTER then retE p else bindE (read_scalar sc_pointer) (\<lambda>q.
          bindE (getE mLoadedPointers) (\<lambda>loaded. case loaded q of
            None \<Rightarrow> bindE (pointee Some None t p) (\<lambda>(a, x). thenE (set_slot q Loading)
              (bindE (load_object (ld x) tag) (\<lambda>y. thenE (set_slot q (if True then Dangling else Slot a y))
                (retE (Some (a, y))))))
          | Some Loading \<Rightarrow> throwE (UndefinedBehaviour ''object inside itself'')
          | Some (Slot a x) \<Rightarrow> (case Some x of
                   None \<Rightarrow> throwE (UndefinedBehaviour ''static_cast'')
                 | Some y \<Rightarrow> retE (Some (a, y)))
          | Some Dangling \<Rightarrow> throwE (UndefinedBehaviour ''dangling pointer''))))
        (if t = SP_INVALID_POINTER then retE p else bindE (read_scalar sc_pointer) (\<lambda>q.
          bindE (getE mLoadedPointers) (\<lambda>loaded. case loaded q of
            None \<Rightarrow> bindE (pointee Some None t p) (\<lambda>(a, x). thenE (set_slot q Loading)
              (bindE (load_object (ld' x) tag) (\<lambda>y. thenE (set_slot q (if True then Dangling else Slot a y))
                (retE (Some (a, y))))))
          | Some Loading \<Rightarrow> throwE (UndefinedBehaviour ''object inside itself'')
          | Some (Slot a x) \<Rightarrow> (case Some x of
                   None \<Rightarrow> throwE (UndefinedBehaviour ''static_cast'')
                 | Some y \<Rightarrow> retE (Some (a, y)))
          | Some Dangling \<Rightarrow> throwE (UndefinedBehaviour ''dangling pointer''))))"
      by (simp add: agree_refl)
  qed
  show ?thesis
    unfolding load_entry_def load_pair_def
    by (intro agree_bind [OF _ _ agree_refl] agree_then agree_bind [OF agree_refl] agree_bind [OF ptr]
        agree_refl shrinks_rules shrinks_load_string shrinks_shared_ptr assms)
qed

lemma agree_entries:
  assumes "\<And>x. agree P k (ld x) (ld' x)" "\<And>x. shrinks P (ld x)"
  shows "agree P (Suc k) (load_entries (load_entry ld) n m) (load_entries (load_entry ld') n m)"
  by (induction n arbitrary: m)
     (auto intro!: agree_bind [OF agree_entry] shrinks_entry assms agree_refl)

lemma agree_data:
  assumes "parse_rest P"
  shows "n \<le> n' \<Longrightarrow> agree P n (load_data n d) (load_data n' d)"
proof (induction n arbitrary: n' d)
  case 0
  then show ?case by (simp add: agree_def)
next
  case (Suc n)
  then obtain k where k: "n' = Suc k" "n \<le> k" by (cases n') auto
  have opts: "agree P (Suc n) (load_options (load_data n) m) (load_options (load_data k) m)" for m
    unfolding load_options_def load_map_def load_direct_def
    by (intro agree_then agree_bind [OF agree_refl] agree_entries Suc.IH k shrinks_rules
        shrinks_register shrinks_data assms)
  show ?case
    unfolding k load_data.simps load_base_def
    by (intro agree_then shrinks_rules, cases d)
       (auto intro!: agree_refl agree_bind [OF _ _ agree_refl] agree_then opts shrinks_tag
         shrinks_load_object shrinks_options shrinks_data assms simp: load_object_def
         intro: shrinks_then)
qed

text \<open>
  The bound that the model puts on the nesting is not a limit of the model: with any bound above the number of
  characters the result, error or value, is the one of \<open>Info_load\<close>.
\<close>

lemma load_data_fuel:
  assumes "parse_rest (mPlatform s)" "length (mBuffer s) < n"
  shows "load_options (load_data n) m s = Info_load m s"
proof -
  let ?k = "length (mBuffer s)"
  have "agree (mPlatform s) (Suc ?k) (load_options (load_data (Suc ?k)) m) (load_options (load_data n) m)"
    unfolding load_options_def load_map_def load_direct_def
  proof (intro agree_then agree_bind [OF agree_refl] shrinks_rules shrinks_register)
    fix size
    have "agree (mPlatform s) (Suc (Suc ?k))
        (load_entries (load_entry (load_data (Suc ?k))) (unat size) m)
        (load_entries (load_entry (load_data n)) (unat size) m)"
      using assms by (intro agree_entries agree_data shrinks_data) simp_all
    then show "agree (mPlatform s) (Suc ?k)
        (load_entries (load_entry (load_data (Suc ?k))) (unat size) m)
        (load_entries (load_entry (load_data n)) (unat size) m)"
      by (simp add: agree_def)
  qed
  then show ?thesis by (simp add: agree_def Info_load_def)
qed

lemma bits_platform_rest: "parse_rest bits_platform"
  by (auto simp: parse_rest_def bits_platform_def dest!: scan_unsigned_shrinks)

end
