(* ===== verification/InfoShared.thy ===== *)
theory InfoShared
  imports InfoFuel
begin

text \<open>
  The round trip fails for an \<open>Info\<close> with a shared entry. Copying an \<open>Info\<close> copies the pointers to
  its entries, so putting the same \<open>Info\<close> under two names makes two nested copies that share them.
  \<open>save\<close> writes the content of a shared entry once. \<open>load_map\<close> loads each entry into the local
  variable \<open>temp\<close> and leaves its address in \<open>mLoadedPointers\<close>; the second time the pointer is met,
  \<open>load\<close> copies from that variable, which does not exist any more.
\<close>

lemma saves_seen:
  assumes "a \<in> A"
  shows "saves (save_pointer (\<lambda>_. save_data d) (\<lambda>_. Some (type_id d)) tag (Some (a, d))) P T A
     (scalar_out sc_int P T 2 @ scalar_out sc_pointer P T a) A"
proof -
  have "saves (SavePointer (\<lambda>_. save_data d) (\<lambda>_. Some (type_id d)) tag (a, d)) P T A
      (scalar_out sc_pointer P T a @ []) A"
    unfolding SavePointer_def fst_conv
    by (rule saves_then [OF saves_writes [OF pointer_format.writes_scalar]])
       (use assms in \<open>simp add: saves_def bindE_def getE_def retE_def\<close>)
  then have "saves (SavePointer (\<lambda>_. save_data d) (\<lambda>_. Some (type_id d)) tag (a, d)) P T A
      (scalar_out sc_pointer P T a) A" by simp
  from saves_then [OF saves_writes [OF int_format.writes_scalar [where v = 2]] this]
  show ?thesis by (simp add: save_pointer_def write_pointer_type_def pointer_type_int_def)
qed

definition fails :: "(info_data ser, 'a) cpp \<Rightarrow> platform \<Rightarrow> TraceType \<Rightarrow> string \<Rightarrow> addr set \<Rightarrow>
    addr set \<Rightarrow> bool" where
  "fails m P T out D A \<longleftrightarrow> (\<forall>s g rest. mPlatform s = P \<longrightarrow> mTrace s = T \<longrightarrow> reg_ok s \<longrightarrow>
     (\<forall>a \<in> D. mLoadedPointers s a = Some Dangling) \<longrightarrow> dom (mLoadedPointers s) \<inter> A = {} \<longrightarrow>
     g \<in> {[], gap T} \<longrightarrow> mBuffer s = g @ out @ rest \<longrightarrow>
     fst (m s) = Inl (UndefinedBehaviour ''dangling pointer''))"

lemma failsD:
  assumes "fails m P T out D A" "mPlatform s = P" "mTrace s = T" "reg_ok s"
    "\<forall>a \<in> D. mLoadedPointers s a = Some Dangling" "dom (mLoadedPointers s) \<inter> A = {}"
    "g \<in> {[], gap T}" "mBuffer s = g @ out @ rest"
  shows "fst (m s) = Inl (UndefinedBehaviour ''dangling pointer'')"
  using assms(1) [unfolded fails_def, rule_format, OF assms(2-4) _ assms(6-8)] assms(5) by blast

lemma fails_bind:
  assumes "fails m P T out D A"
  shows "fails (bindE m f) P T out D A"
  unfolding fails_def
proof (intro allI impI)
  fix s :: "info_data ser" and g rest
  assume s: "mPlatform s = P" "mTrace s = T" "reg_ok s"
    "\<forall>a \<in> D. mLoadedPointers s a = Some Dangling" "dom (mLoadedPointers s) \<inter> A = {}"
    "g \<in> {[], gap T}" "mBuffer s = g @ out @ rest"
  show "fst (bindE m f s) = Inl (UndefinedBehaviour ''dangling pointer'')"
    using failsD [OF assms s] by (cases "m s") (simp add: bindE_def)
qed

lemma fails_after:
  assumes "loads m P T out1 B R" "\<And>v. R v \<Longrightarrow> fails (f v) P T out2 (D \<union> B) A" "A \<inter> B = {}"
  shows "fails (bindE m f) P T (out1 @ out2) D (A \<union> B)"
  unfolding fails_def
proof (intro allI impI)
  fix s :: "info_data ser" and g rest
  assume s: "mPlatform s = P" "mTrace s = T" "reg_ok s"
    "\<forall>a \<in> D. mLoadedPointers s a = Some Dangling" "dom (mLoadedPointers s) \<inter> (A \<union> B) = {}"
    "g \<in> {[], gap T}" "mBuffer s = g @ (out1 @ out2) @ rest"
  have b: "mBuffer s = g @ out1 @ (out2 @ rest)" "dom (mLoadedPointers s) \<inter> B = {}"
    using s(5,7) by auto
  obtain g1 n1 L1 h1 v1 where m: "g1 \<in> {[], gap T}" "L1 = dangle B (mLoadedPointers s)" "R v1"
    "m s = (Inr v1, s\<lparr>mBuffer := g1 @ out2 @ rest, mNumberOfLines := n1, mLoadedPointers := L1,
        mHeap := h1\<rparr>)"
    using loadsD [OF assms(1) s(1-3) b(2) s(6) b(1)] by metis
  let ?s = "s\<lparr>mBuffer := g1 @ out2 @ rest, mNumberOfLines := n1, mLoadedPointers := L1, mHeap := h1\<rparr>"
  have s1: "mPlatform ?s = P" "mTrace ?s = T" "reg_ok ?s"
    "\<forall>a \<in> D \<union> B. mLoadedPointers ?s a = Some Dangling" "mBuffer ?s = g1 @ out2 @ rest"
    using s(1-4) m(2) by (auto simp: reg_ok_def dangle_def)
  have "dom (mLoadedPointers ?s) = dom (mLoadedPointers s) \<union> B" using m(2) by simp
  then have s2: "dom (mLoadedPointers ?s) \<inter> A = {}" using s(5) assms(3) by blast
  show "fst (bindE m f s) = Inl (UndefinedBehaviour ''dangling pointer'')"
    using failsD [OF assms(2) [OF m(3)] s1(1-4) s2 m(1) s1(5)] m(4) by (simp add: bindE_def)
qed

lemma fails_after_reads:
  assumes "reads m P T out1 v" "fails (f v) P T out2 D A"
  shows "fails (bindE m f) P T (out1 @ out2) D A"
  using fails_after [OF loads_reads [OF assms(1), of "\<lambda>w. w = v"], of f out2 D A] assms(2) by simp

lemma fails_after_reads_end:
  assumes "reads m P T out v" "fails (f v) P T [] D A"
  shows "fails (bindE m f) P T out D A"
  using fails_after_reads [of m P T out v f "[]" D A] assms by simp

lemma fails_then_reads:
  "reads m P T out1 v \<Longrightarrow> fails k P T out2 D A \<Longrightarrow> fails (thenE m k) P T (out1 @ out2) D A"
  unfolding thenE_def by (rule fails_after_reads)

lemma fails_register:
  "fails k P T out D A \<Longrightarrow> fails (thenE RegisterTypesInSerializer k) P T out D A"
  unfolding fails_def thenE_def bindE_def by (auto simp: RegisterTypes_again)

lemma fails_seen:
  assumes "a \<in> D"
  shows "fails (load_shared_ptr (\<lambda>x. x) Some ld None True tag None) P T
     (scalar_out sc_int P T 2 @ scalar_out sc_pointer P T a) D {}"
proof -
  have "fails (bindE (getE mLoadedPointers) (\<lambda>loaded. (case loaded a of
              None \<Rightarrow> k
            | Some Loading \<Rightarrow> throwE (UndefinedBehaviour ''object inside itself'')
            | Some Dangling \<Rightarrow> throwE (UndefinedBehaviour ''dangling pointer'')
            | Some (Slot a x) \<Rightarrow> f a x))) P T [] D {}" for k f
    using assms by (simp add: fails_def cpp_defs)
  then show ?thesis
    unfolding load_shared_ptr_def
    by (rule_tac fails_after_reads [OF reads_pointer_type], subst if_not_P, simp,
        rule_tac fails_after_reads_end [OF pointer_format.reads_scalar], simp_all)
qed

lemma fails_unseen:
  assumes "fails k P T out D A" "a \<in> A"
  shows "fails (bindE (getE mLoadedPointers) (\<lambda>loaded. case loaded a of None \<Rightarrow> k | Some x \<Rightarrow> f x))
     P T out D A"
proof -
  have "bindE (getE mLoadedPointers) (\<lambda>loaded. case loaded a of None \<Rightarrow> k | Some x \<Rightarrow> f x) s = k s"
    if "dom (mLoadedPointers s) \<inter> A = {}" for s
  proof -
    have "mLoadedPointers s a = None" using that assms(2) by blast
    then show ?thesis by (simp add: bindE_def getE_def)
  qed
  then show ?thesis using assms(1) by (simp add: fails_def)
qed

lemma fails_slot:
  assumes "fails m P T out D A" "a \<notin> A" "a \<notin> D"
  shows "fails (thenE (set_slot a Loading) m) P T out D (insert a A)"
  unfolding fails_def
proof (intro allI impI)
  fix s :: "info_data ser" and g rest
  assume s: "mPlatform s = P" "mTrace s = T" "reg_ok s"
    "\<forall>a \<in> D. mLoadedPointers s a = Some Dangling" "dom (mLoadedPointers s) \<inter> insert a A = {}"
    "g \<in> {[], gap T}" "mBuffer s = g @ out @ rest"
  let ?s = "s\<lparr>mLoadedPointers := (mLoadedPointers s)(a \<mapsto> Loading)\<rparr>"
  have s1: "mPlatform ?s = P" "mTrace ?s = T" "reg_ok ?s"
    "\<forall>a \<in> D. mLoadedPointers ?s a = Some Dangling" "mBuffer ?s = g @ out @ rest"
    using s(1-4,7) assms(3) by (auto simp: reg_ok_def)
  have s2: "dom (mLoadedPointers ?s) \<inter> A = {}" using s(5) assms(2) by auto
  show "fst (thenE (set_slot a Loading) m s) = Inl (UndefinedBehaviour ''dangling pointer'')"
    using failsD [OF assms(1) s1(1-4) s2 s(6) s1(5)] by (simp add: cpp_defs set_slot_def)
qed

lemma fails_pointer:
  assumes "fails (ld (prototype d)) P T out D A" "a \<notin> A" "a \<notin> D" "quote \<notin> set tag"
  shows "fails (load_shared_ptr (\<lambda>x. x) Some ld None True tag None) P T
     (scalar_out sc_int P T 2 @ scalar_out sc_pointer P T a @
        string_out P T (registered_name d) @ tag_out P T tag @ out) D (insert a A)"
proof -
  have "fails (load_object (ld (prototype d)) tag) P T (tag_out P T tag @ out) D A"
    unfolding load_object_def by (rule fails_then_reads [OF reads_tag [OF assms(4)] assms(1)])
  from fails_slot [OF fails_bind [OF this] assms(2,3)]
  have slot: "fails (thenE (set_slot a Loading) (bindE (load_object (ld (prototype d)) tag) f))
      P T (tag_out P T tag @ out) D (insert a A)" for f .
  have "fails (bindE (pointee Some None SP_DERIVED_CLASS_POINTER None) (\<lambda>(b, x).
        thenE (set_slot a Loading) (bindE (load_object (ld x) tag) (f b x))))
      P T (string_out P T (registered_name d) @ tag_out P T tag @ out) D (insert a A \<union> {})" for f
    by (rule fails_after [OF loads_pointee]) (use slot in \<open>auto split: prod.split\<close>)
  then have k: "fails (bindE (pointee Some None SP_DERIVED_CLASS_POINTER None) (\<lambda>(b, x).
        thenE (set_slot a Loading) (bindE (load_object (ld x) tag) (f b x))))
      P T (string_out P T (registered_name d) @ tag_out P T tag @ out) D (insert a A)" for f
    by simp
  show ?thesis
    unfolding load_shared_ptr_def if_True
    apply (rule fails_after_reads [OF reads_pointer_type])
    apply (subst if_not_P, simp)
    apply (rule fails_after_reads [OF pointer_format.reads_scalar], simp)
    by (rule fails_unseen [OF k insertI1])
qed

section \<open>Two copies that share an entry\<close>

definition shared_info_out :: "platform \<Rightarrow> TraceType \<Rightarrow> string \<Rightarrow> addr \<Rightarrow> string" where
  "shared_info_out P T x a = tag_out P T ''BaseClass'' @ tag_out P T ''mData'' @
     tag_out P T ''mOptions'' @ (tag_out P T ''size'' @ scalar_out sc_size_t P T 1) @
     tag_out P T ''E'' @ (tag_out P T ''First'' @ string_out P T x) @
     scalar_out sc_int P T 2 @ scalar_out sc_pointer P T a"

lemma saves_shared_info:
  assumes "a \<in> A"
  shows "saves (save_data (DInfo [(x, (a, d))])) P T A (shared_info_out P T x a) A"
proof -
  have "saves (save_options [(x, (a, d))]) P T A ((tag_out P T ''E'' @ (tag_out P T ''First'' @
      string_out P T x) @ scalar_out sc_int P T 2 @ scalar_out sc_pointer P T a) @ []) A"
    unfolding save_options.simps save_pair_def fst_conv snd_conv
    by (rule saves_then saves_writes [OF writes_tag] saves_string saves_seen [OF assms] saves_ret)+
  note this = saves_then [OF saves_writes [OF size_format.writes_direct
      [where v = 1 and tag = "''size''"]] this]
  note this = saves_then [OF saves_writes [OF writes_tag [where tag = "''mOptions''"]] this]
  note this = saves_then_none [OF saves_register this]
  note this = saves_then [OF saves_writes [OF writes_tag [where tag = "''mData''"]] this]
  note this = saves_then [OF saves_base this]
  then show ?thesis by (simp add: shared_info_out_def)
qed

lemma fails_shared_info:
  assumes "a \<in> D" "string_good T x"
  shows "fails (load_data (Suc n) (DInfo [])) P T (shared_info_out P T x a) D {}"
proof -
  have "fails (load_entry (load_data n) ''E'') P T (tag_out P T ''E'' @ (tag_out P T ''First'' @
      string_out P T x) @ scalar_out sc_int P T 2 @ scalar_out sc_pointer P T a) D {}"
    unfolding load_entry_def load_pair_def
    by (rule fails_bind, rule fails_then_reads [OF reads_tag [OF tags_ok(1)]],
        rule fails_after_reads [OF string_codec.load_out [OF assms(2) tags_ok(3)]],
        rule fails_bind [OF fails_seen [OF assms(1)]])
  from fails_bind [OF this]
  have "fails (load_entries (load_entry (load_data n)) (unat (1 :: u64)) []) P T (tag_out P T ''E'' @
      (tag_out P T ''First'' @ string_out P T x) @
      scalar_out sc_int P T 2 @ scalar_out sc_pointer P T a) D {}" by simp
  then have "fails (load_options (load_data n) []) P T (tag_out P T ''mOptions'' @
      (tag_out P T ''size'' @ scalar_out sc_size_t P T 1) @
      tag_out P T ''E'' @ (tag_out P T ''First'' @ string_out P T x) @
      scalar_out sc_int P T 2 @ scalar_out sc_pointer P T a) D {}"
    unfolding load_options_def load_map_def
    by (rule_tac fails_register, rule_tac fails_then_reads [OF reads_tag [OF mData_ok(2)]],
        rule_tac fails_after_reads [OF size_codec.load_out [OF TrueI tags_ok(2)]])
  note this = fails_then_reads [OF reads_tag [OF mData_ok(1)] this]
  note this = fails_then_reads [OF reads_info_base fails_bind [OF this]]
  then show ?thesis by (simp add: load_object_def shared_info_out_def)
qed

definition shared_entry_out :: "platform \<Rightarrow> TraceType \<Rightarrow> string \<Rightarrow> addr \<Rightarrow> string \<Rightarrow> addr \<Rightarrow> string" where
  "shared_entry_out P T k b x a = tag_out P T ''E'' @ (tag_out P T ''First'' @ string_out P T k) @
     scalar_out sc_int P T 2 @ scalar_out sc_pointer P T b @
     string_out P T (registered_name (DInfo [])) @ tag_out P T ''Second'' @ shared_info_out P T x a"

definition shared_out :: "platform \<Rightarrow> TraceType \<Rightarrow> string \<Rightarrow> string \<Rightarrow> addr \<Rightarrow> addr \<Rightarrow> string \<Rightarrow> addr \<Rightarrow>
    info_data \<Rightarrow> string" where
  "shared_out P T k1 k2 a1 a2 x a d = tag_out P T ''mOptions'' @
     (tag_out P T ''size'' @ scalar_out sc_size_t P T 2) @
     options_out P T [(k1, (a1, DInfo [(x, (a, d))]))] @ shared_entry_out P T k2 a2 x a"

lemma registered_name_DInfo: "registered_name (DInfo m) = registered_name (DInfo [])"
  by (simp add: registered_name_def GetDataTypeName_def)

lemma saves_shared_entry:
  assumes "a \<in> A" "b \<notin> A"
  shows "saves (save_options [(k, (b, DInfo [(x, (a, d))]))]) P T A (shared_entry_out P T k b x a)
     (insert b A)"
proof -
  let ?d = "DInfo [(x, (a, d))]"
  have p: "saves (save_pointer (\<lambda>_. save_data ?d) (\<lambda>_. Some (type_id ?d)) ''Second'' (Some (b, ?d)))
      P T A (scalar_out sc_int P T 2 @ scalar_out sc_pointer P T b @
        string_out P T (registered_name ?d) @ tag_out P T ''Second'' @ shared_info_out P T x a)
      (insert b A)"
    using assms by (intro saves_pointer saves_shared_info) auto
  have "saves (save_options [(k, (b, ?d))]) P T A ((tag_out P T ''E'' @ (tag_out P T ''First'' @
      string_out P T k) @ (scalar_out sc_int P T 2 @ scalar_out sc_pointer P T b @
        string_out P T (registered_name ?d) @ tag_out P T ''Second'' @ shared_info_out P T x a)) @ [])
      (insert b A)"
    unfolding save_options.simps save_pair_def fst_conv snd_conv
    by (rule saves_then saves_writes [OF writes_tag] saves_string p saves_ret)+
  then show ?thesis
    by (simp add: shared_entry_out_def registered_name_DInfo [of "[(x, (a, d))]"])
qed

lemma fails_shared_entry:
  assumes "a \<in> D" "b \<notin> D" "string_good T x" "string_good T k"
  shows "fails (load_entry (load_data (Suc n)) ''E'') P T (shared_entry_out P T k b x a) D {b}"
proof -
  have "fails (load_data (Suc n) (prototype (DInfo []))) P T (shared_info_out P T x a) D {}"
    using fails_shared_info [OF assms(1,3)] by (simp add: prototype_def)
  from fails_pointer [where ld = "load_data (Suc n)" and d = "DInfo []", OF this _ assms(2) tags_ok(4)]
  have p: "fails (load_shared_ptr (\<lambda>x. x) Some (load_data (Suc n)) None True ''Second'' None) P T
     (scalar_out sc_int P T 2 @ scalar_out sc_pointer P T b @
        string_out P T (registered_name (DInfo [])) @ tag_out P T ''Second'' @ shared_info_out P T x a)
     D {b}" by simp
  show ?thesis
    unfolding load_entry_def load_pair_def shared_entry_out_def
    by (rule fails_bind, rule fails_then_reads [OF reads_tag [OF tags_ok(1)]],
        rule fails_after_reads [OF string_codec.load_out [OF assms(4) tags_ok(3)]],
        rule fails_bind [OF p])
qed

lemma fails_shared_options:
  assumes "k1 < k2" "distinct [a, a1, a2]" "string_good T x" "string_good T k1" "string_good T k2"
    and "data_good P T d" "data_wf d" "data_addrs d = []" "data_depth d = 0" "1 < n"
  shows "fails (load_options (load_data n) []) P T (shared_out P T k1 k2 a1 a2 x a d) {} {a, a1, a2}"
proof -
  let ?d = "DInfo [(x, (a, d))]"
  obtain n' where n: "n = Suc n'" using assms(10) by (cases n) auto
  have "loads (load_data n (prototype ?d)) P T (data_out P T ?d) {a} (\<lambda>v. data_value v = data_value ?d)"
    using loads_data_options(1) [of P T ?d n] assms by (simp add: smap_wf_def)
  from loads_entry [where d = ?d and ld = "load_data n" and a = a1 and k = k1, OF this]
  have e1: "loads (load_entry (load_data n) ''E'') P T (options_out P T [(k1, (a1, ?d))]) {a1, a}
      (\<lambda>(k', (b, y)). k' = k1 \<and> data_value y = data_value ?d)"
    using assms(2,4) by fastforce
  have e2: "fails (load_entry (load_data n) ''E'') P T (shared_entry_out P T k2 a2 x a) ({} \<union> {a1, a}) {a2}"
    unfolding n using assms(2,3,5) by (intro fails_shared_entry) auto
  have "fails (load_entries (load_entry (load_data n)) (Suc (Suc 0)) []) P T
      (options_out P T [(k1, (a1, ?d))] @ shared_entry_out P T k2 a2 x a) {} ({a2} \<union> {a1, a})"
    unfolding load_entries.simps(2) [of _ "Suc 0"]
  proof (rule fails_after [OF e1])
    fix v :: "string \<times> (addr \<times> info_data)"
    show "fails (case v of (k, v) \<Rightarrow> load_entries (load_entry (load_data n)) (Suc 0) (smap_insert k v []))
        P T (shared_entry_out P T k2 a2 x a) ({} \<union> {a1, a}) {a2}"
      by (cases v) (simp only: prod.case load_entries.simps fails_bind [OF e2])
  qed (use assms(2) in auto)
  moreover have "Suc (Suc 0) = unat (2 :: u64)" "{a2} \<union> {a1, a} = {a, a1, a2}" by auto
  ultimately have entries: "fails (load_entries (load_entry (load_data n)) (unat (2 :: u64)) []) P T
      (options_out P T [(k1, (a1, ?d))] @ shared_entry_out P T k2 a2 x a) {} {a, a1, a2}"
    by (simp only:)
  show ?thesis
    unfolding load_options_def load_map_def shared_out_def
    by (rule fails_register, rule fails_then_reads [OF reads_tag [OF mData_ok(2)]],
        rule fails_after_reads [OF size_codec.load_out [OF TrueI tags_ok(2)]], rule entries)
qed

lemma save_shared:
  assumes "distinct [a, a1, a2]" "data_addrs d = []" "reg_start s" "mSavedPointers s = {}"
  shows "\<exists>t. Info_save [(k1, (a1, DInfo [(x, (a, d))])), (k2, (a2, DInfo [(x, (a, d))]))] s =
      (Inr (), t) \<and> mBuffer t = mBuffer s @ shared_out (mPlatform s) (mTrace s) k1 k2 a1 a2 x a d"
proof -
  let ?d = "DInfo [(x, (a, d))]" and ?P = "mPlatform s" and ?T = "mTrace s"
  have addrs: "{} \<union> set (entries_addrs [(k1, (a1, ?d))]) = {a1, a}" using assms(2) by simp
  have "saves (save_options [(k1, (a1, ?d))]) ?P ?T {} (options_out ?P ?T [(k1, (a1, ?d))])
      ({} \<union> set (entries_addrs [(k1, (a1, ?d))]))"
    by (rule saves_data_options(2)) (use assms(1,2) in auto)
  then have e1: "saves (forE (save_pair save_string (save_pointer save_data (\<lambda>d. Some (type_id d))) ''E'')
      [(k1, Some (a1, ?d))]) ?P ?T {} (options_out ?P ?T [(k1, (a1, ?d))]) {a1, a}"
    unfolding save_options_eq addrs list.map prod.case .
  have e2: "saves (forE (save_pair save_string (save_pointer save_data (\<lambda>d. Some (type_id d))) ''E'')
      [(k2, Some (a2, ?d))]) ?P ?T {a1, a} (shared_entry_out ?P ?T k2 a2 x a) {a2, a1, a}"
    using saves_shared_entry [of a "{a1, a}" a2 k2 x d ?P ?T] assms(1)
    unfolding save_options_eq list.map prod.case by auto
  note both = saves_then [OF e1 e2, folded forE_append, unfolded append_Cons append_Nil]
  note both = saves_then [OF saves_writes [OF size_format.writes_direct
      [where v = 2 and tag = "''size''"]] both]
  note both = saves_then [OF saves_writes [OF writes_tag [where tag = "''mOptions''"]] both]
  let ?s = "s\<lparr>msRegisteredObjects := info_objects, msRegisteredObjectsName := info_names\<rparr>"
  have "reg_ok ?s" by (simp add: reg_ok_def)
  then show ?thesis
    using both RegisterTypes_start [OF assms(3)] assms(4)
    by (simp add: Info_save_def save_map_def thenE_def [of RegisterTypesInSerializer]
        bindE_def [of RegisterTypesInSerializer] saves_def shared_out_def)
qed

lemma scalar_data: "(\<And>m. d \<noteq> DInfo m) \<Longrightarrow> data_wf d \<and> data_addrs d = [] \<and> data_depth d = 0"
  by (cases d) auto

text \<open>
  Property C17. An \<open>Info\<close> made of one \<open>Info\<close> put under two names cannot be sent. The inner one has a single entry,
  a scalar \<open>d\<close>, which its two copies share: saving succeeds, but loading what was saved reads through the
  address of a temporary that is gone (the standard gives that read no meaning). Without the condition that the
  addresses of the entries are distinct the round trip fails.
\<close>

theorem shared_entry_not_loadable:
  assumes "\<And>m. d \<noteq> DInfo m" "data_good P T d" "k1 < k2" "distinct [a, a1, a2]" "string_good T x" "string_good T k1" "string_good T k2"
  shows "\<exists>s. Info_save (Info_Set a2 k2 (DInfo (Info_Set a x (d) Info_new))
        (Info_Set a1 k1 (DInfo (Info_Set a x (d) Info_new)) Info_new)) (StreamSerializer P h T) = (Inr (), s) \<and>
     fst (Info_load Info_new (StreamSerializer_data P h' (GetStringRepresentation s) T)) =
       Inl (UndefinedBehaviour ''dangling pointer'')"
proof -
  let ?s = "StreamSerializer P h T :: info_data ser"
  let ?out = "shared_out P T k1 k2 a1 a2 x a d"
  let ?t = "StreamSerializer_data P h' ?out T :: info_data ser"
  let ?m = "Info_Set a2 k2 (DInfo (Info_Set a x (d) Info_new))
        (Info_Set a1 k1 (DInfo (Info_Set a x (d) Info_new)) Info_new)"
  have m: "?m = [(k1, (a1, DInfo [(x, (a, d))])), (k2, (a2, DInfo [(x, (a, d))]))]"
    using assms(3) by (simp add: Info_Set_def Info_new_def not_less_iff_gr_or_eq)
  have start: "reg_start ?s" "reg_start ?t" "mSavedPointers ?s = {}"
    by (simp_all add: StreamSerializer_def StreamSerializer_data_def reg_start_def)
  obtain s where s: "Info_save ?m ?s = (Inr (), s)" "mBuffer s = ?out"
    using save_shared [OF assms(4) _ start(1,3), of d k1 x k2] scalar_data [OF assms(1)]
    unfolding m by (auto simp: StreamSerializer_def)
  let ?n = "length (mBuffer ?t) + 1"
  let ?t' = "?t\<lparr>msRegisteredObjects := info_objects, msRegisteredObjectsName := info_names\<rparr>"
  have f: "fails (load_options (load_data ?n) []) P T ?out {} {a, a1, a2}"
    using assms(2-7) scalar_data [OF assms(1)] by (intro fails_shared_options)
      (auto simp: StreamSerializer_data_def shared_out_def scalar_out_def sc_size_t_def)
  have t': "mPlatform ?t' = P" "mTrace ?t' = T" "reg_ok ?t'"
    "\<forall>a \<in> {}. mLoadedPointers ?t' a = Some Dangling" "dom (mLoadedPointers ?t') \<inter> {a, a1, a2} = {}"
    "mBuffer ?t' = [] @ ?out @ [nl]"
    by (simp_all add: StreamSerializer_data_def StreamSerializer_def reg_ok_def)
  have "load_options (load_data ?n) [] ?t = load_options (load_data ?n) [] ?t'"
    using RegisterTypes_start [OF start(2)] RegisterTypes_again [OF t'(3)]
    by (simp add: load_options_def thenE_def bindE_def)
  then have "fst (Info_load [] ?t) = Inl (UndefinedBehaviour ''dangling pointer'')"
    using failsD [OF f t'(1-5) _ t'(6)] by (simp add: Info_load_def)
  then show ?thesis using s by (auto simp: GetStringRepresentation_def Info_new_def)
qed

theorem shared_entry_not_loadable_witness:
  "\<exists>s. Info_save (Info_Set 3 ''solid'' (DInfo (Info_Set 1 ''tol'' (DInt 5) Info_new))
        (Info_Set 2 ''fluid'' (DInfo (Info_Set 1 ''tol'' (DInt 5) Info_new)) Info_new))
      (StreamSerializer bits_platform 4 SERIALIZER_NO_TRACE) = (Inr (), s) \<and>
     fst (Info_load Info_new (StreamSerializer_data bits_platform 4 (GetStringRepresentation s)
       SERIALIZER_NO_TRACE)) = Inl (UndefinedBehaviour ''dangling pointer'')"
  by (rule shared_entry_not_loadable) (simp_all add: string_good_def)

end
