(* ===== verification/DataContainer.thy ===== *)
theory DataContainer
  imports SerializerLaws
begin

text \<open>
  \<open>includes/data_container.hpp\<close>: the array interface through which field data is exported and
  imported, over a \<open>std::vector\<close>, over memory that the caller owns through a pointer (grown with
  \<open>realloc\<close>), and the read-only versions of both. The interface is the locale \<open>array_container\<close>;
  loading is proved correct once for it and holds for both writable containers.
\<close>

section \<open>Containers\<close>

text \<open>\<open>DataContainerStdVector\<close> holds a reference to the vector, which is the state.\<close>

definition vector_size :: "'a list \<Rightarrow> nat" where
  "vector_size v = length v"

definition vector_resize :: "'a \<Rightarrow> nat \<Rightarrow> ('a list, unit) cpp" where
  "vector_resize dflt NewSize = modE (vec_resize dflt NewSize)"

definition vector_put :: "nat \<Rightarrow> 'a \<Rightarrow> ('a list, unit) cpp" where
  "vector_put i x = (\<lambda>v. if i < length v then (Inr (), v[i := x])
     else (Inl (UndefinedBehaviour ''data()[i]''), v))"

text \<open>
  \<open>DataContainerRawMemory\<close>: \<open>rm_block\<close> is the memory that \<open>*mppData\<close> points to (\<open>None\<close> for the null
  pointer), as many elements as are allocated. The arithmetic is that of \<open>std::size_t\<close>. The
  allocator is a parameter: \<open>alloc_ok n\<close> says that \<open>realloc\<close> can provide \<open>n\<close> bytes, and \<open>junk\<close> is what
  fresh memory holds; \<open>sz\<close> is \<open>sizeof(TDataType)\<close>.
\<close>

record 'a raw_memory =
  rm_block :: "'a list option"
  mSize :: nat
  mCapacity :: nat

definition RawMemory :: "'a list option \<Rightarrow> nat \<Rightarrow> 'a raw_memory" where
  "RawMemory block Size = \<lparr>rm_block = block, mSize = Size, mCapacity = Size\<rparr>"

definition realloc :: "(nat \<Rightarrow> bool) \<Rightarrow> 'a \<Rightarrow> nat \<Rightarrow> 'a list option \<Rightarrow> nat \<Rightarrow> 'a list option" where
  "realloc alloc_ok junk sz block bytes =
     (if alloc_ok bytes
      then Some (vec_resize junk (bytes div sz) (case block of None \<Rightarrow> [] | Some xs \<Rightarrow> xs))
      else None)"

definition raw_grow :: "(nat \<Rightarrow> bool) \<Rightarrow> 'a \<Rightarrow> nat \<Rightarrow> nat \<Rightarrow> ('a raw_memory, unit) cpp" where
  "raw_grow alloc_ok junk sz NewSize = (\<lambda>r.
     let old = (if mCapacity r = 0 then None else rm_block r);
         cap = max (mCapacity r * 2 mod 2 ^ 64) NewSize;
         new = realloc alloc_ok junk sz old (cap * sz mod 2 ^ 64)
     in (if new = None then Inl (CoSimError ''Error: Memory reallocation failed!'') else Inr (),
         r\<lparr>mCapacity := cap, rm_block := new\<rparr>))"

definition raw_resize :: "(nat \<Rightarrow> bool) \<Rightarrow> 'a \<Rightarrow> nat \<Rightarrow> nat \<Rightarrow> ('a raw_memory, unit) cpp" where
  "raw_resize alloc_ok junk sz NewSize = (\<lambda>r.
     let r0 = r\<lparr>mSize := NewSize\<rparr> in
     if NewSize > mCapacity r0 then raw_grow alloc_ok junk sz NewSize r0 else (Inr (), r0))"

definition raw_put :: "nat \<Rightarrow> 'a \<Rightarrow> ('a raw_memory, unit) cpp" where
  "raw_put i x = (\<lambda>r. case rm_block r of
       Some b \<Rightarrow> (if i < length b then (Inr (), r\<lparr>rm_block := Some (b[i := x])\<rparr>)
                 else (Inl (UndefinedBehaviour ''data()[i]''), r))
     | None \<Rightarrow> (Inl (UndefinedBehaviour ''data()[i]''), r))"

definition raw_elems :: "'a raw_memory \<Rightarrow> 'a list" where
  "raw_elems r = (case rm_block r of None \<Rightarrow> [] | Some b \<Rightarrow> take (mSize r) b)"

text \<open>The operations that the read-only containers refuse.\<close>

definition readonly_resize :: "nat \<Rightarrow> ('c, unit) cpp" where
  "readonly_resize NewSize = throwE (CoSimError ''Error: Resizing of readonly object is not possible!'')"

definition readonly_data :: "('c, 'a list) cpp" where
  "readonly_data = throwE (CoSimError ''Error: Using non-const member of readonly object!'')"

definition readonly_load :: "('c \<times> 'o ser, unit) cpp" where
  "readonly_load = throwE (CoSimError ''Error: Loading a readonly object is not possible!'')"

text \<open>\<open>operator<<\<close>.\<close>

fun show_rest :: "('a \<Rightarrow> string) \<Rightarrow> 'a list \<Rightarrow> string" where
  "show_rest show_elem [] = []"
| "show_rest show_elem (x # xs) = '', '' @ show_elem x @ show_rest show_elem xs"

definition show_container :: "('a \<Rightarrow> string) \<Rightarrow> 'a list \<Rightarrow> string" where
  "show_container show_elem xs = ''['' @
     (case xs of [] \<Rightarrow> [] | x # ys \<Rightarrow> show_elem x @ show_rest show_elem ys) @ '']''"

section \<open>Serialization\<close>

text \<open>
  \<open>DataContainer::save\<close> on the elements of a container, and \<open>load\<close> into a container; the derived
  classes call them through \<open>save_base\<close> and \<open>load_base\<close>. The state is the container and the
  serializer.
\<close>

definition container_save :: "(string \<Rightarrow> 'a \<Rightarrow> ('o ser, unit) cpp) \<Rightarrow> 'a list \<Rightarrow> ('o ser, unit) cpp" where
  "container_save save xs =
     thenE (save_direct sc_size_t ''size'' (word_of_nat (length xs))) (forE (save ''v'') xs)"

definition derived_save :: "(string \<Rightarrow> 'a \<Rightarrow> ('o ser, unit) cpp) \<Rightarrow> 'a list \<Rightarrow> ('o ser, unit) cpp" where
  "derived_save save xs = save_base (container_save save) ''BaseClass'' xs"

definition on_ser :: "('o ser, 'a) cpp \<Rightarrow> ('c \<times> 'o ser, 'a) cpp" where
  "on_ser m = (\<lambda>(c, s). case m s of (r, s') \<Rightarrow> (r, (c, s')))"

definition on_container :: "('c, 'a) cpp \<Rightarrow> ('c \<times> 'o ser, 'a) cpp" where
  "on_container m = (\<lambda>(c, s). case m c of (r, c') \<Rightarrow> (r, (c', s)))"

definition resize_if_needed :: "('c \<Rightarrow> nat) \<Rightarrow> (nat \<Rightarrow> ('c, unit) cpp) \<Rightarrow> nat \<Rightarrow> ('c \<times> 'o ser, unit) cpp" where
  "resize_if_needed len resize n =
     (\<lambda>(c, s). if len c \<noteq> n then on_container (resize n) (c, s) else (Inr (), (c, s)))"

definition container_load :: "('c \<Rightarrow> nat) \<Rightarrow> (nat \<Rightarrow> ('c, unit) cpp) \<Rightarrow> (nat \<Rightarrow> 'a \<Rightarrow> ('c, unit) cpp) \<Rightarrow>
    (string \<Rightarrow> ('o ser, 'a) cpp) \<Rightarrow> ('c \<times> 'o ser, unit) cpp" where
  "container_load len resize put load =
     bindE (on_ser (load_direct sc_size_t ''size'')) (\<lambda>new_size.
     thenE (resize_if_needed len resize (unat new_size))
     (bindE (getE (\<lambda>(c, s). len c)) (\<lambda>n.
       forE (\<lambda>i. bindE (on_ser (load ''v'')) (\<lambda>x. on_container (put i x))) [0..<n])))"

definition derived_load :: "('c \<Rightarrow> nat) \<Rightarrow> (nat \<Rightarrow> ('c, unit) cpp) \<Rightarrow> (nat \<Rightarrow> 'a \<Rightarrow> ('c, unit) cpp) \<Rightarrow>
    (string \<Rightarrow> ('o ser, 'a) cpp) \<Rightarrow> ('c \<times> 'o ser, unit) cpp" where
  "derived_load len resize put load =
     thenE (on_ser (load_trace_point ''BaseClass'')) (container_load len resize put load)"

section \<open>The interface of an array\<close>

text \<open>
  What loading relies on: \<open>resize\<close> gives the asked size and keeps the elements that fit, where
  \<open>fits\<close> is the condition on the size; \<open>put\<close> changes one element.
\<close>

locale array_container =
  fixes elems :: "'c \<Rightarrow> 'a list"
    and len :: "'c \<Rightarrow> nat"
    and resize :: "nat \<Rightarrow> ('c, unit) cpp"
    and put :: "nat \<Rightarrow> 'a \<Rightarrow> ('c, unit) cpp"
    and inv :: "'c \<Rightarrow> bool"
    and fits :: "nat \<Rightarrow> 'c \<Rightarrow> bool"
  assumes len: "inv c \<Longrightarrow> len c = length (elems c)"
    and resize: "inv c \<Longrightarrow> fits n c \<Longrightarrow> \<exists>c'. resize n c = (Inr (), c') \<and> inv c' \<and> length (elems c') = n \<and>
          take (min n (len c)) (elems c') = take n (elems c)"
    and put: "inv c \<Longrightarrow> i < len c \<Longrightarrow> \<exists>c'. put i x c = (Inr (), c') \<and> inv c' \<and> elems c' = (elems c)[i := x]"
begin

lemma resize_ok:
  assumes "inv c" "fits n c"
  obtains c' where "resize n c = (Inr (), c')" "inv c'" "length (elems c') = n"
  using resize [OF assms] by blast

lemma load_loop:
  fixes s :: "'o ser"
  assumes "\<And>v. v \<in> set xs \<Longrightarrow> reads (load ''v'') P T (out v) v"
    and "inv c" "k + length xs = length (elems c)" "mPlatform s = P" "mTrace s = T"
    and "g \<in> {[], gap T}" "mBuffer s = g @ concat (List.map out xs) @ rest"
  shows "\<exists>c' g' n. forE (\<lambda>i. bindE (on_ser (load ''v'')) (\<lambda>x. on_container (put i x)))
      [k..<k + length xs] (c, s) = (Inr (), (c', s\<lparr>mBuffer := g' @ rest, mNumberOfLines := n\<rparr>)) \<and>
      g' \<in> {[], gap T} \<and> inv c' \<and> elems c' = take k (elems c) @ xs"
  using assms
proof (induction xs arbitrary: k c s g)
  case Nil
  then have "s = s\<lparr>mBuffer := g @ rest, mNumberOfLines := mNumberOfLines s\<rparr>" by simp
  with Nil show ?case
    by (intro exI [of _ c] exI [of _ g] exI [of _ "mNumberOfLines s"]) (simp add: retE_def)
next
  case (Cons x xs)
  have "mBuffer s = g @ out x @ (concat (List.map out xs) @ rest)" using Cons.prems(7) by simp
  from readsD [OF Cons.prems(1) [of x] Cons.prems(4-6) this]
  obtain g1 n1 where r: "g1 \<in> {[], gap T}" "load ''v'' s = (Inr x,
      s\<lparr>mBuffer := g1 @ concat (List.map out xs) @ rest, mNumberOfLines := n1\<rparr>)" by auto
  let ?s = "s\<lparr>mBuffer := g1 @ concat (List.map out xs) @ rest, mNumberOfLines := n1\<rparr>"
  have "k < len c" using Cons.prems(2,3) len by simp
  then obtain c1 where c1: "put k x c = (Inr (), c1)" "inv c1" "elems c1 = (elems c)[k := x]"
    using put [OF Cons.prems(2)] by blast
  have "\<exists>c' g' n. forE (\<lambda>i. bindE (on_ser (load ''v'')) (\<lambda>x. on_container (put i x)))
      [Suc k..<Suc k + length xs] (c1, ?s) = (Inr (), (c', ?s\<lparr>mBuffer := g' @ rest, mNumberOfLines := n\<rparr>)) \<and>
      g' \<in> {[], gap T} \<and> inv c' \<and> elems c' = take (Suc k) (elems c1) @ xs"
    using Cons.prems c1 r(1) by (intro Cons.IH [of c1 "Suc k" ?s g1]) auto
  moreover have "[k..<k + length (x # xs)] = k # [Suc k..<Suc k + length xs]"
    by (simp add: upt_conv_Cons del: upt_Suc)
  moreover have "take (Suc k) (elems c1) = take k (elems c) @ [x]"
    using Cons.prems(3) c1(3) by (simp add: take_Suc_conv_app_nth)
  ultimately show ?case
    using c1(1) r(2) by (auto simp: thenE_def bindE_def on_ser_def on_container_def)
qed

lemma load_elems:
  fixes s :: "'o ser"
  assumes "\<And>v. v \<in> set xs \<Longrightarrow> reads (load ''v'') P T (out v) v"
    and "inv c" "fits (length xs) c" "length xs < 2 ^ 64" "mPlatform s = P" "mTrace s = T"
    and "g \<in> {[], gap T}"
    and "mBuffer s = g @ ((tag_out P T ''size'' @ scalar_out sc_size_t P T (word_of_nat (length xs))) @
       concat (List.map out xs)) @ rest"
  shows "\<exists>c' g' n. container_load len resize put load (c, s) =
      (Inr (), (c', s\<lparr>mBuffer := g' @ rest, mNumberOfLines := n\<rparr>)) \<and>
      g' \<in> {[], gap T} \<and> inv c' \<and> elems c' = xs"
proof -
  let ?n = "word_of_nat (length xs) :: u64"
  have n: "unat ?n = length xs" using assms(4) by (simp add: unat_word_of_nat)
  have "mBuffer s = g @ (tag_out P T ''size'' @ scalar_out sc_size_t P T ?n) @
      (concat (List.map out xs) @ rest)" using assms(8) by simp
  from readsD [OF size_codec.load_out [OF TrueI tags_ok(2)] assms(5-7) this]
  obtain g1 n1 where r: "g1 \<in> {[], gap T}" "load_direct sc_size_t ''size'' s = (Inr ?n,
      s\<lparr>mBuffer := g1 @ concat (List.map out xs) @ rest, mNumberOfLines := n1\<rparr>)" by auto
  let ?s = "s\<lparr>mBuffer := g1 @ concat (List.map out xs) @ rest, mNumberOfLines := n1\<rparr>"
  obtain c1 where c1: "resize_if_needed len resize (length xs) (c, ?s) = (Inr (), (c1, ?s))" "inv c1" "length (elems c1) = length xs"
  proof (cases "len c = length xs")
    case True
    then show ?thesis using that [of c] assms(2) len [OF assms(2)] by (simp add: resize_if_needed_def)
  next
    case False
    obtain c1 where "resize (length xs) c = (Inr (), c1)" "inv c1" "length (elems c1) = length xs"
      using resize_ok [OF assms(2,3)] .
    then show ?thesis using that [of c1] False by (simp add: on_container_def resize_if_needed_def)
  qed
  have "\<exists>c' g' n. forE (\<lambda>i. bindE (on_ser (load ''v'')) (\<lambda>x. on_container (put i x)))
      [0..<0 + length xs] (c1, ?s) = (Inr (), (c', ?s\<lparr>mBuffer := g' @ rest, mNumberOfLines := n\<rparr>)) \<and>
      g' \<in> {[], gap T} \<and> inv c' \<and> elems c' = take 0 (elems c1) @ xs"
    using assms(1,5,6) c1 r(1) by (intro load_loop [of xs load P T out c1 0 ?s g1]) auto
  then obtain c' g' n where l: "forE (\<lambda>i. bindE (on_ser (load ''v'')) (\<lambda>x. on_container (put i x)))
      [0..<length xs] (c1, ?s) = (Inr (), (c', ?s\<lparr>mBuffer := g' @ rest, mNumberOfLines := n\<rparr>))"
      "g' \<in> {[], gap T}" "inv c'" "elems c' = xs" by auto
  have "container_load len resize put load (c, s) =
      (Inr (), (c', s\<lparr>mBuffer := g' @ rest, mNumberOfLines := n\<rparr>))"
  proof -
    have "on_ser (load_direct sc_size_t ''size'') (c, s) = (Inr ?n, (c, ?s))"
      using r(2) by (simp add: on_ser_def)
    note step1 = bindE_Inr [of "on_ser (load_direct sc_size_t ''size'')", OF this]
    have "resize_if_needed len resize (unat ?n) (c, ?s) = (Inr (), (c1, ?s))"
      unfolding n by (rule c1(1))
    note step2 = bindE_Inr [of "resize_if_needed len resize (unat ?n)", OF this]
    have "len c1 = length xs" using len [OF c1(2)] c1(3) by simp
    then show ?thesis
      unfolding container_load_def step1 thenE_def step2 using l(1) by (simp add: bindE_def getE_def)
  qed
  then show ?thesis using l by blast
qed

end

section \<open>The containers provide the interface\<close>

interpretation vec: array_container "\<lambda>v. v" vector_size "vector_resize dflt" vector_put
  "\<lambda>_. True" "\<lambda>_ _. True" for dflt
  by unfold_locales
     (auto simp: vector_size_def vector_resize_def vector_put_def modE_def take_vec_resize)

text \<open>
  The memory is at least as large as the capacity says, and the elements fit below it. A size fits
  when the memory for it can be had and neither the bytes nor the doubled capacity overflow.
\<close>

definition raw_inv :: "nat \<Rightarrow> 'a raw_memory \<Rightarrow> bool" where
  "raw_inv sz r \<longleftrightarrow> mSize r \<le> mCapacity r \<and> 0 < sz \<and>
     (case rm_block r of None \<Rightarrow> mCapacity r = 0 | Some b \<Rightarrow> mCapacity r \<le> length b)"

definition raw_fits :: "(nat \<Rightarrow> bool) \<Rightarrow> nat \<Rightarrow> nat \<Rightarrow> 'a raw_memory \<Rightarrow> bool" where
  "raw_fits alloc_ok sz n r \<longleftrightarrow> n \<le> mCapacity r \<or>
     (max (mCapacity r * 2) n * sz < 2 ^ 64 \<and> alloc_ok (max (mCapacity r * 2) n * sz))"

lemma raw_resize_fits:
  assumes "raw_inv sz r" "raw_fits alloc_ok sz n r"
  shows "\<exists>r'. raw_resize alloc_ok junk sz n r = (Inr (), r') \<and> raw_inv sz r' \<and>
     length (raw_elems r') = n \<and> mCapacity r' = (if n \<le> mCapacity r then mCapacity r else max (mCapacity r * 2) n) \<and>
     take (min n (mSize r)) (raw_elems r') = take n (raw_elems r)"
proof (cases "n \<le> mCapacity r")
  case True
  then show ?thesis
    using assms(1) by (auto simp: raw_resize_def raw_inv_def raw_elems_def min_def
        split: option.splits)
next
  case False
  let ?cap = "max (mCapacity r * 2) n"
  have fit: "?cap * sz < 2 ^ 64" "alloc_ok (?cap * sz)" using assms(2) False by (auto simp: raw_fits_def)
  have sz: "0 < sz" using assms(1) by (simp add: raw_inv_def)
  have "mCapacity r * 2 \<le> ?cap * sz" using sz
    by (metis max.cobounded1 mult.commute mult_le_mono nat_mult_1 Suc_leI One_nat_def)
  then have cap: "mCapacity r * 2 mod 2 ^ 64 = mCapacity r * 2" using fit(1) by simp
  let ?old = "case (if mCapacity r = 0 then None else rm_block r) of None \<Rightarrow> [] | Some xs \<Rightarrow> xs"
  let ?r = "r\<lparr>mSize := n, mCapacity := ?cap, rm_block := Some (vec_resize junk ?cap ?old)\<rparr>"
  have sel: "mCapacity (r\<lparr>mSize := n\<rparr>) = mCapacity r" "rm_block (r\<lparr>mSize := n\<rparr>) = rm_block r" by simp_all
  have bytes: "?cap * sz mod 2 ^ 64 = ?cap * sz" using fit(1) by simp
  have "realloc alloc_ok junk sz b (?cap * sz) = Some (vec_resize junk ?cap
      (case b of None \<Rightarrow> [] | Some xs \<Rightarrow> xs))" for b
    using fit(2) sz by (simp add: realloc_def)
  then have "raw_grow alloc_ok junk sz n (r\<lparr>mSize := n\<rparr>) = (Inr (), ?r)"
    unfolding raw_grow_def Let_def sel cap bytes by simp
  then have e: "raw_resize alloc_ok junk sz n r = (Inr (), ?r)"
    using False by (simp add: raw_resize_def)
  have "take (min n (mSize r)) (take n (vec_resize junk ?cap ?old)) = take n (raw_elems r)"
    using assms(1) False
    by (auto simp: raw_inv_def raw_elems_def vec_resize_def min_def split: option.splits)
  then show ?thesis
    using e sz False by (auto simp: raw_inv_def raw_elems_def)
qed

interpretation raw: array_container raw_elems mSize "raw_resize alloc_ok junk sz" raw_put
  "raw_inv sz" "raw_fits alloc_ok sz" for alloc_ok junk sz
proof unfold_locales
  fix c :: "'a raw_memory" and n
  assume "raw_inv sz c" "raw_fits alloc_ok sz n c"
  from raw_resize_fits [OF this, of junk] show "\<exists>c'. raw_resize alloc_ok junk sz n c = (Inr (), c') \<and> raw_inv sz c' \<and>
      length (raw_elems c') = n \<and> take (min n (mSize c)) (raw_elems c') = take n (raw_elems c)"
    by (elim exE conjE) (intro exI conjI)
next
  fix c :: "'a raw_memory" and i x
  assume "raw_inv sz c" "i < mSize c"
  then show "\<exists>c'. raw_put i x c = (Inr (), c') \<and> raw_inv sz c' \<and> raw_elems c' = (raw_elems c)[i := x]"
    by (auto simp: raw_put_def raw_inv_def raw_elems_def take_update_swap split: option.splits)
qed (auto simp: raw_inv_def raw_elems_def split: option.splits)

context array_container
begin

lemma derived_load_ok:
  fixes s :: "'o ser"
  assumes "\<And>v. v \<in> set xs \<Longrightarrow> reads (load ''v'') P T (out v) v"
    and "inv c" "fits (length xs) c" "length xs < 2 ^ 64" "mPlatform s = P" "mTrace s = T"
    and "g \<in> {[], gap T}"
    and "mBuffer s = g @ (tag_out P T ''BaseClass'' @ (tag_out P T ''size'' @
       scalar_out sc_size_t P T (word_of_nat (length xs))) @ concat (List.map out xs)) @ rest"
  shows "\<exists>c' t. derived_load len resize put load (c, s) = (Inr (), (c', t)) \<and> inv c' \<and> elems c' = xs"
proof -
  let ?o = "(tag_out P T ''size'' @ scalar_out sc_size_t P T (word_of_nat (length xs))) @
      concat (List.map out xs)"
  have q: "quote \<notin> set ''BaseClass''" by (simp add: quote_def)
  have "mBuffer s = g @ tag_out P T ''BaseClass'' @ (?o @ rest)" using assms(8) by simp
  from readsD [OF reads_tag [OF q] assms(5-7) this]
  obtain g1 n1 where r: "g1 \<in> {[], gap T}" "load_trace_point ''BaseClass'' s =
      (Inr (), s\<lparr>mBuffer := g1 @ ?o @ rest, mNumberOfLines := n1\<rparr>)" by auto
  let ?s = "s\<lparr>mBuffer := g1 @ ?o @ rest, mNumberOfLines := n1\<rparr>"
  have "\<exists>c' g' n. container_load len resize put load (c, ?s) =
      (Inr (), (c', ?s\<lparr>mBuffer := g' @ rest, mNumberOfLines := n\<rparr>)) \<and>
      g' \<in> {[], gap T} \<and> inv c' \<and> elems c' = xs"
    using assms(1-6) r(1) by (intro load_elems [where P = P and T = T and g = g1 and out = out]) simp_all
  moreover have "on_ser (load_trace_point ''BaseClass'') (c, s) = (Inr (), (c, ?s))"
    using r(2) by (simp add: on_ser_def)
  ultimately show ?thesis
    unfolding derived_load_def thenE_def
      bindE_Inr [of "on_ser (load_trace_point ''BaseClass'')", OF \<open>on_ser _ _ = _\<close>] by blast
qed

end

lemma writes_derived:
  "writes (derived_save (save_direct sc_double) xs) P T (tag_out P T ''BaseClass'' @
     (tag_out P T ''size'' @ scalar_out sc_size_t P T (word_of_nat (length xs))) @
     concat (List.map (\<lambda>v. tag_out P T ''v'' @ scalar_out sc_double P T v) xs))"
  unfolding derived_save_def save_base_def container_save_def
  by (intro writes_then writes_tag size_format.writes_direct writes_forE double_format.writes_direct)

section \<open>Properties\<close>

text \<open>
  Property C12. Field data survives the way through the serializer whatever containers the two sides
  use: doubles saved from any container are loaded, in order and complete, into the raw memory of a
  C caller (grown when it is too small) and into a \<open>std::vector\<close>, in every trace mode.
\<close>

theorem container_roundtrip:
  assumes "length xs < 2 ^ 64" "\<forall>x \<in> set xs. T = SERIALIZER_NO_TRACE \<or> prints_exactly P x"
    and "raw_inv 8 r" "raw_fits alloc_ok 8 (length xs) r"
  shows "\<exists>s r' v' t t'.
     derived_save (save_direct sc_double) xs (StreamSerializer P h T :: 'o ser) = (Inr (), s) \<and>
     derived_load mSize (raw_resize alloc_ok junk 8) raw_put (load_direct sc_double)
       (r, StreamSerializer_data P h' (GetStringRepresentation s) T :: 'o ser) = (Inr (), (r', t)) \<and>
     raw_inv 8 r' \<and> raw_elems r' = xs \<and>
     derived_load vector_size (vector_resize 0) vector_put (load_direct sc_double)
       (v, StreamSerializer_data P h' (GetStringRepresentation s) T :: 'o ser) = (Inr (), (v', t')) \<and>
     v' = xs"
proof -
  let ?out = "\<lambda>v. tag_out P T ''v'' @ scalar_out sc_double P T v"
  let ?o = "tag_out P T ''BaseClass'' @ (tag_out P T ''size'' @
      scalar_out sc_size_t P T (word_of_nat (length xs))) @ concat (List.map ?out xs)"
  let ?s = "(StreamSerializer P h T :: 'o ser)\<lparr>mBuffer := ?o\<rparr>"
  let ?t = "StreamSerializer_data P h' ?o T :: 'o ser"
  have save: "derived_save (save_direct sc_double) xs (StreamSerializer P h T :: 'o ser) = (Inr (), ?s)"
    by (rule writes_stream [OF writes_derived])
  have str: "GetStringRepresentation ?s = ?o" by (simp add: GetStringRepresentation_def)
  have elem: "reads (load_direct sc_double ''v'' :: ('o ser, dbl) cpp) P T (?out x) x" if "x \<in> set xs" for x
    using that assms(2) by (intro double_codec.load_out) (auto simp: quote_def)
  have t: "mPlatform ?t = P" "mTrace ?t = T" "mBuffer ?t = [] @ ?o @ [nl]" "[] \<in> {[], gap T}"
    by (simp_all add: StreamSerializer_data_def StreamSerializer_def)
  have "\<exists>r' t'. derived_load mSize (raw_resize alloc_ok junk 8) raw_put (load_direct sc_double) (r, ?t) =
      (Inr (), (r', t')) \<and> raw_inv 8 r' \<and> raw_elems r' = xs"
    by (rule raw.derived_load_ok [where out = ?out and P = P and T = T and g = "[]" and rest = "[nl]"])
       (rule elem assms(3,4,1) t | assumption)+
  moreover have "\<exists>v' t'. derived_load vector_size (vector_resize 0) vector_put (load_direct sc_double)
      (v, ?t) = (Inr (), (v', t')) \<and> True \<and> v' = xs"
    by (rule vec.derived_load_ok [where out = ?out and P = P and T = T and g = "[]" and rest = "[nl]"])
       (rule elem TrueI assms(1) t | assumption)+
  ultimately show ?thesis using save str by metis
qed

theorem container_roundtrip_witness:
  "\<exists>s r' v' t t'.
     derived_save (save_direct sc_double) [5, 6, 7]
       (StreamSerializer bits_platform 1 SERIALIZER_ASCII :: unit ser) = (Inr (), s) \<and>
     derived_load mSize (raw_resize (\<lambda>n. n < 1000) 0 8) raw_put (load_direct sc_double)
       (RawMemory (Some [1]) 1,
        StreamSerializer_data bits_platform 1 (GetStringRepresentation s) SERIALIZER_ASCII :: unit ser) =
       (Inr (), (r', t)) \<and>
     raw_inv 8 r' \<and> raw_elems r' = [5, 6, 7] \<and>
     derived_load vector_size (vector_resize 0) vector_put (load_direct sc_double)
       ([], StreamSerializer_data bits_platform 1 (GetStringRepresentation s) SERIALIZER_ASCII :: unit ser) =
       (Inr (), (v', t')) \<and>
     v' = [5, 6, 7]"
  by (rule container_roundtrip)
     (simp_all add: bits_platform_exact raw_inv_def raw_fits_def RawMemory_def)

text \<open>
  Property C19. Resizing raw memory behaves like \<open>std::vector\<close>: the elements that fit are kept, the
  capacity never shrinks, at least doubles when it has to grow (to the new size if that is more), and a size
  within the capacity allocates nothing. When \<open>realloc\<close> fails, the error is reported but the object is left
  with the new size and no memory.
\<close>

theorem raw_resize_like_vector:
  assumes "raw_inv sz r"
  shows "(n \<le> mCapacity r \<longrightarrow> raw_resize alloc_ok junk sz n r = (Inr (), r\<lparr>mSize := n\<rparr>)) \<and>
    (raw_fits alloc_ok sz n r \<longrightarrow> (\<exists>r'. raw_resize alloc_ok junk sz n r = (Inr (), r') \<and> raw_inv sz r' \<and>
       length (raw_elems r') = n \<and> mCapacity r' = (if n \<le> mCapacity r then mCapacity r else max (mCapacity r * 2) n) \<and>
       take (min n (mSize r)) (raw_elems r') = take n (raw_elems r))) \<and>
    (mCapacity r < n \<longrightarrow> (\<forall>b. \<not> alloc_ok b) \<longrightarrow>
       (\<exists>r'. raw_resize alloc_ok junk sz n r =
           (Inl (CoSimError ''Error: Memory reallocation failed!''), r') \<and>
         mSize r' = n \<and> rm_block r' = None))"
proof (intro conjI impI)
  show "raw_resize alloc_ok junk sz n r = (Inr (), r\<lparr>mSize := n\<rparr>)" if "n \<le> mCapacity r"
    using that by (simp add: raw_resize_def)
qed (use raw_resize_fits [OF assms] in \<open>auto simp: raw_resize_def raw_grow_def realloc_def Let_def\<close>)

theorem raw_resize_like_vector_witness:
  "\<exists>r'. raw_resize (\<lambda>n. n < 1000) 0 8 3 (RawMemory (Some [4, 5 :: dbl]) 2) = (Inr (), r') \<and> raw_inv 8 r' \<and>
       length (raw_elems r') = 3 \<and> mCapacity r' = 4 \<and> take 2 (raw_elems r') = [4, 5]"
proof -
  have "raw_inv 8 (RawMemory (Some [4, 5 :: dbl]) 2)" by (simp add: raw_inv_def RawMemory_def)
  from raw_resize_like_vector [OF this, of 3 "\<lambda>n. n < 1000" 0]
  show ?thesis by (auto simp: RawMemory_def raw_fits_def raw_elems_def)
qed

end
