(* ===== verification/IndexedVector.thy ===== *)
theory IndexedVector
  imports SerializerLaws
begin

text \<open>
  \<open>IndexedVector\<close> of \<open>includes/model_part.hpp\<close>: a vector with a hash map from identifiers to
  positions. The contract is the locale \<open>indexed\<close>: built by \<open>push_back\<close> with the identifiers of the
  elements, it finds every element under its identifier. It is the container that nodes and
  elements are stored in.
\<close>

record 'a IndexedVector =
  mData :: "'a list"
  mAccessMap :: "id_type \<Rightarrow> nat option"

definition iv_new :: "'a IndexedVector" where
  "iv_new = \<lparr>mData = [], mAccessMap = Map.empty\<rparr>"

definition iv_size :: "'a IndexedVector \<Rightarrow> nat" where
  "iv_size v = length (mData v)"

definition iv_contains :: "'a IndexedVector \<Rightarrow> id_type \<Rightarrow> bool" where
  "iv_contains v I_Id = (mAccessMap v I_Id \<noteq> None)"

text \<open>\<open>find\<close> returns an iterator, that is a position; \<open>end()\<close> is the size.\<close>

definition iv_find :: "'a IndexedVector \<Rightarrow> id_type \<Rightarrow> nat" where
  "iv_find v I_Id = (case mAccessMap v I_Id of None \<Rightarrow> length (mData v) | Some it_index \<Rightarrow> it_index)"

definition iv_deref :: "'a IndexedVector \<Rightarrow> nat \<Rightarrow> error + 'a" where
  "iv_deref v i = (if i < length (mData v) then Inr (mData v ! i)
     else Inl (UndefinedBehaviour ''iterator''))"

definition iv_clear :: "'a IndexedVector \<Rightarrow> 'a IndexedVector" where
  "iv_clear v = v\<lparr>mData := [], mAccessMap := Map.empty\<rparr>"

definition iv_push_back :: "'a \<Rightarrow> id_type \<Rightarrow> 'a IndexedVector \<Rightarrow> 'a IndexedVector" where
  "iv_push_back rData I_Id v =
     (let v1 = v\<lparr>mData := mData v @ [rData]\<rparr>
      in v1\<lparr>mAccessMap := (mAccessMap v1)(I_Id \<mapsto> length (mData v1) - 1)\<rparr>)"

definition ComputeAccessMap :: "('a \<Rightarrow> id_type) \<Rightarrow> 'a IndexedVector \<Rightarrow> 'a IndexedVector" where
  "ComputeAccessMap ident v =
     v\<lparr>mAccessMap := fold (\<lambda>i m. m(ident (mData v ! i) \<mapsto> i)) [0..<length (mData v)] Map.empty\<rparr>"

text \<open>\<open>save\<close> and \<open>load\<close>; those of the elements are arguments.\<close>

definition iv_save :: "(string \<Rightarrow> 'a \<Rightarrow> ('o ser, unit) cpp) \<Rightarrow> 'a IndexedVector \<Rightarrow> ('o ser, unit) cpp" where
  "iv_save save v = save_vector save ''mData'' (mData v)"

definition iv_load :: "(string \<Rightarrow> 'a option \<Rightarrow> ('o ser, 'a option) cpp) \<Rightarrow> ('a \<Rightarrow> id_type) \<Rightarrow>
    'a IndexedVector \<Rightarrow> ('o ser, 'a IndexedVector) cpp" where
  "iv_load load ident v =
     bindE (load_vector load None ''mData'' (List.map Some (mData v))) (\<lambda>d.
       if None \<in> set d then throwE (UndefinedBehaviour ''mData[i]->Id()'')
       else retE (ComputeAccessMap ident (v\<lparr>mData := List.map the d\<rparr>)))"

section \<open>The contract\<close>

locale indexed =
  fixes ident :: "'a \<Rightarrow> 'k"
    and empty :: "'c"
    and push :: "'a \<Rightarrow> 'k \<Rightarrow> 'c \<Rightarrow> 'c"
    and contains :: "'c \<Rightarrow> 'k \<Rightarrow> bool"
    and get :: "'c \<Rightarrow> 'k \<Rightarrow> 'a option"
    and elems :: "'c \<Rightarrow> 'a list"
    and inv :: "'c \<Rightarrow> bool"
  assumes inv_empty: "inv empty"
    and elems_empty: "elems empty = []"
    and inv_push: "inv c \<Longrightarrow> \<not> contains c (ident x) \<Longrightarrow> inv (push x (ident x) c)"
    and elems_push: "elems (push x k c) = elems c @ [x]"
    and contains_elems: "inv c \<Longrightarrow> contains c k \<longleftrightarrow> k \<in> ident ` set (elems c)"
    and get_elems: "inv c \<Longrightarrow> get c k = Some x \<longleftrightarrow> x \<in> set (elems c) \<and> ident x = k"
begin

definition build :: "'a list \<Rightarrow> 'c" where
  "build xs = fold (\<lambda>x. push x (ident x)) xs empty"

lemma elems_fold: "elems (fold (\<lambda>x. push x (ident x)) xs c) = elems c @ xs"
  by (induction xs arbitrary: c) (simp_all add: elems_push)

lemma elems_build [simp]: "elems (build xs) = xs"
  by (simp add: build_def elems_fold elems_empty)

lemma build_Nil [simp]: "build [] = empty"
  by (simp add: build_def)

lemma build_snoc: "build (xs @ [x]) = push x (ident x) (build xs)"
  by (simp add: build_def)

lemma inv_build: "distinct (List.map ident xs) \<Longrightarrow> inv (build xs)"
proof (induction xs rule: rev_induct)
  case (snoc x xs)
  then show ?case by (auto simp: build_snoc contains_elems intro!: inv_push)
qed (simp add: inv_empty)

lemma contains_build: "distinct (List.map ident xs) \<Longrightarrow> contains (build xs) k \<longleftrightarrow> k \<in> ident ` set xs"
  by (simp add: inv_build contains_elems)

lemma get_build:
  "distinct (List.map ident xs) \<Longrightarrow> get (build xs) k = Some x \<longleftrightarrow> x \<in> set xs \<and> ident x = k"
  by (simp add: inv_build get_elems)

lemma get_build_None:
  assumes "distinct (List.map ident xs)"
  shows "get (build xs) k = None \<longleftrightarrow> k \<notin> ident ` set xs"
proof (cases "get (build xs) k")
  case None
  then show ?thesis using get_build [OF assms, of k] by fastforce
next
  case (Some x)
  then show ?thesis using get_build [OF assms, of k x] by auto
qed

end

definition iv_get :: "'a IndexedVector \<Rightarrow> id_type \<Rightarrow> 'a option" where
  "iv_get v I_Id = (let it = iv_find v I_Id in if it = length (mData v) then None else Some (mData v ! it))"

definition iv_inv :: "('a \<Rightarrow> id_type) \<Rightarrow> 'a IndexedVector \<Rightarrow> bool" where
  "iv_inv ident v \<longleftrightarrow> (\<forall>i < length (mData v). mAccessMap v (ident (mData v ! i)) = Some i) \<and>
     (\<forall>k i. mAccessMap v k = Some i \<longrightarrow> i < length (mData v) \<and> ident (mData v ! i) = k)"

lemma iv_inv_push:
  assumes "iv_inv ident v" "mAccessMap v (ident x) = None"
  shows "iv_inv ident (iv_push_back x (ident x) v)"
proof -
  have "mAccessMap v (ident (mData v ! i)) = Some i \<and> ident (mData v ! i) \<noteq> ident x"
    if "i < length (mData v)" for i
    using assms that unfolding iv_inv_def by (metis option.distinct(1))
  then show ?thesis
    using assms(1) by (auto simp: iv_inv_def iv_push_back_def nth_append less_Suc_eq)
qed

lemma iv_inv_contains:
  assumes "iv_inv ident v"
  shows "mAccessMap v k \<noteq> None \<longleftrightarrow> k \<in> ident ` set (mData v)"
proof
  assume "mAccessMap v k \<noteq> None"
  then obtain i where "mAccessMap v k = Some i" by blast
  with assms have "i < length (mData v)" "ident (mData v ! i) = k" by (auto simp: iv_inv_def)
  then show "k \<in> ident ` set (mData v)" by (metis imageI nth_mem)
next
  assume "k \<in> ident ` set (mData v)"
  then obtain i where "i < length (mData v)" "k = ident (mData v ! i)" by (auto simp: in_set_conv_nth)
  with assms show "mAccessMap v k \<noteq> None" by (simp add: iv_inv_def)
qed

lemma iv_inv_get:
  assumes "iv_inv ident v"
  shows "iv_get v k = Some x \<longleftrightarrow> x \<in> set (mData v) \<and> ident x = k"
proof (cases "mAccessMap v k")
  case None
  then have "k \<notin> ident ` set (mData v)" using iv_inv_contains [OF assms, of k] by simp
  then show ?thesis using None by (auto simp: iv_get_def iv_find_def)
next
  case (Some i)
  with assms have i: "i < length (mData v)" "ident (mData v ! i) = k" by (auto simp: iv_inv_def)
  have "x = mData v ! i" if x: "x \<in> set (mData v)" "ident x = k" for x
  proof -
    obtain j where "j < length (mData v)" "x = mData v ! j" using x(1) by (auto simp: in_set_conv_nth)
    with assms x(2) Some show ?thesis by (auto simp: iv_inv_def)
  qed
  then show ?thesis using i Some by (auto simp: iv_get_def iv_find_def Let_def)
qed

interpretation iv: indexed ident iv_new iv_push_back iv_contains iv_get mData "iv_inv ident"
  for ident :: "'a \<Rightarrow> id_type"
proof unfold_locales
  fix c :: "'a IndexedVector" and x
  assume "iv_inv ident c" "\<not> iv_contains c (ident x)"
  then show "iv_inv ident (iv_push_back x (ident x) c)" by (simp add: iv_inv_push iv_contains_def)
next
  show "iv_inv ident (iv_new :: 'a IndexedVector)" by (simp add: iv_inv_def iv_new_def)
qed (simp_all add: iv_new_def iv_push_back_def iv_contains_def iv_inv_contains [simplified] iv_inv_get)

lemma ComputeAccessMap_inv:
  assumes "distinct (List.map ident (mData v))"
  shows "iv_inv ident (ComputeAccessMap ident v) \<and> mData (ComputeAccessMap ident v) = mData v"
proof -
  let ?m = "\<lambda>n. fold (\<lambda>i m. m(ident (mData v ! i) \<mapsto> i)) [0..<n] Map.empty"
  have "(\<forall>i < n. ?m n (ident (mData v ! i)) = Some i) \<and>
      (\<forall>k i. ?m n k = Some i \<longrightarrow> i < n \<and> ident (mData v ! i) = k)" if "n \<le> length (mData v)" for n
    using that
  proof (induction n)
    case (Suc n)
    have "ident (mData v ! i) \<noteq> ident (mData v ! n)" if "i < n" for i
      using nth_eq_iff_index_eq [OF assms, of i n] that Suc.prems by simp
    with Suc show ?case by (auto simp: less_Suc_eq)
  qed simp
  from this [OF order_refl] show ?thesis by (simp add: ComputeAccessMap_def iv_inv_def)
qed

lemma iv_inv_ext:
  assumes "iv_inv ident v" "iv_inv ident w" "mData v = mData w"
  shows "v = w"
proof -
  have "mAccessMap v k = mAccessMap w k" for k
  proof (cases "mAccessMap v k")
    case None
    then show ?thesis using iv_inv_contains [OF assms(1), of k] iv_inv_contains [OF assms(2), of k] assms(3)
      by simp
  next
    case (Some i)
    then have i: "i < length (mData v)" "ident (mData v ! i) = k" using assms(1) by (auto simp: iv_inv_def)
    have "mAccessMap w (ident (mData w ! i)) = Some i"
      using assms(2) i(1) unfolding assms(3) iv_inv_def by blast
    then show ?thesis using i(2) Some assms(3) by simp
  qed
  then show ?thesis using assms(3) by (cases v; cases w) (simp add: fun_eq_iff)
qed

text \<open>Rebuilding the access map after loading gives the vector that \<open>push_back\<close> would have built.\<close>

lemma ComputeAccessMap_build:
  "distinct (List.map ident (mData v)) \<Longrightarrow> ComputeAccessMap ident v = iv.build ident (mData v)"
  by (rule iv_inv_ext [of ident]) (simp_all add: ComputeAccessMap_inv iv.inv_build)

end
