(* ===== verification/ModelPart.thy ===== *)
theory ModelPart
  imports IndexedVector
begin

text \<open>
  \<open>includes/model_part.hpp\<close> and \<open>sources/model_part.cpp\<close>: meshes. A \<open>ModelPart\<close> owns its nodes and
  elements and keeps further parts that share them: the local nodes, the ghost nodes, and one part
  for each partition that ghost nodes belong to. Nodes and elements never change after their
  construction, so a reference-counted pointer to one is its address with the object.

  The state of an operation is the part and the address that the next \<open>new\<close> returns.
\<close>

section \<open>Nodes and elements\<close>

record Node =
  n_Id :: id_type
  n_X :: dbl
  n_Y :: dbl
  n_Z :: dbl

type_synonym node_ptr = "addr \<times> Node"

record Element =
  e_Id :: id_type
  e_Type :: ElementType
  e_Nodes :: "node_ptr list"

type_synonym element_ptr = "addr \<times> Element"

definition new_Node :: "id_type \<Rightarrow> dbl \<Rightarrow> dbl \<Rightarrow> dbl \<Rightarrow> error + Node" where
  "new_Node I_Id I_X I_Y I_Z =
     (if sint I_Id < 1 then Inl (CoSimError ''Error: Id must be >= 1!'')
      else Inr \<lparr>n_Id = I_Id, n_X = I_X, n_Y = I_Y, n_Z = I_Z\<rparr>)"

definition check_element :: "id_type \<Rightarrow> ElementType \<Rightarrow> nat \<Rightarrow> error + unit" where
  "check_element I_Id I_Type NumberOfNodes =
     (if sint I_Id < 1 then Inl (CoSimError ''Error: Id must be >= 1!'')
      else if NumberOfNodes < 1 then Inl (CoSimError ''Error: No nodes were passed!'')
      else bindR (GetNumberOfNodesForElementType I_Type) (\<lambda>num_nodes_elem_type.
        if num_nodes_elem_type \<noteq> NumberOfNodes
        then Inl (CoSimError (''Error: Number of nodes ('' @ show_nat NumberOfNodes @
               '') does not match expected number for element type ('' @
               show_nat num_nodes_elem_type @ '')!''))
        else Inr ()))"

definition new_Element :: "id_type \<Rightarrow> ElementType \<Rightarrow> node_ptr list \<Rightarrow> error + Element" where
  "new_Element I_Id I_Type I_Nodes =
     bindR (check_element I_Id I_Type (length I_Nodes)) (\<lambda>_.
       Inr \<lparr>e_Id = I_Id, e_Type = I_Type, e_Nodes = I_Nodes\<rparr>)"

definition node_id :: "node_ptr \<Rightarrow> id_type" where
  "node_id p = n_Id (snd p)"

definition element_id :: "element_ptr \<Rightarrow> id_type" where
  "element_id p = e_Id (snd p)"

definition Node_Print :: "(dbl \<Rightarrow> string) \<Rightarrow> Node \<Rightarrow> string" where
  "Node_Print show_dbl n = ''CoSimIO-Node; Id: '' @ show_int (sint (n_Id n)) @ [nl] @
     ''    Coordinates: [ '' @ show_dbl (n_X n) @ '' | '' @ show_dbl (n_Y n) @ '' | '' @
     show_dbl (n_Z n) @ '' ]'' @ [nl]"

fun show_ids :: "node_ptr list \<Rightarrow> string" where
  "show_ids [] = []"
| "show_ids (n # ns) = '', '' @ show_int (sint (node_id n)) @ show_ids ns"

definition Element_Print :: "Element \<Rightarrow> string" where
  "Element_Print e = ''CoSimIO-Element; Id: '' @ show_int (sint (e_Id e)) @ [nl] @
     ''    Number of Nodes: '' @ show_nat (length (e_Nodes e)) @ [nl] @ ''    Node Ids: '' @
     (case e_Nodes e of [] \<Rightarrow> [] | n # ns \<Rightarrow> show_int (sint (node_id n)) @ show_ids ns) @ [nl]"

section \<open>Model parts\<close>

datatype model_part = ModelPart
  (mName: string)
  (mNodes: "node_ptr IndexedVector")
  (mElements: "element_ptr IndexedVector")
  (mpLocalModelPart: "(addr \<times> model_part) option")
  (mpGhostModelPart: "(addr \<times> model_part) option")
  (mPartitionModelParts: "(i32 \<times> (addr \<times> model_part)) list")

fun set_nodes :: "node_ptr IndexedVector \<Rightarrow> model_part \<Rightarrow> model_part" where
  "set_nodes v (ModelPart nm ns es l g ps) = ModelPart nm v es l g ps"

fun set_elements :: "element_ptr IndexedVector \<Rightarrow> model_part \<Rightarrow> model_part" where
  "set_elements v (ModelPart nm ns es l g ps) = ModelPart nm ns v l g ps"

fun set_local :: "(addr \<times> model_part) option \<Rightarrow> model_part \<Rightarrow> model_part" where
  "set_local x (ModelPart nm ns es l g ps) = ModelPart nm ns es x g ps"

fun set_ghost :: "(addr \<times> model_part) option \<Rightarrow> model_part \<Rightarrow> model_part" where
  "set_ghost x (ModelPart nm ns es l g ps) = ModelPart nm ns es l x ps"

fun set_partitions :: "(i32 \<times> (addr \<times> model_part)) list \<Rightarrow> model_part \<Rightarrow> model_part" where
  "set_partitions x (ModelPart nm ns es l g ps) = ModelPart nm ns es l g x"

lemma model_part_updates [simp]:
  "mName (set_nodes v mp) = mName mp" "mNodes (set_nodes v mp) = v"
  "mElements (set_nodes v mp) = mElements mp" "mpLocalModelPart (set_nodes v mp) = mpLocalModelPart mp"
  "mpGhostModelPart (set_nodes v mp) = mpGhostModelPart mp"
  "mPartitionModelParts (set_nodes v mp) = mPartitionModelParts mp"
  "mName (set_elements w mp) = mName mp" "mNodes (set_elements w mp) = mNodes mp"
  "mElements (set_elements w mp) = w" "mpLocalModelPart (set_elements w mp) = mpLocalModelPart mp"
  "mpGhostModelPart (set_elements w mp) = mpGhostModelPart mp"
  "mPartitionModelParts (set_elements w mp) = mPartitionModelParts mp"
  "mName (set_local x mp) = mName mp" "mNodes (set_local x mp) = mNodes mp"
  "mElements (set_local x mp) = mElements mp" "mpLocalModelPart (set_local x mp) = x"
  "mpGhostModelPart (set_local x mp) = mpGhostModelPart mp"
  "mPartitionModelParts (set_local x mp) = mPartitionModelParts mp"
  "mName (set_ghost x mp) = mName mp" "mNodes (set_ghost x mp) = mNodes mp"
  "mElements (set_ghost x mp) = mElements mp" "mpLocalModelPart (set_ghost x mp) = mpLocalModelPart mp"
  "mpGhostModelPart (set_ghost x mp) = x"
  "mPartitionModelParts (set_ghost x mp) = mPartitionModelParts mp"
  "mName (set_partitions y mp) = mName mp" "mNodes (set_partitions y mp) = mNodes mp"
  "mElements (set_partitions y mp) = mElements mp"
  "mpLocalModelPart (set_partitions y mp) = mpLocalModelPart mp"
  "mpGhostModelPart (set_partitions y mp) = mpGhostModelPart mp"
  "mPartitionModelParts (set_partitions y mp) = y"
  by (cases mp; simp)+

type_synonym 'a part_op = "(model_part \<times> addr, 'a) cpp"

text \<open>\<open>new\<close>, and access to the part.\<close>

definition alloc :: "addr part_op" where
  "alloc = (\<lambda>(mp, h). (Inr h, (mp, h + 1)))"

definition update :: "(model_part \<Rightarrow> model_part) \<Rightarrow> unit part_op" where
  "update f = modE (\<lambda>(mp, h). (f mp, h))"

definition this :: "(model_part \<Rightarrow> 'a) \<Rightarrow> 'a part_op" where
  "this f = getE (\<lambda>(mp, h). f mp)"

section \<open>Construction\<close>

definition empty_part :: "string \<Rightarrow> model_part" where
  "empty_part nm = ModelPart nm iv_new iv_new None None []"

text \<open>
  The constructors: \<open>InitializeInternalModelParts\<close> creates the parts \<open>local\<close> and \<open>ghost\<close>, which have no
  internal parts themselves. Creating a part is a computation on the allocator alone.
\<close>

definition check_name :: "string \<Rightarrow> error + unit" where
  "check_name I_Name =
     (if I_Name = [] then
        Inl (CoSimError (''Error: Please don't use empty names ('' @ dq [] @
          '') when creating a ModelPart''))
      else if has_char I_Name (CHR ''.'') then
        Inl (CoSimError (''Error: Please don't use names containing ('' @ dq ''.'' @
          '') when creating a ModelPart (used in '' @ dq I_Name @ '')''))
      else Inr ())"

definition InitializeInternalModelParts :: "unit part_op" where
  "InitializeInternalModelParts =
     bindE alloc (\<lambda>a. thenE (update (set_local (Some (a, empty_part ''local''))))
       (bindE alloc (\<lambda>b. update (set_ghost (Some (b, empty_part ''ghost''))))))"

definition new_ModelPart :: "string \<Rightarrow> (addr, model_part) cpp" where
  "new_ModelPart I_Name = (\<lambda>h. case check_name I_Name of
       Inl e \<Rightarrow> (Inl e, h)
     | Inr _ \<Rightarrow> (case InitializeInternalModelParts (empty_part I_Name, h) of
                  (Inl e, (_, h')) \<Rightarrow> (Inl e, h') | (Inr _, (mp, h')) \<Rightarrow> (Inr mp, h')))"

section \<open>Access\<close>

definition NumberOfNodes :: "model_part \<Rightarrow> nat" where
  "NumberOfNodes mp = iv_size (mNodes mp)"

definition NumberOfElements :: "model_part \<Rightarrow> nat" where
  "NumberOfElements mp = iv_size (mElements mp)"

definition internal_error :: error where
  "internal_error = CoSimError ''Error: Internal ModelPart, access is not allowed!''"

definition GetLocalModelPart :: "model_part \<Rightarrow> error + model_part" where
  "GetLocalModelPart mp =
     (case mpLocalModelPart mp of None \<Rightarrow> Inl internal_error | Some (a, l) \<Rightarrow> Inr l)"

definition GetGhostModelPart :: "model_part \<Rightarrow> error + model_part" where
  "GetGhostModelPart mp =
     (case mpGhostModelPart mp of None \<Rightarrow> Inl internal_error | Some (a, g) \<Rightarrow> Inr g)"

definition NumberOfLocalNodes :: "model_part \<Rightarrow> error + nat" where
  "NumberOfLocalNodes mp = bindR (GetLocalModelPart mp) (\<lambda>l. Inr (NumberOfNodes l))"

definition NumberOfGhostNodes :: "model_part \<Rightarrow> error + nat" where
  "NumberOfGhostNodes mp = bindR (GetGhostModelPart mp) (\<lambda>g. Inr (NumberOfNodes g))"

definition HasNode :: "model_part \<Rightarrow> id_type \<Rightarrow> bool" where
  "HasNode mp I_Id = iv_contains (mNodes mp) I_Id"

definition HasElement :: "model_part \<Rightarrow> id_type \<Rightarrow> bool" where
  "HasElement mp I_Id = iv_contains (mElements mp) I_Id"

definition node_missing :: "id_type \<Rightarrow> error" where
  "node_missing I_Id = CoSimError (''Error: Node with Id '' @ show_int (sint I_Id) @ '' does not exist!'')"

definition element_missing :: "id_type \<Rightarrow> error" where
  "element_missing I_Id = CoSimError (''Error: Element with Id '' @ show_int (sint I_Id) @
     '' does not exist!'')"

definition pGetNode :: "model_part \<Rightarrow> id_type \<Rightarrow> error + node_ptr" where
  "pGetNode mp I_Id =
     (let it_node = iv_find (mNodes mp) I_Id in
      if it_node = iv_size (mNodes mp)
      then Inl (node_missing I_Id)
      else iv_deref (mNodes mp) it_node)"

definition GetNode :: "model_part \<Rightarrow> id_type \<Rightarrow> error + Node" where
  "GetNode mp I_Id = bindR (pGetNode mp I_Id) (\<lambda>p. Inr (snd p))"

definition pGetElement :: "model_part \<Rightarrow> id_type \<Rightarrow> error + element_ptr" where
  "pGetElement mp I_Id =
     (let it_elem = iv_find (mElements mp) I_Id in
      if it_elem = iv_size (mElements mp)
      then Inl (element_missing I_Id)
      else iv_deref (mElements mp) it_elem)"

definition GetElement :: "model_part \<Rightarrow> id_type \<Rightarrow> error + Element" where
  "GetElement mp I_Id = bindR (pGetElement mp I_Id) (\<lambda>p. Inr (snd p))"

definition GetPartitionModelPart_const :: "model_part \<Rightarrow> i32 \<Rightarrow> error + model_part" where
  "GetPartitionModelPart_const mp PartitionIndex =
     (case map_of (mPartitionModelParts mp) PartitionIndex of
        Some (a, p) \<Rightarrow> Inr p
      | None \<Rightarrow> Inl (CoSimError (''Error: No ModelPart exists for partition index '' @
          show_int (sint PartitionIndex) @ '' and cannot be created in a const function!'')))"

definition ModelPart_Print :: "model_part \<Rightarrow> string" where
  "ModelPart_Print mp = ''CoSimIO-ModelPart '' @ dq (mName mp) @ [nl] @
     ''    Number of Nodes: '' @ show_nat (NumberOfNodes mp) @ [nl] @
     ''    Number of Elements: '' @ show_nat (NumberOfElements mp) @ [nl]"

section \<open>Changing a part\<close>

definition push_node :: "node_ptr \<Rightarrow> model_part \<Rightarrow> model_part" where
  "push_node p mp = set_nodes (iv_push_back p (node_id p) (mNodes mp)) mp"

definition push_element :: "element_ptr \<Rightarrow> model_part \<Rightarrow> model_part" where
  "push_element p mp = set_elements (iv_push_back p (element_id p) (mElements mp)) mp"

text \<open>\<open>GetLocalModelPart()\<close> and \<open>GetGhostModelPart()\<close> as references that are changed through.\<close>

definition in_local :: "(model_part \<Rightarrow> model_part) \<Rightarrow> unit part_op" where
  "in_local f = bindE (this mpLocalModelPart) (\<lambda>l. case l of
       None \<Rightarrow> throwE internal_error
     | Some (a, p) \<Rightarrow> update (set_local (Some (a, f p))))"

definition in_ghost :: "(model_part \<Rightarrow> model_part) \<Rightarrow> unit part_op" where
  "in_ghost f = bindE (this mpGhostModelPart) (\<lambda>g. case g of
       None \<Rightarrow> throwE internal_error
     | Some (a, p) \<Rightarrow> update (set_ghost (Some (a, f p))))"

text \<open>
  \<open>GetPartitionModelPart\<close> creates the part when it is not there (with its own internal parts, which
  stay empty), and the caller changes it through the reference.
\<close>

fun update_partition :: "i32 \<Rightarrow> (model_part \<Rightarrow> model_part) \<Rightarrow>
    (i32 \<times> (addr \<times> model_part)) list \<Rightarrow> (i32 \<times> (addr \<times> model_part)) list" where
  "update_partition i f [] = []"
| "update_partition i f ((j, (a, p)) # ps) =
     (if i = j then (j, (a, f p)) # ps else (j, (a, p)) # update_partition i f ps)"

definition on_heap :: "(addr, 'a) cpp \<Rightarrow> 'a part_op" where
  "on_heap m = (\<lambda>(mp, h). case m h of (r, h') \<Rightarrow> (r, (mp, h')))"

definition GetPartitionModelPart :: "i32 \<Rightarrow> unit part_op" where
  "GetPartitionModelPart PartitionIndex =
     bindE (this mPartitionModelParts) (\<lambda>ps.
       if map_of ps PartitionIndex \<noteq> None then retE ()
       else bindE alloc (\<lambda>a. bindE (on_heap (new_ModelPart (show_int (sint PartitionIndex)))) (\<lambda>p.
              update (set_partitions (ps @ [(PartitionIndex, (a, p))])))))"

definition in_partition :: "i32 \<Rightarrow> (model_part \<Rightarrow> model_part) \<Rightarrow> unit part_op" where
  "in_partition i f = thenE (GetPartitionModelPart i)
     (update (\<lambda>mp. set_partitions (update_partition i f (mPartitionModelParts mp)) mp))"

definition node_exists :: "id_type \<Rightarrow> error" where
  "node_exists I_Id = CoSimError (''Error: The Node with Id '' @ show_int (sint I_Id) @
     '' exists already!'')"

definition CreateNewNode :: "id_type \<Rightarrow> dbl \<Rightarrow> dbl \<Rightarrow> dbl \<Rightarrow> node_ptr part_op" where
  "CreateNewNode I_Id I_X I_Y I_Z =
     bindE (this (\<lambda>mp. HasNode mp I_Id)) (\<lambda>has.
     thenE (checkE has (node_exists I_Id))
     (bindE (liftE (new_Node I_Id I_X I_Y I_Z)) (\<lambda>node.
     (bindE alloc (\<lambda>a.
     thenE (update (push_node (a, node)))
     (thenE (in_local (push_node (a, node)))
     (retE (a, node))))))))"

definition CreateNewGhostNode :: "id_type \<Rightarrow> dbl \<Rightarrow> dbl \<Rightarrow> dbl \<Rightarrow> i32 \<Rightarrow> node_ptr part_op" where
  "CreateNewGhostNode I_Id I_X I_Y I_Z PartitionIndex =
     bindE (this (\<lambda>mp. HasNode mp I_Id)) (\<lambda>has.
     thenE (checkE has (node_exists I_Id))
     (thenE (checkE (sint PartitionIndex < 0) (CoSimError ''Error: PartitionIndex must be >= 0!''))
     (bindE (liftE (new_Node I_Id I_X I_Y I_Z)) (\<lambda>node.
     (bindE alloc (\<lambda>a.
     thenE (update (push_node (a, node)))
     (thenE (in_ghost (push_node (a, node)))
     (thenE (in_partition PartitionIndex (push_node (a, node)))
     (retE (a, node))))))))))"

definition element_exists :: "id_type \<Rightarrow> error" where
  "element_exists I_Id = CoSimError (''Error: The Element with Id '' @ show_int (sint I_Id) @
     '' exists already!'')"

definition lookup_nodes :: "id_type list \<Rightarrow> node_ptr list part_op" where
  "lookup_nodes I_Connectivities =
     mapE (\<lambda>node_id. bindE (this (\<lambda>mp. pGetNode mp node_id)) liftE) I_Connectivities"

definition CreateNewElement :: "id_type \<Rightarrow> ElementType \<Rightarrow> id_type list \<Rightarrow> element_ptr part_op" where
  "CreateNewElement I_Id I_Type I_Connectivities =
     bindE (this (\<lambda>mp. HasElement mp I_Id)) (\<lambda>has.
     thenE (checkE has (element_exists I_Id))
     (bindE (lookup_nodes I_Connectivities) (\<lambda>nodes.
     (bindE (liftE (new_Element I_Id I_Type nodes)) (\<lambda>element.
     (bindE alloc (\<lambda>a.
     thenE (update (push_element (a, element)))
     (thenE (in_local (push_element (a, element)))
     (retE (a, element))))))))))"

text \<open>
  The bulk versions. \<open>reserve\<close> changes capacities only, but the calls of \<open>GetLocalModelPart\<close> for it
  check that the part has internal parts.
\<close>

definition check_local :: "unit part_op" where
  "check_local = bindE (this GetLocalModelPart) (\<lambda>r. bindE (liftE r) (\<lambda>_. retE ()))"

definition check_ghost :: "unit part_op" where
  "check_ghost = bindE (this GetGhostModelPart) (\<lambda>r. bindE (liftE r) (\<lambda>_. retE ()))"

definition discard :: "'a part_op \<Rightarrow> unit part_op" where
  "discard m = bindE m (\<lambda>_. retE ())"

definition check_coordinates :: "nat \<Rightarrow> dbl list \<Rightarrow> dbl list \<Rightarrow> dbl list \<Rightarrow> unit part_op" where
  "check_coordinates n I_X I_Y I_Z =
     thenE (checkE (n \<noteq> length I_X) (CoSimError ''Error: Wrong number of X-Coordinates!''))
     (thenE (checkE (n \<noteq> length I_Y) (CoSimError ''Error: Wrong number of Y-Coordinates!''))
     (checkE (n \<noteq> length I_Z) (CoSimError ''Error: Wrong number of Z-Coordinates!'')))"

definition CreateNewNodes :: "id_type list \<Rightarrow> dbl list \<Rightarrow> dbl list \<Rightarrow> dbl list \<Rightarrow> unit part_op" where
  "CreateNewNodes I_Id I_X I_Y I_Z =
     thenE (check_coordinates (length I_Id) I_X I_Y I_Z)
     (thenE check_local
     (forE (\<lambda>i. discard (CreateNewNode (I_Id ! i) (I_X ! i) (I_Y ! i) (I_Z ! i))) [0..<length I_Id]))"

definition CreateNewGhostNodes :: "id_type list \<Rightarrow> dbl list \<Rightarrow> dbl list \<Rightarrow> dbl list \<Rightarrow> i32 list \<Rightarrow>
    unit part_op" where
  "CreateNewGhostNodes I_Id I_X I_Y I_Z PartitionIndex =
     thenE (check_coordinates (length I_Id) I_X I_Y I_Z)
     (thenE (checkE (length I_Id \<noteq> length PartitionIndex)
              (CoSimError ''Error: Wrong number of partition indices!''))
     (thenE check_ghost
     (forE (\<lambda>i. discard (CreateNewGhostNode (I_Id ! i) (I_X ! i) (I_Y ! i) (I_Z ! i)
                 (PartitionIndex ! i))) [0..<length I_Id])))"

fun expected_connectivities :: "ElementType list \<Rightarrow> error + nat" where
  "expected_connectivities [] = Inr 0"
| "expected_connectivities (t # ts) =
     bindR (GetNumberOfNodesForElementType t) (\<lambda>n. bindR (expected_connectivities ts) (\<lambda>m. Inr (n + m)))"

fun create_elements :: "(id_type \<times> ElementType) list \<Rightarrow> id_type list \<Rightarrow> nat \<Rightarrow> unit part_op" where
  "create_elements [] I_Connectivities conn_counter = retE ()"
| "create_elements ((I_Id, I_Type) # rest) I_Connectivities conn_counter =
     bindE (liftE (GetNumberOfNodesForElementType I_Type)) (\<lambda>num_nodes.
     thenE (discard (CreateNewElement I_Id I_Type (take num_nodes (drop conn_counter I_Connectivities))))
       (create_elements rest I_Connectivities (conn_counter + num_nodes)))"

definition CreateNewElements :: "id_type list \<Rightarrow> ElementType list \<Rightarrow> id_type list \<Rightarrow> unit part_op" where
  "CreateNewElements I_Id I_Type I_Connectivities =
     thenE (checkE (length I_Id \<noteq> length I_Type) (CoSimError ''Error: Wrong number of Types!''))
     (bindE (liftE (expected_connectivities I_Type)) (\<lambda>exp_num_connectivities.
     thenE (checkE (exp_num_connectivities \<noteq> length I_Connectivities)
        (CoSimError (''Error: Wrong number of Connectivities! Expected: '' @
          show_nat exp_num_connectivities @ '' but got '' @ show_nat (length I_Connectivities))))
     (thenE check_local
       (create_elements (zip I_Id I_Type) I_Connectivities 0))))"

definition Clear :: "unit part_op" where
  "Clear = thenE InitializeInternalModelParts
     (update (\<lambda>mp. set_nodes (iv_clear (mNodes mp)) (set_elements (iv_clear (mElements mp))
        (set_partitions [] mp))))"

end
