(* ===== verification/ModelPartLaws.thy ===== *)
theory ModelPartLaws
  imports ModelPart
begin

text \<open>
  What a \<open>ModelPart\<close> promises, as a refinement: whatever operations built it, it stands for a mesh,
  a list of nodes with their owners (local, or the partition of a ghost) and a list of elements.
  The invariant \<open>wf_part\<close> says how: the part holds all nodes and elements, the internal parts
  the nodes of each kind, in the order of creation and as the same objects; identifiers are
  distinct and the nodes of an element are nodes of the part.
\<close>

section \<open>The invariant\<close>

type_synonym owned = "node_ptr \<times> i32 option"

definition local_nodes :: "owned list \<Rightarrow> node_ptr list" where
  "local_nodes ns = List.map fst (filter (\<lambda>n. snd n = None) ns)"

definition ghost_nodes :: "owned list \<Rightarrow> node_ptr list" where
  "ghost_nodes ns = List.map fst (filter (\<lambda>n. snd n \<noteq> None) ns)"

definition partition_nodes :: "i32 \<Rightarrow> owned list \<Rightarrow> node_ptr list" where
  "partition_nodes i ns = List.map fst (filter (\<lambda>n. snd n = Some i) ns)"

definition holds :: "model_part \<Rightarrow> node_ptr list \<Rightarrow> element_ptr list \<Rightarrow> bool" where
  "holds p ns es \<longleftrightarrow> mNodes p = iv.build node_id ns \<and> mElements p = iv.build element_id es"

definition element_ok :: "owned list \<Rightarrow> element_ptr \<Rightarrow> bool" where
  "element_ok ns e \<longleftrightarrow> 1 \<le> sint (element_id e) \<and> e_Nodes (snd e) \<noteq> [] \<and>
     GetNumberOfNodesForElementType (e_Type (snd e)) = Inr (length (e_Nodes (snd e))) \<and>
     set (e_Nodes (snd e)) \<subseteq> fst ` set ns"

definition partitions_ok :: "(i32 \<times> (addr \<times> model_part)) list \<Rightarrow> owned list \<Rightarrow> bool" where
  "partitions_ok ps ns \<longleftrightarrow> distinct (List.map fst ps) \<and>
     (\<forall>i. case map_of ps i of
            None \<Rightarrow> partition_nodes i ns = []
          | Some q \<Rightarrow> holds (snd q) (partition_nodes i ns) [])"

definition wf_part :: "model_part \<Rightarrow> owned list \<Rightarrow> element_ptr list \<Rightarrow> bool" where
  "wf_part mp ns es \<longleftrightarrow> holds mp (List.map fst ns) es \<and>
     (\<exists>a l. mpLocalModelPart mp = Some (a, l) \<and> holds l (local_nodes ns) es) \<and>
     (\<exists>a g. mpGhostModelPart mp = Some (a, g) \<and> holds g (ghost_nodes ns) []) \<and>
     partitions_ok (mPartitionModelParts mp) ns \<and>
     distinct (List.map (\<lambda>n. node_id (fst n)) ns) \<and> distinct (List.map element_id es) \<and>
     (\<forall>n \<in> set ns. 1 \<le> sint (node_id (fst n))) \<and> (\<forall>e \<in> set es. element_ok ns e)"

lemma sub_lists [simp]:
  "local_nodes [] = []" "ghost_nodes [] = []" "partition_nodes i [] = []"
  "local_nodes (ns @ [(p, None)]) = local_nodes ns @ [p]"
  "local_nodes (ns @ [(p, Some j)]) = local_nodes ns"
  "ghost_nodes (ns @ [(p, None)]) = ghost_nodes ns"
  "ghost_nodes (ns @ [(p, Some j)]) = ghost_nodes ns @ [p]"
  "partition_nodes i (ns @ [(p, None)]) = partition_nodes i ns"
  "partition_nodes i (ns @ [(p, Some j)]) = partition_nodes i ns @ (if i = j then [p] else [])"
  by (simp_all add: local_nodes_def ghost_nodes_def partition_nodes_def)

lemma holds_push_node: "holds p ns es \<Longrightarrow> holds (push_node n p) (ns @ [n]) es"
  by (simp add: holds_def push_node_def iv.build_snoc)

lemma holds_push_element: "holds p ns es \<Longrightarrow> holds (push_element e p) ns (es @ [e])"
  by (simp add: holds_def push_element_def iv.build_snoc)

lemma holds_empty [simp]: "holds (empty_part nm) [] []"
  by (simp add: holds_def empty_part_def)

lemma partitions_ok_local: "partitions_ok ps (ns @ [(p, None)]) \<longleftrightarrow> partitions_ok ps ns"
  by (simp add: partitions_ok_def cong: option.case_cong)

lemma partitions_okD:
  "partitions_ok ps ns \<Longrightarrow> case map_of ps i of None \<Rightarrow> partition_nodes i ns = []
     | Some q \<Rightarrow> holds (snd q) (partition_nodes i ns) []"
  by (simp add: partitions_ok_def)

lemma partitions_ok_find:
  "partitions_ok ps ns \<Longrightarrow> map_of ps i = Some q \<Longrightarrow> holds (snd q) (partition_nodes i ns) []"
  using partitions_okD [of ps ns i] by (simp del: map_of_eq_Some_iff)

lemma partitions_ok_none: "partitions_ok ps ns \<Longrightarrow> map_of ps i = None \<Longrightarrow> partition_nodes i ns = []"
  using partitions_okD [of ps ns i] by (simp del: map_of_eq_None_iff)

lemma map_of_update_partition:
  "map_of (update_partition i f ps) j =
     (if j = i then map_option (\<lambda>(a, p). (a, f p)) (map_of ps i) else map_of ps j)"
  by (induction i f ps rule: update_partition.induct) auto

lemma keys_update_partition [simp]: "List.map fst (update_partition i f ps) = List.map fst ps"
  by (induction i f ps rule: update_partition.induct) auto

lemma partitions_ok_ghost:
  assumes "partitions_ok ps ns" "map_of ps i \<noteq> None"
  shows "partitions_ok (update_partition i (push_node p) ps) (ns @ [(p, Some i)])"
proof -
  have "case map_of (update_partition i (push_node p) ps) j of
      None \<Rightarrow> partition_nodes j (ns @ [(p, Some i)]) = []
    | Some q \<Rightarrow> holds (snd q) (partition_nodes j (ns @ [(p, Some i)])) []" for j
  proof (cases "j = i")
    case True
    then show ?thesis
      using assms partitions_ok_find [OF assms(1), of i]
      by (auto simp: map_of_update_partition holds_push_node split: prod.split)
  next
    case False
    then show ?thesis
      using partitions_ok_find [OF assms(1), of j] partitions_ok_none [OF assms(1), of j]
      by (simp add: map_of_update_partition split: option.split)
  qed
  then show ?thesis using assms(1) by (simp add: partitions_ok_def)
qed

lemma partitions_ok_new:
  assumes "partitions_ok ps ns" "map_of ps i = None" "holds p [] []"
  shows "partitions_ok (ps @ [(i, (a, p))]) ns"
proof -
  have "case map_of (ps @ [(i, (a, p))]) j of None \<Rightarrow> partition_nodes j ns = []
    | Some q \<Rightarrow> holds (snd q) (partition_nodes j ns) []" for j
    using partitions_ok_find [OF assms(1), of j] partitions_ok_none [OF assms(1), of j] assms(2,3)
    by (auto simp: map_of_append map_add_def split: option.split)
  moreover have "i \<notin> fst ` set ps" using assms(2) by (simp add: map_of_eq_None_iff)
  ultimately show ?thesis using assms(1) by (auto simp: partitions_ok_def)
qed

lemma wf_part_distinct:
  assumes "wf_part mp ns es"
  shows "distinct (List.map node_id (List.map fst ns))" "distinct (List.map element_id es)"
  using assms by (simp_all add: wf_part_def o_def)

lemma wf_part_holds: "wf_part mp ns es \<Longrightarrow> holds mp (List.map fst ns) es"
  by (simp add: wf_part_def)

lemma HasNode_wf: "wf_part mp ns es \<Longrightarrow> HasNode mp k \<longleftrightarrow> k \<in> node_id ` fst ` set ns"
  using iv.contains_build [OF wf_part_distinct(1), of mp ns es k] wf_part_holds [of mp ns es]
  by (simp add: HasNode_def holds_def)

lemma HasElement_wf: "wf_part mp ns es \<Longrightarrow> HasElement mp k \<longleftrightarrow> k \<in> element_id ` set es"
  using iv.contains_build [OF wf_part_distinct(2), of mp ns es k] wf_part_holds [of mp ns es]
  by (simp add: HasElement_def holds_def)

lemma find_get:
  "iv_inv ident v \<Longrightarrow> (if iv_find v k = iv_size v then Inl e else iv_deref v (iv_find v k)) =
     (case iv_get v k of None \<Rightarrow> Inl e | Some x \<Rightarrow> Inr x)"
  by (auto simp: iv_get_def iv_size_def iv_deref_def iv_find_def iv_inv_def Let_def split: option.splits)

definition lookup :: "('a \<Rightarrow> id_type) \<Rightarrow> 'a list \<Rightarrow> id_type \<Rightarrow> 'a option" where
  "lookup ident xs k = List.find (\<lambda>x. ident x = k) xs"

lemma lookup_get:
  assumes "distinct (List.map ident xs)"
  shows "iv_get (iv.build ident xs) k = lookup ident xs k"
proof (cases "lookup ident xs k")
  case None
  then have "k \<notin> ident ` set xs" by (auto simp: lookup_def find_None_iff)
  then show ?thesis using iv.get_build_None [OF assms] None by simp
next
  case (Some x)
  then have "x \<in> set xs" "ident x = k" by (auto simp: lookup_def find_Some_iff)
  then show ?thesis using iv.get_build [OF assms] Some by simp
qed

lemma pGetNode_wf:
  assumes "wf_part mp ns es"
  shows "pGetNode mp k = (case lookup node_id (List.map fst ns) k of
     None \<Rightarrow> Inl (node_missing k)
   | Some p \<Rightarrow> Inr p)"
proof -
  have "mNodes mp = iv.build node_id (List.map fst ns)" using assms by (simp add: wf_part_def holds_def)
  then show ?thesis
    unfolding pGetNode_def Let_def
    by (simp only: find_get [OF iv.inv_build [OF wf_part_distinct(1) [OF assms]]]
      lookup_get [OF wf_part_distinct(1) [OF assms]])
qed

section \<open>The operations\<close>

lemmas part_defs = cpp_defs alloc_def update_def this_def

lemma new_Node_Inr: "new_Node i x y z = Inr n \<longleftrightarrow>
    1 \<le> sint i \<and> n = \<lparr>n_Id = i, n_X = x, n_Y = y, n_Z = z\<rparr>"
  by (auto simp: new_Node_def)

lemma CreateNewNode_error:
  assumes "HasNode mp i \<or> sint i < 1"
  shows "CreateNewNode i x y z (mp, h) = (Inl (if HasNode mp i then node_exists i
     else CoSimError ''Error: Id must be >= 1!''), (mp, h))"
  using assms by (auto simp: CreateNewNode_def part_defs new_Node_def)

lemma CreateNewNode_ok:
  assumes "wf_part mp ns es" "\<not> HasNode mp i" "new_Node i x y z = Inr n"
  shows "\<exists>mp'. CreateNewNode i x y z (mp, h) = (Inr (h, n), (mp', h + 1)) \<and>
     wf_part mp' (ns @ [((h, n), None)]) es \<and> mName mp' = mName mp"
proof -
  obtain a l where l: "mpLocalModelPart mp = Some (a, l)" "holds l (local_nodes ns) es"
    using assms(1) by (auto simp: wf_part_def)
  let ?mp = "set_local (Some (a, push_node (h, n) l)) (push_node (h, n) mp)"
  have "CreateNewNode i x y z (mp, h) = (Inr (h, n), (?mp, h + 1))"
    using assms(2,3) l(1) by (simp add: CreateNewNode_def part_defs in_local_def push_node_def)
  moreover have "wf_part ?mp (ns @ [((h, n), None)]) es"
    using assms holds_push_node [OF l(2), of "(h, n)"] holds_push_node [of mp "List.map fst ns" es "(h, n)"]
    by (auto simp: wf_part_def holds_def push_node_def HasNode_wf [OF assms(1)] node_id_def image_image
        new_Node_Inr element_ok_def partitions_ok_local)
  ultimately show ?thesis by (auto simp: push_node_def)
qed

lemma show_nat_name: "check_name (show_nat n) = Inr ()"
proof -
  have "is_digit 10 c" if "c \<in> set (show_nat n)" for c
    using show_base_digits [of 10 c n] that by (simp add: show_nat_def)
  moreover have "\<not> is_digit 10 (CHR ''.'')" by (simp add: is_digit_def digit_val_def)
  ultimately have "CHR ''.'' \<notin> set (show_nat n)" by blast
  then show ?thesis using show_base_nonempty [of 10 n] by (simp add: check_name_def show_nat_def)
qed

lemma GetPartitionModelPart_ok:
  assumes "partitions_ok (mPartitionModelParts mp) ns" "0 \<le> sint i"
  shows "\<exists>ps h'. GetPartitionModelPart i (mp, h) = (Inr (), (set_partitions ps mp, h')) \<and>
     partitions_ok ps ns \<and> map_of ps i \<noteq> None"
proof (cases "map_of (mPartitionModelParts mp) i")
  case None
  have nm: "check_name (show_int (sint i)) = Inr ()"
    using show_nat_name [of "nat (sint i)"] assms(2) by (simp add: show_int_def)
  let ?p = "set_ghost (Some (h + 1 + 1, empty_part ''ghost''))
      (set_local (Some (h + 1, empty_part ''local'')) (empty_part (show_int (sint i))))"
  let ?ps = "mPartitionModelParts mp @ [(i, (h, ?p))]"
  have "GetPartitionModelPart i (mp, h) = (Inr (), (set_partitions ?ps mp, h + 1 + 1 + 1))"
    using None nm by (simp add: GetPartitionModelPart_def part_defs on_heap_def new_ModelPart_def
        InitializeInternalModelParts_def)
  moreover have "holds ?p [] []" by (simp add: holds_def empty_part_def)
  then have "partitions_ok ?ps ns" by (rule partitions_ok_new [OF assms(1) None])
  moreover have "map_of ?ps i \<noteq> None" using None by (simp add: map_add_def del: map_of_eq_None_iff)
  ultimately show ?thesis by blast
next
  case (Some q)
  moreover have "set_partitions (mPartitionModelParts mp) mp = mp" by (cases mp) simp
  ultimately show ?thesis
    using assms(1) by (intro exI [of _ "mPartitionModelParts mp"] exI [of _ h])
      (simp add: GetPartitionModelPart_def part_defs)
qed

lemma CreateNewGhostNode_error:
  assumes "HasNode mp i \<or> sint p < 0 \<or> sint i < 1"
  shows "CreateNewGhostNode i x y z p (mp, h) = (Inl (if HasNode mp i then node_exists i
     else if sint p < 0 then CoSimError ''Error: PartitionIndex must be >= 0!''
     else CoSimError ''Error: Id must be >= 1!''), (mp, h))"
  using assms by (auto simp: CreateNewGhostNode_def part_defs new_Node_def)

lemma CreateNewGhostNode_ok:
  assumes "wf_part mp ns es" "\<not> HasNode mp i" "0 \<le> sint p" "new_Node i x y z = Inr n"
  shows "\<exists>mp' h'. CreateNewGhostNode i x y z p (mp, h) = (Inr (h, n), (mp', h')) \<and>
     wf_part mp' (ns @ [((h, n), Some p)]) es \<and> mName mp' = mName mp"
proof -
  obtain a g where g: "mpGhostModelPart mp = Some (a, g)" "holds g (ghost_nodes ns) []"
    using assms(1) by (auto simp: wf_part_def)
  let ?mp = "set_ghost (Some (a, push_node (h, n) g)) (push_node (h, n) mp)"
  have "partitions_ok (mPartitionModelParts ?mp) ns"
    using assms(1) by (simp add: wf_part_def push_node_def)
  from GetPartitionModelPart_ok [OF this assms(3), of "h + 1"]
  obtain ps h' where ps: "GetPartitionModelPart p (?mp, h + 1) = (Inr (), (set_partitions ps ?mp, h'))"
    "partitions_ok ps ns" "map_of ps p \<noteq> None" by blast
  let ?mp' = "set_partitions (update_partition p (push_node (h, n)) ps) (set_partitions ps ?mp)"
  have "CreateNewGhostNode i x y z p (mp, h) = (Inr (h, n), (?mp', h'))"
    using assms(2-4) g(1) ps(1)
    by (simp add: CreateNewGhostNode_def part_defs in_ghost_def in_partition_def push_node_def)
  moreover have "wf_part ?mp' (ns @ [((h, n), Some p)]) es"
    using assms holds_push_node [OF g(2), of "(h, n)"] holds_push_node [of mp "List.map fst ns" es "(h, n)"]
      partitions_ok_ghost [OF ps(2,3), of "(h, n)"]
    by (auto simp: wf_part_def holds_def push_node_def HasNode_wf [OF assms(1)] node_id_def image_image
        new_Node_Inr element_ok_def)
  ultimately show ?thesis by (auto simp: push_node_def)
qed

lemma get_nodes: "lookup_nodes ks (mp, h) = (mapR (pGetNode mp) ks, (mp, h))"
  unfolding lookup_nodes_def by (rule mapE_pure) (simp add: part_defs)

lemma check_element_Inr: "check_element i t n = Inr u \<longleftrightarrow>
    1 \<le> sint i \<and> 1 \<le> n \<and> GetNumberOfNodesForElementType t = Inr n"
  by (auto simp: check_element_def bindR_eq_Inr split: if_splits)

lemma CreateNewElement_error:
  assumes "HasElement mp i \<or> bindR (mapR (pGetNode mp) ks) (new_Element i t) = Inl e"
  shows "CreateNewElement i t ks (mp, h) = (Inl (if HasElement mp i then element_exists i else e), (mp, h))"
proof (cases "HasElement mp i")
  case False
  with assms have "bindR (mapR (pGetNode mp) ks) (new_Element i t) = Inl e" by simp
  then show ?thesis
    using False
    by (cases "mapR (pGetNode mp) ks") (auto simp: CreateNewElement_def part_defs get_nodes)
qed (simp add: CreateNewElement_def part_defs)

lemma pGetNode_in:
  assumes "wf_part mp ns es" "pGetNode mp k = Inr p"
  shows "p \<in> fst ` set ns \<and> node_id p = k"
  using assms(2) unfolding pGetNode_wf [OF assms(1)]
  by (auto simp: lookup_def find_Some_iff split: option.splits)

lemma CreateNewElement_ok:
  assumes "wf_part mp ns es" "\<not> HasElement mp i" "mapR (pGetNode mp) ks = Inr nodes"
    "new_Element i t nodes = Inr e"
  shows "\<exists>mp'. CreateNewElement i t ks (mp, h) = (Inr (h, e), (mp', h + 1)) \<and>
     wf_part mp' ns (es @ [(h, e)]) \<and> mName mp' = mName mp"
proof -
  obtain a l where l: "mpLocalModelPart mp = Some (a, l)" "holds l (local_nodes ns) es"
    using assms(1) by (auto simp: wf_part_def)
  let ?mp = "set_local (Some (a, push_element (h, e) l)) (push_element (h, e) mp)"
  have create: "CreateNewElement i t ks (mp, h) = (Inr (h, e), (?mp, h + 1))"
    using assms(2-4) l(1)
    by (simp add: CreateNewElement_def get_nodes part_defs in_local_def push_element_def)
  have "set nodes \<subseteq> fst ` set ns"
    using mapR_Inr_set [OF assms(3)] pGetNode_in [OF assms(1)] by blast
  with assms(4) have "element_ok ns (h, e)"
    by (auto simp: element_ok_def element_id_def new_Element_def bindR_eq_Inr check_element_Inr)
  moreover have "element_id (h, e) = i"
    using assms(4) by (auto simp: element_id_def new_Element_def bindR_eq_Inr)
  with assms(2) have "element_id (h, e) \<notin> element_id ` set es"
    using HasElement_wf [OF assms(1)] by blast
  ultimately have "wf_part ?mp ns (es @ [(h, e)])"
    using assms(1) holds_push_element [OF l(2), of "(h, e)"]
      holds_push_element [OF wf_part_holds [OF assms(1)], of "(h, e)"]
    by (auto simp: wf_part_def holds_def push_element_def)
  with create show ?thesis by (auto simp: push_element_def)
qed

lemma iv_clear_new [simp]: "iv_clear v = iv_new"
  by (cases v) (simp add: iv_clear_def iv_new_def)

lemma Clear_ok:
  "\<exists>mp' h'. Clear (mp, h) = (Inr (), (mp', h')) \<and> wf_part mp' [] [] \<and> mName mp' = mName mp"
  by (simp add: Clear_def InitializeInternalModelParts_def part_defs wf_part_def partitions_ok_def
      empty_part_def) (simp add: holds_def)

lemma new_ModelPart_ok:
  assumes "new_ModelPart nm h = (Inr mp, h')"
  shows "wf_part mp [] [] \<and> mName mp = nm"
  using assms
  by (auto simp: new_ModelPart_def InitializeInternalModelParts_def part_defs wf_part_def holds_def
      empty_part_def partitions_ok_def split: sum.splits)

section \<open>The mesh that a part stands for\<close>

record mesh =
  m_nodes :: "(Node \<times> i32 option) list"
  m_elements :: "(id_type \<times> ElementType \<times> Node list) list"

definition mesh_of :: "owned list \<Rightarrow> element_ptr list \<Rightarrow> mesh" where
  "mesh_of ns es = \<lparr>m_nodes = List.map (\<lambda>n. (snd (fst n), snd n)) ns,
     m_elements = List.map (\<lambda>e. (element_id e, e_Type (snd e), List.map snd (e_Nodes (snd e)))) es\<rparr>"

definition mesh_find :: "mesh \<Rightarrow> id_type \<Rightarrow> error + Node" where
  "mesh_find m k = (case List.find (\<lambda>n. n_Id n = k) (List.map fst (m_nodes m)) of
     None \<Rightarrow> Inl (node_missing k) | Some n \<Rightarrow> Inr n)"

datatype part_call =
    CallNode id_type dbl dbl dbl
  | CallGhost id_type dbl dbl dbl i32
  | CallElement id_type ElementType "id_type list"
  | CallClear

fun do_call :: "part_call \<Rightarrow> unit part_op" where
  "do_call (CallNode i x y z) = discard (CreateNewNode i x y z)"
| "do_call (CallGhost i x y z p) = discard (CreateNewGhostNode i x y z p)"
| "do_call (CallElement i t ks) = discard (CreateNewElement i t ks)"
| "do_call CallClear = Clear"

fun spec_call :: "part_call \<Rightarrow> mesh \<Rightarrow> error + mesh" where
  "spec_call (CallNode i x y z) m =
     (if i \<in> n_Id ` fst ` set (m_nodes m) then Inl (node_exists i)
      else bindR (new_Node i x y z) (\<lambda>n. Inr (m\<lparr>m_nodes := m_nodes m @ [(n, None)]\<rparr>)))"
| "spec_call (CallGhost i x y z p) m =
     (if i \<in> n_Id ` fst ` set (m_nodes m) then Inl (node_exists i)
      else if sint p < 0 then Inl (CoSimError ''Error: PartitionIndex must be >= 0!'')
      else bindR (new_Node i x y z) (\<lambda>n. Inr (m\<lparr>m_nodes := m_nodes m @ [(n, Some p)]\<rparr>)))"
| "spec_call (CallElement i t ks) m =
     (if i \<in> fst ` set (m_elements m) then Inl (element_exists i)
      else bindR (mapR (mesh_find m) ks) (\<lambda>nodes. bindR (check_element i t (length nodes)) (\<lambda>_.
        Inr (m\<lparr>m_elements := m_elements m @ [(i, t, nodes)]\<rparr>))))"
| "spec_call CallClear m = Inr \<lparr>m_nodes = [], m_elements = []\<rparr>"

fun run_calls :: "part_call list \<Rightarrow> model_part \<times> addr \<Rightarrow> (error + unit) list \<times> (model_part \<times> addr)" where
  "run_calls [] s = ([], s)"
| "run_calls (c # cs) s = (case do_call c s of (r, s') \<Rightarrow>
     (case run_calls cs s' of (rs, t) \<Rightarrow> (r # rs, t)))"

fun run_spec :: "part_call list \<Rightarrow> mesh \<Rightarrow> (error + unit) list \<times> mesh" where
  "run_spec [] m = ([], m)"
| "run_spec (c # cs) m = (case spec_call c m of
     Inl e \<Rightarrow> (case run_spec cs m of (rs, t) \<Rightarrow> (Inl e # rs, t))
   | Inr m' \<Rightarrow> (case run_spec cs m' of (rs, t) \<Rightarrow> (Inr () # rs, t)))"

lemma mesh_of_sets [simp]:
  "n_Id ` fst ` set (m_nodes (mesh_of ns es)) = node_id ` fst ` set ns"
  "fst ` set (m_elements (mesh_of ns es)) = element_id ` set es"
  by (auto simp: mesh_of_def node_id_def image_image)

lemma mesh_of_snoc:
  "mesh_of (ns @ [(p, w)]) es = (mesh_of ns es)\<lparr>m_nodes := m_nodes (mesh_of ns es) @ [(snd p, w)]\<rparr>"
  "mesh_of ns (es @ [e]) = (mesh_of ns es)\<lparr>m_elements := m_elements (mesh_of ns es) @
      [(element_id e, e_Type (snd e), List.map snd (e_Nodes (snd e)))]\<rparr>"
  by (simp_all add: mesh_of_def)

lemma find_map: "List.find P (List.map f xs) = map_option f (List.find (\<lambda>x. P (f x)) xs)"
  by (induction xs) auto

lemma mesh_find_wf:
  assumes "wf_part mp ns es"
  shows "mesh_find (mesh_of ns es) k = bindR (pGetNode mp k) (\<lambda>p. Inr (snd p))"
proof -
  have "List.find (\<lambda>n. n_Id n = k) (List.map fst (m_nodes (mesh_of ns es))) =
      map_option snd (lookup node_id (List.map fst ns) k)"
    by (simp add: mesh_of_def lookup_def find_map o_def node_id_def)
       (simp add: find_map option.map_comp o_def)
  then show ?thesis
    by (simp add: mesh_find_def pGetNode_wf [OF assms] split: option.split)
qed

definition mesh_empty :: mesh where
  "mesh_empty = \<lparr>m_nodes = [], m_elements = []\<rparr>"

lemma mesh_of_empty [simp]: "mesh_of [] [] = mesh_empty"
  by (simp add: mesh_of_def mesh_empty_def)

text \<open>One call: an error leaves the part as it was, a success is that of the mesh.\<close>

definition simulates :: "part_call \<Rightarrow> model_part \<Rightarrow> addr \<Rightarrow> mesh \<Rightarrow> bool" where
  "simulates c mp h m \<longleftrightarrow> (case spec_call c m of
       Inl e \<Rightarrow> do_call c (mp, h) = (Inl e, (mp, h))
     | Inr m' \<Rightarrow> \<exists>mp' h' ns es. do_call c (mp, h) = (Inr (), (mp', h')) \<and> wf_part mp' ns es \<and>
         mesh_of ns es = m' \<and> mName mp' = mName mp)"

lemma discard_Inl: "m s = (Inl e, s') \<Longrightarrow> discard m s = (Inl e, s')"
  by (simp add: discard_def)

lemma discard_Inr: "m s = (Inr x, s') \<Longrightarrow> discard m s = (Inr (), s')"
  by (simp add: discard_def retE_def)

lemma new_Node_cases: "new_Node i x y z = Inl (CoSimError ''Error: Id must be >= 1!'') \<and> sint i < 1 \<or>
    new_Node i x y z = Inr \<lparr>n_Id = i, n_X = x, n_Y = y, n_Z = z\<rparr>"
  by (simp add: new_Node_def)

lemma node_simulates:
  assumes "wf_part mp ns es"
  shows "simulates (CallNode i x y z) mp h (mesh_of ns es)"
proof (cases "HasNode mp i \<or> sint i < 1")
  case True
  from discard_Inl [of "CreateNewNode i x y z", OF CreateNewNode_error [OF this, of x y z h]] show ?thesis
    using True by (auto simp: simulates_def new_Node_def HasNode_wf [OF assms])
next
  case False
  then obtain n where n: "new_Node i x y z = Inr n" by (simp add: new_Node_def)
  from False have "\<not> HasNode mp i" by simp
  from CreateNewNode_ok [OF assms this n, of h] obtain mp' where
    *: "CreateNewNode i x y z (mp, h) = (Inr (h, n), mp', h + 1)"
    "wf_part mp' (ns @ [((h, n), None)]) es" "mName mp' = mName mp" by blast
  have "spec_call (CallNode i x y z) (mesh_of ns es) = Inr (mesh_of (ns @ [((h, n), None)]) es)"
    using False n by (simp add: HasNode_wf [OF assms] mesh_of_snoc)
  then show ?thesis using * by (auto simp: simulates_def dest: discard_Inr)
qed

lemma ghost_simulates:
  assumes "wf_part mp ns es"
  shows "simulates (CallGhost i x y z p) mp h (mesh_of ns es)"
proof (cases "HasNode mp i \<or> sint p < 0 \<or> sint i < 1")
  case True
  from discard_Inl [of "CreateNewGhostNode i x y z p", OF CreateNewGhostNode_error [OF this, of x y z h]]
  show ?thesis using True by (auto simp: simulates_def new_Node_def HasNode_wf [OF assms])
next
  case False
  then obtain n where n: "new_Node i x y z = Inr n" by (simp add: new_Node_def)
  from False have "\<not> HasNode mp i" "0 \<le> sint p" by simp_all
  from CreateNewGhostNode_ok [OF assms this n, of h] obtain mp' h' where
    *: "CreateNewGhostNode i x y z p (mp, h) = (Inr (h, n), mp', h')"
    "wf_part mp' (ns @ [((h, n), Some p)]) es" "mName mp' = mName mp" by blast
  have "spec_call (CallGhost i x y z p) (mesh_of ns es) = Inr (mesh_of (ns @ [((h, n), Some p)]) es)"
    using False n by (simp add: HasNode_wf [OF assms] mesh_of_snoc)
  then show ?thesis using * by (auto simp: simulates_def dest: discard_Inr)
qed

lemma new_Element_check:
  "new_Element i t nodes = bindR (check_element i t (length (List.map snd nodes)))
     (\<lambda>_. Inr \<lparr>e_Id = i, e_Type = t, e_Nodes = nodes\<rparr>)"
  by (simp add: new_Element_def)

lemma element_simulates:
  assumes "wf_part mp ns es"
  shows "simulates (CallElement i t ks) mp h (mesh_of ns es)"
proof -
  have find: "mesh_find (mesh_of ns es) = (\<lambda>k. bindR (pGetNode mp k) (\<lambda>p. Inr (snd p)))"
    using mesh_find_wf [OF assms] by (simp add: fun_eq_iff)
  have spec: "spec_call (CallElement i t ks) (mesh_of ns es) =
      (if HasElement mp i then Inl (element_exists i)
       else bindR (mapR (pGetNode mp) ks) (\<lambda>nodes. bindR (new_Element i t nodes) (\<lambda>e.
         Inr (mesh_of ns (es @ [(h, e)])))))"
  proof (cases "mapR (pGetNode mp) ks")
    case (Inr nodes)
    then show ?thesis
      by (cases "check_element i t (length nodes)")
         (simp_all add: find mapR_map HasElement_wf [OF assms] mesh_of_snoc new_Element_def element_id_def)
  qed (simp add: find mapR_map HasElement_wf [OF assms])
  show ?thesis
  proof (cases "\<exists>e. HasElement mp i \<or> bindR (mapR (pGetNode mp) ks) (new_Element i t) = Inl e")
    case True
    then obtain e where e: "HasElement mp i \<or> bindR (mapR (pGetNode mp) ks) (new_Element i t) = Inl e" ..
    from discard_Inl [of "CreateNewElement i t ks", OF CreateNewElement_error [OF this, of h]] show ?thesis
      unfolding simulates_def spec using e by (auto simp: bindR_def split: sum.splits)
  next
    case False
    then obtain nodes where n: "\<not> HasElement mp i" "mapR (pGetNode mp) ks = Inr nodes"
      by (cases "mapR (pGetNode mp) ks") auto
    with False obtain e where "new_Element i t nodes = Inr e" by (cases "new_Element i t nodes") auto
    note e = n this
    from CreateNewElement_ok [OF assms this, of h] obtain mp' where
      *: "CreateNewElement i t ks (mp, h) = (Inr (h, e), mp', h + 1)"
      "wf_part mp' ns (es @ [(h, e)])" "mName mp' = mName mp" by blast
    then show ?thesis unfolding simulates_def spec using e by (auto dest: discard_Inr)
  qed
qed

lemma clear_simulates:
  "wf_part mp ns es \<Longrightarrow> simulates CallClear mp h (mesh_of ns es)"
  using Clear_ok [of mp h] mesh_of_empty unfolding simulates_def mesh_empty_def by fastforce

lemma call_simulates: "wf_part mp ns es \<Longrightarrow> simulates c mp h (mesh_of ns es)"
  by (cases c) (simp_all only: node_simulates ghost_simulates element_simulates clear_simulates)

lemma run_refines:
  "wf_part mp ns es \<Longrightarrow> \<exists>mp' h' ns' es'.
     run_calls cs (mp, h) = (fst (run_spec cs (mesh_of ns es)), (mp', h')) \<and> wf_part mp' ns' es' \<and>
     mesh_of ns' es' = snd (run_spec cs (mesh_of ns es)) \<and> mName mp' = mName mp"
proof (induction cs arbitrary: mp h ns es)
  case (Cons c cs)
  show ?case
  proof (cases "spec_call c (mesh_of ns es)")
    case (Inl e)
    then have "do_call c (mp, h) = (Inl e, (mp, h))"
      using call_simulates [OF Cons.prems, of c h] by (simp add: simulates_def)
    moreover from Cons.IH [OF Cons.prems, of h] obtain mp' h' ns' es' where
      "run_calls cs (mp, h) = (fst (run_spec cs (mesh_of ns es)), (mp', h'))" "wf_part mp' ns' es'"
      "mesh_of ns' es' = snd (run_spec cs (mesh_of ns es))" "mName mp' = mName mp" by blast
    ultimately show ?thesis using Inl
      by (intro exI [of _ mp'] exI [of _ h'] exI [of _ ns'] exI [of _ es']) (simp add: split_def)
  next
    case (Inr m')
    then obtain mp1 h1 ns1 es1 where "do_call c (mp, h) = (Inr (), (mp1, h1))" "wf_part mp1 ns1 es1"
      "mesh_of ns1 es1 = m'" "mName mp1 = mName mp"
      using call_simulates [OF Cons.prems, of c h] by (auto simp: simulates_def)
    moreover from Cons.IH [OF this(2), of h1] obtain mp' h' ns' es' where
      "run_calls cs (mp1, h1) = (fst (run_spec cs (mesh_of ns1 es1)), (mp', h'))" "wf_part mp' ns' es'"
      "mesh_of ns' es' = snd (run_spec cs (mesh_of ns1 es1))" "mName mp' = mName mp1" by blast
    ultimately show ?thesis using Inr
      by (intro exI [of _ mp'] exI [of _ h'] exI [of _ ns'] exI [of _ es']) (simp add: split_def)
  qed
qed auto

text \<open>What a caller sees of a part is what the mesh says.\<close>

definition nodes_of :: "(Node \<times> i32 option) list \<Rightarrow> (i32 option \<Rightarrow> bool) \<Rightarrow> Node list" where
  "nodes_of ns P = List.map fst (filter (\<lambda>n. P (snd n)) ns)"

definition part_nodes :: "model_part \<Rightarrow> Node list" where
  "part_nodes mp = List.map snd (mData (mNodes mp))"

definition part_elements :: "model_part \<Rightarrow> (id_type \<times> ElementType \<times> Node list) list" where
  "part_elements mp =
     List.map (\<lambda>e. (element_id e, e_Type (snd e), List.map snd (e_Nodes (snd e)))) (mData (mElements mp))"

definition shows_mesh :: "model_part \<Rightarrow> mesh \<Rightarrow> bool" where
  "shows_mesh mp m \<longleftrightarrow>
     part_nodes mp = List.map fst (m_nodes m) \<and> part_elements mp = m_elements m \<and>
     bindR (GetLocalModelPart mp) (\<lambda>l. Inr (part_nodes l, part_elements l)) =
       Inr (nodes_of (m_nodes m) (\<lambda>w. w = None), m_elements m) \<and>
     bindR (GetGhostModelPart mp) (\<lambda>g. Inr (part_nodes g, part_elements g)) =
       Inr (nodes_of (m_nodes m) (\<lambda>w. w \<noteq> None), []) \<and>
     (\<forall>i. case GetPartitionModelPart_const mp i of
          Inl _ \<Rightarrow> nodes_of (m_nodes m) (\<lambda>w. w = Some i) = []
        | Inr p \<Rightarrow> part_nodes p = nodes_of (m_nodes m) (\<lambda>w. w = Some i) \<and> part_elements p = []) \<and>
     (\<forall>k. GetNode mp k = mesh_find m k \<and> HasNode mp k = (k \<in> n_Id ` fst ` set (m_nodes m)) \<and>
       HasElement mp k = (k \<in> fst ` set (m_elements m)))"

lemma holds_data:
  assumes "holds p xs es"
  shows "mData (mNodes p) = xs" "mData (mElements p) = es"
  using assms by (simp_all add: holds_def)

lemma nodes_of_mesh:
  "nodes_of (m_nodes (mesh_of ns es)) P = List.map snd (List.map fst (filter (\<lambda>n. P (snd n)) ns))"
  by (induction ns) (auto simp: nodes_of_def mesh_of_def)

lemma wf_part_shows:
  assumes "wf_part mp ns es"
  shows "shows_mesh mp (mesh_of ns es)"
proof -
  obtain a l b g where l: "mpLocalModelPart mp = Some (a, l)" "holds l (local_nodes ns) es"
    and g: "mpGhostModelPart mp = Some (b, g)" "holds g (ghost_nodes ns) []"
    using assms by (auto simp: wf_part_def)
  have p: "partitions_ok (mPartitionModelParts mp) ns" using assms by (simp add: wf_part_def)
  have "case GetPartitionModelPart_const mp i of
      Inl _ \<Rightarrow> nodes_of (m_nodes (mesh_of ns es)) (\<lambda>w. w = Some i) = []
    | Inr p \<Rightarrow> part_nodes p = nodes_of (m_nodes (mesh_of ns es)) (\<lambda>w. w = Some i) \<and> part_elements p = []" for i
    using partitions_okD [OF p, of i]
    by (auto simp: GetPartitionModelPart_const_def nodes_of_mesh partition_nodes_def part_nodes_def
        part_elements_def holds_data split: option.split)
  then show ?thesis
    using l g HasNode_wf [OF assms] HasElement_wf [OF assms] mesh_find_wf [OF assms]
      holds_data [OF wf_part_holds [OF assms]]
    by (simp add: shows_mesh_def GetLocalModelPart_def GetGhostModelPart_def GetNode_def nodes_of_mesh
        part_nodes_def part_elements_def holds_data local_nodes_def ghost_nodes_def)
       (simp add: mesh_of_def)
qed

text \<open>
  Property C4. A ModelPart is a mesh: after any sequence of calls that create local nodes, ghost
  nodes and elements or clear the part, failing calls included, each call has answered as the
  specification of the mesh does (with the same error), and the part shows exactly the mesh that the
  specification has built: the part itself all nodes and elements, its local part the local nodes and all
  elements, its ghost part the ghost nodes, each partition part the nodes of its partition, the last two no
  element; and so do all lookups by identifier.
\<close>

theorem model_part_refines_mesh:
  assumes "new_ModelPart nm h = (Inr mp, h0)"
  shows "\<exists>mp' h'. run_calls cs (mp, h0) = (fst (run_spec cs mesh_empty), (mp', h')) \<and>
     shows_mesh mp' (snd (run_spec cs mesh_empty)) \<and> mName mp' = nm"
proof -
  have "wf_part mp [] []" "mName mp = nm" using new_ModelPart_ok [OF assms] by simp_all
  from run_refines [OF this(1), of cs h0] this(2) show ?thesis by (auto dest: wf_part_shows)
qed

definition sample_part :: model_part where
  "sample_part = set_ghost (Some (1, empty_part ''ghost''))
     (set_local (Some (0, empty_part ''local'')) (empty_part ''m''))"

lemma sample_new: "new_ModelPart ''m'' 0 = (Inr sample_part, 2)"
  by (simp add: new_ModelPart_def check_name_def InitializeInternalModelParts_def part_defs sample_part_def)

definition sample_calls :: "part_call list" where
  "sample_calls = [CallNode 1 0 0 0, CallGhost 2 0 0 0 3, CallNode 1 0 0 0, CallElement 7 Line2D2 [1, 2]]"

lemma sample_spec: "run_spec sample_calls mesh_empty = ([Inr (), Inr (), Inl (node_exists 1), Inr ()],
    \<lparr>m_nodes = [(\<lparr>n_Id = 1, n_X = 0, n_Y = 0, n_Z = 0\<rparr>, None), (\<lparr>n_Id = 2, n_X = 0, n_Y = 0, n_Z = 0\<rparr>, Some 3)],
      m_elements = [(7, Line2D2, [\<lparr>n_Id = 1, n_X = 0, n_Y = 0, n_Z = 0\<rparr>,
        \<lparr>n_Id = 2, n_X = 0, n_Y = 0, n_Z = 0\<rparr>])]\<rparr>)"
  by (simp add: sample_calls_def mesh_empty_def new_Node_def mesh_find_def check_element_def
      GetNumberOfNodesForElementType_def)

theorem model_part_refines_mesh_witness:
  "\<exists>mp' h'. run_calls sample_calls (sample_part, 2) =
       ([Inr (), Inr (), Inl (node_exists 1), Inr ()], (mp', h')) \<and>
     part_elements mp' = [(7, Line2D2, [\<lparr>n_Id = 1, n_X = 0, n_Y = 0, n_Z = 0\<rparr>,
       \<lparr>n_Id = 2, n_X = 0, n_Y = 0, n_Z = 0\<rparr>])]"
  using model_part_refines_mesh [OF sample_new, of sample_calls]
  unfolding sample_spec shows_mesh_def by auto

end
