(* ===== verification/ModelPartBulk.thy ===== *)
theory ModelPartBulk
  imports ModelPartLaws
begin

text \<open>
  The bulk creation functions of \<open>includes/model_part.hpp\<close> against the single ones: a call for several
  nodes or elements is the loop of single calls, each element with its own slice of the connectivities.
\<close>

type_synonym element_data = "id_type \<times> ElementType \<times> id_type list"

definition slice_ok :: "element_data \<Rightarrow> bool" where
  "slice_ok e = (GetNumberOfNodesForElementType (fst (snd e)) = Inr (length (snd (snd e))))"

fun create_element :: "element_data \<Rightarrow> unit part_op" where
  "create_element (i, t, ks) = discard (CreateNewElement i t ks)"

definition element_keys :: "element_data list \<Rightarrow> (id_type \<times> ElementType) list" where
  "element_keys els = List.map (\<lambda>e. (fst e, fst (snd e))) els"

definition connectivities :: "element_data list \<Rightarrow> id_type list" where
  "connectivities els = concat (List.map (\<lambda>e. snd (snd e)) els)"

lemma element_keys_zip: "zip (List.map fst els) (List.map (\<lambda>e. fst (snd e)) els) = element_keys els"
  by (induction els) (simp_all add: element_keys_def)

lemma expected_connectivities_sum:
  "list_all slice_ok els \<Longrightarrow>
     expected_connectivities (List.map (\<lambda>e. fst (snd e)) els) = Inr (length (connectivities els))"
  by (induction els) (simp_all add: slice_ok_def connectivities_def)

lemma bindE_lift_Inr [simp]: "bindE (liftE (Inr x)) f = f x"
  by (simp add: fun_eq_iff bindE_def liftE_def)

lemma create_elements_slices:
  "list_all slice_ok els \<Longrightarrow>
     create_elements (element_keys els) (pre @ connectivities els) (length pre) = forE create_element els"
proof (induction els arbitrary: pre)
  case (Cons e els)
  obtain i t ks where e: "e = (i, t, ks)" by (cases e)
  have "create_elements (element_keys els) ((pre @ ks) @ connectivities els) (length (pre @ ks)) =
      forE create_element els"
    by (rule Cons.IH) (use Cons.prems in simp)
  then show ?case
    using Cons.prems
    by (simp add: e element_keys_def connectivities_def slice_ok_def)
qed (simp add: element_keys_def)

lemma thenE_unit [simp]: "thenE (checkE False e) m = m"
  by (simp add: fun_eq_iff cpp_defs)

lemma wf_part_check_local: "wf_part mp ns es \<Longrightarrow> thenE check_local m (mp, h) = m (mp, h)"
  by (auto simp: wf_part_def check_local_def GetLocalModelPart_def part_defs)

lemma wf_part_check_ghost: "wf_part mp ns es \<Longrightarrow> thenE check_ghost m (mp, h) = m (mp, h)"
  by (auto simp: wf_part_def check_ghost_def GetGhostModelPart_def part_defs)

text \<open>
  Property C21. CreateNewElements is the loop of CreateNewElement calls in which every element gets the
  slice of the connectivities that belongs to it, in order, whatever mixture of element types is
  passed, and a failing element stops the loop with the earlier ones created.
\<close>

theorem create_elements_in_bulk:
  assumes "wf_part mp ns es" "list_all slice_ok els"
  shows "CreateNewElements (List.map fst els) (List.map (\<lambda>e. fst (snd e)) els) (connectivities els) (mp, h) =
     forE create_element els (mp, h)"
  using create_elements_slices [OF assms(2), of "[]"]
  by (simp add: CreateNewElements_def expected_connectivities_sum [OF assms(2)] element_keys_zip
      wf_part_check_local [OF assms(1)])

theorem create_elements_in_bulk_witness:
  "CreateNewElements [7, 8] [Line2D2, Triangle2D3] [1, 2, 1, 2, 3] (sample_part, 2) =
     forE create_element [(7, Line2D2, [1, 2]), (8, Triangle2D3, [1, 2, 3])] (sample_part, 2)"
  using create_elements_in_bulk [OF conjunct1 [OF new_ModelPart_ok [OF sample_new]],
      of "[(7, Line2D2, [1, 2]), (8, Triangle2D3, [1, 2, 3])]"]
  by (simp add: slice_ok_def connectivities_def GetNumberOfNodesForElementType_def)

text \<open>Nodes: the loop over the indices is the loop over the rows of the coordinate arrays.\<close>

lemma forE_map: "forE g (List.map f xs) = forE (\<lambda>x. g (f x)) xs"
  by (induction xs) simp_all

lemma forE_nth: "forE (\<lambda>i. g (xs ! i)) [0..<length xs] = forE g xs"
  by (subst forE_map [symmetric]) (simp add: map_nth)

type_synonym ghost_data = "id_type \<times> dbl \<times> dbl \<times> dbl \<times> i32"

fun create_ghost :: "ghost_data \<Rightarrow> unit part_op" where
  "create_ghost (i, x, y, z, p) = discard (CreateNewGhostNode i x y z p)"

lemma forE_cong: "(\<And>x. x \<in> set xs \<Longrightarrow> f x = g x) \<Longrightarrow> forE f xs = forE g xs"
  by (induction xs) simp_all

text \<open>
  Property C22. CreateNewGhostNodes is the loop of CreateNewGhostNode calls over the rows of its five
  arrays; arrays of different lengths are refused before anything is created.
\<close>

theorem create_ghost_nodes_in_bulk:
  assumes "wf_part mp ns es"
  shows "CreateNewGhostNodes (List.map fst rows) (List.map (\<lambda>r. fst (snd r)) rows)
       (List.map (\<lambda>r. fst (snd (snd r))) rows) (List.map (\<lambda>r. fst (snd (snd (snd r)))) rows)
       (List.map (\<lambda>r. snd (snd (snd (snd r)))) rows) (mp, h) = forE create_ghost rows (mp, h) \<and>
     (\<not> (length xs = length ids \<and> length ys = length ids \<and> length zs = length ids \<and> length ps = length ids)
       \<longrightarrow> (\<exists>e. CreateNewGhostNodes ids xs ys zs ps (mp, h) = (Inl e, (mp, h))))"
proof
  have "forE (\<lambda>i. discard (CreateNewGhostNode (List.map fst rows ! i)
      (List.map (\<lambda>r. fst (snd r)) rows ! i) (List.map (\<lambda>r. fst (snd (snd r))) rows ! i)
      (List.map (\<lambda>r. fst (snd (snd (snd r)))) rows ! i) (List.map (\<lambda>r. snd (snd (snd (snd r)))) rows ! i)))
      [0..<length rows] = forE (\<lambda>i. create_ghost (rows ! i)) [0..<length rows]"
    by (rule forE_cong) (simp add: split_beta create_ghost.simps [of "fst _" "fst _" "fst _" "fst _" "snd _", symmetric] del: create_ghost.simps)
  then show "CreateNewGhostNodes (List.map fst rows) (List.map (\<lambda>r. fst (snd r)) rows)
       (List.map (\<lambda>r. fst (snd (snd r))) rows) (List.map (\<lambda>r. fst (snd (snd (snd r)))) rows)
       (List.map (\<lambda>r. snd (snd (snd (snd r)))) rows) (mp, h) = forE create_ghost rows (mp, h)"
    by (simp add: CreateNewGhostNodes_def check_coordinates_def forE_nth wf_part_check_ghost [OF assms])
  show "\<not> (length xs = length ids \<and> length ys = length ids \<and> length zs = length ids \<and> length ps = length ids)
       \<longrightarrow> (\<exists>e. CreateNewGhostNodes ids xs ys zs ps (mp, h) = (Inl e, (mp, h)))"
    by (auto simp: CreateNewGhostNodes_def check_coordinates_def cpp_defs)
qed

theorem create_ghost_nodes_in_bulk_witness:
  "CreateNewGhostNodes [1, 2] [0, 0] [0, 0] [0, 0] [3, 4] (sample_part, 2) =
     forE create_ghost [(1, 0, 0, 0, 3), (2, 0, 0, 0, 4)] (sample_part, 2) \<and>
   (\<exists>e. CreateNewGhostNodes [1, 2] [0] [0, 0] [0, 0] [3, 4] (sample_part, 2) = (Inl e, (sample_part, 2)))"
  using create_ghost_nodes_in_bulk [OF conjunct1 [OF new_ModelPart_ok [OF sample_new]],
      of "[(1, 0, 0, 0, 3), (2, 0, 0, 0, 4)]" 2 "[0]" "[1, 2]" "[0, 0]" "[0, 0]" "[3, 4]"]
  by simp

end
