(* ===== verification/ModelPartSerialization.thy ===== *)
theory ModelPartSerialization
  imports ModelPart
begin

text \<open>
  \<open>save\<close> and \<open>load\<close> of nodes, elements and parts (\<open>sources/model_part.cpp\<close>). The nodes of a part are
  saved through reference-counted pointers: the first occurrence of a node writes the node, every
  later one (in the nodes of an element, in the local part, in the part of a partition) its address
  only, so that the loaded part shares its nodes as the saved one does.
\<close>

datatype mp_object = ONode Node | OElement Element | OPart model_part

fun get_node :: "mp_object \<Rightarrow> Node option" where
  "get_node (ONode n) = Some n"
| "get_node _ = None"

fun get_element :: "mp_object \<Rightarrow> Element option" where
  "get_element (OElement e) = Some e"
| "get_element _ = None"

fun get_part :: "mp_object \<Rightarrow> model_part option" where
  "get_part (OPart p) = Some p"
| "get_part _ = None"

type_synonym mp_ser = "mp_object ser"

section \<open>Nodes and elements\<close>

definition save_node :: "Node \<Rightarrow> (mp_ser, unit) cpp" where
  "save_node n =
     thenE (save_direct sc_id ''mId'' (n_Id n))
     (thenE (save_direct sc_double ''mX'' (n_X n))
     (thenE (save_direct sc_double ''mY'' (n_Y n))
     (save_direct sc_double ''mZ'' (n_Z n))))"

definition load_node :: "Node \<Rightarrow> (mp_ser, Node) cpp" where
  "load_node n =
     bindE (load_direct sc_id ''mId'') (\<lambda>i. bindE (load_direct sc_double ''mX'') (\<lambda>x.
     bindE (load_direct sc_double ''mY'') (\<lambda>y. bindE (load_direct sc_double ''mZ'') (\<lambda>z.
       retE (n\<lparr>n_Id := i, n_X := x, n_Y := y, n_Z := z\<rparr>)))))"

text \<open>
  The default constructors leave numbers uninitialised, for which the model takes zero: \<open>load\<close> sets
  all of them.
\<close>

definition Node_default :: Node where
  "Node_default = \<lparr>n_Id = 0, n_X = 0, n_Y = 0, n_Z = 0\<rparr>"

definition Element_default :: Element where
  "Element_default = \<lparr>e_Id = 0, e_Type = Hexahedra3D20, e_Nodes = []\<rparr>"

definition save_node_ptr :: "string \<Rightarrow> node_ptr \<Rightarrow> (mp_ser, unit) cpp" where
  "save_node_ptr rTag p = save_pointer save_node (\<lambda>_. None) rTag (Some p)"

definition load_node_ptr :: "string \<Rightarrow> node_ptr option \<Rightarrow> (mp_ser, node_ptr option) cpp" where
  "load_node_ptr = load_intrusive_ptr ONode get_node load_node (Some Node_default) False"

definition save_element :: "Element \<Rightarrow> (mp_ser, unit) cpp" where
  "save_element e =
     thenE (save_direct sc_id ''mId'' (e_Id e))
     (thenE (save_direct sc_int ''mType'' (element_type_to_int (e_Type e)))
     (save_vector save_node_ptr ''mNodes'' (e_Nodes e)))"

text \<open>A pointer that is null after loading makes the access to its object undefined.\<close>

definition not_null :: "'a option list \<Rightarrow> ('o ser, 'a list) cpp" where
  "not_null ps = (if None \<in> set ps then throwE (UndefinedBehaviour ''null pointer'')
     else retE (List.map the ps))"

definition load_element :: "Element \<Rightarrow> (mp_ser, Element) cpp" where
  "load_element e =
     bindE (load_direct sc_id ''mId'') (\<lambda>i. bindE (load_direct sc_int ''mType'') (\<lambda>tmp.
     bindE (bindE (load_vector load_node_ptr None ''mNodes'' (List.map Some (e_Nodes e))) not_null) (\<lambda>ns.
       retE (e\<lparr>e_Id := i, e_Type := element_type_of_int tmp, e_Nodes := ns\<rparr>))))"

definition save_element_ptr :: "string \<Rightarrow> element_ptr \<Rightarrow> (mp_ser, unit) cpp" where
  "save_element_ptr rTag p = save_pointer save_element (\<lambda>_. None) rTag (Some p)"

definition load_element_ptr :: "string \<Rightarrow> element_ptr option \<Rightarrow> (mp_ser, element_ptr option) cpp" where
  "load_element_ptr = load_intrusive_ptr OElement get_element load_element (Some Element_default) False"

section \<open>Parts\<close>

text \<open>
  The internal parts are held by \<open>std::unique_ptr\<close>, the parts of the partitions in a
  \<open>std::unordered_map\<close>, listed in the order of its iteration.
\<close>

function (sequential) save_part :: "model_part \<Rightarrow> (mp_ser, unit) cpp"
and save_part_ptr :: "string \<Rightarrow> (addr \<times> model_part) option \<Rightarrow> (mp_ser, unit) cpp"
and save_partitions :: "(i32 \<times> (addr \<times> model_part)) list \<Rightarrow> (mp_ser, unit) cpp" where
  "save_part (ModelPart nm ns es l g ps) =
     thenE (save_string ''mName'' nm)
     (thenE (save_object (iv_save save_node_ptr) ''mNodes'' ns)
     (thenE (save_object (iv_save save_element_ptr) ''mElements'' es)
     (thenE (save_part_ptr ''mpLocalModelPart'' l)
     (thenE (save_part_ptr ''mpGhostModelPart'' g)
     (thenE (save_trace_point ''mPartitionModelParts'')
     (thenE (save_direct sc_size_t ''size'' (word_of_nat (length ps)))
       (save_partitions ps)))))))"
| "save_part_ptr rTag None = save_pointer (\<lambda>_. retE ()) (\<lambda>_. None) rTag (None :: (addr \<times> unit) option)"
| "save_part_ptr rTag (Some (a, p)) = save_pointer (\<lambda>_. save_part p) (\<lambda>_. None) rTag (Some (a, ()))"
| "save_partitions [] = retE ()"
| "save_partitions ((i, q) # ps) =
     thenE (save_pair (save_direct sc_int) (\<lambda>rTag _. save_part_ptr rTag (Some q)) ''E'' (i, ()))
       (save_partitions ps)"
  by pat_completeness auto

termination
  by (relation "measure (case_sum (\<lambda>p. 2 * size p)
        (case_sum (\<lambda>(_, q). 1 + 2 * size_option (size_prod (\<lambda>_. 0) size) q)
          (\<lambda>ps. 2 * size_list (size_prod (\<lambda>_. 0) (size_prod (\<lambda>_. 0) size)) ps)))") auto

definition insert_new :: "'k \<Rightarrow> 'v \<Rightarrow> ('k \<times> 'v) list \<Rightarrow> ('k \<times> 'v) list" where
  "insert_new k v ps = (if k \<in> fst ` set ps then ps else ps @ [(k, v)])"

fun load_unordered :: "(string \<Rightarrow> ('o ser, 'k \<times> 'v) cpp) \<Rightarrow> nat \<Rightarrow> ('k \<times> 'v) list \<Rightarrow>
    ('o ser, ('k \<times> 'v) list) cpp" where
  "load_unordered load 0 rObject = retE rObject"
| "load_unordered load (Suc n) rObject =
     bindE (load ''E'') (\<lambda>(k, v). load_unordered load n (insert_new k v rObject))"

text \<open>
  \<open>load\<close> into a part. A node or element that is loaded into a slot of the vector which holds one
  already overwrites that object, which others share: the model stops where the part is not empty.
  The first argument bounds the nesting of parts, which the stream decides; a level of nesting
  consumes characters, so a bound above the length of the stream is enough.
\<close>

definition load_part_ptr :: "(model_part \<Rightarrow> (mp_ser, model_part) cpp) \<Rightarrow> string \<Rightarrow> (addr \<times> model_part) option \<Rightarrow>
    (mp_ser, (addr \<times> model_part) option) cpp" where
  "load_part_ptr load = load_unique_ptr OPart get_part load (Some (empty_part []))"

definition load_partition :: "(model_part \<Rightarrow> (mp_ser, model_part) cpp) \<Rightarrow> string \<Rightarrow>
    (mp_ser, i32 \<times> (addr \<times> model_part)) cpp" where
  "load_partition load rTag =
     bindE (load_pair (load_direct sc_int) (\<lambda>tag. load_part_ptr load tag None) rTag)
       (\<lambda>(i, p). case p of None \<Rightarrow> throwE (UndefinedBehaviour ''null part'') | Some q \<Rightarrow> retE (i, q))"

definition check_empty :: "model_part \<Rightarrow> (mp_ser, unit) cpp" where
  "check_empty mp = checkE (mData (mNodes mp) \<noteq> [] \<or> mData (mElements mp) \<noteq> [])
     (UndefinedBehaviour ''loading over nodes that others share'')"

primrec load_part :: "nat \<Rightarrow> model_part \<Rightarrow> (mp_ser, model_part) cpp" where
  "load_part 0 mp = throwE (StreamFailure ''nesting'')"
| "load_part (Suc n) mp =
     thenE (check_empty mp)
     (bindE (load_string ''mName'') (\<lambda>nm.
     bindE (load_object (iv_load load_node_ptr node_id (mNodes mp)) ''mNodes'') (\<lambda>ns.
     bindE (load_object (iv_load load_element_ptr element_id (mElements mp)) ''mElements'') (\<lambda>es.
     bindE (load_part_ptr (load_part n) ''mpLocalModelPart'' (mpLocalModelPart mp)) (\<lambda>l.
     bindE (load_part_ptr (load_part n) ''mpGhostModelPart'' (mpGhostModelPart mp)) (\<lambda>g.
     bindE (thenE (load_trace_point ''mPartitionModelParts'')
              (bindE (load_direct sc_size_t ''size'') (\<lambda>size.
                load_unordered (load_partition (load_part n)) (unat size) (mPartitionModelParts mp)))) (\<lambda>ps.
       retE (ModelPart nm ns es l g ps))))))))"

definition ModelPart_save :: "model_part \<Rightarrow> (mp_ser, unit) cpp" where
  "ModelPart_save mp = save_part mp"

definition ModelPart_load :: "model_part \<Rightarrow> (mp_ser, model_part) cpp" where
  "ModelPart_load mp = (\<lambda>s. load_part (length (mBuffer s) + 1) mp s)"

end
