(* ===== verification/ModelPartLayout.thy ===== *)
theory ModelPartLayout
  imports ModelPartLaws
begin

text \<open>
  Where the objects of a part are: every node, element and internal part has an address of its own,
  below the address that the next \<open>new\<close> returns, and the internal parts have the names and the
  structure that the constructors give them. No call of the library changes this, failing calls
  included.
\<close>

section \<open>The layout\<close>

definition flat :: "model_part \<Rightarrow> bool" where
  "flat mp \<longleftrightarrow> mpLocalModelPart mp = None \<and> mpGhostModelPart mp = None \<and> mPartitionModelParts mp = []"

definition inner_addrs :: "model_part \<Rightarrow> addr list" where
  "inner_addrs mp = [fst (the (mpLocalModelPart mp)), fst (the (mpGhostModelPart mp))]"

type_synonym partition = "i32 \<times> (addr \<times> model_part)"

definition entry_addrs :: "partition \<Rightarrow> addr list" where
  "entry_addrs x = fst (snd x) # inner_addrs (snd (snd x))"

definition all_addrs :: "model_part \<Rightarrow> addr list" where
  "all_addrs mp = inner_addrs mp @ List.map fst (mData (mNodes mp)) @ List.map fst (mData (mElements mp)) @
     concat (List.map entry_addrs (mPartitionModelParts mp))"

definition internal_named :: "string \<Rightarrow> (addr \<times> model_part) option \<Rightarrow> bool" where
  "internal_named nm v \<longleftrightarrow> (\<exists>a p. v = Some (a, p) \<and> flat p \<and> mName p = nm)"

definition entry_shape :: "partition \<Rightarrow> bool" where
  "entry_shape x \<longleftrightarrow> 0 \<le> sint (fst x) \<and> mName (snd (snd x)) = show_int (sint (fst x)) \<and>
     mPartitionModelParts (snd (snd x)) = [] \<and>
     (\<exists>a. mpLocalModelPart (snd (snd x)) = Some (a, empty_part ''local'')) \<and>
     (\<exists>a. mpGhostModelPart (snd (snd x)) = Some (a, empty_part ''ghost''))"

definition laid_out :: "model_part \<Rightarrow> addr \<Rightarrow> bool" where
  "laid_out mp h \<longleftrightarrow> internal_named ''local'' (mpLocalModelPart mp) \<and>
     internal_named ''ghost'' (mpGhostModelPart mp) \<and>
     (\<forall>x \<in> set (mPartitionModelParts mp). entry_shape x) \<and>
     distinct (all_addrs mp) \<and> (\<forall>a \<in> set (all_addrs mp). unat a < unat h)"

section \<open>Changes of a part\<close>

lemma unat_next: "unat (h :: addr) + 1 < 2 ^ 64 \<Longrightarrow> unat (h + 1) = unat h + 1"
  by (simp add: unat_word_ariths)

lemma laid_out_next: "laid_out mp h \<Longrightarrow> unat h + 1 < 2 ^ 64 \<Longrightarrow> laid_out mp (h + 1)"
  using unat_next [of h] by (auto simp: laid_out_def)

lemma laid_out_fresh: "laid_out mp h \<Longrightarrow> h \<notin> set (all_addrs mp)"
  by (auto simp: laid_out_def)

lemma laid_out_push:
  assumes "laid_out mp h" "unat h + 1 < 2 ^ 64"
  shows "laid_out (push_node (h, n) mp) (h + 1)" "laid_out (push_element (h, e) mp) (h + 1)"
  using laid_out_next [OF assms] laid_out_fresh [OF assms(1)] unat_next [OF assms(2)]
  by (auto simp: laid_out_def all_addrs_def push_node_def push_element_def iv_push_back_def Let_def
      inner_addrs_def)

lemma flat_push [simp]: "flat (push_node p l) \<longleftrightarrow> flat l" "flat (push_element q l) \<longleftrightarrow> flat l"
  "mName (push_node p l) = mName l" "mName (push_element q l) = mName l"
  by (simp_all add: flat_def push_node_def push_element_def)

lemma laid_out_internal:
  assumes "laid_out mp h" "flat (f p) = flat p" "mName (f p) = mName p"
  shows "mpLocalModelPart mp = Some (a, p) \<Longrightarrow> laid_out (set_local (Some (a, f p)) mp) h"
    and "mpGhostModelPart mp = Some (a, p) \<Longrightarrow> laid_out (set_ghost (Some (a, f p)) mp) h"
  using assms by (auto simp: laid_out_def internal_named_def all_addrs_def inner_addrs_def)

lemma entry_update_partition:
  "List.map entry_addrs (update_partition i (push_node q) ps) = List.map entry_addrs ps"
  "(\<forall>x \<in> set (update_partition i (push_node q) ps). entry_shape x) \<longleftrightarrow> (\<forall>x \<in> set ps. entry_shape x)"
  by (induction i "push_node q" ps rule: update_partition.induct)
     (auto simp: entry_addrs_def inner_addrs_def entry_shape_def push_node_def)

lemma laid_out_update_partition:
  assumes "laid_out mp h"
  shows "laid_out (set_partitions (update_partition i (push_node q) (mPartitionModelParts mp)) mp) h"
  using assms by (simp add: laid_out_def all_addrs_def entry_update_partition inner_addrs_def)

definition new_partition :: "i32 \<Rightarrow> addr \<Rightarrow> partition" where
  "new_partition i h = (i, (h, set_ghost (Some (h + 1 + 1, empty_part ''ghost''))
      (set_local (Some (h + 1, empty_part ''local'')) (empty_part (show_int (sint i))))))"

lemma unat_next3:
  assumes "unat (h :: addr) + 3 < 2 ^ 64"
  shows "unat (h + 1) = unat h + 1" "unat (h + 1 + 1) = unat h + 2" "unat (h + 1 + 1 + 1) = unat h + 3"
proof -
  show 1: "unat (h + 1) = unat h + 1" using assms by (intro unat_next) simp
  show 2: "unat (h + 1 + 1) = unat h + 2" using assms 1 unat_next [of "h + 1"] by simp
  show "unat (h + 1 + 1 + 1) = unat h + 3" using assms 2 unat_next [of "h + 1 + 1"] by simp
qed

lemma laid_out_new_partition:
  assumes "laid_out mp h" "0 \<le> sint i" "unat h + 3 < 2 ^ 64"
  shows "laid_out (set_partitions (mPartitionModelParts mp @ [new_partition i h]) mp) (h + 1 + 1 + 1)"
proof -
  let ?as = "[h, h + 1, h + 1 + 1]"
  have below: "\<forall>a \<in> set (all_addrs mp). unat a < unat h" using assms(1) by (simp add: laid_out_def)
  have all: "all_addrs (set_partitions (mPartitionModelParts mp @ [new_partition i h]) mp) = all_addrs mp @ ?as"
    by (simp add: all_addrs_def inner_addrs_def entry_addrs_def new_partition_def)
  have u: "unat a \<in> {unat h..unat h + 2}" if "a \<in> set ?as" for a
    using that unat_next3 [OF assms(3)] by auto
  have "distinct (List.map unat ?as)" using unat_next3 [OF assms(3)] by simp
  then have "distinct ?as" by (simp only: distinct_map)
  moreover have "set (all_addrs mp) \<inter> set ?as = {}" using below u by fastforce
  ultimately have "distinct (all_addrs mp @ ?as)" using assms(1) by (simp add: laid_out_def)
  moreover have "\<forall>a \<in> set (all_addrs mp @ ?as). unat a < unat (h + 1 + 1 + 1)"
    using below u unat_next3(3) [OF assms(3)] by fastforce
  moreover have "entry_shape (new_partition i h)"
    using assms(2) by (simp add: entry_shape_def new_partition_def empty_part_def)
  ultimately show ?thesis
    using assms(1) unfolding laid_out_def all by simp
qed

section \<open>The calls\<close>

definition keeps_layout :: "unit part_op \<Rightarrow> bool" where
  "keeps_layout m \<longleftrightarrow> (\<forall>mp h. laid_out mp h \<longrightarrow> unat h + 4 < 2 ^ 64 \<longrightarrow>
     (case m (mp, h) of (r, (mp', h')) \<Rightarrow> laid_out mp' h' \<and> unat h' \<le> unat h + 4))"

lemma laid_outE:
  assumes "laid_out mp h"
  obtains a l b g where "mpLocalModelPart mp = Some (a, l)" "mpGhostModelPart mp = Some (b, g)"
  using assms by (auto simp: laid_out_def internal_named_def)

lemma pushed_internal [simp]:
  "mpLocalModelPart (push_node p mp) = mpLocalModelPart mp" "mpGhostModelPart (push_node p mp) = mpGhostModelPart mp"
  "mpLocalModelPart (push_element q mp) = mpLocalModelPart mp"
  "mpGhostModelPart (push_element q mp) = mpGhostModelPart mp"
  "mPartitionModelParts (push_node p mp) = mPartitionModelParts mp"
  by (simp_all add: push_node_def push_element_def)

lemma CreateNewNode_layout: "keeps_layout (discard (CreateNewNode i x y z))"
  unfolding keeps_layout_def
proof (intro allI impI)
  fix mp h assume h: "laid_out mp h" "unat h + 4 < 2 ^ 64"
  obtain a l where l: "mpLocalModelPart mp = Some (a, l)" using laid_outE [OF h(1)] by blast
  have "laid_out (set_local (Some (a, push_node (h, n) l)) (push_node (h, n) mp)) (h + 1)" for n
    using l h by (intro laid_out_internal(1) laid_out_push) simp_all
  then show "case discard (CreateNewNode i x y z) (mp, h) of (r, mp', h') \<Rightarrow>
      laid_out mp' h' \<and> unat h' \<le> unat h + 4"
    using h l unat_next [of h]
    by (auto simp: discard_def CreateNewNode_def part_defs in_local_def new_Node_def)
qed

lemma CreateNewElement_layout: "keeps_layout (discard (CreateNewElement i t ks))"
  unfolding keeps_layout_def
proof (intro allI impI)
  fix mp h assume h: "laid_out mp h" "unat h + 4 < 2 ^ 64"
  obtain a l where l: "mpLocalModelPart mp = Some (a, l)" using laid_outE [OF h(1)] by blast
  have "laid_out (set_local (Some (a, push_element (h, e) l)) (push_element (h, e) mp)) (h + 1)" for e
    using l h by (intro laid_out_internal(1) laid_out_push) simp_all
  then show "case discard (CreateNewElement i t ks) (mp, h) of (r, mp', h') \<Rightarrow>
      laid_out mp' h' \<and> unat h' \<le> unat h + 4"
    using h l unat_next [of h]
    by (auto simp: discard_def CreateNewElement_def part_defs in_local_def get_nodes split: sum.split)
qed

lemma GetPartitionModelPart_layout:
  assumes "laid_out mp h" "0 \<le> sint i" "unat h + 3 < 2 ^ 64"
  shows "\<exists>mp' h'. GetPartitionModelPart i (mp, h) = (Inr (), (mp', h')) \<and> laid_out mp' h' \<and>
     unat h' \<le> unat h + 3"
proof (cases "map_of (mPartitionModelParts mp) i")
  case None
  have sh: "show_int (sint i) = show_nat (nat (sint i))" using assms(2) by (simp add: show_int_def)
  have "check_name (show_int (sint i)) = Inr ()"
    using show_nat_name [of "nat (sint i)"] by (simp add: sh)
  then have "GetPartitionModelPart i (mp, h) = (Inr (),
      (set_partitions (mPartitionModelParts mp @ [new_partition i h]) mp, h + 1 + 1 + 1))"
    using None by (simp add: GetPartitionModelPart_def part_defs on_heap_def new_ModelPart_def
        InitializeInternalModelParts_def new_partition_def)
  then show ?thesis
    using laid_out_new_partition [OF assms] unat_next3 [OF assms(3)] by auto
next
  case (Some q)
  then show ?thesis using assms(1)
    by (intro exI [of _ mp] exI [of _ h]) (simp add: GetPartitionModelPart_def part_defs)
qed

lemma CreateNewGhostNode_layout: "keeps_layout (discard (CreateNewGhostNode i x y z p))"
  unfolding keeps_layout_def
proof (intro allI impI)
  fix mp h assume h: "laid_out mp h" "unat h + 4 < 2 ^ 64"
  obtain b g where g: "mpGhostModelPart mp = Some (b, g)" using laid_outE [OF h(1)] by blast
  let ?mp = "\<lambda>n. set_ghost (Some (b, push_node (h, n) g)) (push_node (h, n) mp)"
  show "case discard (CreateNewGhostNode i x y z p) (mp, h) of (r, mp', h') \<Rightarrow>
      laid_out mp' h' \<and> unat h' \<le> unat h + 4"
  proof (cases "HasNode mp i \<or> sint p < 0 \<or> sint i < 1")
    case True
    from discard_Inl [of "CreateNewGhostNode i x y z p", OF CreateNewGhostNode_error [OF this, of x y z h]]
    show ?thesis using h(1) by auto
  next
    case False
    then obtain n where n: "new_Node i x y z = Inr n" by (simp add: new_Node_def)
    have "laid_out (?mp n) (h + 1)"
      using g h by (intro laid_out_internal(2) laid_out_push) simp_all
    moreover have u: "unat (h + 1) = unat h + 1" using h(2) by (intro unat_next) simp
    ultimately obtain mp' h' where "GetPartitionModelPart p (?mp n, h + 1) = (Inr (), (mp', h'))"
      "laid_out mp' h'" "unat h' \<le> unat (h + 1) + 3"
      using GetPartitionModelPart_layout [of "?mp n" "h + 1" p] False h(2) by auto
    then show ?thesis
      using False n g u laid_out_update_partition [of mp' h' p "(h, n)"]
      by (simp add: discard_def CreateNewGhostNode_def part_defs in_ghost_def in_partition_def)
  qed
qed

lemma laid_out_initial:
  assumes "unat h + 2 < 2 ^ 64" "mData (mNodes mp) = []" "mData (mElements mp) = []" "mPartitionModelParts mp = []"
  shows "laid_out (set_ghost (Some (h + 1, empty_part ''ghost'')) (set_local (Some (h, empty_part ''local'')) mp))
     (h + 1 + 1)" "unat (h + 1 + 1) = unat h + 2"
proof -
  have u: "unat (h + 1) = unat h + 1" "unat (h + 1 + 1) = unat h + 2"
    using assms(1) unat_next [of h] unat_next [of "h + 1"] by simp_all
  then have "h \<noteq> h + 1" by (metis add_cancel_left_right one_neq_zero)
  then show "laid_out (set_ghost (Some (h + 1, empty_part ''ghost'')) (set_local (Some (h, empty_part ''local'')) mp))
      (h + 1 + 1)"
    using assms u by (simp add: laid_out_def internal_named_def all_addrs_def inner_addrs_def flat_def empty_part_def)
  show "unat (h + 1 + 1) = unat h + 2" by (rule u(2))
qed

lemma Clear_layout: "keeps_layout Clear"
  unfolding keeps_layout_def
proof (intro allI impI)
  fix mp h assume h: "laid_out mp h" "unat h + 4 < 2 ^ 64"
  let ?mp = "set_nodes iv_new (set_elements iv_new (set_partitions [] mp))"
  have "set_nodes iv_new (set_elements iv_new (set_partitions [] (set_ghost v (set_local w mp)))) =
      set_ghost v (set_local w ?mp)" for v w
    by (cases mp) simp
  then show "case Clear (mp, h) of (r, mp', h') \<Rightarrow> laid_out mp' h' \<and> unat h' \<le> unat h + 4"
    using laid_out_initial [of h ?mp] h(2)
    by (simp add: Clear_def InitializeInternalModelParts_def part_defs iv_new_def)
qed

lemma do_call_layout: "keeps_layout (do_call c)"
  by (cases c) (simp_all only: do_call.simps CreateNewNode_layout CreateNewGhostNode_layout
      CreateNewElement_layout Clear_layout)

lemma run_calls_layout:
  "laid_out mp h \<Longrightarrow> unat h + 4 * length cs < 2 ^ 64 \<Longrightarrow> run_calls cs (mp, h) = (rs, (mp', h')) \<Longrightarrow>
     laid_out mp' h'"
proof (induction cs arbitrary: mp h rs)
  case (Cons c cs)
  obtain r mp1 h1 where c: "do_call c (mp, h) = (r, (mp1, h1))" by (metis prod_cases3)
  have h: "unat h + 4 < 2 ^ 64" using Cons.prems(2) by simp
  have 1: "laid_out mp1 h1" "unat h1 \<le> unat h + 4"
    using do_call_layout [of c, unfolded keeps_layout_def, rule_format, OF Cons.prems(1) h] c by simp_all
  obtain rs1 where "run_calls cs (mp1, h1) = (rs1, (mp', h'))"
    using Cons.prems(3) c by (auto split: prod.splits)
  with 1 Cons.prems(2) show ?case by (intro Cons.IH [of mp1 h1]) simp_all
qed simp

lemma new_ModelPart_layout:
  assumes "new_ModelPart nm h = (Inr mp, h')" "unat h + 2 < 2 ^ 64"
  shows "laid_out mp h' \<and> unat h' = unat h + 2"
  using assms(1) laid_out_initial [OF assms(2), of "empty_part nm"]
  by (auto simp: new_ModelPart_def InitializeInternalModelParts_def part_defs empty_part_def iv_new_def
      split: sum.splits)

end
