(* ===== verification/MeshTransfer.thy ===== *)
theory MeshTransfer
  imports ModelPartSerialization ModelPartLayout
begin

text \<open>
  What the round trip of a mesh needs of the serializer: \<open>save\<close> and \<open>load\<close> of objects that share
  others. \<open>emits\<close> says what a saving operation appends when the pointers in \<open>A\<close> have been saved
  already; \<open>takes\<close> that a loading operation consumes exactly these characters, and what it returns
  in terms of the table of loaded pointers, which only grows; \<open>passes\<close> is both.
\<close>

type_synonym table = "addr \<Rightarrow> mp_object slot option"

record setting =
  st_platform :: platform
  st_trace :: TraceType
  st_nodes :: "node_ptr set"
  st_elements :: "element_ptr set"

section \<open>Copies\<close>

text \<open>A pointer that was loaded is the copy of the saved one that the table names.\<close>

definition node_copy :: "table \<Rightarrow> node_ptr \<Rightarrow> node_ptr \<Rightarrow> bool" where
  "node_copy t p q \<longleftrightarrow> t (fst p) = Some (Slot (fst q) (ONode (snd p))) \<and> snd q = snd p"

definition element_copy :: "table \<Rightarrow> Element \<Rightarrow> Element \<Rightarrow> bool" where
  "element_copy t e e' \<longleftrightarrow> e_Id e' = e_Id e \<and> e_Type e' = e_Type e \<and>
     list_all2 (node_copy t) (e_Nodes e) (e_Nodes e')"

definition element_ptr_copy :: "table \<Rightarrow> element_ptr \<Rightarrow> element_ptr \<Rightarrow> bool" where
  "element_ptr_copy t p q \<longleftrightarrow> t (fst p) = Some (Slot (fst q) (OElement (snd q))) \<and>
     element_copy t (snd p) (snd q)"

definition grows :: "table \<Rightarrow> table \<Rightarrow> bool" where
  "grows t t' \<longleftrightarrow> (\<forall>a b x. t a = Some (Slot b x) \<longrightarrow> t' a = Some (Slot b x))"

lemma grows_refl [simp]: "grows t t"
  by (simp add: grows_def)

lemma grows_trans: "grows t u \<Longrightarrow> grows u v \<Longrightarrow> grows t v"
  by (simp add: grows_def)

lemma grows_new: "(\<And>b x. t a \<noteq> Some (Slot b x)) \<Longrightarrow> grows t (t(a \<mapsto> y))"
  by (auto simp: grows_def)

lemma map_le_grows: "t \<subseteq>\<^sub>m t' \<Longrightarrow> grows t t'"
  unfolding grows_def map_le_def by (metis domI)

lemma node_copy_grows: "node_copy t p q \<Longrightarrow> grows t t' \<Longrightarrow> node_copy t' p q"
  by (simp add: node_copy_def grows_def)

lemma element_copy_grows: "element_copy t e e' \<Longrightarrow> grows t t' \<Longrightarrow> element_copy t' e e'"
  unfolding element_copy_def by (auto elim: list_all2_mono node_copy_grows)

lemma element_ptr_copy_grows: "element_ptr_copy t p q \<Longrightarrow> grows t t' \<Longrightarrow> element_ptr_copy t' p q"
  unfolding element_ptr_copy_def using element_copy_grows by (auto simp: grows_def)

text \<open>
  The invariant of the table: no pointer outside \<open>A\<close> has been seen, and the nodes and elements in
  \<open>A\<close> have their copies, but for the objects in \<open>B\<close>, which are being loaded.
\<close>

definition has_copy :: "setting \<Rightarrow> table \<Rightarrow> addr \<Rightarrow> bool" where
  "has_copy X t a \<longleftrightarrow> (\<forall>p \<in> st_nodes X. fst p = a \<longrightarrow> (\<exists>q. node_copy t p q)) \<and>
     (\<forall>p \<in> st_elements X. fst p = a \<longrightarrow> (\<exists>q. element_ptr_copy t p q))"

lemma has_copy_grows: "has_copy X t a \<Longrightarrow> grows t t' \<Longrightarrow> has_copy X t' a"
  unfolding has_copy_def using node_copy_grows element_ptr_copy_grows by blast

definition loaded_ok :: "setting \<Rightarrow> addr set \<Rightarrow> addr set \<Rightarrow> table \<Rightarrow> bool" where
  "loaded_ok X B A t \<longleftrightarrow> dom t \<subseteq> A \<and> (\<forall>a \<in> A - B. has_copy X t a)"

lemma loaded_ok_start:
  assumes "loaded_ok X B A t" "a \<notin> A"
  shows "t a = None" "loaded_ok X (insert a B) (insert a A) (t(a \<mapsto> Loading))"
proof -
  show *: "t a = None" using assms by (auto simp: loaded_ok_def)
  then have "grows t (t(a \<mapsto> Loading))" by (simp add: grows_new)
  then show "loaded_ok X (insert a B) (insert a A) (t(a \<mapsto> Loading))"
    using assms(1) has_copy_grows [of X t _ "t(a \<mapsto> Loading)"] by (auto simp: loaded_ok_def)
qed

lemma loaded_ok_end:
  assumes "loaded_ok X (insert a B) A t" "t a = Some Loading" "has_copy X (t(a \<mapsto> x)) a"
  shows "loaded_ok X B A (t(a \<mapsto> x))"
proof -
  have "grows t (t(a \<mapsto> x))" using assms(2) by (simp add: grows_new)
  note g = has_copy_grows [OF _ this]
  have "a \<in> A" using assms(1,2) by (auto simp: loaded_ok_def)
  moreover have "has_copy X (t(a \<mapsto> x)) b" if "b \<in> A - B" for b
    using assms g that by (cases "b = a") (auto simp: loaded_ok_def)
  ultimately show ?thesis using assms(1) by (auto simp: loaded_ok_def)
qed

text \<open>An address belongs to one object.\<close>

definition separate :: "setting \<Rightarrow> bool" where
  "separate X \<longleftrightarrow> inj_on fst (st_nodes X) \<and> inj_on fst (st_elements X) \<and>
     fst ` st_nodes X \<inter> fst ` st_elements X = {}"

lemma has_copy_node:
  assumes "separate X" "p \<in> st_nodes X" "node_copy t p q"
  shows "has_copy X t (fst p)"
proof -
  have "p' = p" if "p' \<in> st_nodes X" "fst p' = fst p" for p'
    using assms(1,2) that by (auto simp: separate_def dest: inj_onD)
  moreover have "fst p \<notin> fst ` st_elements X" using assms(1,2) by (auto simp: separate_def)
  ultimately show ?thesis using assms(3) unfolding has_copy_def by (metis imageI)
qed

lemma has_copy_element:
  assumes "separate X" "p \<in> st_elements X" "element_ptr_copy t p q"
  shows "has_copy X t (fst p)"
proof -
  have "p' = p" if "p' \<in> st_elements X" "fst p' = fst p" for p'
    using assms(1,2) that by (auto simp: separate_def dest: inj_onD)
  moreover have "fst p \<notin> fst ` st_nodes X" using assms(1,2) by (auto simp: separate_def)
  ultimately show ?thesis using assms(3) unfolding has_copy_def by (metis imageI)
qed

lemma has_copy_other: "a \<notin> fst ` st_nodes X \<union> fst ` st_elements X \<Longrightarrow> has_copy X t a"
  by (auto simp: has_copy_def)

section \<open>Saving\<close>

definition out_of :: "setting \<Rightarrow> (mp_ser, unit) cpp \<Rightarrow> addr set \<Rightarrow> string" where
  "out_of X m A = mBuffer (snd (m ((StreamSerializer (st_platform X) 0 (st_trace X))
     \<lparr>mSavedPointers := A\<rparr>)))"

definition emits :: "setting \<Rightarrow> (mp_ser, unit) cpp \<Rightarrow> addr set \<Rightarrow> addr set \<Rightarrow> bool" where
  "emits X m A A' \<longleftrightarrow> (\<forall>s. mPlatform s = st_platform X \<longrightarrow> mTrace s = st_trace X \<longrightarrow>
     mSavedPointers s = A \<longrightarrow>
     m s = (Inr (), s\<lparr>mBuffer := mBuffer s @ out_of X m A, mSavedPointers := A'\<rparr>))"

lemma emitsI:
  assumes "\<And>s. mPlatform s = st_platform X \<Longrightarrow> mTrace s = st_trace X \<Longrightarrow> mSavedPointers s = A \<Longrightarrow>
     m s = (Inr (), s\<lparr>mBuffer := mBuffer s @ out, mSavedPointers := A'\<rparr>)"
  shows "emits X m A A'" "out_of X m A = out"
proof -
  show *: "out_of X m A = out"
    unfolding out_of_def by (subst assms) (simp_all add: StreamSerializer_def)
  show "emits X m A A'" using assms by (simp add: emits_def *)
qed

lemma emitsD:
  "emits X m A A' \<Longrightarrow> mPlatform s = st_platform X \<Longrightarrow> mTrace s = st_trace X \<Longrightarrow>
     mSavedPointers s = A \<Longrightarrow>
     m s = (Inr (), s\<lparr>mBuffer := mBuffer s @ out_of X m A, mSavedPointers := A'\<rparr>)"
  by (simp add: emits_def)

lemma emits_then:
  assumes "emits X m A A1" "emits X k A1 A2"
  shows "emits X (thenE m k) A A2"
    "out_of X (thenE m k) A = out_of X m A @ out_of X k A1"
proof -
  have "thenE m k s = (Inr (), s\<lparr>mBuffer := mBuffer s @ (out_of X m A @ out_of X k A1),
      mSavedPointers := A2\<rparr>)"
    if s: "mPlatform s = st_platform X" "mTrace s = st_trace X" "mSavedPointers s = A" for s
    using emitsD [OF assms(1) s] that
    by (simp add: thenE_def bindE_def) (subst emitsD [OF assms(2)], simp_all)
  note * = emitsI [OF this]
  show "emits X (thenE m k) A A2" by (rule *(1))
  show "out_of X (thenE m k) A = out_of X m A @ out_of X k A1" by (rule *(2))
qed

lemma emits_writes:
  assumes "writes m (st_platform X) (st_trace X) out"
  shows "emits X m A A" "out_of X m A = out"
proof -
  have "m s = (Inr (), s\<lparr>mBuffer := mBuffer s @ out, mSavedPointers := A\<rparr>)"
    if s: "mPlatform s = st_platform X" "mTrace s = st_trace X" "mSavedPointers s = A" for s
    using assms [unfolded writes_def] that by auto
  note * = emitsI [OF this]
  show "emits X m A A" by (rule *(1))
  show "out_of X m A = out" by (rule *(2))
qed

section \<open>Loading\<close>

definition takes :: "setting \<Rightarrow> addr set \<Rightarrow> (mp_ser, 'a) cpp \<Rightarrow> string \<Rightarrow> addr set \<Rightarrow> addr set \<Rightarrow>
    (table \<Rightarrow> 'a \<Rightarrow> bool) \<Rightarrow> bool" where
  "takes X B m out A A' R \<longleftrightarrow> (\<forall>s g rest. mPlatform s = st_platform X \<longrightarrow> mTrace s = st_trace X \<longrightarrow>
     loaded_ok X B A (mLoadedPointers s) \<longrightarrow> g \<in> {[], gap (st_trace X)} \<longrightarrow>
     mBuffer s = g @ out @ rest \<longrightarrow>
     (\<exists>v s' g'. m s = (Inr v, s') \<and> mPlatform s' = st_platform X \<and> mTrace s' = st_trace X \<and>
        loaded_ok X B A' (mLoadedPointers s') \<and> g' \<in> {[], gap (st_trace X)} \<and>
        mBuffer s' = g' @ rest \<and> mLoadedPointers s \<subseteq>\<^sub>m mLoadedPointers s' \<and>
        (\<forall>t. grows (mLoadedPointers s') t \<longrightarrow> R t v)))"

lemma takesD:
  assumes "takes X B m out A A' R" "mPlatform s = st_platform X" "mTrace s = st_trace X"
    "loaded_ok X B A (mLoadedPointers s)" "g \<in> {[], gap (st_trace X)}" "mBuffer s = g @ out @ rest"
  obtains v s' g' where "m s = (Inr v, s')" "mPlatform s' = st_platform X" "mTrace s' = st_trace X"
    "loaded_ok X B A' (mLoadedPointers s')" "g' \<in> {[], gap (st_trace X)}"
    "mBuffer s' = g' @ rest" "mLoadedPointers s \<subseteq>\<^sub>m mLoadedPointers s'"
    "\<And>t. grows (mLoadedPointers s') t \<Longrightarrow> R t v"
  using assms(1) [unfolded takes_def, rule_format, OF assms(2-6)] by blast

lemma takes_weaken:
  assumes "takes X B m out A A' Q" "\<And>t v. Q t v \<Longrightarrow> R t v"
  shows "takes X B m out A A' R"
  unfolding takes_def
proof (intro allI impI)
  fix s :: mp_ser and g rest
  assume s: "mPlatform s = st_platform X" "mTrace s = st_trace X"
    "loaded_ok X B A (mLoadedPointers s)" "g \<in> {[], gap (st_trace X)}" "mBuffer s = g @ out @ rest"
  from takesD [OF assms(1) s] assms(2) show "\<exists>v s' g'. m s = (Inr v, s') \<and>
      mPlatform s' = st_platform X \<and> mTrace s' = st_trace X \<and>
      loaded_ok X B A' (mLoadedPointers s') \<and> g' \<in> {[], gap (st_trace X)} \<and>
      mBuffer s' = g' @ rest \<and> mLoadedPointers s \<subseteq>\<^sub>m mLoadedPointers s' \<and>
      (\<forall>t. grows (mLoadedPointers s') t \<longrightarrow> R t v)" by metis
qed

lemma takes_bind:
  assumes m: "takes X B m out1 A A1 R1" and f: "\<And>t v. R1 t v \<Longrightarrow> takes X B (f v) out2 A1 A2 (Q v)"
  shows "takes X B (bindE m f) (out1 @ out2) A A2 (\<lambda>t w. \<exists>v. R1 t v \<and> Q v t w)"
  unfolding takes_def
proof (intro allI impI)
  fix s :: mp_ser and g rest
  assume s: "mPlatform s = st_platform X" "mTrace s = st_trace X"
    "loaded_ok X B A (mLoadedPointers s)" "g \<in> {[], gap (st_trace X)}"
    "mBuffer s = g @ (out1 @ out2) @ rest"
  have b: "mBuffer s = g @ out1 @ (out2 @ rest)" using s(5) by simp
  from takesD [OF m s(1-4) b] obtain v s1 g1 where 1: "m s = (Inr v, s1)"
    "mPlatform s1 = st_platform X" "mTrace s1 = st_trace X" "loaded_ok X B A1 (mLoadedPointers s1)"
    "g1 \<in> {[], gap (st_trace X)}" "mBuffer s1 = g1 @ out2 @ rest"
    "mLoadedPointers s \<subseteq>\<^sub>m mLoadedPointers s1"
    "\<And>t. grows (mLoadedPointers s1) t \<Longrightarrow> R1 t v" by metis
  from takesD [OF f [OF 1(8) [OF grows_refl]] 1(2-6)] obtain w s2 g2 where 2: "f v s1 = (Inr w, s2)"
    "mPlatform s2 = st_platform X" "mTrace s2 = st_trace X" "loaded_ok X B A2 (mLoadedPointers s2)"
    "g2 \<in> {[], gap (st_trace X)}" "mBuffer s2 = g2 @ rest"
    "mLoadedPointers s1 \<subseteq>\<^sub>m mLoadedPointers s2"
    "\<And>t. grows (mLoadedPointers s2) t \<Longrightarrow> Q v t w" by metis
  have "\<exists>v. R1 t v \<and> Q v t w" if "grows (mLoadedPointers s2) t" for t
    using 1(8) [OF grows_trans [OF map_le_grows [OF 2(7)] that]] 2(8) [OF that] by blast
  then show "\<exists>w s' g'. bindE m f s = (Inr w, s') \<and>
      mPlatform s' = st_platform X \<and> mTrace s' = st_trace X \<and>
      loaded_ok X B A2 (mLoadedPointers s') \<and> g' \<in> {[], gap (st_trace X)} \<and>
      mBuffer s' = g' @ rest \<and> mLoadedPointers s \<subseteq>\<^sub>m mLoadedPointers s' \<and>
      (\<forall>t. grows (mLoadedPointers s') t \<longrightarrow> (\<exists>v. R1 t v \<and> Q v t w))"
    using 1(1) 2(1-6) map_le_trans [OF 1(7) 2(7)] by (intro exI [of _ w] exI [of _ s2] exI [of _ g2]) simp
qed

lemma takes_ret: "(\<And>t. R t v) \<Longrightarrow> takes X B (retE v) [] A A R"
  by (auto simp: takes_def retE_def)

lemma takes_reads:
  assumes "reads m (st_platform X) (st_trace X) out v"
  shows "takes X B m out A A (\<lambda>t w. w = v)"
  unfolding takes_def
proof (intro allI impI)
  fix s :: mp_ser and g rest
  assume s: "mPlatform s = st_platform X" "mTrace s = st_trace X"
    "loaded_ok X B A (mLoadedPointers s)" "g \<in> {[], gap (st_trace X)}" "mBuffer s = g @ out @ rest"
  obtain g' n where g': "g' \<in> {[], gap (st_trace X)}"
    "m s = (Inr v, s\<lparr>mBuffer := g' @ rest, mNumberOfLines := n\<rparr>)"
    using readsD [OF assms s(1,2,4,5)] by metis
  show "\<exists>w s' g'. m s = (Inr w, s') \<and>
      mPlatform s' = st_platform X \<and> mTrace s' = st_trace X \<and>
      loaded_ok X B A (mLoadedPointers s') \<and> g' \<in> {[], gap (st_trace X)} \<and>
      mBuffer s' = g' @ rest \<and> mLoadedPointers s \<subseteq>\<^sub>m mLoadedPointers s' \<and>
      (\<forall>t. grows (mLoadedPointers s') t \<longrightarrow> w = v)"
    unfolding g'(2) using g'(1) s
    by (intro exI [of _ v] exI [of _ "s\<lparr>mBuffer := g' @ rest, mNumberOfLines := n\<rparr>"] exI [of _ g']) simp
qed

section \<open>Both\<close>

definition passes :: "setting \<Rightarrow> addr set \<Rightarrow> (mp_ser, unit) cpp \<Rightarrow> (mp_ser, 'a) cpp \<Rightarrow> addr set \<Rightarrow>
    addr set \<Rightarrow> (table \<Rightarrow> 'a \<Rightarrow> bool) \<Rightarrow> bool" where
  "passes X B sv ld A A' R \<longleftrightarrow> emits X sv A A' \<and> takes X B ld (out_of X sv A) A A' R"

lemma passes_weaken:
  "passes X B sv ld A A' Q \<Longrightarrow> (\<And>t v. Q t v \<Longrightarrow> R t v) \<Longrightarrow> passes X B sv ld A A' R"
  using takes_weaken unfolding passes_def by blast

lemma passes_emits: "passes X B sv ld A A' R \<Longrightarrow> emits X sv A A'"
  by (simp add: passes_def)

lemma passes_bind:
  assumes "passes X B sv ld A A1 R1" "emits X sv2 A1 A2"
    "\<And>t v. R1 t v \<Longrightarrow> passes X B sv2 (f v) A1 A2 (Q v)"
  shows "passes X B (thenE sv sv2) (bindE ld f) A A2 (\<lambda>t w. \<exists>v. R1 t v \<and> Q v t w)"
proof -
  have e: "emits X sv A A1" using assms(1) by (rule passes_emits)
  have "takes X B (bindE ld f) (out_of X sv A @ out_of X sv2 A1) A A2 (\<lambda>t w. \<exists>v. R1 t v \<and> Q v t w)"
    by (rule takes_bind) (use assms(1,3) in \<open>auto simp: passes_def\<close>)
  then show ?thesis using emits_then [OF e assms(2)] by (simp add: passes_def)
qed

lemma passes_then:
  assumes "passes X B sv ld A A1 R1" "passes X B sv2 ld2 A1 A2 R2"
  shows "passes X B (thenE sv sv2) (thenE ld ld2) A A2 R2"
  unfolding thenE_def [of ld]
  by (rule passes_weaken [OF passes_bind [OF assms(1) passes_emits [OF assms(2)] assms(2)]]) blast

lemma passes_codec:
  assumes "writes sv (st_platform X) (st_trace X) out" "reads ld (st_platform X) (st_trace X) out v"
  shows "passes X B sv ld A A (\<lambda>t w. w = v)"
  unfolding passes_def using emits_writes [OF assms(1)] takes_reads [OF assms(2)] by simp

lemma emits_ret: "emits X (retE ()) A A" "out_of X (retE ()) A = []"
  by (rule emits_writes [OF writes_ret])+

lemma passes_ret: "(\<And>t. R t v) \<Longrightarrow> passes X B (retE ()) (retE v) A A R"
  by (simp add: passes_def emits_ret takes_ret)

lemma passes_tag:
  "quote \<notin> set tag \<Longrightarrow> passes X B (save_trace_point tag) (load_trace_point tag) A A (\<lambda>t w. w = ())"
  by (rule passes_codec [OF writes_tag reads_tag])

lemma passes_scalars:
  assumes "quote \<notin> set tag"
  shows "passes X B (save_direct sc_size_t tag k) (load_direct sc_size_t tag) A A (\<lambda>t w. w = k)"
    and "passes X B (save_direct sc_id tag i) (load_direct sc_id tag) A A (\<lambda>t w. w = i)"
    and "passes X B (save_direct sc_int tag j) (load_direct sc_int tag) A A (\<lambda>t w. w = j)"
    and "st_trace X = SERIALIZER_NO_TRACE \<or> prints_exactly (st_platform X) d \<Longrightarrow>
      passes X B (save_direct sc_double tag d) (load_direct sc_double tag) A A (\<lambda>t w. w = d)"
    and "string_good (st_trace X) x \<Longrightarrow>
      passes X B (save_string tag x) (load_string tag) A A (\<lambda>t w. w = x)"
  by (rule passes_codec [OF size_codec.save_out size_codec.load_out] passes_codec [OF id_codec.save_out id_codec.load_out]
      passes_codec [OF int_codec.save_out int_codec.load_out] passes_codec [OF double_codec.save_out double_codec.load_out]
      passes_codec [OF string_codec.save_out string_codec.load_out]; use assms in simp)+

text \<open>An operation that only loads: it ends a chain.\<close>

lemma passes_end:
  assumes "passes X B sv ld A A' Q" "\<And>t v. Q t v \<Longrightarrow> takes X B (f v) [] A' A' (R v)"
  shows "passes X B sv (bindE ld f) A A' (\<lambda>t w. \<exists>v. Q t v \<and> R v t w)"
proof -
  have "takes X B (bindE ld f) (out_of X sv A @ []) A A' (\<lambda>t w. \<exists>v. Q t v \<and> R v t w)"
    by (rule takes_bind) (use assms in \<open>auto simp: passes_def\<close>)
  then show ?thesis using assms(1) by (simp add: passes_def)
qed

end
