(* ===== verification/MeshPointers.thy ===== *)
theory MeshPointers
  imports MeshTransfer
begin

text \<open>
  Vectors of pointers, and pointers: the first occurrence of an object is written and loaded into a new
  object, every later one is the same copy.
\<close>

section \<open>Vectors\<close>

lemma passes_elems:
  assumes "\<And>p A. p \<in> set ps \<Longrightarrow> K \<subseteq> A \<Longrightarrow> passes X B (sv p) (ld None) A (insert (fst p) A)
      (\<lambda>t v. \<exists>q. v = Some q \<and> C t p q)" "K \<subseteq> A"
  shows "passes X B (forE sv ps) (mapE ld (replicate (length ps) None)) A (A \<union> fst ` set ps)
      (\<lambda>t vs. \<exists>qs. vs = List.map Some qs \<and> list_all2 (C t) ps qs)"
  using assms
proof (induction ps arbitrary: A)
  case Nil
  then show ?case by (simp add: passes_ret)
next
  case (Cons p ps)
  have K: "K \<subseteq> insert (fst p) A" using Cons.prems(2) by blast
  let ?A = "insert (fst p) A \<union> fst ` set ps"
  let ?R = "\<lambda>t vs. \<exists>qs. vs = List.map Some qs \<and> list_all2 (C t) ps qs"
  have IH: "passes X B (forE sv ps) (mapE ld (replicate (length ps) None)) (insert (fst p) A) ?A ?R"
    using Cons.prems(1) by (intro Cons.IH [OF _ K]) simp
  have rest: "passes X B (forE sv ps) (bindE (mapE ld (replicate (length ps) None)) (\<lambda>ys. retE (v # ys)))
      (insert (fst p) A) ?A (\<lambda>t w. \<exists>vs. ?R t vs \<and> w = v # vs)" for v
    by (rule passes_end [OF IH]) (rule takes_ret, rule refl)
  have "passes X B (sv p) (ld None) A (insert (fst p) A) (\<lambda>t v. \<exists>q. v = Some q \<and> C t p q)"
    using Cons.prems by simp
  from passes_bind [OF this passes_emits [OF IH] rest]
  have "passes X B (forE sv (p # ps)) (mapE ld (replicate (length (p # ps)) None)) A ?A
      (\<lambda>t w. \<exists>v. (\<exists>q. v = Some q \<and> C t p q) \<and> (\<exists>vs. ?R t vs \<and> w = v # vs))" by simp
  then have "passes X B (forE sv (p # ps)) (mapE ld (replicate (length (p # ps)) None)) A ?A
      (\<lambda>t vs. \<exists>qs. vs = List.map Some qs \<and> list_all2 (C t) (p # ps) qs)"
    by (rule passes_weaken) (metis list.simps(9) list_all2_Cons)
  then show ?case by simp
qed

lemma passes_vector:
  assumes "\<And>p A. p \<in> set ps \<Longrightarrow> K \<subseteq> A \<Longrightarrow> passes X B (sv ''E'' p) (ld ''E'' None) A (insert (fst p) A)
      (\<lambda>t v. \<exists>q. v = Some q \<and> C t p q)" "K \<subseteq> A" "length ps < 2 ^ 64" "quote \<notin> set tag"
  shows "passes X B (save_vector sv tag ps) (load_vector ld None tag []) A (A \<union> fst ` set ps)
      (\<lambda>t vs. \<exists>qs. vs = List.map Some qs \<and> list_all2 (C t) ps qs)"
proof -
  have elems: "passes X B (forE (sv ''E'') ps) (mapE (ld ''E'') (replicate (length ps) None)) A
      (A \<union> fst ` set ps) (\<lambda>t vs. \<exists>qs. vs = List.map Some qs \<and> list_all2 (C t) ps qs)"
    by (rule passes_elems [where K = K]) (use assms(1,2) in blast)+
  have n: "unat (word_of_nat (length ps) :: u64) = length ps" using assms(3) by (simp add: unat_word_of_nat)
  have "passes X B (thenE (save_direct sc_size_t ''size'' (word_of_nat (length ps))) (forE (sv ''E'') ps))
      (bindE (load_direct sc_size_t ''size'') (\<lambda>m. mapE (ld ''E'') (vec_resize None (unat m) [])))
      A (A \<union> fst ` set ps) (\<lambda>t vs. \<exists>m. m = (word_of_nat (length ps) :: u64) \<and>
        (\<exists>qs. vs = List.map Some qs \<and> list_all2 (C t) ps qs))"
    by (rule passes_bind [OF passes_scalars(1) [OF tags_ok(2)] passes_emits [OF elems]])
       (use elems n in \<open>simp_all add: vec_resize_def\<close>)
  from passes_then [OF passes_tag [OF assms(4)] this]
  have "passes X B (save_vector sv tag ps) (load_vector ld None tag []) A (A \<union> fst ` set ps)
      (\<lambda>t vs. \<exists>m. m = (word_of_nat (length ps) :: u64) \<and>
        (\<exists>qs. vs = List.map Some qs \<and> list_all2 (C t) ps qs))"
    unfolding save_vector_def load_vector_def .
  then show ?thesis by (rule passes_weaken) blast
qed

section \<open>Pointers\<close>

definition pointer_head :: "setting \<Rightarrow> addr \<Rightarrow> string" where
  "pointer_head X a = scalar_out sc_int (st_platform X) (st_trace X) 1 @
     scalar_out sc_pointer (st_platform X) (st_trace X) a"

lemma thenE_assoc: "thenE (thenE m k) l = thenE m (thenE k l)"
  by (simp add: thenE_def bindE_def fun_eq_iff split: prod.split sum.split)

lemma emits_pointer:
  assumes "if a \<in> A then A' = A \<and> out = [] else emits X (save_object sv tag x) (insert a A) A' \<and>
     out = out_of X (save_object sv tag x) (insert a A)"
  shows "emits X (save_pointer sv (\<lambda>_. None) tag (Some (a, x))) A A'"
    "out_of X (save_pointer sv (\<lambda>_. None) tag (Some (a, x))) A = pointer_head X a @ out"
proof -
  have "save_pointer sv (\<lambda>_. None) tag (Some (a, x)) s =
      (Inr (), s\<lparr>mBuffer := mBuffer s @ pointer_head X a @ out, mSavedPointers := A'\<rparr>)"
    if s: "mPlatform s = st_platform X" "mTrace s = st_trace X" "mSavedPointers s = A" for s
  proof -
    let ?s = "s\<lparr>mBuffer := mBuffer s @ pointer_head X a\<rparr>"
    let ?k = "bindE (getE mSavedPointers) (\<lambda>saved. if a \<in> saved then retE () else
        thenE (modE (\<lambda>s. s\<lparr>mSavedPointers := insert a saved\<rparr>))
          (thenE (retE ()) (save_object sv tag x)))"
    have "writes (thenE (write_scalar sc_int 1) (write_scalar sc_pointer a) :: (mp_ser, unit) cpp) (st_platform X) (st_trace X)
        (pointer_head X a)"
      unfolding pointer_head_def
      by (intro writes_then int_format.writes_scalar pointer_format.writes_scalar)
    then have "thenE (write_scalar sc_int 1) (write_scalar sc_pointer a) s = (Inr (), ?s)"
      using s by (simp add: writes_def)
    then have "thenE (thenE (write_scalar sc_int 1) (write_scalar sc_pointer a)) ?k s = ?k ?s"
      by (simp add: thenE_def)
    moreover have "thenE (thenE (write_scalar sc_int 1) (write_scalar sc_pointer a)) ?k s =
        save_pointer sv (\<lambda>_. None) tag (Some (a, x)) s"
      by (simp add: save_pointer_def SavePointer_def write_pointer_type_def pointer_type_int_def
          thenE_assoc cong: if_cong)
    ultimately have "save_pointer sv (\<lambda>_. None) tag (Some (a, x)) s = ?k ?s" by simp
    also have "\<dots> = (Inr (), s\<lparr>mBuffer := mBuffer s @ pointer_head X a @ out, mSavedPointers := A'\<rparr>)"
    proof (cases "a \<in> A")
      case True
      then show ?thesis using s assms by (simp add: bindE_def getE_def retE_def)
    next
      case False
      then have e: "emits X (save_object sv tag x) (insert a A) A'"
        "out = out_of X (save_object sv tag x) (insert a A)" using assms by simp_all
      have "?k ?s = save_object sv tag x (?s\<lparr>mSavedPointers := insert a A\<rparr>)"
        using False s by (simp add: cpp_defs)
      then show ?thesis using emitsD [OF e(1)] s e(2) by simp
    qed
    finally show ?thesis .
  qed
  note * = emitsI [OF this]
  show "emits X (save_pointer sv (\<lambda>_. None) tag (Some (a, x))) A A'" by (rule *(1))
  show "out_of X (save_pointer sv (\<lambda>_. None) tag (Some (a, x))) A = pointer_head X a @ out" by (rule *(2))
qed

lemma reads_base_type:
  "reads read_pointer_type P T (scalar_out sc_int P T 1) SP_BASE_CLASS_POINTER"
  using int_format.reads_scalar [of T P 1] unfolding read_pointer_type_def
  by (intro reads_bind_ret [where v = 1]) simp_all

lemma takes_pointer:
  assumes "takes X B (K SP_BASE_CLASS_POINTER a) out A A' R"
  shows "takes X B (bindE read_pointer_type (\<lambda>pt. if pt = SP_INVALID_POINTER then retE pv
      else bindE (read_scalar sc_pointer) (K pt))) (pointer_head X a @ out) A A' R"
proof -
  have "reads (read_scalar sc_pointer) P T (scalar_out sc_pointer P T a) a" for P T
    by (rule pointer_format.reads_scalar) simp
  from takes_bind [OF takes_reads [OF this], of X B "K SP_BASE_CLASS_POINTER" out A A' "\<lambda>_. R"]
  have "takes X B (bindE (read_scalar sc_pointer) (K SP_BASE_CLASS_POINTER))
      (scalar_out sc_pointer (st_platform X) (st_trace X) a @ out) A A' R"
    using assms by simp
  with takes_bind [OF takes_reads [OF reads_base_type], of X B "\<lambda>pt. if pt = SP_INVALID_POINTER then retE pv
      else bindE (read_scalar sc_pointer) (K pt)" _ A A' "\<lambda>_. R"]
  show ?thesis by (simp add: pointer_head_def)
qed

lemma takes_seen:
  assumes "\<And>t. loaded_ok X B A t \<Longrightarrow> \<exists>b y. t a = Some (Slot b (emb y)) \<and> C t (b, y)"
    "\<And>y. prj (emb y) = Some y" "\<And>t t' q. C t q \<Longrightarrow> grows t t' \<Longrightarrow> C t' q"
  shows "takes X B (bindE (getE mLoadedPointers) (\<lambda>loaded. case loaded a of
       None \<Rightarrow> k
     | Some Loading \<Rightarrow> throwE e1
     | Some Dangling \<Rightarrow> throwE e2
     | Some (Slot b z) \<Rightarrow> (case prj z of None \<Rightarrow> throwE e3 | Some y \<Rightarrow> retE (Some (b, y))))) [] A A
     (\<lambda>t v. \<exists>q. v = Some q \<and> C t q)" (is "takes X B ?m [] A A ?R")
  unfolding takes_def
proof (intro allI impI)
  fix s :: mp_ser and g rest
  assume s: "mPlatform s = st_platform X" "mTrace s = st_trace X"
    "loaded_ok X B A (mLoadedPointers s)" "g \<in> {[], gap (st_trace X)}" "mBuffer s = g @ [] @ rest"
  from assms(1) [OF s(3)] obtain b y where a: "mLoadedPointers s a = Some (Slot b (emb y))"
    "C (mLoadedPointers s) (b, y)" by blast
  have "?m s = (Inr (Some (b, y)), s)"
    using a(1) assms(2) by (simp add: bindE_def getE_def retE_def)
  moreover have "?R t (Some (b, y))" if "grows (mLoadedPointers s) t" for t
    using assms(3) [OF a(2) that] by simp
  ultimately show "\<exists>v s' g'. ?m s = (Inr v, s') \<and>
      mPlatform s' = st_platform X \<and> mTrace s' = st_trace X \<and>
      loaded_ok X B A (mLoadedPointers s') \<and> g' \<in> {[], gap (st_trace X)} \<and>
      mBuffer s' = g' @ rest \<and> mLoadedPointers s \<subseteq>\<^sub>m mLoadedPointers s' \<and>
      (\<forall>t. grows (mLoadedPointers s') t \<longrightarrow> ?R t v)"
    using s by (intro exI [of _ "Some (b, y)"] exI [of _ s] exI [of _ g]) simp
qed

text \<open>A pointer that is new: its object is loaded, and then the pointer is known.\<close>

lemma takes_new:
  assumes a: "a \<notin> A"
    and x0: "pv = Some (b0, x0) \<or> pv = None \<and> dflt = Some x0"
    and ld: "takes X (insert a B) (load_object (ld x0) tag) out (insert a A) A' R"
    and copy: "\<And>t b y. R t y \<Longrightarrow> t a = Some (Slot b (emb y)) \<Longrightarrow> has_copy X t a"
  shows "takes X B (bindE (getE mLoadedPointers) (\<lambda>loaded. case loaded a of
       None \<Rightarrow>
         bindE (pointee prj dflt SP_BASE_CLASS_POINTER pv) (\<lambda>(b, x).
         thenE (set_slot a Loading)
         (bindE (load_object (ld x) tag) (\<lambda>y.
         thenE (set_slot a (Slot b (emb y))) (retE (Some (b, y))))))
     | Some z \<Rightarrow> f z)) out A A'
     (\<lambda>t v. \<exists>b y. v = Some (b, y) \<and> R t y \<and> t a = Some (Slot b (emb y)))"
    (is "takes X B ?m out A A' ?R")
  unfolding takes_def
proof (intro allI impI)
  fix s :: mp_ser and g rest
  assume s: "mPlatform s = st_platform X" "mTrace s = st_trace X"
    "loaded_ok X B A (mLoadedPointers s)" "g \<in> {[], gap (st_trace X)}" "mBuffer s = g @ out @ rest"
  obtain b h where p: "pointee prj dflt SP_BASE_CLASS_POINTER pv s = (Inr (b, x0), s\<lparr>mHeap := h\<rparr>)"
  proof (cases pv)
    case None
    with x0 show ?thesis by (intro that) (simp add: pointee_def new_object_def)
  next
    case (Some q)
    with x0 show ?thesis by (intro that [of b0 "mHeap s"]) (simp add: pointee_def retE_def)
  qed
  let ?L = "mLoadedPointers s"
  let ?s = "s\<lparr>mHeap := h, mLoadedPointers := ?L(a \<mapsto> Loading)\<rparr>"
  note start = loaded_ok_start [OF s(3) a]
  from takesD [OF ld, of ?s g rest] s start(2) obtain y s1 g1 where
    1: "load_object (ld x0) tag ?s = (Inr y, s1)" "mPlatform s1 = st_platform X"
    "mTrace s1 = st_trace X" "loaded_ok X (insert a B) A' (mLoadedPointers s1)"
    "g1 \<in> {[], gap (st_trace X)}" "mBuffer s1 = g1 @ rest" "?L(a \<mapsto> Loading) \<subseteq>\<^sub>m mLoadedPointers s1"
    "\<And>t. grows (mLoadedPointers s1) t \<Longrightarrow> R t y" by auto
  let ?t = "(mLoadedPointers s1)(a \<mapsto> Slot b (emb y))"
  have L: "mLoadedPointers s1 a = Some Loading" using 1(7) by (auto simp: map_le_def)
  then have g: "grows (mLoadedPointers s1) ?t" by (simp add: grows_new)
  have "loaded_ok X B A' ?t"
    by (rule loaded_ok_end [OF 1(4) L]) (rule copy [OF 1(8) [OF g]], simp)
  moreover have "?L x = ?t x" if "x \<in> dom ?L" for x
  proof -
    have "x \<noteq> a" using that start(1) by auto
    moreover have "(?L(a \<mapsto> Loading)) x = mLoadedPointers s1 x"
      by (rule bspec [OF 1(7) [unfolded map_le_def]]) (use that in simp)
    ultimately show ?thesis by simp
  qed
  then have "?L \<subseteq>\<^sub>m ?t" by (simp add: map_le_def)
  moreover have "?m s = (Inr (Some (b, y)), s1\<lparr>mLoadedPointers := ?t\<rparr>)"
    using start(1) p 1(1) by (simp add: cpp_defs set_slot_def)
  moreover have "?R t (Some (b, y))" if "grows ?t t" for t
    using 1(8) [OF grows_trans [OF g that]] that by (simp add: grows_def)
  ultimately show "\<exists>v s' g'. ?m s = (Inr v, s') \<and>
      mPlatform s' = st_platform X \<and> mTrace s' = st_trace X \<and>
      loaded_ok X B A' (mLoadedPointers s') \<and> g' \<in> {[], gap (st_trace X)} \<and>
      mBuffer s' = g' @ rest \<and> mLoadedPointers s \<subseteq>\<^sub>m mLoadedPointers s' \<and>
      (\<forall>t. grows (mLoadedPointers s') t \<longrightarrow> ?R t v)"
    using 1(2,3,5,6) by (intro exI [of _ "Some (b, y)"] exI [of _ "s1\<lparr>mLoadedPointers := ?t\<rparr>"] exI [of _ g1]) simp
qed

lemma passes_seen:
  assumes "a \<in> A" "\<And>t. loaded_ok X B A t \<Longrightarrow> \<exists>b y. t a = Some (Slot b (emb y)) \<and> C t (b, y)"
    "\<And>y. prj (emb y) = Some y" "\<And>t t' q. C t q \<Longrightarrow> grows t t' \<Longrightarrow> C t' q"
  shows "passes X B (save_pointer sv (\<lambda>_. None) tag (Some (a, x)))
     (load_shared_ptr emb prj ld dflt False tag pv) A A (\<lambda>t v. \<exists>q. v = Some q \<and> C t q)"
proof -
  have e: "emits X (save_pointer sv (\<lambda>_. None) tag (Some (a, x))) A A"
    "out_of X (save_pointer sv (\<lambda>_. None) tag (Some (a, x))) A = pointer_head X a @ []"
    using emits_pointer [of a A A "[]" X sv tag x] assms(1) by simp_all
  show ?thesis
    unfolding passes_def e(2) load_shared_ptr_def
    by (rule conjI [OF e(1)], rule takes_pointer, rule takes_seen [where emb = emb and C = C and prj = prj]) (use assms in blast)+
qed

lemma passes_new:
  assumes "a \<notin> A" "passes X (insert a B) (save_object sv tag x) (load_object (ld x0) tag) (insert a A) A' R"
    "\<And>t b y. R t y \<Longrightarrow> t a = Some (Slot b (emb y)) \<Longrightarrow> has_copy X t a"
  shows "dflt = Some x0 \<Longrightarrow> passes X B (save_pointer sv (\<lambda>_. None) tag (Some (a, x)))
      (load_shared_ptr emb prj ld dflt False tag None) A A'
      (\<lambda>t v. \<exists>b y. v = Some (b, y) \<and> R t y \<and> t a = Some (Slot b (emb y)))"
    and "pv = Some (b0, x0) \<or> pv = None \<and> dflt = Some x0 \<Longrightarrow>
      passes X B (save_pointer sv (\<lambda>_. None) tag (Some (a, x)))
      (load_unique_ptr emb prj ld dflt tag pv) A A'
      (\<lambda>t v. \<exists>b y. v = Some (b, y) \<and> R t y \<and> t a = Some (Slot b (emb y)))"
proof -
  have e: "emits X (save_pointer sv (\<lambda>_. None) tag (Some (a, x))) A A'"
    "out_of X (save_pointer sv (\<lambda>_. None) tag (Some (a, x))) A =
      pointer_head X a @ out_of X (save_object sv tag x) (insert a A)"
    using emits_pointer [of a A A' "out_of X (save_object sv tag x) (insert a A)" X sv tag x] assms(1,2)
    by (simp_all add: passes_def)
  have ld: "takes X (insert a B) (load_object (ld x0) tag) (out_of X (save_object sv tag x) (insert a A))
      (insert a A) A' R" using assms(2) by (simp add: passes_def)
  show "passes X B (save_pointer sv (\<lambda>_. None) tag (Some (a, x)))
      (load_shared_ptr emb prj ld dflt False tag None) A A'
      (\<lambda>t v. \<exists>b y. v = Some (b, y) \<and> R t y \<and> t a = Some (Slot b (emb y)))" if "dflt = Some x0"
    unfolding passes_def e(2) load_shared_ptr_def if_False
    by (rule conjI [OF e(1)], rule takes_pointer,
        rule takes_new [where ld = ld and R = R and emb = emb, OF assms(1) _ ld])
       (use that assms(3) in blast)+
  show "passes X B (save_pointer sv (\<lambda>_. None) tag (Some (a, x)))
      (load_unique_ptr emb prj ld dflt tag pv) A A'
      (\<lambda>t v. \<exists>b y. v = Some (b, y) \<and> R t y \<and> t a = Some (Slot b (emb y)))"
    if "pv = Some (b0, x0) \<or> pv = None \<and> dflt = Some x0"
    unfolding passes_def e(2) load_unique_ptr_def
    by (rule conjI [OF e(1)], rule takes_pointer,
        rule takes_new [where ld = ld and R = R and emb = emb, OF assms(1) that ld])
       (use assms(3) in blast)
qed

end
