(* ===== verification/MeshObjects.thy ===== *)
theory MeshObjects
  imports MeshPointers
begin

text \<open>
  The round trips of nodes, elements and the pointers to them: a pointer is loaded as the one copy that its
  object has, whichever vector it stands in.
\<close>

section \<open>Nodes\<close>

definition prints_node :: "setting \<Rightarrow> Node \<Rightarrow> bool" where
  "prints_node X n \<longleftrightarrow> st_trace X = SERIALIZER_NO_TRACE \<or>
     (prints_exactly (st_platform X) (n_X n) \<and> prints_exactly (st_platform X) (n_Y n) \<and>
      prints_exactly (st_platform X) (n_Z n))"

lemma passes_node:
  assumes "prints_node X n"
  shows "passes X B (save_node n) (load_node d) A A (\<lambda>t v. v = n)"
proof -
  let ?P = "st_platform X" and ?T = "st_trace X"
  let ?i = "tag_out ?P ?T ''mId'' @ scalar_out sc_id ?P ?T (n_Id n)"
  let ?d = "\<lambda>tag v. tag_out ?P ?T tag @ scalar_out sc_double ?P ?T v"
  let ?out = "?i @ ?d ''mX'' (n_X n) @ ?d ''mY'' (n_Y n) @ ?d ''mZ'' (n_Z n)"
  have q: "quote \<notin> set ''mId''" "quote \<notin> set ''mX''" "quote \<notin> set ''mY''" "quote \<notin> set ''mZ''"
    by (simp_all add: quote_def)
  have good: "?T = SERIALIZER_NO_TRACE \<or> prints_exactly ?P (n_X n)"
    "?T = SERIALIZER_NO_TRACE \<or> prints_exactly ?P (n_Y n)"
    "?T = SERIALIZER_NO_TRACE \<or> prints_exactly ?P (n_Z n)"
    using assms by (auto simp: prints_node_def)
  have "writes (save_node n) ?P ?T ?out"
    unfolding save_node_def
    by (intro writes_then id_codec.save_out double_codec.save_out good TrueI)
  moreover have "reads (load_node d) ?P ?T ?out n"
    unfolding load_node_def
    by (intro reads_bind [OF id_codec.load_out [OF TrueI q(1)]]
        reads_bind [OF double_codec.load_out [OF good(1) q(2)]]
        reads_bind [OF double_codec.load_out [OF good(2) q(3)]]
        reads_bind_ret [OF double_codec.load_out [OF good(3) q(4)]]) (cases n; cases d; simp)
  ultimately show ?thesis by (rule passes_codec)
qed

lemma passes_object:
  assumes "passes X B (sv x) ld A A' R" "quote \<notin> set tag"
  shows "passes X B (save_object sv tag x) (load_object ld tag) A A' R"
  unfolding save_object_def load_object_def by (rule passes_then [OF passes_tag [OF assms(2)] assms(1)])

lemma passes_node_ptr:
  assumes "separate X" "p \<in> st_nodes X" "prints_node X (snd p)" "fst ` st_nodes X \<inter> B = {}"
    "quote \<notin> set tag"
  shows "passes X B (save_node_ptr tag p) (load_node_ptr tag None) A (insert (fst p) A)
     (\<lambda>t v. \<exists>q. v = Some q \<and> node_copy t p q)"
proof (cases "fst p \<in> A")
  case True
  have "\<exists>b y. t (fst p) = Some (Slot b (ONode y)) \<and> node_copy t p (b, y)" if "loaded_ok X B A t" for t
  proof -
    have "fst p \<in> A - B" using True assms(2,4) by auto
    with that have "has_copy X t (fst p)" by (auto simp: loaded_ok_def)
    then obtain q where "node_copy t p q" using assms(2) by (auto simp: has_copy_def)
    then show ?thesis by (cases q) (auto simp: node_copy_def)
  qed
  then have "passes X B (save_pointer save_node (\<lambda>_. None) tag (Some (fst p, snd p)))
      (load_shared_ptr ONode get_node load_node (Some Node_default) False tag None) A A
      (\<lambda>t v. \<exists>q. v = Some q \<and> node_copy t p q)"
    by (rule passes_seen [where C = "\<lambda>t. node_copy t p", OF True]) (auto intro: node_copy_grows)
  then show ?thesis
    unfolding save_node_ptr_def load_node_ptr_def load_intrusive_ptr_def
    using True by (simp add: insert_absorb)
next
  case False
  have copy: "has_copy X t (fst p)" if "y = snd p" "t (fst p) = Some (Slot b (ONode y))" for t b y
    using that by (intro has_copy_node [OF assms(1,2), of t "(b, y)"]) (simp add: node_copy_def)
  from passes_new(1) [where ld = load_node and dflt = "Some Node_default" and prj = get_node,
      OF False passes_object [where sv = save_node, OF passes_node [OF assms(3)] assms(5)] copy refl]
  show ?thesis
    unfolding save_node_ptr_def load_node_ptr_def load_intrusive_ptr_def prod.collapse
    by (rule passes_weaken) (auto simp: node_copy_def)
qed

section \<open>Elements\<close>

lemma passes_not_null:
  assumes "passes X B sv ld A A' (\<lambda>t vs. \<exists>qs. vs = List.map Some qs \<and> L t qs)"
  shows "passes X B sv (bindE ld not_null) A A' L"
proof -
  have "takes X B (not_null vs) [] A' A' (\<lambda>t qs. vs = List.map Some qs)"
    if "\<exists>qs. vs = List.map Some qs \<and> L t qs" for t and vs :: "'a option list"
  proof -
    from that obtain qs where qs: "vs = List.map Some qs" by blast
    then have "not_null vs = (retE qs :: (mp_ser, 'a list) cpp)" by (auto simp: not_null_def o_def)
    then show ?thesis using qs by (simp add: takes_ret)
  qed
  from passes_end [OF assms this] show ?thesis
    by (rule passes_weaken) auto
qed

definition savable_element :: "setting \<Rightarrow> Element \<Rightarrow> bool" where
  "savable_element X e \<longleftrightarrow> set (e_Nodes e) \<subseteq> st_nodes X \<and> length (e_Nodes e) < 2 ^ 64 \<and>
     (\<forall>p \<in> set (e_Nodes e). prints_node X (snd p)) \<and>
     element_type_of_int (element_type_to_int (e_Type e)) = e_Type e"

lemma passes_element:
  assumes "separate X" "savable_element X e" "fst ` st_nodes X \<inter> B = {}" "fst ` set (e_Nodes e) \<subseteq> A"
    "e_Nodes d = []"
  shows "passes X B (save_element e) (load_element d) A A (\<lambda>t. element_copy t e)"
proof -
  let ?vec = "bindE (load_vector load_node_ptr None ''mNodes'' (List.map Some (e_Nodes d))) not_null"
  have q: "quote \<notin> set ''mId''" "quote \<notin> set ''mType''" "quote \<notin> set ''mNodes''" "quote \<notin> set ''E''"
    by (simp_all add: quote_def)
  have A: "A \<union> fst ` set (e_Nodes e) = A" using assms(4) by blast
  have node: "passes X B (save_node_ptr ''E'' p) (load_node_ptr ''E'' None) C (insert (fst p) C)
      (\<lambda>t v. \<exists>q. v = Some q \<and> node_copy t p q)" if "p \<in> set (e_Nodes e)" for p C
    by (rule passes_node_ptr) (use assms(1-3) q(4) that in \<open>auto simp: savable_element_def\<close>)
  have "passes X B (save_vector save_node_ptr ''mNodes'' (e_Nodes e)) (load_vector load_node_ptr None ''mNodes'' [])
      A (A \<union> fst ` set (e_Nodes e)) (\<lambda>t vs. \<exists>qs. vs = List.map Some qs \<and> list_all2 (node_copy t) (e_Nodes e) qs)"
    by (rule passes_vector [where K = "{}"], rule node, assumption)
       (use assms(2) q in \<open>simp_all add: savable_element_def\<close>)
  then have vec: "passes X B (save_vector save_node_ptr ''mNodes'' (e_Nodes e)) ?vec A A
      (\<lambda>t. list_all2 (node_copy t) (e_Nodes e))"
    unfolding A assms(5) list.map by (rule passes_not_null)
  let ?fin = "\<lambda>i ty. bindE ?vec (\<lambda>ns. retE (d\<lparr>e_Id := i, e_Type := element_type_of_int ty, e_Nodes := ns\<rparr>))"
  have 1: "passes X B (save_vector save_node_ptr ''mNodes'' (e_Nodes e)) (?fin i ty) A A
      (\<lambda>t w. \<exists>ns. list_all2 (node_copy t) (e_Nodes e) ns \<and>
        w = d\<lparr>e_Id := i, e_Type := element_type_of_int ty, e_Nodes := ns\<rparr>)" for i ty
    by (rule passes_end [OF vec]) (rule takes_ret, rule refl)
  have 2: "passes X B (thenE (save_direct sc_int ''mType'' (element_type_to_int (e_Type e)))
        (save_vector save_node_ptr ''mNodes'' (e_Nodes e)))
      (bindE (load_direct sc_int ''mType'') (?fin i)) A A
      (\<lambda>t w. \<exists>ty. ty = element_type_to_int (e_Type e) \<and>
        (\<exists>ns. list_all2 (node_copy t) (e_Nodes e) ns \<and>
          w = d\<lparr>e_Id := i, e_Type := element_type_of_int ty, e_Nodes := ns\<rparr>))" for i
    by (rule passes_bind [OF passes_scalars(3) [OF q(2)] passes_emits [OF 1] 1])
  have "passes X B (save_element e) (load_element d) A A
      (\<lambda>t w. \<exists>i. i = e_Id e \<and> (\<exists>ty. ty = element_type_to_int (e_Type e) \<and>
        (\<exists>ns. list_all2 (node_copy t) (e_Nodes e) ns \<and>
          w = d\<lparr>e_Id := i, e_Type := element_type_of_int ty, e_Nodes := ns\<rparr>)))"
    unfolding save_element_def load_element_def
    by (rule passes_bind [OF passes_scalars(2) [OF q(1)] passes_emits [OF 2] 2])
  then show ?thesis
    by (rule passes_weaken) (use assms(2) in \<open>auto simp: element_copy_def savable_element_def\<close>)
qed

lemma passes_element_ptr:
  assumes "separate X" "p \<in> st_elements X" "savable_element X (snd p)"
    "(fst ` st_nodes X \<union> fst ` st_elements X) \<inter> B = {}" "fst ` set (e_Nodes (snd p)) \<subseteq> A" "quote \<notin> set tag"
  shows "passes X B (save_element_ptr tag p) (load_element_ptr tag None) A (insert (fst p) A)
     (\<lambda>t v. \<exists>q. v = Some q \<and> element_ptr_copy t p q)"
proof (cases "fst p \<in> A")
  case True
  have "\<exists>b y. t (fst p) = Some (Slot b (OElement y)) \<and> element_ptr_copy t p (b, y)" if "loaded_ok X B A t" for t
  proof -
    have "fst p \<in> A - B" using True assms(2,4) by auto
    with that have "has_copy X t (fst p)" by (auto simp: loaded_ok_def)
    then obtain q where "element_ptr_copy t p q" using assms(2) by (auto simp: has_copy_def)
    then show ?thesis by (cases q) (auto simp: element_ptr_copy_def)
  qed
  then have "passes X B (save_pointer save_element (\<lambda>_. None) tag (Some (fst p, snd p)))
      (load_shared_ptr OElement get_element load_element (Some Element_default) False tag None) A A
      (\<lambda>t v. \<exists>q. v = Some q \<and> element_ptr_copy t p q)"
    by (rule passes_seen [where C = "\<lambda>t. element_ptr_copy t p", OF True])
       (auto intro: element_ptr_copy_grows)
  then show ?thesis
    unfolding save_element_ptr_def load_element_ptr_def load_intrusive_ptr_def
    using True by (simp add: insert_absorb)
next
  case False
  have copy: "has_copy X t (fst p)"
    if "element_copy t (snd p) y" "t (fst p) = Some (Slot b (OElement y))" for t b y
    using that by (intro has_copy_element [OF assms(1,2), of t "(b, y)"]) (simp add: element_ptr_copy_def)
  have "fst p \<notin> fst ` st_nodes X" using assms(1,2) by (auto simp: separate_def)
  with assms(4) have B: "fst ` st_nodes X \<inter> insert (fst p) B = {}" by (simp add: Int_Un_distrib2)
  have A: "fst ` set (e_Nodes (snd p)) \<subseteq> insert (fst p) A" using assms(5) by (rule subset_insertI2)
  have 1: "passes X (insert (fst p) B) (save_element (snd p)) (load_element Element_default)
      (insert (fst p) A) (insert (fst p) A) (\<lambda>t. element_copy t (snd p))"
    by (rule passes_element [OF assms(1,3) B A]) (simp add: Element_default_def)
  from passes_new(1) [where ld = load_element and dflt = "Some Element_default" and prj = get_element,
      OF False passes_object [where sv = save_element, OF 1 assms(6)] copy refl]
  show ?thesis
    unfolding save_element_ptr_def load_element_ptr_def load_intrusive_ptr_def prod.collapse
    by (rule passes_weaken) (auto simp: element_ptr_copy_def)
qed

end
