(* ===== verification/MeshParts.thy ===== *)
theory MeshParts
  imports MeshObjects
begin

text \<open>
  The round trips of a part and its internal parts.
\<close>

section \<open>Indexed vectors\<close>

lemma list_all2_idents:
  "list_all2 C ps qs \<Longrightarrow> (\<And>p q. C p q \<Longrightarrow> ident q = ident p) \<Longrightarrow> List.map ident qs = List.map ident ps"
  by (induction rule: list_all2_induct) auto

lemma passes_iv:
  assumes "\<And>p A. p \<in> set (mData v) \<Longrightarrow> K \<subseteq> A \<Longrightarrow> passes X B (sv ''E'' p) (ld ''E'' None) A
      (insert (fst p) A) (\<lambda>t v. \<exists>q. v = Some q \<and> C t p q)" "K \<subseteq> A"
    and "length (mData v) < 2 ^ 64" "distinct (List.map ident (mData v))"
    and C: "\<And>t p q. C t p q \<Longrightarrow> ident q = ident p" and "mData v0 = []"
  shows "passes X B (iv_save sv v) (iv_load ld ident v0) A (A \<union> fst ` set (mData v))
     (\<lambda>t w. \<exists>qs. list_all2 (C t) (mData v) qs \<and> w = iv.build ident qs)"
proof -
  have q: "quote \<notin> set ''mData''" by (simp add: quote_def)
  have vec: "passes X B (save_vector sv ''mData'' (mData v)) (load_vector ld None ''mData'' []) A
      (A \<union> fst ` set (mData v)) (\<lambda>t vs. \<exists>qs. vs = List.map Some qs \<and> list_all2 (C t) (mData v) qs)"
    by (rule passes_vector [where K = K], rule assms(1)) (use assms(2,3) q in simp_all)
  let ?f = "\<lambda>d. if None \<in> set d then throwE (UndefinedBehaviour ''mData[i]->Id()'')
       else retE (ComputeAccessMap ident (v0\<lparr>mData := List.map the d\<rparr>))"
  have f: "takes X B (?f vs) [] A' A' (\<lambda>t w. \<exists>qs. vs = List.map Some qs \<and> w = iv.build ident qs)"
    if "\<exists>qs. vs = List.map Some qs \<and> list_all2 (C t) (mData v) qs" for t vs A'
  proof -
    from that obtain qs where qs: "vs = List.map Some qs" "list_all2 (C t) (mData v) qs" by blast
    have "distinct (List.map ident qs)" using list_all2_idents [OF qs(2) C] assms(4) by simp
    then have "ComputeAccessMap ident (v0\<lparr>mData := qs\<rparr>) = iv.build ident qs"
      using ComputeAccessMap_build [of ident "v0\<lparr>mData := qs\<rparr>"] by simp
    then have fv: "?f vs = retE (iv.build ident qs)"
      using qs(1) by (auto simp: o_def)
    show ?thesis unfolding fv by (rule takes_ret) (use qs(1) in blast)
  qed
  from passes_end [OF vec f] show ?thesis
    unfolding iv_save_def iv_load_def assms(6) list.map by (rule passes_weaken) auto
qed

section \<open>Parts\<close>

text \<open>What a loaded part has of the saved one: the name, and copies of the nodes and elements.\<close>

definition part_copy :: "table \<Rightarrow> model_part \<Rightarrow> model_part \<Rightarrow> bool" where
  "part_copy t mp mp' \<longleftrightarrow> mName mp' = mName mp \<and>
     (\<exists>qs. list_all2 (node_copy t) (mData (mNodes mp)) qs \<and> mNodes mp' = iv.build node_id qs) \<and>
     (\<exists>qs. list_all2 (element_ptr_copy t) (mData (mElements mp)) qs \<and>
        mElements mp' = iv.build element_id qs)"

definition savable_part :: "setting \<Rightarrow> addr set \<Rightarrow> model_part \<Rightarrow> bool" where
  "savable_part X A mp \<longleftrightarrow> string_good (st_trace X) (mName mp) \<and>
     set (mData (mNodes mp)) \<subseteq> st_nodes X \<and> set (mData (mElements mp)) \<subseteq> st_elements X \<and>
     length (mData (mNodes mp)) < 2 ^ 64 \<and> length (mData (mElements mp)) < 2 ^ 64 \<and>
     distinct (List.map node_id (mData (mNodes mp))) \<and>
     distinct (List.map element_id (mData (mElements mp))) \<and>
     (\<forall>p \<in> set (mData (mNodes mp)). prints_node X (snd p)) \<and>
     (\<forall>p \<in> set (mData (mElements mp)). savable_element X (snd p) \<and>
        fst ` set (e_Nodes (snd p)) \<subseteq> A \<union> fst ` set (mData (mNodes mp)))"

definition part_addrs :: "model_part \<Rightarrow> addr set" where
  "part_addrs mp = fst ` set (mData (mNodes mp)) \<union> fst ` set (mData (mElements mp))"

definition clean_target :: "model_part \<Rightarrow> bool" where
  "clean_target mp \<longleftrightarrow> mData (mNodes mp) = [] \<and> mData (mElements mp) = [] \<and> mPartitionModelParts mp = []"

lemma string_out_length: "2 \<le> length (string_out P T v)"
  by (simp add: string_out_def sc_size_t_def)

lemma passes_part:
  assumes sep: "separate X" and B: "(fst ` st_nodes X \<union> fst ` st_elements X) \<inter> B = {}"
    and mp: "savable_part X A mp" and mp0: "clean_target mp0"
    and l: "passes X B (save_part_ptr ''mpLocalModelPart'' (mpLocalModelPart mp))
       (load_part_ptr (load_part n) ''mpLocalModelPart'' (mpLocalModelPart mp0)) (A \<union> part_addrs mp) A1 RL"
    and g: "passes X B (save_part_ptr ''mpGhostModelPart'' (mpGhostModelPart mp))
       (load_part_ptr (load_part n) ''mpGhostModelPart'' (mpGhostModelPart mp0)) A1 A2 RG"
    and ps: "passes X B (save_partitions (mPartitionModelParts mp))
       (load_unordered (load_partition (load_part n)) (length (mPartitionModelParts mp)) []) A2 A3 RP"
       "length (mPartitionModelParts mp) < 2 ^ 64"
  shows "passes X B (save_part mp) (load_part (Suc n) mp0) A A3
     (\<lambda>t mp'. part_copy t mp mp' \<and> RL t (mpLocalModelPart mp') \<and> RG t (mpGhostModelPart mp') \<and>
        RP t (mPartitionModelParts mp'))"
    "2 \<le> length (out_of X (save_part mp) A)"
proof -
  obtain nm vs es lo gh pa where m [simp]: "mp = ModelPart nm vs es lo gh pa" by (cases mp)
  have q: "quote \<notin> set ''mName''" "quote \<notin> set ''mNodes''" "quote \<notin> set ''mElements''"
    "quote \<notin> set ''mPartitionModelParts''" "quote \<notin> set ''E''" "quote \<notin> set ''size''"
    by (simp_all add: quote_def)
  let ?A1 = "A \<union> fst ` set (mData vs)"
  let ?A2 = "?A1 \<union> fst ` set (mData es)"
  have A2: "A \<union> part_addrs mp = ?A2" by (simp add: part_addrs_def Un_assoc)
  have n: "p \<in> st_nodes X" "prints_node X (snd p)" if "p \<in> set (mData vs)" for p
    using mp that by (auto simp: savable_part_def)
  have e: "p \<in> st_elements X" "savable_element X (snd p)"
    "fst ` set (e_Nodes (snd p)) \<subseteq> A \<union> fst ` set (mData vs)" if "p \<in> set (mData es)" for p
    using mp that unfolding savable_part_def by auto
  have B1: "fst ` st_nodes X \<inter> B = {}" using B by (simp add: Int_Un_distrib2)
  have iv: "length (mData vs) < 2 ^ 64" "length (mData es) < 2 ^ 64"
    "distinct (List.map node_id (mData vs))" "distinct (List.map element_id (mData es))"
    "mData (mNodes mp0) = []" "mData (mElements mp0) = []"
    using mp mp0 by (simp_all add: savable_part_def clean_target_def)
  have nodes: "passes X B (save_object (iv_save save_node_ptr) ''mNodes'' vs)
      (load_object (iv_load load_node_ptr node_id (mNodes mp0)) ''mNodes'') A ?A1
      (\<lambda>t w. \<exists>qs. list_all2 (node_copy t) (mData vs) qs \<and> w = iv.build node_id qs)"
    by (rule passes_object [where sv = "iv_save save_node_ptr", OF _ q(2)],
      rule passes_iv [where K = "{}" and C = node_copy],
      rule passes_node_ptr [OF sep n B1 q(5)])
      (use iv in \<open>simp_all add: node_copy_def node_id_def\<close>)
  have elements: "passes X B (save_object (iv_save save_element_ptr) ''mElements'' es)
      (load_object (iv_load load_element_ptr element_id (mElements mp0)) ''mElements'') ?A1 ?A2
      (\<lambda>t w. \<exists>qs. list_all2 (element_ptr_copy t) (mData es) qs \<and> w = iv.build element_id qs)"
    by (rule passes_object [where sv = "iv_save save_element_ptr", OF _ q(3)],
      rule passes_iv [where K = ?A1 and C = element_ptr_copy],
      rule passes_element_ptr [OF sep e(1,2) B subset_trans [OF e(3)] q(5)])
      (use iv in \<open>simp_all add: element_ptr_copy_def element_copy_def element_id_def\<close>)
  let ?size = "save_direct sc_size_t ''size'' (word_of_nat (length pa))"
  let ?sv5 = "thenE (save_trace_point ''mPartitionModelParts'') (thenE ?size (save_partitions pa))"
  let ?ld5 = "thenE (load_trace_point ''mPartitionModelParts'')
      (bindE (load_direct sc_size_t ''size'') (\<lambda>k.
        load_unordered (load_partition (load_part n)) (unat k) (mPartitionModelParts mp0)))"
  have k: "unat (word_of_nat (length pa) :: u64) = length pa" "mPartitionModelParts mp0 = []"
    using ps(2) mp0 by (simp_all add: unat_word_of_nat clean_target_def)
  have "passes X B (thenE ?size (save_partitions pa)) (bindE (load_direct sc_size_t ''size'') (\<lambda>k.
        load_unordered (load_partition (load_part n)) (unat k) (mPartitionModelParts mp0))) A2 A3
      (\<lambda>t w. \<exists>m. m = (word_of_nat (length pa) :: u64) \<and> RP t w)"
    by (rule passes_bind [OF passes_scalars(1) [OF q(6)]]) (use ps(1) k in \<open>simp_all add: passes_def\<close>)
  from passes_then [OF passes_tag [OF q(4)] this]
  have parts: "passes X B ?sv5 ?ld5 A2 A3 RP" by (rule passes_weaken) simp
  let ?f5 = "\<lambda>nm ns es l g. bindE ?ld5 (\<lambda>ps. retE (ModelPart nm ns es l g ps))"
  let ?f4 = "\<lambda>nm ns es l. bindE (load_part_ptr (load_part n) ''mpGhostModelPart'' (mpGhostModelPart mp0))
      (?f5 nm ns es l)"
  let ?f3 = "\<lambda>nm ns es. bindE (load_part_ptr (load_part n) ''mpLocalModelPart'' (mpLocalModelPart mp0))
      (?f4 nm ns es)"
  let ?f2 = "\<lambda>nm ns. bindE (load_object (iv_load load_element_ptr element_id (mElements mp0)) ''mElements'')
      (?f3 nm ns)"
  let ?R5 = "\<lambda>nm ns es l g t w. \<exists>ps. RP t ps \<and> w = ModelPart nm ns es l g ps"
  let ?R4 = "\<lambda>nm ns es l t w. \<exists>g. RG t g \<and> ?R5 nm ns es l g t w"
  let ?R3 = "\<lambda>nm ns es t w. \<exists>l. RL t l \<and> ?R4 nm ns es l t w"
  let ?E = "\<lambda>t w. \<exists>qs. list_all2 (element_ptr_copy t) (mData es) qs \<and> w = iv.build element_id qs"
  let ?N = "\<lambda>t w. \<exists>qs. list_all2 (node_copy t) (mData vs) qs \<and> w = iv.build node_id qs"
  have 5: "passes X B ?sv5 (?f5 nm ns es l g) A2 A3 (?R5 nm ns es l g)" for nm ns es l g
    by (rule passes_end [OF parts]) (rule takes_ret, rule refl)
  have 4: "passes X B (thenE (save_part_ptr ''mpGhostModelPart'' gh) ?sv5) (?f4 nm ns es l) A1 A3
      (?R4 nm ns es l)" for nm ns es l
    by (rule passes_bind [OF g [unfolded m model_part.sel] passes_emits [OF 5] 5])
  have 3: "passes X B (thenE (save_part_ptr ''mpLocalModelPart'' lo)
      (thenE (save_part_ptr ''mpGhostModelPart'' gh) ?sv5)) (?f3 nm ns es) ?A2 A3 (?R3 nm ns es)" for nm ns es
    by (rule passes_bind [OF l [unfolded A2, unfolded m model_part.sel] passes_emits [OF 4] 4])
  have 2: "passes X B (thenE (save_object (iv_save save_element_ptr) ''mElements'' es)
      (thenE (save_part_ptr ''mpLocalModelPart'' lo) (thenE (save_part_ptr ''mpGhostModelPart'' gh) ?sv5)))
      (?f2 nm ns) ?A1 A3 (\<lambda>t w. \<exists>es. ?E t es \<and> ?R3 nm ns es t w)" for nm ns
    by (rule passes_bind [OF elements passes_emits [OF 3] 3])
  have 1: "passes X B (thenE (save_object (iv_save save_node_ptr) ''mNodes'' vs)
      (thenE (save_object (iv_save save_element_ptr) ''mElements'' es)
      (thenE (save_part_ptr ''mpLocalModelPart'' lo) (thenE (save_part_ptr ''mpGhostModelPart'' gh) ?sv5))))
      (bindE (load_object (iv_load load_node_ptr node_id (mNodes mp0)) ''mNodes'') (?f2 nm)) A A3
      (\<lambda>t w. \<exists>ns. ?N t ns \<and> (\<exists>es. ?E t es \<and> ?R3 nm ns es t w))" for nm
    by (rule passes_bind [OF nodes passes_emits [OF 2] 2])
  have good: "string_good (st_trace X) nm" using mp by (simp add: savable_part_def)
  have "check_empty mp0 = retE ()" using iv by (simp add: check_empty_def checkE_def retE_def fun_eq_iff)
  then have "load_part (Suc n) mp0 = bindE (load_string ''mName'') (\<lambda>nm.
      bindE (load_object (iv_load load_node_ptr node_id (mNodes mp0)) ''mNodes'') (?f2 nm))"
    by (simp add: thenE_def bindE_def retE_def)
  moreover have "passes X B (save_part mp) \<dots> A A3
      (\<lambda>t w. \<exists>x. x = nm \<and> (\<exists>ns. ?N t ns \<and> (\<exists>es. ?E t es \<and> ?R3 x ns es t w)))"
    unfolding m save_part.simps
    by (rule passes_bind [OF passes_scalars(5) [OF q(1) good] passes_emits [OF 1] 1])
  ultimately show "passes X B (save_part mp) (load_part (Suc n) mp0) A A3
     (\<lambda>t mp'. part_copy t mp mp' \<and> RL t (mpLocalModelPart mp') \<and> RG t (mpGhostModelPart mp') \<and>
        RP t (mPartitionModelParts mp'))" by (auto simp: part_copy_def elim!: passes_weaken)
  have w: "writes (save_string ''mName'' nm) (st_platform X) (st_trace X)
      (tag_out (st_platform X) (st_trace X) ''mName'' @ string_out (st_platform X) (st_trace X) nm)"
    by (rule string_codec.save_out [OF good])
  from emits_then(2) [OF emits_writes(1) [OF w] passes_emits [OF 1]] emits_writes(2) [OF w]
  show "2 \<le> length (out_of X (save_part mp) A)"
    unfolding m save_part.simps
    using string_out_length [of "st_platform X" "st_trace X" nm] by simp
qed

section \<open>Internal parts\<close>

definition outside :: "setting \<Rightarrow> addr set \<Rightarrow> bool" where
  "outside X S \<longleftrightarrow> S \<inter> (fst ` st_nodes X \<union> fst ` st_elements X) = {}"

lemma passes_no_part:
  "passes X B (save_part_ptr tag None) (load_part_ptr ld tag None) A A (\<lambda>t v. v = None)"
proof -
  have "reads read_pointer_type P T (scalar_out sc_int P T 0) SP_INVALID_POINTER" for P T
    using int_format.reads_scalar [of T P 0] unfolding read_pointer_type_def
    by (intro reads_bind_ret [where v = 0]) simp_all
  then have "reads (load_part_ptr ld tag None) P T (scalar_out sc_int P T 0) None" for P T
    unfolding load_part_ptr_def load_unique_ptr_def by (rule reads_bind_ret) simp
  moreover have "writes (save_part_ptr tag None) P T (scalar_out sc_int P T 0)" for P T
    using int_format.writes_scalar [where v = 0]
    by (simp add: save_pointer_def write_pointer_type_def pointer_type_int_def)
  ultimately show ?thesis by (intro passes_codec)
qed

lemma passes_part_ptr:
  assumes "a \<notin> A" "outside X {a}" "quote \<notin> set tag"
    "passes X (insert a B) (save_part p) (ld x0) (insert a A) A' R"
    "pv = Some (b0, x0) \<or> pv = None \<and> x0 = empty_part []"
  shows "passes X B (save_part_ptr tag (Some (a, p))) (load_part_ptr ld tag pv) A A'
     (\<lambda>t v. \<exists>b y. v = Some (b, y) \<and> R t y)"
proof -
  have copy: "has_copy X t a" for t
    using assms(2) by (intro has_copy_other) (auto simp: outside_def)
  have pv: "pv = Some (b0, x0) \<or> pv = None \<and> Some (empty_part []) = Some x0" using assms(5) by auto
  have "passes X (insert a B) (save_object (\<lambda>_. save_part p) tag ()) (load_object (ld x0) tag)
      (insert a A) A' R"
    by (rule passes_object [where sv = "\<lambda>_. save_part p" and x = "()", OF assms(4,3)])
  from passes_new(2) [where ld = ld and emb = OPart and prj = get_part, OF assms(1) this copy pv]
  show ?thesis
    unfolding save_part_ptr.simps load_part_ptr_def by (rule passes_weaken) blast
qed

lemma passes_flat:
  assumes "separate X" "outside X B" "savable_part X A mp" "clean_target mp0" "flat mp" "flat mp0"
  shows "passes X B (save_part mp) (load_part (Suc n) mp0) A (A \<union> part_addrs mp)
     (\<lambda>t mp'. part_copy t mp mp' \<and> flat mp')"
proof -
  have B: "(fst ` st_nodes X \<union> fst ` st_elements X) \<inter> B = {}" using assms(2) by (simp add: outside_def Int_commute)
  have "passes X B (save_partitions (mPartitionModelParts mp))
      (load_unordered (load_partition (load_part n)) (length (mPartitionModelParts mp)) [])
      (A \<union> part_addrs mp) (A \<union> part_addrs mp) (\<lambda>t v. v = [])"
    using assms(5) by (simp add: flat_def passes_ret)
  moreover have "passes X B (save_part_ptr tag (mpLocalModelPart mp))
      (load_part_ptr (load_part n) tag (mpLocalModelPart mp0)) A A (\<lambda>t v. v = None)"
    "passes X B (save_part_ptr tag (mpGhostModelPart mp))
      (load_part_ptr (load_part n) tag (mpGhostModelPart mp0)) A A (\<lambda>t v. v = None)" for tag A
    using assms(5,6) passes_no_part by (simp_all add: flat_def)
  ultimately show ?thesis
    using assms(5) by (intro passes_weaken [OF passes_part(1) [OF assms(1) B assms(3,4)]]) (auto simp: flat_def)
qed

lemma savable_part_mono: "savable_part X A mp \<Longrightarrow> A \<subseteq> A' \<Longrightarrow> savable_part X A' mp"
  unfolding savable_part_def by blast

definition internal_copy :: "table \<Rightarrow> (addr \<times> model_part) option \<Rightarrow> (addr \<times> model_part) option \<Rightarrow> bool" where
  "internal_copy t v w \<longleftrightarrow> (\<exists>a p b y. v = Some (a, p) \<and> w = Some (b, y) \<and> part_copy t p y \<and> flat y)"

definition internal_target :: "(addr \<times> model_part) option \<Rightarrow> bool" where
  "internal_target pv \<longleftrightarrow> (case pv of None \<Rightarrow> True | Some (b, x) \<Rightarrow> clean_target x \<and> flat x)"

text \<open>An internal part only holds objects that its part holds.\<close>

definition internal_ok :: "setting \<Rightarrow> addr set \<Rightarrow> (addr \<times> model_part) option \<Rightarrow> bool" where
  "internal_ok X A v \<longleftrightarrow> (\<exists>a p. v = Some (a, p) \<and> flat p \<and> savable_part X A p \<and> part_addrs p \<subseteq> A)"

lemma passes_internal:
  assumes "separate X" "outside X B" "internal_ok X A v" "internal_target pv"
    "fst (the v) \<notin> A" "outside X {fst (the v)}" "quote \<notin> set tag"
  shows "passes X B (save_part_ptr tag v) (load_part_ptr (load_part (Suc n)) tag pv) A
     (insert (fst (the v)) A) (\<lambda>t. internal_copy t v)"
proof -
  obtain a p where v: "v = Some (a, p)" "flat p" "savable_part X A p" "part_addrs p \<subseteq> A"
    using assms(3) by (auto simp: internal_ok_def)
  obtain b0 x0 where pv: "pv = Some (b0, x0) \<or> pv = None \<and> x0 = empty_part []" "clean_target x0" "flat x0"
  proof (cases pv)
    case None
    then show ?thesis
      by (intro that [of 0 "empty_part []"])
        (simp_all add: clean_target_def flat_def empty_part_def iv_new_def)
  next
    case (Some q)
    then show ?thesis using assms(4) by (intro that [of "fst q" "snd q"]) (auto simp: internal_target_def)
  qed
  have B: "outside X (insert a B)" using assms(2,6) v(1) by (auto simp: outside_def)
  have A: "insert a A \<union> part_addrs p = insert a A" using v(4) by blast
  have "passes X (insert a B) (save_part p) (load_part (Suc n) x0) (insert a A) (insert a A)
      (\<lambda>t y. part_copy t p y \<and> flat y)"
    using passes_flat [OF assms(1) B savable_part_mono [OF v(3) subset_insertI [of A a]] pv(2) v(2) pv(3), of n]
    by (simp only: A)
  from passes_part_ptr [where ld = "load_part (Suc n)", OF _ _ assms(7) this pv(1)] assms(5,6) v(1) show ?thesis
    by (auto simp: internal_copy_def elim!: passes_weaken)
qed

section \<open>Parts with internal parts\<close>

definition level_copy :: "table \<Rightarrow> model_part \<Rightarrow> model_part \<Rightarrow> bool" where
  "level_copy t mp mp' \<longleftrightarrow> part_copy t mp mp' \<and>
     internal_copy t (mpLocalModelPart mp) (mpLocalModelPart mp') \<and>
     internal_copy t (mpGhostModelPart mp) (mpGhostModelPart mp')"

definition level_ok :: "setting \<Rightarrow> addr set \<Rightarrow> model_part \<Rightarrow> bool" where
  "level_ok X A mp \<longleftrightarrow> savable_part X A mp \<and>
     internal_ok X (A \<union> part_addrs mp) (mpLocalModelPart mp) \<and>
     internal_ok X (A \<union> part_addrs mp) (mpGhostModelPart mp) \<and>
     distinct (inner_addrs mp) \<and> outside X (set (inner_addrs mp))"

definition level_target :: "model_part \<Rightarrow> bool" where
  "level_target mp \<longleftrightarrow> clean_target mp \<and> internal_target (mpLocalModelPart mp) \<and>
     internal_target (mpGhostModelPart mp)"

lemma internal_ok_mono: "internal_ok X A v \<Longrightarrow> A \<subseteq> A' \<Longrightarrow> internal_ok X A' v"
  unfolding internal_ok_def using savable_part_mono by blast

lemma passes_level:
  assumes "separate X" "outside X B" "level_ok X A mp" "level_target mp0"
    "set (inner_addrs mp) \<inter> (A \<union> part_addrs mp) = {}"
    "passes X B (save_partitions (mPartitionModelParts mp))
       (load_unordered (load_partition (load_part (Suc n))) (length (mPartitionModelParts mp)) [])
       (A \<union> part_addrs mp \<union> set (inner_addrs mp)) A' RP"
    "length (mPartitionModelParts mp) < 2 ^ 64"
  shows "passes X B (save_part mp) (load_part (Suc (Suc n)) mp0) A A'
     (\<lambda>t mp'. level_copy t mp mp' \<and> RP t (mPartitionModelParts mp'))"
    "2 \<le> length (out_of X (save_part mp) A)"
proof -
  let ?l = "fst (the (mpLocalModelPart mp))" and ?g = "fst (the (mpGhostModelPart mp))"
  let ?A = "A \<union> part_addrs mp"
  have q: "quote \<notin> set ''mpLocalModelPart''" "quote \<notin> set ''mpGhostModelPart''" by (simp_all add: quote_def)
  have B: "(fst ` st_nodes X \<union> fst ` st_elements X) \<inter> B = {}" using assms(2) by (simp add: outside_def Int_commute)
  have l: "passes X B (save_part_ptr ''mpLocalModelPart'' (mpLocalModelPart mp))
      (load_part_ptr (load_part (Suc n)) ''mpLocalModelPart'' (mpLocalModelPart mp0)) ?A (insert ?l ?A)
      (\<lambda>t. internal_copy t (mpLocalModelPart mp))"
    by (rule passes_internal)
       (use assms(1-5) q in \<open>simp_all add: level_ok_def level_target_def inner_addrs_def outside_def\<close>)
  have "internal_ok X (insert ?l ?A) (mpGhostModelPart mp)"
    using assms(3) by (auto simp: level_ok_def intro: internal_ok_mono)
  moreover have "?g \<noteq> ?l" using assms(3) by (auto simp: level_ok_def inner_addrs_def)
  ultimately have g: "passes X B (save_part_ptr ''mpGhostModelPart'' (mpGhostModelPart mp))
      (load_part_ptr (load_part (Suc n)) ''mpGhostModelPart'' (mpGhostModelPart mp0)) (insert ?l ?A)
      (insert ?g (insert ?l ?A)) (\<lambda>t. internal_copy t (mpGhostModelPart mp))"
    by (intro passes_internal)
       (use assms(1-5) q in \<open>simp_all add: level_ok_def level_target_def inner_addrs_def outside_def\<close>)
  have A: "insert ?g (insert ?l ?A) = ?A \<union> set (inner_addrs mp)" by (auto simp: inner_addrs_def)
  have mp: "savable_part X A mp" "clean_target mp0"
    using assms(3,4) by (simp_all add: level_ok_def level_target_def)
  note part = passes_part [OF assms(1) B mp l g [unfolded A] assms(6,7)]
  show "passes X B (save_part mp) (load_part (Suc (Suc n)) mp0) A A'
     (\<lambda>t mp'. level_copy t mp mp' \<and> RP t (mPartitionModelParts mp'))"
    by (rule passes_weaken [OF part(1)]) (simp add: level_copy_def)
  show "2 \<le> length (out_of X (save_part mp) A)" by (rule part(2))
qed

section \<open>The parts of the partitions\<close>

definition entry_ok :: "setting \<Rightarrow> addr set \<Rightarrow> partition \<Rightarrow> bool" where
  "entry_ok X A x \<longleftrightarrow> level_ok X A (snd (snd x)) \<and> mPartitionModelParts (snd (snd x)) = [] \<and>
     part_addrs (snd (snd x)) \<subseteq> A \<and> outside X (set (entry_addrs x))"

definition entry_copy :: "table \<Rightarrow> partition \<Rightarrow> partition \<Rightarrow> bool" where
  "entry_copy t x y \<longleftrightarrow> fst y = fst x \<and> level_copy t (snd (snd x)) (snd (snd y)) \<and>
     mPartitionModelParts (snd (snd y)) = []"

lemma level_ok_mono: "level_ok X A mp \<Longrightarrow> A \<subseteq> A' \<Longrightarrow> level_ok X A' mp"
  unfolding level_ok_def
  using savable_part_mono internal_ok_mono [of X "A \<union> part_addrs mp" _ "A' \<union> part_addrs mp"] by blast

lemma entry_ok_mono: "entry_ok X A x \<Longrightarrow> A \<subseteq> A' \<Longrightarrow> entry_ok X A' x"
  unfolding entry_ok_def using level_ok_mono by blast

lemma passes_partition:
  assumes "separate X" "outside X B" "entry_ok X A x" "distinct (entry_addrs x)"
    "set (entry_addrs x) \<inter> A = {}"
  shows "passes X B (save_pair (save_direct sc_int) (\<lambda>rTag _. save_part_ptr rTag (Some (snd x))) ''E'' (fst x, ()))
     (load_partition (load_part (Suc (Suc n))) ''E'') A (A \<union> set (entry_addrs x))
     (\<lambda>t y. entry_copy t x y)"
proof -
  obtain i a p where x [simp]: "x = (i, a, p)" by (cases x)
  have p: "level_ok X A p" "mPartitionModelParts p = []" "part_addrs p \<subseteq> A" "outside X (set (inner_addrs p))"
    "outside X {a}" "a \<notin> A" "a \<notin> set (inner_addrs p)" "set (inner_addrs p) \<inter> A = {}"
    using assms(3-5) by (auto simp: entry_ok_def entry_addrs_def outside_def)
  have t: "level_target (empty_part [])"
    by (simp add: level_target_def clean_target_def internal_target_def empty_part_def iv_new_def)
  have B: "outside X (insert a B)" using assms(2) p(5) by (auto simp: outside_def)
  have A: "insert a A \<union> part_addrs p \<union> set (inner_addrs p) = A \<union> set (entry_addrs x)"
    using p(3) by (auto simp: entry_addrs_def)
  have no: "passes X (insert a B) (save_partitions (mPartitionModelParts p)) (load_unordered
      (load_partition (load_part (Suc n))) (length (mPartitionModelParts p)) [])
      (insert a A \<union> part_addrs p \<union> set (inner_addrs p)) (A \<union> set (entry_addrs x)) (\<lambda>t v. v = [])"
    unfolding A using p(2) by (simp add: passes_ret)
  have "set (inner_addrs p) \<inter> (insert a A \<union> part_addrs p) = {}" using p(3,7,8) by blast
  from passes_level(1) [OF assms(1) B level_ok_mono [OF p(1) subset_insertI [of A a]] t this no] p(2)
  have part: "passes X (insert a B) (save_part p) (load_part (Suc (Suc n)) (empty_part [])) (insert a A)
      (A \<union> set (entry_addrs x)) (\<lambda>t y. level_copy t p y \<and> mPartitionModelParts y = [])" by simp
  have q: "quote \<notin> set ''First''" "quote \<notin> set ''Second''" "quote \<notin> set ''E''" by (simp_all add: quote_def)
  have ptr: "passes X B (save_part_ptr ''Second'' (Some (a, p)))
      (load_part_ptr (load_part (Suc (Suc n))) ''Second'' None) A (A \<union> set (entry_addrs x))
      (\<lambda>t v. \<exists>b y. v = Some (b, y) \<and> level_copy t p y \<and> mPartitionModelParts y = [])"
    by (rule passes_part_ptr [where ld = "load_part (Suc (Suc n))", OF p(6,5) q(2) part]) simp
  have 1: "passes X B (save_part_ptr ''Second'' (Some (a, p)))
      (bindE (load_part_ptr (load_part (Suc (Suc n))) ''Second'' None) (\<lambda>v. retE (k, v))) A
      (A \<union> set (entry_addrs x)) (\<lambda>t w. \<exists>v. (\<exists>b y. v = Some (b, y) \<and> level_copy t p y \<and>
        mPartitionModelParts y = []) \<and> w = (k, v))" for k :: i32
    by (rule passes_end [OF ptr]) (rule takes_ret, rule refl)
  have "passes X B (thenE (save_direct sc_int ''First'' i) (save_part_ptr ''Second'' (Some (a, p))))
      (bindE (load_direct sc_int ''First'') (\<lambda>k.
        bindE (load_part_ptr (load_part (Suc (Suc n))) ''Second'' None) (\<lambda>v. retE (k, v)))) A
      (A \<union> set (entry_addrs x)) (\<lambda>t w. \<exists>k. k = i \<and> (\<exists>v. (\<exists>b y. v = Some (b, y) \<and>
        level_copy t p y \<and> mPartitionModelParts y = []) \<and> w = (k, v)))"
    by (rule passes_bind [OF passes_scalars(3) [OF q(1)] passes_emits [OF 1] 1])
  from passes_then [OF passes_tag [OF q(3)] this]
  have pair: "passes X B (save_pair (save_direct sc_int) (\<lambda>rTag _. save_part_ptr rTag (Some (snd x))) ''E'' (fst x, ()))
      (load_pair (load_direct sc_int) (\<lambda>tag. load_part_ptr (load_part (Suc (Suc n))) tag None) ''E'') A
      (A \<union> set (entry_addrs x)) (\<lambda>t w. \<exists>b y. w = (i, Some (b, y)) \<and> level_copy t p y \<and>
        mPartitionModelParts y = [])"
    unfolding save_pair_def load_pair_def x fst_conv snd_conv by (rule passes_weaken) auto
  have f: "takes X B (case w of (i, v) \<Rightarrow> (case v of None \<Rightarrow> throwE (UndefinedBehaviour ''null part'')
      | Some q \<Rightarrow> retE (i, q))) [] A' A' (\<lambda>t z. w = (fst z, Some (snd z)))"
    if "\<exists>b y. w = (i, Some (b, y)) \<and> level_copy t p y \<and> mPartitionModelParts y = []" for t w A'
    using that by (auto intro!: takes_ret)
  from passes_end [OF pair f] show ?thesis
    unfolding load_partition_def by (rule passes_weaken) (auto simp: entry_copy_def)
qed

lemma passes_partitions:
  assumes "separate X" "outside X B" "\<And>x. x \<in> set ps \<Longrightarrow> entry_ok X A x"
    "distinct (concat (List.map entry_addrs ps))" "set (concat (List.map entry_addrs ps)) \<inter> A = {}"
    "distinct (List.map fst (acc @ ps))"
  shows "passes X B (save_partitions ps) (load_unordered (load_partition (load_part (Suc (Suc n)))) (length ps) acc)
     A (A \<union> set (concat (List.map entry_addrs ps))) (\<lambda>t w. \<exists>qs. w = acc @ qs \<and> list_all2 (entry_copy t) ps qs)"
  using assms(3-6)
proof (induction ps arbitrary: A acc)
  case Nil
  then show ?case by (simp add: passes_ret)
next
  case (Cons x ps)
  let ?ld = "load_partition (load_part (Suc (Suc n)))"
  let ?A = "A \<union> set (entry_addrs x)"
  let ?A' = "?A \<union> set (concat (List.map entry_addrs ps))"
  have x: "passes X B (save_pair (save_direct sc_int) (\<lambda>rTag _. save_part_ptr rTag (Some (snd x))) ''E'' (fst x, ()))
      (?ld ''E'') A ?A (\<lambda>t y. entry_copy t x y)"
    by (rule passes_partition [OF assms(1,2)]) (use Cons.prems in auto)
  have rest: "passes X B (save_partitions ps) (load_unordered ?ld (length ps) (acc @ [y])) ?A ?A'
      (\<lambda>t w. \<exists>qs. w = (acc @ [y]) @ qs \<and> list_all2 (entry_copy t) ps qs)" if "fst y = fst x" for y
  proof (rule Cons.IH)
    show "entry_ok X ?A z" if "z \<in> set ps" for z
      using Cons.prems(1) [of z] that by (auto intro: entry_ok_mono)
  qed (use Cons.prems that in auto)
  have ins: "(case y of (k, v) \<Rightarrow> load_unordered ?ld (length ps) (insert_new k v acc)) =
      load_unordered ?ld (length ps) (acc @ [y])" if "fst y = fst x" for y
    using Cons.prems(4) that by (cases y) (auto simp: insert_new_def)
  have e: "save_partitions (x # ps) = thenE (save_pair (save_direct sc_int)
      (\<lambda>rTag _. save_part_ptr rTag (Some (snd x))) ''E'' (fst x, ())) (save_partitions ps)"
    by (cases x) simp
  have l: "load_unordered ?ld (length (x # ps)) acc = bindE (?ld ''E'') (\<lambda>y. case y of (k, v) \<Rightarrow>
      load_unordered ?ld (length ps) (insert_new k v acc))"
    by (simp only: length_Cons load_unordered.simps)
  have step: "passes X B (thenE (save_pair (save_direct sc_int)
      (\<lambda>rTag _. save_part_ptr rTag (Some (snd x))) ''E'' (fst x, ())) (save_partitions ps)) (bindE (?ld ''E'') (\<lambda>y. case y of (k, v) \<Rightarrow>
      load_unordered ?ld (length ps) (insert_new k v acc))) A ?A'
      (\<lambda>t w. \<exists>y. entry_copy t x y \<and> (\<exists>qs. w = (acc @ [y]) @ qs \<and> list_all2 (entry_copy t) ps qs))"
  proof (rule passes_bind [OF x])
    show "emits X (save_partitions ps) ?A ?A'"
      using passes_emits [OF rest [of x]] by simp
    show "passes X B (save_partitions ps) (case y of (k, v) \<Rightarrow> load_unordered ?ld (length ps) (insert_new k v acc))
        ?A ?A' (\<lambda>t w. \<exists>qs. w = (acc @ [y]) @ qs \<and> list_all2 (entry_copy t) ps qs)"
      if "entry_copy t x y" for t y
      using rest [of y] ins [of y] that by (simp add: entry_copy_def)
  qed
  have A: "A \<union> set (concat (List.map entry_addrs (x # ps))) = ?A'" by (simp add: Un_assoc)
  show ?case unfolding A e l by (rule passes_weaken [OF step]) auto
qed

end
