(* ===== verification/MeshRoundTrip.thy ===== *)
theory MeshRoundTrip
  imports MeshParts
begin

text \<open>
  A part built by calls of the library, saved and loaded into a new part: the loaded part satisfies
  the invariant of parts for the renamed nodes and elements, so it shows the same mesh.
\<close>

section \<open>Save and load\<close>

definition partitions_savable :: "setting \<Rightarrow> model_part \<Rightarrow> bool" where
  "partitions_savable X mp \<longleftrightarrow>
     (\<forall>x \<in> set (mPartitionModelParts mp). entry_ok X (part_addrs mp \<union> set (inner_addrs mp)) x) \<and>
     distinct (List.map fst (mPartitionModelParts mp)) \<and> length (mPartitionModelParts mp) < 2 ^ 64"

definition mesh_copy :: "table \<Rightarrow> model_part \<Rightarrow> model_part \<Rightarrow> bool" where
  "mesh_copy t mp mp' \<longleftrightarrow> level_copy t mp mp' \<and>
     list_all2 (entry_copy t) (mPartitionModelParts mp) (mPartitionModelParts mp')"

lemma all_addrs_parts:
  assumes "distinct (all_addrs mp)"
  shows "distinct (concat (List.map entry_addrs (mPartitionModelParts mp)))"
    "set (concat (List.map entry_addrs (mPartitionModelParts mp))) \<inter> (part_addrs mp \<union> set (inner_addrs mp)) = {}"
    "set (inner_addrs mp) \<inter> part_addrs mp = {}" "distinct (inner_addrs mp)"
  using assms unfolding all_addrs_def part_addrs_def by auto

lemma takes_ModelPart:
  assumes "\<And>n. takes X B (load_part (Suc (Suc (Suc n))) mp0) out A A' R" "2 \<le> length out"
  shows "takes X B (ModelPart_load mp0) out A A' R"
  unfolding takes_def
proof (intro allI impI)
  fix s :: mp_ser and g rest
  assume s: "mPlatform s = st_platform X" "mTrace s = st_trace X"
    "loaded_ok X B A (mLoadedPointers s)" "g \<in> {[], gap (st_trace X)}" "mBuffer s = g @ out @ rest"
  obtain n where n: "length (mBuffer s) + 1 = Suc (Suc (Suc n))"
    using assms(2) s(5) by (intro that [of "length (mBuffer s) - 2"]) simp
  have load: "ModelPart_load mp0 s = load_part (Suc (Suc (Suc n))) mp0 s"
    by (simp only: ModelPart_load_def n)
  show "\<exists>v s' g'. ModelPart_load mp0 s = (Inr v, s') \<and>
      mPlatform s' = st_platform X \<and> mTrace s' = st_trace X \<and>
      loaded_ok X B A' (mLoadedPointers s') \<and> g' \<in> {[], gap (st_trace X)} \<and>
      mBuffer s' = g' @ rest \<and> mLoadedPointers s \<subseteq>\<^sub>m mLoadedPointers s' \<and>
      (\<forall>t. grows (mLoadedPointers s') t \<longrightarrow> R t v)"
    unfolding load using assms(1) [of n, unfolded takes_def, rule_format, OF s] .
qed

lemma passes_ModelPart:
  assumes "separate X" "level_ok X {} mp" "partitions_savable X mp" "distinct (all_addrs mp)" "level_target mp0"
  shows "passes X {} (ModelPart_save mp) (ModelPart_load mp0) {} (set (all_addrs mp)) (\<lambda>t. mesh_copy t mp)"
    "out_of X (ModelPart_save mp) {} \<noteq> []"
proof -
  note d = all_addrs_parts [OF assms(4)]
  let ?A = "part_addrs mp \<union> set (inner_addrs mp)"
  have B: "outside X {}" by (simp add: outside_def)
  have ps: "passes X {} (save_partitions (mPartitionModelParts mp)) (load_unordered (load_partition
      (load_part (Suc (Suc n)))) (length (mPartitionModelParts mp)) []) ({} \<union> part_addrs mp \<union> set (inner_addrs mp))
      (?A \<union> set (concat (List.map entry_addrs (mPartitionModelParts mp))))
      (\<lambda>t w. \<exists>qs. w = [] @ qs \<and> list_all2 (entry_copy t) (mPartitionModelParts mp) qs)" for n
    unfolding Un_empty_left
    by (rule passes_partitions [OF assms(1) B]) (use assms(3) d in \<open>simp_all add: partitions_savable_def\<close>)
  have A: "?A \<union> set (concat (List.map entry_addrs (mPartitionModelParts mp))) = set (all_addrs mp)"
    by (auto simp: all_addrs_def part_addrs_def)
  have in_d: "set (inner_addrs mp) \<inter> ({} \<union> part_addrs mp) = {}" using d(3) by simp
  have len: "length (mPartitionModelParts mp) < 2 ^ 64" using assms(3) by (simp add: partitions_savable_def)
  note level = passes_level [OF assms(1) B assms(2,5) in_d ps [unfolded A] len]
  have part: "passes X {} (save_part mp) (load_part (Suc (Suc (Suc n))) mp0) {} (set (all_addrs mp))
      (\<lambda>t. mesh_copy t mp)" for n
    by (rule passes_weaken [OF level(1)]) (simp add: mesh_copy_def)
  then show "passes X {} (ModelPart_save mp) (ModelPart_load mp0) {} (set (all_addrs mp)) (\<lambda>t. mesh_copy t mp)"
    using takes_ModelPart [OF _ level(2)] unfolding ModelPart_save_def by (simp add: passes_def)
  show "out_of X (ModelPart_save mp) {} \<noteq> []" using level(2) by (auto simp: ModelPart_save_def)
qed

text \<open>What is saved into an empty stream is loaded from the stream that arrives.\<close>

lemma passes_stream:
  assumes "passes X {} sv ld {} A R"
  shows "\<exists>out v t s'. sv (StreamSerializer (st_platform X) h (st_trace X)) =
       (Inr (), (StreamSerializer (st_platform X) h (st_trace X))\<lparr>mBuffer := out, mSavedPointers := A\<rparr>) \<and>
     ld (StreamSerializer_data (st_platform X) h' out (st_trace X)) = (Inr v, s') \<and> R t v"
proof -
  let ?s = "StreamSerializer (st_platform X) h (st_trace X) :: mp_ser"
  let ?out = "out_of X sv {}"
  let ?s' = "StreamSerializer_data (st_platform X) h' ?out (st_trace X) :: mp_ser"
  have "emits X sv {} A" using assms by (simp add: passes_def)
  from emitsD [OF this, of ?s] have "sv ?s = (Inr (), ?s\<lparr>mBuffer := ?out, mSavedPointers := A\<rparr>)"
    by (simp add: StreamSerializer_def)
  moreover have start: "mPlatform ?s' = st_platform X" "mTrace ?s' = st_trace X"
    "loaded_ok X {} {} (mLoadedPointers ?s')" "[] \<in> {[], gap (st_trace X)}" "mBuffer ?s' = [] @ ?out @ [nl]"
    by (simp_all add: loaded_ok_def StreamSerializer_data_def StreamSerializer_def)
  have "takes X {} ld ?out {} A R" using assms by (simp add: passes_def)
  then obtain v s' where "ld ?s' = (Inr v, s')" "R (mLoadedPointers s') v"
    by (rule takesD [OF _ start]) (metis grows_refl)
  ultimately show ?thesis by blast
qed

section \<open>The copy is a part\<close>

definition renamed :: "table \<Rightarrow> node_ptr \<Rightarrow> node_ptr" where
  "renamed t p = (case t (fst p) of Some (Slot b x) \<Rightarrow> (b, snd p) | _ \<Rightarrow> p)"

definition renamed_element :: "table \<Rightarrow> element_ptr \<Rightarrow> element_ptr" where
  "renamed_element t p = (case t (fst p) of
       Some (Slot b x) \<Rightarrow> (b, (snd p)\<lparr>e_Nodes := List.map (renamed t) (e_Nodes (snd p))\<rparr>)
     | _ \<Rightarrow> (fst p, (snd p)\<lparr>e_Nodes := List.map (renamed t) (e_Nodes (snd p))\<rparr>))"

lemma node_copy_renamed: "list_all2 (node_copy t) ps qs \<Longrightarrow> qs = List.map (renamed t) ps"
  by (induction rule: list_all2_induct) (auto simp: node_copy_def renamed_def intro: prod_eqI)

lemma element_copy_renamed: "list_all2 (element_ptr_copy t) ps qs \<Longrightarrow> qs = List.map (renamed_element t) ps"
proof (induction rule: list_all2_induct)
  case (Cons p ps q qs)
  have "e_Nodes (snd q) = List.map (renamed t) (e_Nodes (snd p))"
    using Cons(1) by (intro node_copy_renamed) (simp add: element_ptr_copy_def element_copy_def)
  then have "q = renamed_element t p"
    using Cons(1) by (cases q) (auto simp: element_ptr_copy_def element_copy_def renamed_element_def)
  with Cons show ?case by simp
qed simp

lemma renamed_id [simp]: "node_id (renamed t p) = node_id p" "snd (renamed t p) = snd p"
  by (auto simp: node_id_def renamed_def split: option.split slot.split)

lemma renamed_element_id [simp]: "element_id (renamed_element t p) = element_id p"
  "e_Type (snd (renamed_element t p)) = e_Type (snd p)"
  "e_Nodes (snd (renamed_element t p)) = List.map (renamed t) (e_Nodes (snd p))"
  by (auto simp: element_id_def renamed_element_def split: option.split slot.split)

definition renamed_owned :: "table \<Rightarrow> owned list \<Rightarrow> owned list" where
  "renamed_owned t ns = List.map (\<lambda>n. (renamed t (fst n), snd n)) ns"

lemma renamed_parts:
  "List.map fst (renamed_owned t ns) = List.map (renamed t) (List.map fst ns)"
  "local_nodes (renamed_owned t ns) = List.map (renamed t) (local_nodes ns)"
  "ghost_nodes (renamed_owned t ns) = List.map (renamed t) (ghost_nodes ns)"
  "partition_nodes i (renamed_owned t ns) = List.map (renamed t) (partition_nodes i ns)"
  by (simp_all add: renamed_owned_def local_nodes_def ghost_nodes_def partition_nodes_def filter_map o_def)

lemma part_copy_holds:
  assumes "part_copy t p p'" "holds p ns es"
  shows "holds p' (List.map (renamed t) ns) (List.map (renamed_element t) es)"
  using assms by (auto simp: part_copy_def holds_def dest!: node_copy_renamed element_copy_renamed)

lemma mesh_of_renamed: "mesh_of (renamed_owned t ns) (List.map (renamed_element t) es) = mesh_of ns es"
  by (simp add: mesh_of_def renamed_owned_def)

lemma entry_copies:
  assumes "list_all2 (entry_copy t) ps qs"
  shows "List.map fst qs = List.map fst ps"
    "case map_of ps i of None \<Rightarrow> map_of qs i = None
     | Some q \<Rightarrow> \<exists>q'. map_of qs i = Some q' \<and> part_copy t (snd q) (snd q')"
  using assms
proof (induction rule: list_all2_induct)
  case (Cons x ps y qs)
  {
    case 1
    then show ?case using Cons by (simp add: entry_copy_def)
  next
    case 2
    then show ?case using Cons
      by (cases x; cases y) (auto simp: entry_copy_def level_copy_def cong: option.case_cong)
  }
qed simp_all

lemma partitions_ok_copy:
  assumes "partitions_ok ps ns" "list_all2 (entry_copy t) ps qs"
  shows "partitions_ok qs (renamed_owned t ns)"
proof -
  have "case map_of qs i of None \<Rightarrow> partition_nodes i (renamed_owned t ns) = []
      | Some q \<Rightarrow> holds (snd q) (partition_nodes i (renamed_owned t ns)) []" for i
    using entry_copies(2) [OF assms(2), of i] partitions_okD [OF assms(1), of i]
      part_copy_holds [of t _ _ "partition_nodes i ns" "[]"]
    by (auto simp: renamed_parts simp del: map_of_eq_None_iff map_of_eq_Some_iff split: option.splits)
  then show ?thesis using assms(1) entry_copies(1) [OF assms(2)] by (simp add: partitions_ok_def)
qed

lemma mesh_copy_wf:
  assumes "wf_part mp ns es" "mesh_copy t mp mp'"
  shows "wf_part mp' (renamed_owned t ns) (List.map (renamed_element t) es)"
proof -
  obtain a l b g where l: "mpLocalModelPart mp = Some (a, l)" "holds l (local_nodes ns) es"
    and g: "mpGhostModelPart mp = Some (b, g)" "holds g (ghost_nodes ns) []"
    using assms(1) by (auto simp: wf_part_def)
  have c: "part_copy t mp mp'" "internal_copy t (Some (a, l)) (mpLocalModelPart mp')"
    "internal_copy t (Some (b, g)) (mpGhostModelPart mp')"
    "list_all2 (entry_copy t) (mPartitionModelParts mp) (mPartitionModelParts mp')"
    using assms(2) l(1) g(1) by (simp_all add: mesh_copy_def level_copy_def)
  have "\<exists>a l. mpLocalModelPart mp' = Some (a, l) \<and>
      holds l (local_nodes (renamed_owned t ns)) (List.map (renamed_element t) es)"
    using c(2) part_copy_holds [OF _ l(2)] by (auto simp: internal_copy_def renamed_parts)
  moreover have "\<exists>a g. mpGhostModelPart mp' = Some (a, g) \<and> holds g (ghost_nodes (renamed_owned t ns)) []"
    using c(3) part_copy_holds [OF _ g(2)] by (auto simp: internal_copy_def renamed_parts)
  moreover have "holds mp' (List.map fst (renamed_owned t ns)) (List.map (renamed_element t) es)"
    unfolding renamed_parts by (rule part_copy_holds [OF c(1) wf_part_holds [OF assms(1)]])
  moreover have "partitions_ok (mPartitionModelParts mp') (renamed_owned t ns)"
    using assms(1) c(4) by (auto simp: wf_part_def intro: partitions_ok_copy)
  moreover have "element_ok (renamed_owned t ns) (renamed_element t e)" if "element_ok ns e" for e
  proof -
    have "fst ` set (renamed_owned t ns) = renamed t ` fst ` set ns"
      by (auto simp: renamed_owned_def image_image)
    then show ?thesis using that by (simp add: element_ok_def image_mono)
  qed
  ultimately show ?thesis
    using assms(1) by (auto simp: wf_part_def renamed_owned_def o_def)
qed

section \<open>Parts built by calls are savable\<close>

lemma length_show_base: "2 \<le> b \<Longrightarrow> length (show_base b n) \<le> Suc n"
proof (induction b n rule: show_base.induct)
  case (1 b n)
  show ?case
  proof (cases "n < b")
    case False
    then have "n div b < n" using 1(2) by (intro div_less_dividend) simp_all
    moreover have "length (show_base b (n div b)) \<le> Suc (n div b)" using 1(2) False by (intro 1(1)) simp_all
    ultimately have "length (show_base b (n div b)) \<le> n" by simp
    then show ?thesis using False 1(2) by (simp add: show_base.simps [of b n])
  qed (simp add: show_base.simps [of b n])
qed

lemma index_name_good:
  fixes i :: i32
  assumes "0 \<le> sint i"
  shows "string_good T (show_int (sint i))"
proof -
  have sh: "show_int (sint i) = show_base 10 (nat (sint i))" using assms by (simp add: show_int_def show_nat_def)
  have "sint i < 2 ^ 31" using sint_lt [of i] by simp
  then have n: "nat (sint i) < 2 ^ 31" using assms by (simp add: nat_less_iff)
  have "length (show_base 10 (nat (sint i))) \<le> Suc (nat (sint i))" by (rule length_show_base) simp
  also have "\<dots> < 2 ^ 64" using n by simp
  finally have "length (show_int (sint i)) < 2 ^ 64" by (simp add: sh)
  moreover have "\<not> is_digit 10 quote" by (simp add: is_digit_def digit_val_def quote_def)
  then have "quote \<notin> set (show_int (sint i))"
    using show_base_digits [of 10 quote "nat (sint i)"] by (auto simp: sh)
  ultimately show ?thesis by (simp add: string_good_def)
qed

lemma fixed_names_good: "string_good T ''local''" "string_good T ''ghost''"
  by (simp_all add: string_good_def quote_def)

lemma distinct_ids_length:
  fixes xs :: "'a::len word list"
  assumes "distinct xs" "0 \<notin> set xs"
  shows "length xs < 2 ^ LENGTH('a)"
proof -
  have "length xs = card (set xs)" using distinct_card [OF assms(1)] by simp
  also have "\<dots> < card (UNIV :: 'a word set)"
    by (rule psubset_card_mono) (use assms(2) in auto)
  finally show ?thesis by (simp add: card_word)
qed

lemma element_type_nodes:
  assumes "GetNumberOfNodesForElementType t = Inr n"
  shows "n < 2 ^ 64" "element_type_of_int (element_type_to_int t) = t"
  using assms
  by (cases t; simp add: GetNumberOfNodesForElementType_def element_type_roundtrip)+

definition mesh_setting :: "platform \<Rightarrow> TraceType \<Rightarrow> owned list \<Rightarrow> element_ptr list \<Rightarrow> setting" where
  "mesh_setting P T ns es = \<lparr>st_platform = P, st_trace = T, st_nodes = fst ` set ns, st_elements = set es\<rparr>"

definition coordinates_print :: "platform \<Rightarrow> TraceType \<Rightarrow> Node list \<Rightarrow> bool" where
  "coordinates_print P T ns \<longleftrightarrow> T = SERIALIZER_NO_TRACE \<or>
     (\<forall>n \<in> set ns. prints_exactly P (n_X n) \<and> prints_exactly P (n_Y n) \<and> prints_exactly P (n_Z n))"

lemma sub_nodes:
  "set (local_nodes ns) \<subseteq> fst ` set ns" "set (ghost_nodes ns) \<subseteq> fst ` set ns"
  "set (partition_nodes i ns) \<subseteq> fst ` set ns"
  by (auto simp: local_nodes_def ghost_nodes_def partition_nodes_def)

text \<open>A part that holds nodes and elements of the mesh can be saved.\<close>

lemma holds_savable:
  assumes wf: "wf_part mp ns es" and print: "coordinates_print P T (List.map (\<lambda>n. snd (fst n)) ns)"
    and p: "holds p xs ys" "set xs \<subseteq> fst ` set ns" "set ys \<subseteq> set es"
      "distinct (List.map node_id xs)" "distinct (List.map element_id ys)"
      "string_good T (mName p)"
    and A: "ys = [] \<or> fst ` fst ` set ns \<subseteq> A \<union> fst ` set xs"
  shows "savable_part (mesh_setting P T ns es) A p"
proof -
  have data: "mData (mNodes p) = xs" "mData (mElements p) = ys" using holds_data [OF p(1)] .
  have ids: "1 \<le> sint (node_id x)" if "x \<in> set xs" for x
    using wf p(2) that by (auto simp: wf_part_def)
  then have "0 \<notin> set (List.map node_id xs)" by force
  then have nodes: "length xs < 2 ^ 64" using distinct_ids_length [OF p(4)] by simp
  have el: "element_ok ns e" if "e \<in> set ys" for e using wf p(3) that by (auto simp: wf_part_def)
  then have "0 \<notin> set (List.map element_id ys)" by (force simp: element_ok_def)
  then have elements: "length ys < 2 ^ 64" using distinct_ids_length [OF p(5)] by simp
  have pr: "prints_node (mesh_setting P T ns es) (snd x)" if "x \<in> fst ` set ns" for x
    using print that by (auto simp: coordinates_print_def prints_node_def mesh_setting_def)
  have "savable_element (mesh_setting P T ns es) (snd e)" if "e \<in> set ys" for e
  proof -
    have e: "set (e_Nodes (snd e)) \<subseteq> fst ` set ns" using el [OF that] by (simp add: element_ok_def)
    have "\<forall>x \<in> set (e_Nodes (snd e)). prints_node (mesh_setting P T ns es) (snd x)" using pr e by blast
    moreover have "st_nodes (mesh_setting P T ns es) = fst ` set ns" by (simp add: mesh_setting_def)
    ultimately show ?thesis
      using el [OF that] element_type_nodes [of "e_Type (snd e)"]
      unfolding savable_element_def element_ok_def by simp
  qed
  moreover have "fst ` set (e_Nodes (snd e)) \<subseteq> A \<union> fst ` set xs" if "e \<in> set ys" for e
  proof -
    have "fst ` set (e_Nodes (snd e)) \<subseteq> fst ` fst ` set ns"
      using el [OF that] by (intro image_mono) (simp add: element_ok_def)
    moreover have "fst ` fst ` set ns \<subseteq> A \<union> fst ` set xs" using A that by auto
    ultimately show ?thesis by (rule subset_trans)
  qed
  moreover have "\<forall>x \<in> set xs. prints_node (mesh_setting P T ns es) (snd x)" using pr p(2) by blast
  moreover have "st_nodes (mesh_setting P T ns es) = fst ` set ns" "st_elements (mesh_setting P T ns es) = set es"
    "st_trace (mesh_setting P T ns es) = T" by (simp_all add: mesh_setting_def)
  ultimately show ?thesis
    using p nodes elements unfolding savable_part_def data by simp
qed

lemma built_savable:
  assumes wf: "wf_part mp ns es" and lay: "laid_out mp h"
    and print: "coordinates_print P T (List.map (\<lambda>n. snd (fst n)) ns)" and nm: "string_good T (mName mp)"
  shows "separate (mesh_setting P T ns es)" "level_ok (mesh_setting P T ns es) {} mp"
    "partitions_savable (mesh_setting P T ns es) mp" "distinct (all_addrs mp)"
proof -
  let ?X = "mesh_setting P T ns es"
  have X: "st_nodes ?X = fst ` set ns" "st_elements ?X = set es" "st_trace ?X = T" by (simp_all add: mesh_setting_def)
  note holds = wf_part_holds [OF wf]
  note ids = wf_part_distinct [OF wf]
  have sub: "distinct (List.map node_id (local_nodes ns))" "distinct (List.map node_id (ghost_nodes ns))"
    "distinct (List.map node_id (partition_nodes i ns))" for i
    using ids(1) unfolding local_nodes_def ghost_nodes_def partition_nodes_def
    by (simp_all add: o_def distinct_map_filter)
  show all: "distinct (all_addrs mp)" using lay by (simp add: laid_out_def)
  note d = all_addrs_parts [OF all]
  have data: "mData (mNodes mp) = List.map fst ns" "mData (mElements mp) = es" using holds_data [OF holds] .
  have pa: "part_addrs mp = fst ` fst ` set ns \<union> fst ` set es" by (simp add: part_addrs_def data)
  have "distinct (List.map fst (List.map fst ns) @ List.map fst es)"
    using all unfolding all_addrs_def data distinct_append set_append by blast
  then have "inj_on fst (set (List.map fst ns))" "inj_on fst (set es)"
    "set (List.map fst (List.map fst ns)) \<inter> set (List.map fst es) = {}"
    unfolding distinct_append distinct_map by simp_all
  then show "separate ?X" unfolding separate_def X by (simp add: image_image)
  have out: "outside ?X S" if "S \<inter> part_addrs mp = {}" for S
    using that by (simp add: outside_def X pa)
  obtain a l b g where l: "mpLocalModelPart mp = Some (a, l)" "holds l (local_nodes ns) es" "flat l" "mName l = ''local''"
    and g: "mpGhostModelPart mp = Some (b, g)" "holds g (ghost_nodes ns) []" "flat g" "mName g = ''ghost''"
    using wf lay by (auto simp: wf_part_def laid_out_def internal_named_def)
  have mp: "savable_part ?X {} mp"
    by (rule holds_savable [OF wf print holds]) (use ids nm in auto)
  have "savable_part ?X (part_addrs mp) l"
    by (rule holds_savable [OF wf print l(2)]) (use sub_nodes ids sub fixed_names_good l(4) pa in auto)
  moreover have "part_addrs l \<subseteq> part_addrs mp"
    using sub_nodes(1) [of ns] unfolding part_addrs_def [of l] holds_data [OF l(2)] pa by blast
  moreover have "savable_part ?X (part_addrs mp) g"
    by (rule holds_savable [OF wf print g(2)]) (use sub_nodes ids sub fixed_names_good g(4) pa in auto)
  moreover have "part_addrs g \<subseteq> part_addrs mp"
    using sub_nodes(2) [of ns] unfolding part_addrs_def [of g] holds_data [OF g(2)] pa by auto
  ultimately show "level_ok ?X {} mp"
    using mp l g d(4) out [OF d(3)] by (simp add: level_ok_def internal_ok_def)
  have "entry_ok ?X (part_addrs mp \<union> set (inner_addrs mp)) x" if x: "x \<in> set (mPartitionModelParts mp)" for x
  proof -
    obtain i c p where xp: "x = (i, c, p)" by (cases x)
    have shape: "entry_shape x" using lay x by (simp add: laid_out_def)
    have ok: "partitions_ok (mPartitionModelParts mp) ns" using wf by (simp add: wf_part_def)
    have "map_of (mPartitionModelParts mp) i = Some (c, p)"
      using ok x xp by (simp add: partitions_ok_def)
    with partitions_ok_find [OF ok this] have p: "holds p (partition_nodes i ns) []" by simp
    have inner: "internal_ok ?X A (Some (a, empty_part nm))" if "string_good T nm" for A a nm
      using that by (auto simp: internal_ok_def flat_def savable_part_def part_addrs_def empty_part_def iv_new_def X)
    have "savable_part ?X A p" for A
      by (rule holds_savable [OF wf print p])
         (use sub_nodes sub index_name_good shape xp in \<open>auto simp: entry_shape_def\<close>)
    moreover have "part_addrs p \<subseteq> part_addrs mp"
      using sub_nodes(3) [of i ns] unfolding part_addrs_def [of p] holds_data [OF p] pa by auto
    moreover have "distinct (entry_addrs x)" "set (entry_addrs x) \<inter> part_addrs mp = {}"
      using d(1,2) x by (auto simp: distinct_concat_iff)
    then have "distinct (inner_addrs p)" "outside ?X (set (entry_addrs x))" "outside ?X (set (inner_addrs p))"
      using xp by (auto simp: entry_addrs_def intro!: out)
    ultimately show ?thesis
      using shape xp inner [OF fixed_names_good(1)] inner [OF fixed_names_good(2)]
      by (auto simp: entry_ok_def level_ok_def entry_shape_def)
  qed
  moreover have ps: "distinct (List.map fst (mPartitionModelParts mp))"
    using wf by (simp add: wf_part_def partitions_ok_def)
  moreover have "length (mPartitionModelParts mp) < 2 ^ 64"
  proof -
    have "length (mPartitionModelParts mp) = card (set (List.map fst (mPartitionModelParts mp)))"
      using distinct_card [OF ps] by simp
    also have "\<dots> \<le> card (UNIV :: i32 set)" by (rule card_mono) auto
    finally show ?thesis by (simp add: card_word)
  qed
  ultimately show "partitions_savable ?X mp" by (simp add: partitions_savable_def)
qed

section \<open>The round trip\<close>

lemma new_ModelPart_target: "new_ModelPart nm h = (Inr mp, h') \<Longrightarrow> level_target mp"
  by (auto simp: new_ModelPart_def InitializeInternalModelParts_def part_defs level_target_def
      clean_target_def internal_target_def flat_def empty_part_def iv_new_def split: sum.splits)

lemma built_mesh_passes:
  assumes "wf_part mp ns es" "laid_out mp h" "string_good T (mName mp)" "level_target mp0"
    "coordinates_print P T (List.map fst (m_nodes (mesh_of ns es)))" "quote \<notin> set tag"
  shows "passes (mesh_setting P T ns es) {} (save_object ModelPart_save tag mp)
     (load_object (ModelPart_load mp0) tag) {} (set (all_addrs mp))
     (\<lambda>t mp'. \<exists>ns' es'. wf_part mp' ns' es' \<and> mesh_of ns' es' = mesh_of ns es \<and> mName mp' = mName mp)"
    "out_of (mesh_setting P T ns es) (save_object ModelPart_save tag mp) {} \<noteq> []"
proof -
  have print: "coordinates_print P T (List.map (\<lambda>n. snd (fst n)) ns)"
    using assms(5) by (simp add: mesh_of_def o_def)
  note part = passes_ModelPart [OF built_savable [OF assms(1,2) print assms(3)] assms(4)]
  show "out_of (mesh_setting P T ns es) (save_object ModelPart_save tag mp) {} \<noteq> []"
    using emits_then(2) [OF passes_emits [OF passes_tag [OF assms(6)]] passes_emits [OF part(1)]] part(2)
    by (simp add: save_object_def)
  from passes_object [where sv = ModelPart_save, OF part(1) assms(6)]
  show "passes (mesh_setting P T ns es) {} (save_object ModelPart_save tag mp)
     (load_object (ModelPart_load mp0) tag) {} (set (all_addrs mp))
     (\<lambda>t mp'. \<exists>ns' es'. wf_part mp' ns' es' \<and> mesh_of ns' es' = mesh_of ns es \<and> mName mp' = mName mp)"
  proof (rule passes_weaken)
    fix t mp' assume c: "mesh_copy t mp mp'"
    have "mName mp' = mName mp" using c by (simp add: mesh_copy_def level_copy_def part_copy_def)
    with mesh_copy_wf [OF assms(1) c] mesh_of_renamed
    show "\<exists>ns' es'. wf_part mp' ns' es' \<and> mesh_of ns' es' = mesh_of ns es \<and> mName mp' = mName mp" by metis
  qed
qed

text \<open>
  The two sides of a transfer: what is written for a part that can be exported, and that reading it into
  an empty part gives a part with the same mesh.
\<close>

definition exportable :: "platform \<Rightarrow> TraceType \<Rightarrow> model_part \<Rightarrow> bool" where
  "exportable P T mp \<longleftrightarrow> (\<exists>ns es h. wf_part mp ns es \<and> laid_out mp h) \<and> string_good T (mName mp) \<and>
     coordinates_print P T (part_nodes mp)"

definition mesh_text :: "platform \<Rightarrow> TraceType \<Rightarrow> string \<Rightarrow> model_part \<Rightarrow> string" where
  "mesh_text P T tag mp = mBuffer (snd (save_object ModelPart_save tag mp (StreamSerializer P 0 T)))"

definition same_mesh :: "model_part \<Rightarrow> model_part \<Rightarrow> bool" where
  "same_mesh mp mp' \<longleftrightarrow> mName mp' = mName mp \<and>
     (\<exists>ns es ns' es'. wf_part mp ns es \<and> wf_part mp' ns' es' \<and> mesh_of ns' es' = mesh_of ns es)"

lemma exportable_passes:
  assumes "exportable P T mp" "level_target mp0" "quote \<notin> set tag"
  obtains X where "st_platform X = P" "st_trace X = T"
    "passes X {} (save_object ModelPart_save tag mp) (load_object (ModelPart_load mp0) tag) {}
       (set (all_addrs mp)) (\<lambda>t. same_mesh mp)" "out_of X (save_object ModelPart_save tag mp) {} = mesh_text P T tag mp" "mesh_text P T tag mp \<noteq> []"
proof -
  obtain ns es h where mp: "wf_part mp ns es" "laid_out mp h" using assms(1) by (auto simp: exportable_def)
  have "part_nodes mp = List.map fst (m_nodes (mesh_of ns es))"
    using wf_part_shows [OF mp(1)] by (simp add: shows_mesh_def)
  then have print: "coordinates_print P T (List.map fst (m_nodes (mesh_of ns es)))" "string_good T (mName mp)"
    using assms(1) by (simp_all add: exportable_def)
  note part = built_mesh_passes [OF mp print(2) assms(2) print(1) assms(3)]
  have "passes (mesh_setting P T ns es) {} (save_object ModelPart_save tag mp)
      (load_object (ModelPart_load mp0) tag) {} (set (all_addrs mp)) (\<lambda>t. same_mesh mp)"
    by (rule passes_weaken [OF part(1)]) (use mp in \<open>auto simp: same_mesh_def\<close>)
  moreover have "(StreamSerializer P 0 T)\<lparr>mSavedPointers := {}\<rparr> = (StreamSerializer P 0 T :: mp_ser)"
    by (simp add: StreamSerializer_def)
  then have "out_of (mesh_setting P T ns es) (save_object ModelPart_save tag mp) {} = mesh_text P T tag mp"
    by (simp add: out_of_def mesh_text_def mesh_setting_def)
  ultimately show ?thesis using that [of "mesh_setting P T ns es"] part(2) by (simp add: mesh_setting_def)
qed

lemma empty_part_target: "level_target (empty_part [])"
  by (simp add: level_target_def clean_target_def internal_target_def empty_part_def iv_new_def)

lemma mesh_text_nonempty: "exportable P T mp \<Longrightarrow> quote \<notin> set tag \<Longrightarrow> mesh_text P T tag mp \<noteq> []"
  by (rule exportable_passes [OF _ empty_part_target])

lemma mesh_saved:
  assumes "exportable P T mp" "quote \<notin> set tag" "mPlatform s = P" "mTrace s = T" "mSavedPointers s = {}" "mBuffer s = []"
  shows "\<exists>s'. save_object ModelPart_save tag mp s = (Inr (), s') \<and> mBuffer s' = mesh_text P T tag mp"
proof -
  from exportable_passes [OF assms(1) empty_part_target assms(2)] obtain X where X: "st_platform X = P" "st_trace X = T"
    "emits X (save_object ModelPart_save tag mp) {} (set (all_addrs mp))"
    "out_of X (save_object ModelPart_save tag mp) {} = mesh_text P T tag mp"
    by (metis passes_emits)
  then show ?thesis using emitsD [OF X(3), of s] assms(3-6) by simp
qed

lemma mesh_loaded:
  assumes "exportable P T mp" "level_target mp0" "quote \<notin> set tag" "mPlatform s = P" "mTrace s = T"
    and "mLoadedPointers s = Map.empty" "mBuffer s = mesh_text P T tag mp @ rest"
  shows "\<exists>mp' s'. load_object (ModelPart_load mp0) tag s = (Inr mp', s') \<and> same_mesh mp mp'"
proof -
  obtain X where X: "st_platform X = P" "st_trace X = T"
    "passes X {} (save_object ModelPart_save tag mp) (load_object (ModelPart_load mp0) tag) {}
       (set (all_addrs mp)) (\<lambda>t. same_mesh mp)" "out_of X (save_object ModelPart_save tag mp) {} = mesh_text P T tag mp"
    by (rule exportable_passes [OF assms(1-3)])
  have start: "mPlatform s = st_platform X" "mTrace s = st_trace X" "loaded_ok X {} {} (mLoadedPointers s)"
    "[] \<in> {[], gap (st_trace X)}" "mBuffer s = [] @ out_of X (save_object ModelPart_save tag mp) {} @ rest"
    using X assms(4-7) by (simp_all add: loaded_ok_def)
  have "takes X {} (load_object (ModelPart_load mp0) tag) (out_of X (save_object ModelPart_save tag mp) {}) {}
      (set (all_addrs mp)) (\<lambda>t. same_mesh mp)" using X(3) by (simp add: passes_def)
  then show ?thesis by (rule takesD [OF _ start]) (metis grows_refl)
qed

lemma built_part:
  assumes "new_ModelPart nm h = (Inr mp0, h0)" "run_calls cs (mp0, h0) = (rs, (mp, h1))"
    and "unat h + 2 + 4 * length cs < 2 ^ 64"
  obtains ns es where "wf_part mp ns es" "laid_out mp h1" "mesh_of ns es = snd (run_spec cs mesh_empty)"
    "mName mp = nm"
proof -
  have start: "wf_part mp0 [] []" "mName mp0 = nm" using new_ModelPart_ok [OF assms(1)] by simp_all
  have "laid_out mp0 h0" "unat h0 = unat h + 2" using new_ModelPart_layout [OF assms(1)] assms(3) by simp_all
  then have "laid_out mp h1" using run_calls_layout [OF _ _ assms(2)] assms(3) by simp
  then show ?thesis using run_refines [OF start(1), of cs h0] assms(2) start(2) that by auto
qed

lemma built_exportable:
  assumes "new_ModelPart nm h = (Inr mp0, h0)" "run_calls cs (mp0, h0) = (rs, (mp, h1))"
    and "unat h + 2 + 4 * length cs < 2 ^ 64" "string_good T nm"
    and "coordinates_print P T (List.map fst (m_nodes (snd (run_spec cs mesh_empty))))"
  shows "exportable P T mp"
proof -
  obtain ns es where mp: "wf_part mp ns es" "laid_out mp h1" "mesh_of ns es = snd (run_spec cs mesh_empty)"
    "mName mp = nm" by (rule built_part [OF assms(1-3)])
  have "part_nodes mp = List.map fst (m_nodes (snd (run_spec cs mesh_empty)))"
    using wf_part_shows [OF mp(1)] mp(3) by (simp add: shows_mesh_def)
  then show ?thesis using mp assms(4,5) unfolding exportable_def by auto
qed

lemma same_mesh_shows:
  assumes "same_mesh mp mp'"
  shows "\<exists>m. shows_mesh mp m \<and> shows_mesh mp' m" "part_elements mp' = part_elements mp"
  using assms wf_part_shows by (auto simp: same_mesh_def) (metis, metis shows_mesh_def)

definition sample_mesh :: model_part where
  "sample_mesh = fst (snd (run_calls sample_calls (sample_part, 2)))"

lemma sample_mesh:
  "coordinates_print P T (part_nodes sample_mesh) \<Longrightarrow> exportable P T sample_mesh"
  "part_elements sample_mesh = [(7, Line2D2, [\<lparr>n_Id = 1, n_X = 0, n_Y = 0, n_Z = 0\<rparr>,
       \<lparr>n_Id = 2, n_X = 0, n_Y = 0, n_Z = 0\<rparr>])]"
proof -
  obtain rs h where run: "run_calls sample_calls (sample_part, 2) = (rs, (sample_mesh, h))"
    unfolding sample_mesh_def by (metis prod.collapse)
  have small: "unat (0 :: addr) + 2 + 4 * length sample_calls < 2 ^ 64" by (simp add: sample_calls_def)
  obtain ns es where mp: "wf_part sample_mesh ns es" "mesh_of ns es = snd (run_spec sample_calls mesh_empty)"
    by (rule built_part [OF sample_new run small])
  have sh: "shows_mesh sample_mesh (snd (run_spec sample_calls mesh_empty))"
    using wf_part_shows [OF mp(1)] mp(2) by simp
  then show "part_elements sample_mesh = [(7, Line2D2, [\<lparr>n_Id = 1, n_X = 0, n_Y = 0, n_Z = 0\<rparr>,
       \<lparr>n_Id = 2, n_X = 0, n_Y = 0, n_Z = 0\<rparr>])]"
    unfolding sample_spec by (simp add: shows_mesh_def)
  have good: "string_good T ''m''" by (simp add: string_good_def quote_def)
  show "exportable P T sample_mesh" if "coordinates_print P T (part_nodes sample_mesh)"
    using built_exportable [OF sample_new run small good] that sh by (simp add: shows_mesh_def)
qed

text \<open>
  Property C5. A mesh survives its transfer: a ModelPart that any sequence of calls has built, failing
  calls included, is saved the way it is exported and loaded the way it is imported into a new
  ModelPart. The loaded part has the name of the saved one, shows the same nodes and elements in all its parts, and
  answers every later sequence of calls as the saved one would.
\<close>

theorem mesh_roundtrip:
  assumes "new_ModelPart nm h = (Inr mp0, h0)" "run_calls cs (mp0, h0) = (rs, (mp, h1))"
    and "unat h + 2 + 4 * length cs < 2 ^ 64" "string_good T nm"
    and "coordinates_print P T (List.map fst (m_nodes (snd (run_spec cs mesh_empty))))"
    and "new_ModelPart nm' k = (Inr target, k0)"
  shows "\<exists>s mp' s'. save_object ModelPart_save ''object'' mp (StreamSerializer P h1 T) = (Inr (), s) \<and>
     load_object (ModelPart_load target) ''object''
       (StreamSerializer_data P k0 (GetStringRepresentation s) T) = (Inr mp', s') \<and>
     mName mp' = nm \<and> shows_mesh mp' (snd (run_spec cs mesh_empty)) \<and>
     (\<forall>cs' h'. \<exists>mp'' h''. run_calls cs' (mp', h') = (fst (run_spec cs' (snd (run_spec cs mesh_empty))), (mp'', h'')) \<and>
        shows_mesh mp'' (snd (run_spec cs' (snd (run_spec cs mesh_empty)))))"
proof -
  let ?m = "snd (run_spec cs mesh_empty)"
  obtain ns es where wf: "wf_part mp ns es" "mesh_of ns es = ?m" "mName mp = nm" and lay: "laid_out mp h1"
    by (rule built_part [OF assms(1-3)])
  have q: "quote \<notin> set ''object''" by (simp add: quote_def)
  note passes = built_mesh_passes(1) [OF wf(1) lay _ new_ModelPart_target [OF assms(6)] _ q, of T P]
  obtain out mp' s' ns' es' where
    io: "save_object ModelPart_save ''object'' mp (StreamSerializer P h1 T) =
        (Inr (), (StreamSerializer P h1 T)\<lparr>mBuffer := out, mSavedPointers := set (all_addrs mp)\<rparr>)"
      "load_object (ModelPart_load target) ''object'' (StreamSerializer_data P k0 out T) = (Inr mp', s')"
    and copy: "wf_part mp' ns' es'" "mesh_of ns' es' = ?m" "mName mp' = nm"
    using passes_stream [OF passes, of h1 k0] assms(4,5) wf(2,3) by (auto simp: mesh_setting_def)
  have "\<exists>mp'' h''. run_calls cs' (mp', h') = (fst (run_spec cs' ?m), (mp'', h'')) \<and>
      shows_mesh mp'' (snd (run_spec cs' ?m))" for cs' h'
    using run_refines [OF copy(1), of cs' h'] wf_part_shows copy(2) by metis
  with io copy(3) wf_part_shows [OF copy(1)] copy(2) show ?thesis
    by (intro exI [of _ "(StreamSerializer P h1 T)\<lparr>mBuffer := out, mSavedPointers := set (all_addrs mp)\<rparr>"]
        exI [of _ mp'] exI [of _ s']) (simp add: GetStringRepresentation_def)
qed

theorem mesh_roundtrip_witness:
  "\<exists>rs mp h1 s mp' s'. run_calls sample_calls (sample_part, 2) = (rs, (mp, h1)) \<and>
     save_object ModelPart_save ''object'' mp (StreamSerializer bits_platform h1 SERIALIZER_ASCII) = (Inr (), s) \<and>
     load_object (ModelPart_load sample_part) ''object''
       (StreamSerializer_data bits_platform 2 (GetStringRepresentation s) SERIALIZER_ASCII) = (Inr mp', s') \<and>
     part_elements mp' = [(7, Line2D2, [\<lparr>n_Id = 1, n_X = 0, n_Y = 0, n_Z = 0\<rparr>,
       \<lparr>n_Id = 2, n_X = 0, n_Y = 0, n_Z = 0\<rparr>])] \<and> HasNode mp' 2"
proof -
  obtain rs mp h1 where run: "run_calls sample_calls (sample_part, 2) = (rs, (mp, h1))" by (metis prod_cases3)
  have small: "unat (0 :: addr) + 2 + 4 * length sample_calls < 2 ^ 64" by (simp add: sample_calls_def)
  have good: "string_good SERIALIZER_ASCII ''m''" by (simp add: string_good_def quote_def)
  have print: "coordinates_print bits_platform SERIALIZER_ASCII ns" for ns
    by (simp add: coordinates_print_def bits_platform_exact)
  from mesh_roundtrip [OF sample_new run small good print sample_new] show ?thesis
    unfolding sample_spec using run by (auto simp: shows_mesh_def)
qed

end
