(* ===== verification/Exceptions.thy ===== *)
theory Exceptions
  imports Prelude
begin

text \<open>
  \<open>includes/code_location.hpp\<close>, \<open>sources/code_location.cpp\<close>, \<open>includes/exception.hpp\<close> and
  \<open>sources/exception.cpp\<close>: the position in the source that an error names, the exception with
  its message and call stack, and the \<open>CO_SIM_IO_CATCH\<close> that extends the call stack on the way
  out. The text that \<open>what()\<close> returns is cached in the object; the invariant is that the cache
  is the rendering of the message and the stack.
\<close>

section \<open>Code locations\<close>

record CodeLocation =
  mFileName :: string
  mFunctionName :: string
  mLineNumber :: nat


definition root_marker :: string where
  "root_marker = ''/co_sim_io/''"

definition backslash :: char where
  "backslash = CHR 0x5C"

text \<open>\<open>s.find(c, pos)\<close> for one character.\<close>

definition find_char_from :: "string \<Rightarrow> char \<Rightarrow> nat \<Rightarrow> nat option" where
  "find_char_from s c pos = List.find (\<lambda>i. s ! i = c) [pos..<length s]"

lemma find_char_from_Some:
  assumes "find_char_from s c pos = Some i"
  shows "pos \<le> i \<and> i < length s \<and> s ! i = c \<and> (\<forall>j. pos \<le> j \<and> j < i \<longrightarrow> s ! j \<noteq> c)"
proof -
  obtain k where k: "k < length s - pos" "i = pos + k" "s ! i = c" "\<forall>j<k. s ! (pos + j) \<noteq> c"
    using assms by (auto simp: find_char_from_def find_Some_iff)
  have "s ! j \<noteq> c" if "pos \<le> j" "j < i" for j
    using k(4) that k(2) by (metis le_Suc_ex nat_add_left_cancel_less)
  with k show ?thesis by auto
qed

lemma find_char_from_None:
  "find_char_from s c pos = None \<longleftrightarrow> (\<forall>i. pos \<le> i \<and> i < length s \<longrightarrow> s ! i \<noteq> c)"
  by (auto simp: find_char_from_def find_None_iff)

text \<open>The loop that replaces the backslashes, one at a time, from \<open>start_position\<close> on.\<close>

function replace_backslashes :: "string \<Rightarrow> nat \<Rightarrow> string" where
  "replace_backslashes clean_file_name start_position =
     (case find_char_from clean_file_name backslash start_position of
        None \<Rightarrow> clean_file_name
      | Some p \<Rightarrow> replace_backslashes (clean_file_name[p := CHR ''/'']) (p + 1))"
  by pat_completeness auto
termination
  by (relation "measure (\<lambda>(s, pos). length s - pos)") (auto dest!: find_char_from_Some)

declare replace_backslashes.simps [simp del]

definition GetCleanFileName :: "CodeLocation \<Rightarrow> string" where
  "GetCleanFileName loc =
     (let clean_file_name = replace_backslashes (mFileName loc) 0 in
      case rfind_str clean_file_name root_marker of
        Some co_sim_io_root_position \<Rightarrow> drop (co_sim_io_root_position + 1) clean_file_name
      | None \<Rightarrow> clean_file_name)"

definition GetCleanFunctionName :: "CodeLocation \<Rightarrow> string" where
  "GetCleanFunctionName loc = mFunctionName loc"

text \<open>\<open>operator<<\<close> on a location.\<close>

definition show_location :: "CodeLocation \<Rightarrow> string" where
  "show_location loc = GetCleanFileName loc @ '' : '' @ show_nat (mLineNumber loc) @ '' : '' @
     GetCleanFunctionName loc"

section \<open>Exceptions\<close>

record Exception =
  mWhat :: string
  mMessage :: string
  mCallStack :: "CodeLocation list"

fun show_stack :: "nat \<Rightarrow> CodeLocation list \<Rightarrow> string" where
  "show_stack counter [] = []"
| "show_stack counter (i # is) =
     ''   '' @ show_nat counter @ ''. '' @ show_location i @ [nl] @ show_stack (counter + 1) is"

definition update_what :: "Exception \<Rightarrow> Exception" where
  "update_what e = e\<lparr>mWhat := mMessage e @ [nl] @
     (case mCallStack e of
        [] \<Rightarrow> ''in Unknown Location''
      | loc # locs \<Rightarrow> ''in 1. '' @ show_location loc @ [nl] @ show_stack 2 locs)\<rparr>"

definition Exception_what :: "string \<Rightarrow> Exception" where
  "Exception_what rWhat = update_what \<lparr>mWhat = [], mMessage = rWhat, mCallStack = []\<rparr>"

definition append_message :: "string \<Rightarrow> Exception \<Rightarrow> Exception" where
  "append_message rMessage e = update_what (e\<lparr>mMessage := mMessage e @ rMessage\<rparr>)"

definition add_to_call_stack :: "CodeLocation \<Rightarrow> Exception \<Rightarrow> Exception" where
  "add_to_call_stack rLocation e = update_what (e\<lparr>mCallStack := mCallStack e @ [rLocation]\<rparr>)"

definition Exception_at :: "string \<Rightarrow> CodeLocation \<Rightarrow> Exception" where
  "Exception_at rWhat rLocation = add_to_call_stack rLocation (Exception_what rWhat)"

definition Exception_copy :: "Exception \<Rightarrow> Exception" where
  "Exception_copy Other =
     \<lparr>mWhat = mWhat Other, mMessage = mMessage Other, mCallStack = mCallStack Other\<rparr>"

text \<open>What is streamed into an exception: a value (its text), a manipulator, a location.\<close>

datatype streamed = Text string | Endl | Loc CodeLocation

definition exc_stream :: "Exception \<Rightarrow> streamed \<Rightarrow> Exception" where
  "exc_stream e x = (case x of
       Text s \<Rightarrow> append_message s e
     | Endl \<Rightarrow> append_message [nl] e
     | Loc l \<Rightarrow> add_to_call_stack l e)"




definition what_ok :: "Exception \<Rightarrow> bool" where
  "what_ok e \<longleftrightarrow> update_what e = e"

section \<open>Lemmas\<close>

lemma length_replace_backslashes [simp]: "length (replace_backslashes s pos) = length s"
  by (induction s pos rule: replace_backslashes.induct)
     (subst replace_backslashes.simps, auto split: option.splits)

lemma nth_replace_backslashes:
  "i < length s \<Longrightarrow> replace_backslashes s pos ! i =
     (if pos \<le> i \<and> s ! i = backslash then CHR ''/'' else s ! i)"
proof (induction s pos rule: replace_backslashes.induct)
  case (1 s pos)
  show ?case
  proof (cases "find_char_from s backslash pos")
    case None
    then have "replace_backslashes s pos = s" by (simp add: replace_backslashes.simps)
    then show ?thesis using None 1(2) by (auto simp: find_char_from_None)
  next
    case (Some p)
    have "i < p \<or> i = p \<or> p < i" by arith
    then show ?thesis
      using 1(1) [OF Some] 1(2) find_char_from_Some [OF Some] Some
      by (subst replace_backslashes.simps) (auto simp: nth_list_update backslash_def)
  qed
qed

text \<open>The loop is \<open>std::replace\<close>.\<close>

lemma replace_backslashes_eq: "replace_backslashes s 0 = replace_char backslash (CHR ''/'') s"
  by (rule nth_equalityI) (auto simp: replace_char_def nth_replace_backslashes)

lemma rfind_str_None: "rfind_str s p = None \<longleftrightarrow> (\<forall>i \<le> length s. \<not> starts_with (drop i s) p)"
proof (induction s p rule: rfind_str.induct)
  case (1 p)
  then show ?case by (cases p) auto
next
  case (2 c s p)
  have "(\<forall>i \<le> length (c # s). \<not> starts_with (drop i (c # s)) p) \<longleftrightarrow>
      \<not> starts_with (c # s) p \<and> (\<forall>i \<le> length s. \<not> starts_with (drop i s) p)"
    by (metis Suc_le_mono drop0 drop_Suc_Cons length_Cons less_eq_nat.simps(1) not0_implies_Suc)
  with 2 show ?case by (auto split: option.splits)
qed

lemma rfind_str_Some:
  "rfind_str s p = Some i \<Longrightarrow> i \<le> length s \<and> starts_with (drop i s) p \<and>
     (\<forall>j. i < j \<and> j \<le> length s \<longrightarrow> \<not> starts_with (drop j s) p)"
proof (induction s p arbitrary: i rule: rfind_str.induct)
  case (1 p)
  then show ?case by (auto split: if_splits)
next
  case (2 c s p)
  show ?case
  proof (cases "rfind_str s p")
    case None
    with 2(2) have i: "i = 0" "starts_with (c # s) p" by (auto split: if_splits)
    have "\<not> starts_with (drop j (c # s)) p" if "0 < j" "j \<le> length (c # s)" for j
      using None that by (cases j) (auto simp: rfind_str_None)
    with i show ?thesis by simp
  next
    case (Some k)
    with 2(2) have i: "i = Suc k" by simp
    have "\<not> starts_with (drop j (c # s)) p" if "i < j" "j \<le> length (c # s)" for j
      using 2(1) [OF Some] that i by (cases j) auto
    with i 2(1) [OF Some] show ?thesis by simp
  qed
qed

lemma rfind_str_append:
  "rfind_str s p = Some i \<Longrightarrow> rfind_str (d @ s) p = Some (length d + i)"
  by (induction d) auto

lemma cut_prefix:
  "(case rfind_str (d @ p @ f) p of Some i \<Rightarrow> drop (i + 1) (d @ p @ f) | None \<Rightarrow> d @ p @ f) =
   (case rfind_str (p @ f) p of Some i \<Rightarrow> drop (i + 1) (p @ f) | None \<Rightarrow> p @ f)"
proof (cases "rfind_str (p @ f) p")
  case None
  then have "\<not> starts_with (drop 0 (p @ f)) p" unfolding rfind_str_None by blast
  then show ?thesis by (simp add: starts_with_iff)
next
  case (Some i)
  then show ?thesis by (simp add: rfind_str_append)
qed

lemma GetCleanFileName_eq:
  "GetCleanFileName loc = (let s = replace_char backslash (CHR ''/'') (mFileName loc) in
     case rfind_str s root_marker of Some i \<Rightarrow> drop (i + 1) s | None \<Rightarrow> s)"
  by (simp add: GetCleanFileName_def replace_backslashes_eq Let_def)

lemma clean_has_no_root:
  "rfind_str (GetCleanFileName loc) root_marker = None"
proof -
  define s where "s = replace_char backslash (CHR ''/'') (mFileName loc)"
  show ?thesis
  proof (cases "rfind_str s root_marker")
    case None
    then show ?thesis by (simp add: GetCleanFileName_eq s_def [symmetric])
  next
    case (Some i)
    note last = rfind_str_Some [OF Some]
    have "\<not> starts_with (drop j (drop (i + 1) s)) root_marker" if "j \<le> length s - (i + 1)" for j
    proof (cases "i + 1 \<le> length s")
      case True
      then show ?thesis using last that by (simp add: add.commute)
    next
      case False
      then show ?thesis by (simp add: root_marker_def)
    qed
    then show ?thesis using Some
      by (simp add: GetCleanFileName_eq s_def [symmetric] rfind_str_None)
  qed
qed

lemma clean_no_backslash: "backslash \<notin> set (GetCleanFileName loc)"
proof -
  have "backslash \<notin> set (replace_char backslash (CHR ''/'') s)" for s
    by (auto simp: replace_char_def backslash_def)
  then show ?thesis
    by (auto simp: GetCleanFileName_eq Let_def split: option.splits dest: in_set_dropD)
qed

lemma replace_char_absent: "a \<notin> set s \<Longrightarrow> replace_char a b s = s"
  by (auto simp: replace_char_def intro!: map_idI)

lemma update_what_idem [simp]: "update_what (update_what e) = update_what e"
  by (simp add: update_what_def)

lemma what_ok_update [intro, simp]: "what_ok (update_what e)"
  by (simp add: what_ok_def)

lemmas exc_defs = Exception_what_def append_message_def add_to_call_stack_def Exception_at_def

lemma what_ok_ops [simp]:
  "what_ok (Exception_what w)" "what_ok (append_message m e)" "what_ok (add_to_call_stack l e)"
  "what_ok (Exception_at w l)"
  by (simp_all add: exc_defs)

lemma what_ok_copy: "what_ok e \<Longrightarrow> what_ok (Exception_copy e)"
  by (cases e) (simp add: what_ok_def Exception_copy_def)

lemma what_ok_stream [simp]: "what_ok (exc_stream e x)"
  by (cases x) (simp_all add: exc_stream_def)

lemma mMessage_simps [simp]:
  "mMessage (update_what e) = mMessage e"
  "mMessage (append_message m e) = mMessage e @ m"
  "mMessage (add_to_call_stack l e) = mMessage e"
  "mMessage (Exception_at w l) = w"
  "mMessage (Exception_copy e) = mMessage e"
  by (simp_all add: exc_defs update_what_def Exception_copy_def)

lemma mCallStack_simps [simp]:
  "mCallStack (update_what e) = mCallStack e"
  "mCallStack (append_message m e) = mCallStack e"
  "mCallStack (add_to_call_stack l e) = mCallStack e @ [l]"
  "mCallStack (Exception_at w l) = [l]"
  "mCallStack (Exception_copy e) = mCallStack e"
  by (simp_all add: exc_defs update_what_def Exception_copy_def)



section \<open>Properties\<close>

lemma occurs_starts: "(\<exists>a b. s = a @ p @ b) \<longleftrightarrow> (\<exists>i. i \<le> length s \<and> starts_with (drop i s) p)"
proof
  assume "\<exists>a b. s = a @ p @ b"
  then obtain a b where "s = a @ p @ b" by blast
  then have "length a \<le> length s \<and> starts_with (drop (length a) s) p" by (simp add: starts_with_iff)
  then show "\<exists>i. i \<le> length s \<and> starts_with (drop i s) p" by blast
next
  show "\<exists>a b. s = a @ p @ b" if "\<exists>i. i \<le> length s \<and> starts_with (drop i s) p"
    using that unfolding starts_with_iff by (metis append_take_drop_id)
qed

lemma rfind_str_absent: "rfind_str s p = None \<longleftrightarrow> \<not> (\<exists>a b. s = a @ p @ b)"
  unfolding rfind_str_None occurs_starts by blast

text \<open>
  Property C31. The file name that an error message shows: with every backslash turned into a slash, it is
  the whole path when the root folder is not in it, and otherwise what begins with the name of the root
  folder at its last occurrence - everything below it is kept and the folder does not occur in it again. The
  loop that computes it stops on every input, and a name that is clean stays as it is.
\<close>

theorem clean_file_name_normal:
  "let s = List.map (\<lambda>c. if c = CHR 0x5C then CHR ''/'' else c) (mFileName loc); c = GetCleanFileName loc in
     (if \<exists>a b. s = a @ ''/co_sim_io/'' @ b
      then (\<exists>a b. s = a @ ''/co_sim_io/'' @ b \<and> c = ''co_sim_io/'' @ b) \<and> \<not> (\<exists>a b. c = a @ ''/co_sim_io/'' @ b)
      else c = s) \<and>
     GetCleanFileName (loc\<lparr>mFileName := c\<rparr>) = c"
proof -
  define s where "s = List.map (\<lambda>c. if c = CHR 0x5C then CHR ''/'' else c) (mFileName loc)"
  have s: "replace_char backslash (CHR ''/'') (mFileName loc) = s"
    by (simp add: s_def replace_char_def backslash_def)
  have m: "root_marker = ''/co_sim_io/''" "root_marker = ''/'' @ ''co_sim_io/''" by (simp_all add: root_marker_def)
  have c: "GetCleanFileName loc = (case rfind_str s root_marker of Some i \<Rightarrow> drop (i + 1) s | None \<Rightarrow> s)"
    by (simp add: GetCleanFileName_eq s Let_def)
  have again: "GetCleanFileName (loc\<lparr>mFileName := GetCleanFileName loc\<rparr>) = GetCleanFileName loc"
    using clean_has_no_root [of loc]
    by (subst GetCleanFileName_eq) (simp add: replace_char_absent clean_no_backslash)
  have once: "\<not> (\<exists>a b. GetCleanFileName loc = a @ ''/co_sim_io/'' @ b)"
    using clean_has_no_root [of loc] unfolding rfind_str_absent m(1) .
  show ?thesis
  proof (cases "rfind_str s root_marker")
    case None
    then show ?thesis using again c rfind_str_absent [of s root_marker] unfolding s_def [symmetric] m(1) Let_def by simp
  next
    case (Some i)
    then obtain b where "drop i s = root_marker @ b" using rfind_str_Some starts_with_iff by metis
    then have d: "s = take i s @ ''/co_sim_io/'' @ b" "drop (Suc i) s = ''co_sim_io/'' @ b"
      unfolding m(1) by (metis append_take_drop_id, simp add: drop_Suc flip: tl_drop)
    have "GetCleanFileName loc = ''co_sim_io/'' @ b" using c d(2) Some by simp
    then show ?thesis using again once d(1) unfolding s_def [symmetric] Let_def by auto
  qed
qed



end
