(* ===== verification/Processes.thy ===== *)
theory Processes
  imports Prelude
begin

text \<open>
  What two coupled programs share, and how they run beside each other. The shared state is the file
  system and the byte streams (named pipes, sockets) between the programs. A program is a sequence
  of atomic accesses to it: an access that always happens, or one that waits for a condition (the
  polling loops of the code, which sleep and test again). \<open>alone\<close> runs a program without a partner,
  \<open>steps\<close> interleaves the accesses of two programs in any order.
\<close>

section \<open>The shared state\<close>

type_synonym path = string

text \<open>\<open>streams\<close> holds what was written into a stream and not yet read, \<open>closed\<close> says that one end is
  gone, \<open>listening\<close> which end points accept connections.\<close>

record world =
  files :: "path \<Rightarrow> string option"
  dirs :: "path \<Rightarrow> bool"
  streams :: "path \<Rightarrow> string"
  closed :: "path \<Rightarrow> bool"
  listening :: "path \<Rightarrow> bool"

text \<open>Paths are strings: the parent is what stands before the last slash, \<open>a / b\<close> joins two.\<close>

definition slash :: char where "slash = CHR ''/''"

definition parent_path :: "path \<Rightarrow> path" where
  "parent_path p = (if has_char p slash then butlast (rev (dropWhile (\<lambda>c. c \<noteq> slash) (rev p))) else [])"

definition join_path :: "path \<Rightarrow> path \<Rightarrow> path" where
  "join_path a b = (if a = [] then b else if last a = slash then a @ b else a @ slash # b)"

definition exists :: "world \<Rightarrow> path \<Rightarrow> bool" where
  "exists w p = (files w p \<noteq> None \<or> dirs w p)"

definition writable :: "world \<Rightarrow> path \<Rightarrow> bool" where
  "writable w p = (\<not> dirs w p \<and> (parent_path p = [] \<or> dirs w (parent_path p)))"

definition set_file :: "path \<Rightarrow> string option \<Rightarrow> world \<Rightarrow> world" where
  "set_file p c w = w\<lparr>files := (files w)(p := c)\<rparr>"

text \<open>
  Opening for output (\<open>std::ofstream\<close>) empties the file or creates it, and does nothing that the code
  would see when the directory is not there. Opening for input and output (\<open>std::fstream\<close>) keeps
  what is in the file.
\<close>

definition open_out :: "path \<Rightarrow> world \<Rightarrow> world" where
  "open_out p w = (if writable w p then set_file p (Some []) w else w)"

definition open_inout :: "path \<Rightarrow> world \<Rightarrow> world" where
  "open_inout p w = (if files w p = None then open_out p w else w)"

text \<open>A character at a position of an open file; nothing of the directory changes.\<close>

definition put_at :: "nat \<Rightarrow> char \<Rightarrow> string \<Rightarrow> string" where
  "put_at i c s = (if i < length s then s[i := c] else s @ [c])"

definition write_at :: "path \<Rightarrow> nat \<Rightarrow> char \<Rightarrow> world \<Rightarrow> world" where
  "write_at p i c w = (case files w p of None \<Rightarrow> w | Some s \<Rightarrow> set_file p (Some (put_at i c s)) w)"

definition rename_file :: "path \<Rightarrow> path \<Rightarrow> world \<Rightarrow> world" where
  "rename_file p q w = (case files w p of None \<Rightarrow> w
     | Some s \<Rightarrow> if writable w q then set_file q (Some s) (set_file p None w) else w)"

definition can_rename :: "path \<Rightarrow> path \<Rightarrow> world \<Rightarrow> bool" where
  "can_rename p q w = (files w p \<noteq> None \<and> writable w q)"

definition remove_file :: "path \<Rightarrow> world \<Rightarrow> world" where
  "remove_file p w = set_file p None w"

text \<open>\<open>fs::remove_all\<close> and \<open>fs::create_directory\<close>.\<close>

definition below :: "path \<Rightarrow> path \<Rightarrow> bool" where
  "below d p = (p = d \<or> starts_with p (d @ [slash]))"

definition remove_all :: "path \<Rightarrow> world \<Rightarrow> world" where
  "remove_all d w = w\<lparr>files := (\<lambda>p. if below d p then None else files w p),
     dirs := (\<lambda>p. dirs w p \<and> \<not> below d p)\<rparr>"

definition create_directory :: "path \<Rightarrow> world \<Rightarrow> world" where
  "create_directory d w = (if writable w d then w\<lparr>dirs := (dirs w)(d := True)\<rparr> else w)"

lemma files_set_file [simp]: "files (set_file p c w) q = (if q = p then c else files w q)"
  by (simp add: set_file_def)

lemma dirs_set_file [simp]: "dirs (set_file p c w) = dirs w"
  by (simp add: set_file_def)

lemma streams_set_file [simp]: "streams (set_file p c w) = streams w" "closed (set_file p c w) = closed w"
  "listening (set_file p c w) = listening w"
  by (simp_all add: set_file_def)

lemma writable_set_file [simp]: "writable (set_file p c w) = writable w"
  by (simp add: writable_def fun_eq_iff)

lemma exists_set_file [simp]:
  "exists (set_file p c w) q = (if q = p then c \<noteq> None \<or> dirs w q else exists w q)"
  by (simp add: exists_def)

lemma set_file_again [simp]: "set_file p c (set_file p d w) = set_file p c w"
  by (simp add: set_file_def)

lemma set_file_same: "files w p = c \<Longrightarrow> set_file p c w = w"
  by (cases w) (auto simp: set_file_def)

lemma put_at_end: "put_at (length s) c s = s @ [c]"
  by (simp add: put_at_def)

section \<open>Programs\<close>

datatype 'a io =
    Done 'a
  | Act "world \<Rightarrow> world" "world \<Rightarrow> 'a io"
  | Wait "world \<Rightarrow> bool" "'a io"

text \<open>
  \<open>Act u k\<close> changes the state with \<open>u\<close> and goes on with \<open>k\<close> of the state it found, in one access.
\<close>

primrec bindI :: "'a io \<Rightarrow> ('a \<Rightarrow> 'b io) \<Rightarrow> 'b io" where
  "bindI (Done x) f = f x"
| "bindI (Act u k) f = Act u (\<lambda>w. bindI (k w) f)"
| "bindI (Wait c p) f = Wait c (bindI p f)"

lemma bindI_assoc: "bindI (bindI p f) g = bindI p (\<lambda>x. bindI (f x) g)"
  by (induction p) auto

lemma bindI_Done [simp]: "bindI p Done = p"
  by (induction p) auto

primrec alone :: "'a io \<Rightarrow> world \<Rightarrow> ('a \<times> world) option" where
  "alone (Done x) = (\<lambda>w. Some (x, w))"
| "alone (Act u k) = (\<lambda>w. alone (k w) (u w))"
| "alone (Wait c p) = (\<lambda>w. if c w then alone p w else None)"

lemma alone_bindI:
  "alone (bindI p f) w = (case alone p w of None \<Rightarrow> None | Some (x, w') \<Rightarrow> alone (f x) w')"
  by (induction p arbitrary: w) auto

text \<open>One access of one program: nothing when it is done or waits for what does not hold.\<close>

definition access :: "'a io \<Rightarrow> world \<Rightarrow> ('a io \<times> world) option" where
  "access p w = (case p of Done x \<Rightarrow> None | Act u k \<Rightarrow> Some (k w, u w)
     | Wait c q \<Rightarrow> if c w then Some (q, w) else None)"

lemma access_simps [simp]:
  "access (Done x) w = None"
  "access (Act u k) w = Some (k w, u w)"
  "access (Wait c q) w = (if c w then Some (q, w) else None)"
  by (simp_all add: access_def)

inductive steps :: "'a io \<times> 'b io \<times> world \<Rightarrow> 'a io \<times> 'b io \<times> world \<Rightarrow> bool" where
  steps_left: "access p w = Some (p', w') \<Longrightarrow> steps (p, q, w) (p', q, w')"
| steps_right: "access q w = Some (q', w') \<Longrightarrow> steps (p, q, w) (p, q', w')"

inductive_cases stepsE: "steps (p, q, w) s'"

lemma steps_cases:
  assumes "steps (p, q, w) s'"
  obtains (left) p' w' where "s' = (p', q, w')" "access p w = Some (p', w')"
  | (right) q' w' where "s' = (p, q', w')" "access q w = Some (q', w')"
  using assms by (rule stepsE)

inductive_simps steps_iff: "steps (p, q, w) (p', q', w')"

abbreviation reaches :: "'a io \<times> 'b io \<times> world \<Rightarrow> 'a io \<times> 'b io \<times> world \<Rightarrow> bool" where
  "reaches \<equiv> rtranclp steps"

definition stuck :: "'a io \<times> 'b io \<times> world \<Rightarrow> bool" where
  "stuck s \<longleftrightarrow> (case s of (p, q, w) \<Rightarrow> access p w = None \<and> access q w = None)"

lemma stuck_iff: "stuck s \<longleftrightarrow> (\<forall>t. \<not> steps s t)"
proof -
  obtain p q w where s: "s = (p, q, w)" by (cases s) auto
  show ?thesis
    unfolding s stuck_def
    by (auto elim!: stepsE intro: steps_left steps_right)
       (metis option.exhaust prod.collapse steps_left steps_right)+
qed

section \<open>Programs with exceptions\<close>

text \<open>
  A member function works on the object it belongs to and on the shared state, and may throw.
\<close>

type_synonym ('s, 'a) prog = "'s \<Rightarrow> ((error + 'a) \<times> 's) io"

definition retP :: "'a \<Rightarrow> ('s, 'a) prog" where
  "retP x = (\<lambda>s. Done (Inr x, s))"

definition throwP :: "error \<Rightarrow> ('s, 'a) prog" where
  "throwP e = (\<lambda>s. Done (Inl e, s))"

definition bindP :: "('s, 'a) prog \<Rightarrow> ('a \<Rightarrow> ('s, 'b) prog) \<Rightarrow> ('s, 'b) prog" where
  "bindP m f = (\<lambda>s. bindI (m s) (\<lambda>(r, s'). case r of Inl e \<Rightarrow> Done (Inl e, s') | Inr x \<Rightarrow> f x s'))"

definition thenP :: "('s, 'a) prog \<Rightarrow> ('s, 'b) prog \<Rightarrow> ('s, 'b) prog" where
  "thenP m n = bindP m (\<lambda>_. n)"

definition whenP :: "bool \<Rightarrow> ('s, unit) prog \<Rightarrow> ('s, unit) prog" where
  "whenP b m = (if b then m else retP ())"

definition checkP :: "bool \<Rightarrow> error \<Rightarrow> ('s, unit) prog" where
  "checkP bad e = whenP bad (throwP e)"

text \<open>A computation on the object alone, a value, a read of the object.\<close>

definition localP :: "('s, 'a) cpp \<Rightarrow> ('s, 'a) prog" where
  "localP m = (\<lambda>s. Done (m s))"

definition liftP :: "error + 'a \<Rightarrow> ('s, 'a) prog" where
  "liftP r = (\<lambda>s. Done (r, s))"

definition getP :: "('s \<Rightarrow> 'a) \<Rightarrow> ('s, 'a) prog" where
  "getP f = (\<lambda>s. Done (Inr (f s), s))"

definition modP :: "('s \<Rightarrow> 's) \<Rightarrow> ('s, unit) prog" where
  "modP f = (\<lambda>s. Done (Inr (), f s))"

text \<open>One access to the shared state; waiting; writing a text character by character.\<close>

definition actP :: "(world \<Rightarrow> world) \<Rightarrow> (world \<Rightarrow> error + 'a) \<Rightarrow> ('s, 'a) prog" where
  "actP u r = (\<lambda>s. Act u (\<lambda>w. Done (r w, s)))"

definition waitP :: "(world \<Rightarrow> bool) \<Rightarrow> ('s, unit) prog" where
  "waitP c = (\<lambda>s. Wait c (Done (Inr (), s)))"

fun write_from :: "path \<Rightarrow> nat \<Rightarrow> string \<Rightarrow> ('s, unit) prog" where
  "write_from p i [] = retP ()"
| "write_from p i (c # cs) = thenP (actP (write_at p i c) (\<lambda>_. Inr ())) (write_from p (Suc i) cs)"

lemmas prog_defs = retP_def throwP_def bindP_def thenP_def whenP_def checkP_def localP_def liftP_def
  getP_def modP_def actP_def waitP_def

lemma bindP_assoc: "bindP (bindP m f) g = bindP m (\<lambda>x. bindP (f x) g)"
  by (auto simp: fun_eq_iff bindP_def bindI_assoc intro!: arg_cong2 [where f = bindI] split: sum.split prod.split)

text \<open>What a program does to a state when nothing else runs.\<close>

definition runs :: "('s, 'a) prog \<Rightarrow> 's \<Rightarrow> world \<Rightarrow> ((error + 'a) \<times> 's \<times> world) option" where
  "runs m s w = (case alone (m s) w of None \<Rightarrow> None | Some ((r, s'), w') \<Rightarrow> Some (r, s', w'))"

lemma runs_bindP:
  "runs (bindP m f) s w = (case runs m s w of None \<Rightarrow> None
     | Some (r, s', w') \<Rightarrow> (case r of Inl e \<Rightarrow> Some (Inl e, s', w') | Inr x \<Rightarrow> runs (f x) s' w'))"
  by (auto simp: runs_def bindP_def alone_bindI split: option.splits prod.splits sum.splits)

lemma runs_simps [simp]:
  "runs (retP x) s w = Some (Inr x, s, w)"
  "runs (throwP e) s w = Some (Inl e, s, w)"
  "runs (liftP r) s w = Some (r, s, w)"
  "runs (getP f) s w = Some (Inr (f s), s, w)"
  "runs (modP g) s w = Some (Inr (), g s, w)"
  "runs (actP u h) s w = Some (h w, s, u w)"
  "runs (waitP c) s w = (if c w then Some (Inr (), s, w) else None)"
  by (simp_all add: runs_def prog_defs)

lemma runs_localP [simp]: "runs (localP m) s w = (case m s of (r, s') \<Rightarrow> Some (r, s', w))"
  by (simp add: runs_def localP_def split: prod.split)

end
