(* ===== verification/Communication.thy ===== *)
theory Communication
  imports Processes InfoSerialization DataContainer ModelPartSerialization
begin

text \<open>
  \<open>includes/communication/communication.hpp\<close>, \<open>sources/communication/communication.cpp\<close>,
  \<open>sources/file_serializer.cpp\<close>: the base class of all communications. It derives the names of the
  files that the partners exchange, establishes and ends a connection, checks that the partners are
  compatible, and frames every transfer with its checks. The virtual functions are the record
  \<open>methods\<close>, which the derived classes fill.

  Output to the console is left out. Durations are what the clock of the \<open>machine\<close> says. The functions
  of the data communicator that synchronize the ranks of one partner do nothing in its serial
  version and are left out.
\<close>

section \<open>State\<close>

record machine =
  plat :: platform
  elapsed :: "nat \<Rightarrow> dbl"
  plus_dbl :: "dbl \<Rightarrow> dbl \<Rightarrow> dbl"

text \<open>\<open>c_heap\<close> and \<open>c_clock\<close> are not members: the next address of \<open>new\<close>, the number of clock readings.\<close>

record communication =
  c_rank :: nat
  c_size :: nat
  mConnectionName :: string
  mMyName :: string
  mConnectTo :: string
  mPartnerInfo :: info
  mCommFolder :: path
  mCommInFolder :: bool
  mAlwaysUseSerializer :: bool
  mSerializerTraceType :: TraceType
  mWorkingDirectory :: path
  mEchoLevel :: i32
  mIsPrimaryConnection :: bool
  mPrimaryWasExplicitlySpecified :: bool
  mPrintTiming :: bool
  mIsConnected :: bool
  c_machine :: machine
  c_heap :: addr
  c_clock :: nat

definition co_error :: "string \<Rightarrow> error" where
  "co_error s = CoSimError (''Error: '' @ s)"

definition show_bool :: "bool \<Rightarrow> string" where
  "show_bool b = (if b then ''true'' else ''false'')"

text \<open>Creating an \<open>Info\<close> and setting entries allocates them.\<close>

fun add_entries :: "(string \<times> info_data) list \<Rightarrow> addr \<Rightarrow> info \<Rightarrow> info" where
  "add_entries [] h m = m"
| "add_entries ((k, d) # kvs) h m = add_entries kvs (h + 1) (Info_Set h k d m)"

definition set_entries :: "(string \<times> info_data) list \<Rightarrow> info \<Rightarrow> ('x communication_scheme, info) cpp" where
  "set_entries kvs m = (\<lambda>c. (Inr (add_entries kvs (c_heap c) m),
     c\<lparr>c_heap := c_heap c + word_of_nat (length kvs)\<rparr>))"

definition new_info :: "(string \<times> info_data) list \<Rightarrow> ('x communication_scheme, info) cpp" where
  "new_info kvs = set_entries kvs Info_new"

definition ElapsedSeconds :: "('x communication_scheme, dbl) cpp" where
  "ElapsedSeconds = (\<lambda>c. (Inr (elapsed (c_machine c) (c_clock c)), c\<lparr>c_clock := c_clock c + 1\<rparr>))"

section \<open>Construction\<close>

definition GetMajorVersion :: i32 where "GetMajorVersion = 4"
definition GetMinorVersion :: i32 where "GetMinorVersion = 3"
definition GetPatchVersion :: string where "GetPatchVersion = ''1''"
definition GetOsName :: string where "GetOsName = ''Linux''"

definition comm_folder_prefix :: string where
  "comm_folder_prefix = ''.CoSimIOComm_''"

definition primary_of :: "info \<Rightarrow> string \<Rightarrow> string \<Rightarrow> error + bool \<times> bool" where
  "primary_of I_Settings my_name connect_to =
     (if Info_Has I_Settings ''is_primary_connection''
      then bindR (get_bool I_Settings ''is_primary_connection'') (\<lambda>b. Inr (b, True))
      else Inr (my_name < connect_to, False))"

definition trace_type_of :: "info \<Rightarrow> error + TraceType" where
  "trace_type_of I_Settings =
     (if Info_Has I_Settings ''serializer_trace_type''
      then bindR (get_string I_Settings ''serializer_trace_type'') StringToTraceType
      else Inr SERIALIZER_NO_TRACE)"

text \<open>\<open>path_exists\<close> is what the file system says when the object is created.\<close>

definition new_Communication :: "(path \<Rightarrow> bool) \<Rightarrow> machine \<Rightarrow> addr \<Rightarrow> nat \<Rightarrow> nat \<Rightarrow> info \<Rightarrow>
    error + communication" where
  "new_Communication path_exists M h rank ranks I_Settings =
     bindR (get_string I_Settings ''my_name'') (\<lambda>my_name.
     bindR (get_string I_Settings ''connect_to'') (\<lambda>connect_to.
     bindR (get_bool_default I_Settings ''always_use_serializer'' False) (\<lambda>always.
     bindR (get_string_default I_Settings ''working_directory'' ''.'') (\<lambda>wd.
     bindR (get_int_default I_Settings ''echo_level'' 0) (\<lambda>echo.
     bindR (get_bool_default I_Settings ''print_timing'' False) (\<lambda>timing.
     bindR (primary_of I_Settings my_name connect_to) (\<lambda>(primary, explicit).
     bindR (if path_exists wd then Inr ()
            else Inl (co_error (''The working directory '' @ dq wd @ '' does not exist!''))) (\<lambda>_.
     bindR (trace_type_of I_Settings) (\<lambda>trace.
     bindR (get_bool_default I_Settings ''use_folder_for_communication'' True) (\<lambda>in_folder.
       Inr \<lparr>c_rank = rank, c_size = ranks,
            mConnectionName = CreateConnectionName my_name connect_to,
            mMyName = my_name, mConnectTo = connect_to, mPartnerInfo = Info_new,
            mCommFolder = (if in_folder
              then join_path wd (comm_folder_prefix @ CreateConnectionName my_name connect_to) else wd),
            mCommInFolder = in_folder, mAlwaysUseSerializer = always,
            mSerializerTraceType = trace, mWorkingDirectory = wd, mEchoLevel = echo,
            mIsPrimaryConnection = primary, mPrimaryWasExplicitlySpecified = explicit,
            mPrintTiming = timing, mIsConnected = False,
            c_machine = M, c_heap = h, c_clock = 0\<rparr>))))))))))"

section \<open>File names\<close>

definition GetTmpFileName :: "'x communication_scheme \<Rightarrow> path \<Rightarrow> bool \<Rightarrow> error + path" where
  "GetTmpFileName c rPath UseAuxFileForFileAvailability =
     (if \<not> UseAuxFileForFileAvailability then
        (if mCommInFolder c then
           (let n = length (mCommFolder c) + 1 in
            if n \<le> length rPath then Inr (take n rPath @ ''.'' @ drop n rPath)
            else Inl (co_error ''out_of_range''))
         else Inr (''.'' @ rPath))
      else Inr rPath)"

definition GetFileName :: "'x communication_scheme \<Rightarrow> path \<Rightarrow> string \<Rightarrow> path" where
  "GetFileName c rPath rExtension =
     (let local_copy = rPath @ ''.'' @ rExtension in
      if mCommInFolder c then join_path (mCommFolder c) local_copy else local_copy)"

definition GetFileName_rank :: "'x communication_scheme \<Rightarrow> path \<Rightarrow> int \<Rightarrow> string \<Rightarrow> path" where
  "GetFileName_rank c rPath Rank rExtension =
     GetFileName c (rPath @ ''_s'' @ show_nat (c_rank c) @ ''_d'' @ show_int Rank) rExtension"

definition avail :: "path \<Rightarrow> path" where
  "avail rPath = rPath @ ''.avail''"

section \<open>Files\<close>

text \<open>
  \<open>fs::permissions\<close> throws for a path that is not there. The permissions themselves are not part of
  the model, and neither is the text that the system gives for an error code. Every function of the
  communications has its body between \<open>CO_SIM_IO_TRY\<close> and \<open>CO_SIM_IO_CATCH\<close>, which turns an exception of the
  standard library into an error of the library with the text of that exception; the name of the
  exception stands for the text.
\<close>

definition AddFilePermissions :: "path \<Rightarrow> ('s, unit) prog" where
  "AddFilePermissions rPath =
     actP (\<lambda>w. w) (\<lambda>w. if exists w rPath then Inr () else Inl (co_error ''filesystem_error''))"

definition WaitUntilPathExists :: "path \<Rightarrow> ('s, unit) prog" where
  "WaitUntilPathExists rPath = waitP (\<lambda>w. exists w rPath)"

fun remove_attempts :: "nat \<Rightarrow> path \<Rightarrow> ('s, unit) prog" where
  "remove_attempts 0 rPath = throwP (co_error (dq rPath @ '' could not be deleted!''))"
| "remove_attempts (Suc i) rPath =
     bindP (actP (remove_file rPath) (\<lambda>w. Inr (files w rPath \<noteq> None)))
       (\<lambda>removed. if removed then retP () else remove_attempts i rPath)"

definition RemovePath :: "path \<Rightarrow> ('s, unit) prog" where
  "RemovePath rPath = remove_attempts 5 rPath"

definition WaitForPath :: "path \<Rightarrow> bool \<Rightarrow> ('s, unit) prog" where
  "WaitForPath rPath UseAuxFileForFileAvailability =
     (if \<not> UseAuxFileForFileAvailability then WaitUntilPathExists rPath
      else thenP (WaitUntilPathExists (avail rPath)) (RemovePath (avail rPath)))"

definition WaitUntilFileIsRemoved :: "path \<Rightarrow> ('s, unit) prog" where
  "WaitUntilFileIsRemoved rPath =
     bindP (actP (\<lambda>w. w) (\<lambda>w. Inr (exists w rPath)))
       (\<lambda>there. whenP there (waitP (\<lambda>w. \<not> exists w rPath)))"

definition MakeFileVisible :: "path \<Rightarrow> bool \<Rightarrow> ('x communication_scheme, unit) prog" where
  "MakeFileVisible rPath UseAuxFileForFileAvailability =
     (if \<not> UseAuxFileForFileAvailability then
        bindP (getP (\<lambda>c. GetTmpFileName c rPath False)) (\<lambda>r. bindP (liftP r) (\<lambda>tmp_file_name.
        thenP (AddFilePermissions tmp_file_name)
        (bindP (actP (rename_file tmp_file_name rPath) (\<lambda>w. Inr (can_rename tmp_file_name rPath w)))
          (\<lambda>ok. checkP (\<not> ok) (co_error (dq rPath @ '' could not be made visible!''))))))
      else
        thenP (AddFilePermissions rPath) (actP (open_out (avail rPath)) (\<lambda>_. Inr ())))"

text \<open>
  \<open>std::ofstream\<close>: opened, something written, closed. Whether the file could be opened is seen with
  \<open>is_open\<close>, where the code looks.
\<close>

definition create_file :: "path \<Rightarrow> ('s, unit) prog" where
  "create_file p = actP (open_out p) (\<lambda>_. Inr ())"

text \<open>
  \<open>FileSerializer\<close> opens the file for reading and writing and creates it when that fails. It does not
  truncate: what is written goes over the start of what is there.
\<close>

definition FileSerializer :: "path \<Rightarrow> ('s, string) prog" where
  "FileSerializer rFilename =
     actP (open_inout rFilename) (\<lambda>w. case files w rFilename of
       Some content \<Rightarrow> Inr content
     | None \<Rightarrow> if writable w rFilename then Inr []
               else Inl (co_error (''Error opening input file: '' @ rFilename)))"

definition file_ser :: "'x communication_scheme \<Rightarrow> string \<Rightarrow> 'o ser" where
  "file_ser c content = (StreamSerializer (plat (c_machine c)) (c_heap c) (mSerializerTraceType c))
     \<lparr>mBuffer := content\<rparr>"

definition save_to_file :: "path \<Rightarrow> ('o ser, unit) cpp \<Rightarrow> ('x communication_scheme, unit) prog" where
  "save_to_file rPath save =
     thenP (FileSerializer rPath)
     (bindP (getP (\<lambda>c. save (file_ser c []))) (\<lambda>(r, s).
       thenP (write_from rPath 0 (mBuffer s)) (liftP r)))"

definition load_from_file :: "path \<Rightarrow> ('o ser, 'a) cpp \<Rightarrow> ('x communication_scheme, 'a) prog" where
  "load_from_file rPath load =
     bindP (FileSerializer rPath) (\<lambda>content.
     bindP (getP (\<lambda>c. load (file_ser c content))) (\<lambda>(r, s).
       thenP (modP (\<lambda>c. c\<lparr>c_heap := mHeap s\<rparr>)) (liftP r)))"

section \<open>Synchronization\<close>

definition primary_sync :: "'x communication_scheme \<Rightarrow> string \<Rightarrow> path" where
  "primary_sync c rTag = GetFileName c (''CoSimIO_primary_'' @ mConnectionName c @ ''_'' @ rTag) ''sync''"

definition secondary_sync :: "'x communication_scheme \<Rightarrow> string \<Rightarrow> path" where
  "secondary_sync c rTag = GetFileName c (''CoSimIO_secondary_'' @ mConnectionName c @ ''_'' @ rTag) ''sync''"

definition sync_error :: "string \<Rightarrow> path \<Rightarrow> error" where
  "sync_error who rPath = co_error (who @ '' sync file '' @ dq rPath @ '' could not be created!'')"

definition create_sync_file :: "path \<Rightarrow> string \<Rightarrow> ('x communication_scheme, unit) prog" where
  "create_sync_file rPath who =
     thenP (create_file rPath)
     (bindP (actP (\<lambda>w. w) (\<lambda>w. Inr (exists w rPath))) (\<lambda>there.
     thenP (checkP (\<not> there) (sync_error who rPath))
       (MakeFileVisible rPath True)))"

definition SynchronizeAll :: "string \<Rightarrow> ('x communication_scheme, unit) prog" where
  "SynchronizeAll rTag = (\<lambda>c.
     let file_name_primary = primary_sync c rTag; file_name_secondary = secondary_sync c rTag in
     whenP (c_rank c = 0)
       (if mIsPrimaryConnection c then
          thenP (create_sync_file file_name_primary ''Primary'')
          (thenP (WaitForPath file_name_secondary True)
          (thenP (RemovePath file_name_secondary)
            (WaitUntilFileIsRemoved file_name_primary)))
        else
          thenP (WaitForPath file_name_primary True)
          (thenP (RemovePath file_name_primary)
          (thenP (create_sync_file file_name_secondary ''Secondary'')
            (WaitUntilFileIsRemoved file_name_secondary)))) c)"

end
