(* ===== verification/Connecting.thy ===== *)
theory Connecting
  imports Communication
begin

text \<open>
  The rest of \<open>sources/communication/communication.cpp\<close> and \<open>includes/communication/communication.hpp\<close>:
  the virtual functions, the handshake with its checks, \<open>Connect\<close> and \<open>Disconnect\<close>, and the transfer of
  information, data and meshes through the stream serializer.
\<close>

section \<open>Virtual functions\<close>

text \<open>
  Field data comes in a container of the caller, of type \<open>'c\<close>, whose operations are those of
  \<open>DataContainer\<close>. An exception leaves the container of the caller in a state that is not described.
\<close>

record 'c container =
  k_elems :: "'c \<Rightarrow> dbl list"
  k_resize :: "nat \<Rightarrow> ('c, unit) cpp"
  k_put :: "nat \<Rightarrow> dbl \<Rightarrow> ('c, unit) cpp"

record ('s, 'c) methods =
  GetCommunicationName :: string
  GetCommunicationSettings :: "('s, info) cpp"
  DerivedHandShake :: "('s, unit) prog"
  PrepareConnection :: "info \<Rightarrow> ('s, unit) prog"
  ConnectDetail :: "info \<Rightarrow> ('s, info) prog"
  DisconnectDetail :: "info \<Rightarrow> ('s, info) prog"
  SendString :: "info \<Rightarrow> string \<Rightarrow> ('s, dbl) prog"
  ReceiveString :: "info \<Rightarrow> ('s, dbl \<times> string) prog"
  SendDataContainer :: "info \<Rightarrow> dbl list \<Rightarrow> ('s, dbl) prog"
  ReceiveDataContainer :: "info \<Rightarrow> 'c \<Rightarrow> ('s, dbl \<times> 'c) prog"

section \<open>Handshake\<close>

definition GetMyInfo :: "('x communication_scheme, 'c) methods \<Rightarrow> ('x communication_scheme, info) cpp" where
  "GetMyInfo V =
     bindE (getE (\<lambda>c.
       [(''version_major'', DInt GetMajorVersion), (''version_minor'', DInt GetMinorVersion),
        (''version_patch'', DString GetPatchVersion),
        (''primary_was_explicitly_specified'', DBool (mPrimaryWasExplicitlySpecified c)),
        (''communication_format'', DString (GetCommunicationName V)),
        (''operating_system'', DString GetOsName),
        (''num_processes'', DInt (word_of_nat (c_size c))),
        (''is_big_endian'', DBool (IsBigEndian (machine_big_endian (plat (c_machine c))))),
        (''always_use_serializer'', DBool (mAlwaysUseSerializer c)),
        (''serializer_trace_type'', DString (TraceTypeToString (mSerializerTraceType c)))])) (\<lambda>kvs.
     bindE (new_info kvs) (\<lambda>my_info.
     bindE (GetCommunicationSettings V) (\<lambda>st.
       set_entries [(''communication_settings'', DInfo st)] my_info)))"

definition file_name_p2s :: "'x communication_scheme \<Rightarrow> path" where
  "file_name_p2s c = GetFileName c
     (''CoSimIO_'' @ mConnectionName c @ ''_compatibility_check_primary_to_secondary'') ''dat''"

definition file_name_s2p :: "'x communication_scheme \<Rightarrow> path" where
  "file_name_s2p c = GetFileName c
     (''CoSimIO_'' @ mConnectionName c @ ''_compatibility_check_secondary_to_primary'') ''dat''"

definition exchange_data_for_handshake :: "('x communication_scheme, 'c) methods \<Rightarrow> path \<Rightarrow> path \<Rightarrow>
    ('x communication_scheme, unit) prog" where
  "exchange_data_for_handshake V rMyFileName rOtherFileName =
     thenP (WaitUntilFileIsRemoved rMyFileName)
     (bindP (localP (GetMyInfo V)) (\<lambda>my_info.
     thenP (save_to_file rMyFileName (save_object Info_save ''info'' my_info))
     (thenP (MakeFileVisible rMyFileName True)
     (thenP (WaitForPath rOtherFileName True)
     (bindP (getP mPartnerInfo) (\<lambda>old.
     bindP (load_from_file rOtherFileName (load_object (Info_load old) ''info'')) (\<lambda>partner.
     thenP (modP (\<lambda>c. c\<lparr>mPartnerInfo := partner\<rparr>))
       (RemovePath rOtherFileName))))))))"

text \<open>The checks for compatibility: a mismatch in one entry that both sides report.\<close>

definition mismatch :: "bool \<Rightarrow> string \<Rightarrow> error + unit" where
  "mismatch bad msg = (if bad then Inl (co_error msg) else Inr ())"

definition check_version :: "info \<Rightarrow> error + unit" where
  "check_version partner =
     bindR (get_int partner ''version_major'') (\<lambda>v.
     bindR (mismatch (GetMajorVersion \<noteq> v) (''Major version mismatch! My version: '' @
       show_int (sint GetMajorVersion) @ ''; partner version: '' @ show_int (sint v))) (\<lambda>_.
     bindR (get_int partner ''version_minor'') (\<lambda>v.
     mismatch (GetMinorVersion \<noteq> v) (''Minor version mismatch! My version: '' @
       show_int (sint GetMinorVersion) @ ''; partner version: '' @ show_int (sint v)))))"

definition check_primary :: "bool \<Rightarrow> info \<Rightarrow> error + unit" where
  "check_primary explicit partner =
     bindR (get_bool partner ''primary_was_explicitly_specified'') (\<lambda>b.
     mismatch (explicit \<noteq> b) (''Mismatch in how the primary connection was specified!'' @ [nl] @
       ''Primary connection was explicitly specified for me: '' @ show_bool explicit @ [nl] @
       ''Primary connection was explicitly specified for partner: '' @ show_bool b))"

definition check_format :: "string \<Rightarrow> info \<Rightarrow> error + unit" where
  "check_format name partner =
     bindR (get_string partner ''communication_format'') (\<lambda>f.
     mismatch (name \<noteq> f) (''Mismatch in communication_format!'' @ [nl] @
       ''My communication_format: '' @ name @ [nl] @ ''Partner communication_format: '' @ f))"

definition check_processes :: "nat \<Rightarrow> info \<Rightarrow> error + unit" where
  "check_processes n partner =
     bindR (get_int partner ''num_processes'') (\<lambda>v.
     mismatch (word_of_nat n \<noteq> v) (''Mismatch in num_processes!'' @ [nl] @
       ''My num_processes: '' @ show_nat n @ [nl] @
       ''Partner num_processes: '' @ show_int (sint v)))"

definition check_always :: "bool \<Rightarrow> info \<Rightarrow> error + unit" where
  "check_always always partner =
     bindR (get_bool partner ''always_use_serializer'') (\<lambda>b.
     mismatch (always \<noteq> b) (''Mismatch in always_use_serializer!'' @ [nl] @
       ''My always_use_serializer: '' @ show_bool always @ [nl] @
       ''Partner always_use_serializer: '' @ show_bool b))"

definition check_trace :: "TraceType \<Rightarrow> info \<Rightarrow> error + unit" where
  "check_trace t partner =
     bindR (get_string partner ''serializer_trace_type'') (\<lambda>f.
     mismatch (TraceTypeToString t \<noteq> f) (''Mismatch in serializer_trace_type!'' @ [nl] @
       ''My serializer_trace_type: '' @ TraceTypeToString t @ [nl] @
       ''Partner serializer_trace_type: '' @ f))"

definition check_partner :: "('x communication_scheme, 'c) methods \<Rightarrow> 'x communication_scheme \<Rightarrow>
    error + unit" where
  "check_partner V c =
     (let partner = mPartnerInfo c in
      bindR (check_version partner) (\<lambda>_.
      bindR (check_primary (mPrimaryWasExplicitlySpecified c) partner) (\<lambda>_.
      bindR (check_format (GetCommunicationName V) partner) (\<lambda>_.
      bindR (check_processes (c_size c) partner) (\<lambda>_.
      bindR (check_always (mAlwaysUseSerializer c) partner) (\<lambda>_.
      bindR (check_trace (mSerializerTraceType c) partner) (\<lambda>_.
      bindR (get_bool partner ''is_big_endian'') (\<lambda>_. Inr ()))))))))"

definition HandShake :: "('x communication_scheme, 'c) methods \<Rightarrow> info \<Rightarrow>
    ('x communication_scheme, unit) prog" where
  "HandShake V I_Info = (\<lambda>c. whenP (c_rank c = 0)
     (thenP (if mIsPrimaryConnection c
             then exchange_data_for_handshake V (file_name_p2s c) (file_name_s2p c)
             else exchange_data_for_handshake V (file_name_s2p c) (file_name_p2s c))
     (thenP (bindP (getP (check_partner V)) liftP)
       (DerivedHandShake V))) c)"

section \<open>Connecting and disconnecting\<close>

definition BaseConnectDetail :: "info \<Rightarrow> ('x communication_scheme, unit) prog" where
  "BaseConnectDetail I_Info = (\<lambda>c.
     let folder = mCommFolder c in
     thenP (whenP (mCommInFolder c \<and> mIsPrimaryConnection c \<and> c_rank c = 0)
       (thenP (actP (remove_all folder) (\<lambda>_. Inr ()))
       (bindP (actP (\<lambda>w. w) (\<lambda>w. Inr (exists w folder))) (\<lambda>there.
         whenP (\<not> there)
           (thenP (actP (create_directory folder)
                    (\<lambda>w. if writable w folder then Inr () else Inl (co_error ''filesystem_error'')))
             (AddFilePermissions folder))))))
     (SynchronizeAll ''conn'') c)"

definition BaseDisconnectDetail :: "info \<Rightarrow> ('x communication_scheme, unit) prog" where
  "BaseDisconnectDetail I_Info = (\<lambda>c.
     thenP (SynchronizeAll ''disconn'')
       (whenP (mCommInFolder c \<and> mIsPrimaryConnection c \<and> c_rank c = 0)
         (actP (remove_all (mCommFolder c)) (\<lambda>_. Inr ()))) c)"

definition Communication_Connect :: "('x communication_scheme, 'c) methods \<Rightarrow> info \<Rightarrow>
    ('x communication_scheme, info) prog" where
  "Communication_Connect V I_Info =
     bindP (getP mIsConnected) (\<lambda>connected.
     thenP (checkP connected (co_error ''A connection was already established!''))
     (thenP (BaseConnectDetail I_Info)
     (thenP (PrepareConnection V I_Info)
     (thenP (HandShake V I_Info)
     (bindP (ConnectDetail V I_Info) (\<lambda>connect_detail_info.
     thenP (modP (\<lambda>c. c\<lparr>mIsConnected := True\<rparr>))
     (bindP (getP mWorkingDirectory) (\<lambda>wd.
       localP (set_entries [(''is_connected'', DBool True),
         (''connection_status'', DInt (status_int Connected)),
         (''working_directory'', DString wd)] connect_detail_info)))))))))"

text \<open>
  The branch for a connection that is still there after it has been given up is dead code:
  \<open>mIsConnected\<close> is false then.
\<close>

definition Communication_Disconnect :: "('x communication_scheme, 'c) methods \<Rightarrow> info \<Rightarrow>
    ('x communication_scheme, info) prog" where
  "Communication_Disconnect V I_Info =
     bindP (getP mIsConnected) (\<lambda>connected.
       if connected then
         bindP (DisconnectDetail V I_Info) (\<lambda>detail.
         thenP (modP (\<lambda>c. c\<lparr>mIsConnected := False\<rparr>))
         (bindP (localP (set_entries [(''is_connected'', DBool False)] detail)) (\<lambda>detail.
         thenP (BaseDisconnectDetail I_Info)
         (bindP (getP mIsConnected) (\<lambda>still.
           localP (set_entries [(''connection_status'',
             DInt (status_int (if still then DisconnectionError else Disconnected)))] detail))))))
       else
         localP (new_info [(''is_connected'', DBool False),
           (''connection_status'', DInt (status_int DisconnectionError))]))"

section \<open>Transfers\<close>

definition CheckConnection :: "info \<Rightarrow> 'x communication_scheme \<Rightarrow> error + unit" where
  "CheckConnection I_Info c =
     (if \<not> mIsConnected c then Inl (co_error ''No active connection exists!'')
      else if \<not> Info_Has I_Info ''identifier'' then Inl (co_error (dq ''identifier'' @ '' must be specified!''))
      else bindR (get_string I_Info ''identifier'') (\<lambda>i. CheckEntry i ''identifier''))"

definition PostChecks :: "info \<Rightarrow> error + unit" where
  "PostChecks I_Info =
     (if \<not> Info_Has I_Info ''elapsed_time'' then Inl (co_error (dq ''elapsed_time'' @ '' must be specified!''))
      else if \<not> Info_Has I_Info ''memory_usage_ipc''
      then Inl (co_error (dq ''memory_usage_ipc'' @ '' must be specified!''))
      else Inr ())"

definition PrintElapsedTime :: "info \<Rightarrow> info \<Rightarrow> error + unit" where
  "PrintElapsedTime I_Info O_Info =
     bindR (get_string I_Info ''identifier'') (\<lambda>_. bindR (get_double O_Info ''elapsed_time'') (\<lambda>_. Inr ()))"

text \<open>
  The frame that \<open>ExportInfo\<close>, \<open>ImportInfo\<close>, \<open>ExportData\<close>, \<open>ImportData\<close>, \<open>ExportMesh\<close> and \<open>ImportMesh\<close>
  put around the virtual function; what an import has read comes with its \<open>Info\<close>.
\<close>

definition with_checks :: "info \<Rightarrow> ('x communication_scheme, info \<times> 'r) prog \<Rightarrow>
    ('x communication_scheme, info \<times> 'r) prog" where
  "with_checks i_info impl =
     thenP (bindP (getP (CheckConnection i_info)) liftP)
     (bindP impl (\<lambda>(o_info, r).
     thenP (liftP (PostChecks o_info))
     (thenP (liftP (PrintElapsedTime i_info o_info))
     (retP (o_info, r)))))"

definition no_result :: "('s, info) prog \<Rightarrow> ('s, info \<times> unit) prog" where
  "no_result m = bindP m (\<lambda>i. retP (i, ()))"

definition stream_ser :: "'x communication_scheme \<Rightarrow> 'o ser" where
  "stream_ser c = StreamSerializer (plat (c_machine c)) (c_heap c) (mSerializerTraceType c)"

definition SendObjectWithStreamSerializer :: "('x communication_scheme, 'c) methods \<Rightarrow> info \<Rightarrow>
    ('o ser, unit) cpp \<Rightarrow> ('x communication_scheme, info) prog" where
  "SendObjectWithStreamSerializer V I_Info save =
     bindP (getP (\<lambda>c. save (stream_ser c))) (\<lambda>(r, serializer).
     thenP (liftP r)
     (bindP (localP ElapsedSeconds) (\<lambda>elapsed_time_save.
     bindP (SendString V I_Info (GetStringRepresentation serializer)) (\<lambda>elapsed_time_write.
     bindP (getP (\<lambda>c. plus_dbl (c_machine c))) (\<lambda>plus.
       localP (new_info
         [(''elapsed_time'', DDouble (plus elapsed_time_write elapsed_time_save)),
          (''elapsed_time_ipc'', DDouble elapsed_time_write),
          (''elapsed_time_serializer'', DDouble elapsed_time_save),
          (''memory_usage_ipc'', DSize (word_of_nat (length (GetStringRepresentation serializer))))]))))))"

definition ReceiveObjectWithStreamSerializer :: "('x communication_scheme, 'c) methods \<Rightarrow> info \<Rightarrow>
    ('o ser, 'a) cpp \<Rightarrow> ('x communication_scheme, info \<times> 'a) prog" where
  "ReceiveObjectWithStreamSerializer V I_Info load =
     bindP (ReceiveString V I_Info) (\<lambda>(elapsed_time_read, buffer).
     bindP (getP (\<lambda>c. load (StreamSerializer_data (plat (c_machine c)) (c_heap c) buffer
                        (mSerializerTraceType c)))) (\<lambda>(r, s).
     thenP (modP (\<lambda>c. c\<lparr>c_heap := mHeap s\<rparr>))
     (bindP (liftP r) (\<lambda>obj.
     bindP (localP ElapsedSeconds) (\<lambda>elapsed_time_load.
     bindP (getP (\<lambda>c. plus_dbl (c_machine c))) (\<lambda>plus.
     bindP (localP (new_info
         [(''elapsed_time'', DDouble (plus elapsed_time_read elapsed_time_load)),
          (''elapsed_time_ipc'', DDouble elapsed_time_read),
          (''elapsed_time_serializer'', DDouble elapsed_time_load),
          (''memory_usage_ipc'', DSize (word_of_nat (length buffer)))])) (\<lambda>info.
       retP (info, obj))))))))"

definition Base_ExportInfoImpl :: "('x communication_scheme, 'c) methods \<Rightarrow> info \<Rightarrow>
    ('x communication_scheme, info) prog" where
  "Base_ExportInfoImpl V I_Info =
     SendObjectWithStreamSerializer V I_Info (save_object Info_save ''object'' I_Info)"

definition Base_ImportInfoImpl :: "('x communication_scheme, 'c) methods \<Rightarrow> info \<Rightarrow>
    ('x communication_scheme, info) prog" where
  "Base_ImportInfoImpl V I_Info =
     bindP (ReceiveObjectWithStreamSerializer V I_Info (load_object (Info_load Info_new) ''object''))
       (\<lambda>(rec_info, imported_info).
     bindP (liftP (get_double rec_info ''elapsed_time'')) (\<lambda>t.
     bindP (liftP (get_double rec_info ''elapsed_time_ipc'')) (\<lambda>t_ipc.
     bindP (liftP (get_double rec_info ''elapsed_time_serializer'')) (\<lambda>t_ser.
     bindP (liftP (get_size rec_info ''memory_usage_ipc'')) (\<lambda>mem.
       localP (set_entries [(''elapsed_time'', DDouble t), (''elapsed_time_ipc'', DDouble t_ipc),
         (''elapsed_time_serializer'', DDouble t_ser), (''memory_usage_ipc'', DSize mem)] imported_info))))))"

definition container_object_load :: "'c container \<Rightarrow> 'c \<Rightarrow> (unit ser, 'c) cpp" where
  "container_object_load K x = (\<lambda>s.
     case derived_load (\<lambda>x. length (k_elems K x)) (k_resize K) (k_put K) (load_direct sc_double) (x, s) of
       (Inl e, (x', s')) \<Rightarrow> (Inl e, s') | (Inr _, (x', s')) \<Rightarrow> (Inr x', s'))"

definition container_object_save :: "dbl list \<Rightarrow> (unit ser, unit) cpp" where
  "container_object_save xs = derived_save (save_direct sc_double) xs"

definition Base_ExportDataImpl :: "('x communication_scheme, 'c) methods \<Rightarrow> info \<Rightarrow> dbl list \<Rightarrow>
    ('x communication_scheme, info) prog" where
  "Base_ExportDataImpl V I_Info rData =
     bindP (getP mAlwaysUseSerializer) (\<lambda>always.
       if always then
         SendObjectWithStreamSerializer V I_Info (save_object container_object_save ''object'' rData)
       else bindP (SendDataContainer V I_Info rData) (\<lambda>elapsed_time.
         localP (new_info [(''elapsed_time'', DDouble elapsed_time),
           (''memory_usage_ipc'', DSize (word_of_nat (length rData * 8)))])))"

definition Base_ImportDataImpl :: "('x communication_scheme, 'c) methods \<Rightarrow> 'c container \<Rightarrow> info \<Rightarrow> 'c \<Rightarrow>
    ('x communication_scheme, info \<times> 'c) prog" where
  "Base_ImportDataImpl V K I_Info rData =
     bindP (getP mAlwaysUseSerializer) (\<lambda>always.
       if always then
         ReceiveObjectWithStreamSerializer V I_Info
           (load_object (container_object_load K rData) ''object'')
       else bindP (ReceiveDataContainer V I_Info rData) (\<lambda>(elapsed_time, rData).
         bindP (localP (new_info [(''elapsed_time'', DDouble elapsed_time),
             (''memory_usage_ipc'', DSize (word_of_nat (length (k_elems K rData) * 8)))])) (\<lambda>info.
           retP (info, rData))))"

definition Base_ExportMeshImpl :: "('x communication_scheme, 'c) methods \<Rightarrow> info \<Rightarrow> model_part \<Rightarrow>
    ('x communication_scheme, info) prog" where
  "Base_ExportMeshImpl V I_Info I_ModelPart =
     SendObjectWithStreamSerializer V I_Info (save_object ModelPart_save ''object'' I_ModelPart)"

definition Base_ImportMeshImpl :: "('x communication_scheme, 'c) methods \<Rightarrow> info \<Rightarrow> model_part \<Rightarrow>
    ('x communication_scheme, info \<times> model_part) prog" where
  "Base_ImportMeshImpl V I_Info O_ModelPart =
     ReceiveObjectWithStreamSerializer V I_Info (load_object (ModelPart_load O_ModelPart) ''object'')"

text \<open>The six transfers of a communication that overrides none of them.\<close>

definition Base_ExportInfo :: "('x communication_scheme, 'c) methods \<Rightarrow> info \<Rightarrow>
    ('x communication_scheme, info \<times> unit) prog" where
  "Base_ExportInfo V I_Info = with_checks I_Info (no_result (Base_ExportInfoImpl V I_Info))"

definition Base_ImportInfo :: "('x communication_scheme, 'c) methods \<Rightarrow> info \<Rightarrow>
    ('x communication_scheme, info \<times> unit) prog" where
  "Base_ImportInfo V I_Info = with_checks I_Info (no_result (Base_ImportInfoImpl V I_Info))"

definition Base_ExportData :: "('x communication_scheme, 'c) methods \<Rightarrow> info \<Rightarrow> dbl list \<Rightarrow>
    ('x communication_scheme, info \<times> unit) prog" where
  "Base_ExportData V I_Info rData = with_checks I_Info (no_result (Base_ExportDataImpl V I_Info rData))"

definition Base_ImportData :: "('x communication_scheme, 'c) methods \<Rightarrow> 'c container \<Rightarrow> info \<Rightarrow> 'c \<Rightarrow>
    ('x communication_scheme, info \<times> 'c) prog" where
  "Base_ImportData V K I_Info rData = with_checks I_Info (Base_ImportDataImpl V K I_Info rData)"

definition Base_ExportMesh :: "('x communication_scheme, 'c) methods \<Rightarrow> info \<Rightarrow> model_part \<Rightarrow>
    ('x communication_scheme, info \<times> unit) prog" where
  "Base_ExportMesh V I_Info I_ModelPart = with_checks I_Info (no_result (Base_ExportMeshImpl V I_Info I_ModelPart))"

definition Base_ImportMesh :: "('x communication_scheme, 'c) methods \<Rightarrow> info \<Rightarrow> model_part \<Rightarrow>
    ('x communication_scheme, info \<times> model_part) prog" where
  "Base_ImportMesh V I_Info O_ModelPart = with_checks I_Info (Base_ImportMeshImpl V I_Info O_ModelPart)"

end
