(* ===== verification/FileCommunication.thy ===== *)
theory FileCommunication
  imports Connecting
begin

text \<open>
  \<open>includes/communication/file_communication.hpp\<close>, \<open>sources/communication/file_communication.cpp\<close>:
  the communication through files. A transfer is a file of its own: the sender waits until an
  earlier file of that name is gone, writes it under a temporary name (or in place, with an auxiliary
  file) and makes it visible; the receiver waits for it, reads it and removes it.
\<close>

record file_communication = communication +
  mUseAuxFileForFileAvailability :: bool
  mUseFileSerializer :: bool

type_synonym 'a file_prog = "(file_communication, 'a) prog"

section \<open>Construction and settings\<close>

definition USE_AUX_FILE_FOR_FILE_AVAILABILITY :: bool where
  "USE_AUX_FILE_FOR_FILE_AVAILABILITY = False"

definition new_FileCommunication :: "(path \<Rightarrow> bool) \<Rightarrow> machine \<Rightarrow> addr \<Rightarrow> nat \<Rightarrow> nat \<Rightarrow> info \<Rightarrow>
    error + file_communication" where
  "new_FileCommunication path_exists M h rank ranks I_Settings =
     bindR (new_Communication path_exists M h rank ranks I_Settings) (\<lambda>c.
     bindR (get_bool_default I_Settings ''use_aux_file_for_file_availability''
              USE_AUX_FILE_FOR_FILE_AVAILABILITY) (\<lambda>aux.
     bindR (get_bool_default I_Settings ''use_file_serializer'' True) (\<lambda>fs.
       Inr (communication.extend c \<lparr>mUseAuxFileForFileAvailability = aux, mUseFileSerializer = fs\<rparr>))))"

definition File_GetCommunicationSettings :: "(file_communication, info) cpp" where
  "File_GetCommunicationSettings = (\<lambda>c. new_info
     [(''use_aux_file_for_file_availability'', DBool (mUseAuxFileForFileAvailability c)),
      (''use_file_serializer'', DBool (mUseFileSerializer c))] c)"

definition check_setting :: "string \<Rightarrow> bool \<Rightarrow> info \<Rightarrow> string \<Rightarrow> error + unit" where
  "check_setting key mine partner note_text =
     bindR (get_info partner ''communication_settings'') (\<lambda>st. bindR (get_bool st key) (\<lambda>b.
     mismatch (mine \<noteq> b) (''Mismatch in '' @ key @ ''!'' @ [nl] @ ''My '' @ key @ '': '' @ show_bool mine @
       [nl] @ ''Partner '' @ key @ '': '' @ show_bool b @ note_text)))"

definition aux_note :: string where
  "aux_note = [nl] @ ''Note that the default on unix is false, while the default on windows is true!''"

definition File_DerivedHandShake :: "unit file_prog" where
  "File_DerivedHandShake =
     bindP (getP (\<lambda>c. bindR (check_setting ''use_aux_file_for_file_availability''
                (mUseAuxFileForFileAvailability c) (mPartnerInfo c) aux_note) (\<lambda>_.
              check_setting ''use_file_serializer'' (mUseFileSerializer c) (mPartnerInfo c) []))) liftP"

section \<open>Sending and receiving\<close>

definition data_file :: "file_communication \<Rightarrow> string \<Rightarrow> path" where
  "data_file c identifier = GetFileName c (''CoSimIO_data_'' @ mConnectionName c @ ''_'' @ identifier @
     ''_'' @ show_nat (c_rank c)) ''dat''"

definition with_file :: "info \<Rightarrow> (path \<Rightarrow> 'a file_prog) \<Rightarrow> 'a file_prog" where
  "with_file I_Info m =
     bindP (liftP (get_string I_Info ''identifier'')) (\<lambda>identifier.
     bindP (getP (\<lambda>c. data_file c identifier)) m)"

definition tmp_file :: "path \<Rightarrow> path file_prog" where
  "tmp_file file_name =
     bindP (getP (\<lambda>c. GetTmpFileName c file_name (mUseAuxFileForFileAvailability c))) liftP"

definition make_visible :: "path \<Rightarrow> unit file_prog" where
  "make_visible file_name =
     bindP (getP mUseAuxFileForFileAvailability) (MakeFileVisible file_name)"

definition wait_for :: "path \<Rightarrow> unit file_prog" where
  "wait_for file_name = bindP (getP mUseAuxFileForFileAvailability) (WaitForPath file_name)"

definition file_size :: "path \<Rightarrow> nat file_prog" where
  "file_size p = actP (\<lambda>w. w) (\<lambda>w. case files w p of
     Some s \<Rightarrow> Inr (length s) | None \<Rightarrow> Inl (co_error ''filesystem_error''))"

definition SerializeToFile :: "path \<Rightarrow> ('o ser, unit) cpp \<Rightarrow> unit file_prog" where
  "SerializeToFile rPath save = save_to_file rPath save"

definition SerializeFromFile :: "path \<Rightarrow> ('o ser, 'a) cpp \<Rightarrow> 'a file_prog" where
  "SerializeFromFile rPath load = load_from_file rPath load"

definition GenericSendWithFileSerializer :: "info \<Rightarrow> ('o ser, unit) cpp \<Rightarrow> info file_prog" where
  "GenericSendWithFileSerializer I_Info save = with_file I_Info (\<lambda>file_name.
     thenP (WaitUntilFileIsRemoved file_name)
     (bindP (tmp_file file_name) (\<lambda>tmp.
     thenP (SerializeToFile tmp save)
     (bindP (file_size tmp) (\<lambda>n.
     thenP (make_visible file_name)
     (bindP (localP ElapsedSeconds) (\<lambda>elapsed_time.
       localP (new_info [(''memory_usage_ipc'', DSize (word_of_nat n)),
         (''elapsed_time'', DDouble elapsed_time)]))))))))"

definition GenericReceiveWithFileSerializer :: "info \<Rightarrow> ('o ser, 'a) cpp \<Rightarrow> (info \<times> 'a) file_prog" where
  "GenericReceiveWithFileSerializer I_Info load = with_file I_Info (\<lambda>file_name.
     thenP (wait_for file_name)
     (bindP (file_size file_name) (\<lambda>n.
     bindP (SerializeFromFile file_name load) (\<lambda>obj.
     thenP (RemovePath file_name)
     (bindP (localP ElapsedSeconds) (\<lambda>elapsed_time.
     bindP (localP (new_info [(''memory_usage_ipc'', DSize (word_of_nat n)),
         (''elapsed_time'', DDouble elapsed_time)])) (\<lambda>info.
       retP (info, obj))))))))"

text \<open>
  \<open>GenericSend\<close> and \<open>GenericReceive\<close>: the number of elements (\<open>std::size_t\<close>, 8 bytes of this machine)
  and their bytes. A file that is too short sets the failure bit of the stream, which is not tested.
\<close>

definition open_for_writing :: "path \<Rightarrow> path \<Rightarrow> unit file_prog" where
  "open_for_writing p rPath = actP (open_out p) (\<lambda>w. if writable w p then Inr ()
     else Inl (co_error (dq rPath @ '' could not be opened!'')))"

definition read_file :: "path \<Rightarrow> string file_prog" where
  "read_file p = actP (\<lambda>w. w) (\<lambda>w. case files w p of Some s \<Rightarrow> Inr s
     | None \<Rightarrow> Inl (co_error (dq p @ '' could not be opened!'')))"

definition framed :: "bool \<Rightarrow> nat \<Rightarrow> string \<Rightarrow> string" where
  "framed big_endian n bytes = object_bytes big_endian 8 (word_of_nat n :: u64) @ bytes"

definition unframe :: "bool \<Rightarrow> nat \<Rightarrow> string \<Rightarrow> error + nat \<times> string" where
  "unframe big_endian SizeOfData s =
     (if length s < 8 then Inl (StreamFailure ''size'')
      else let n = unat (object_value big_endian (take 8 s) :: u64); bytes = drop 8 s in
        if length bytes < n * SizeOfData then Inl (StreamFailure ''data'')
        else Inr (n, take (n * SizeOfData) bytes))"

definition comm_big_endian :: "'x communication_scheme \<Rightarrow> bool" where
  "comm_big_endian c = machine_big_endian (plat (c_machine c))"

definition GenericSend :: "info \<Rightarrow> nat \<Rightarrow> string \<Rightarrow> dbl file_prog" where
  "GenericSend I_Info n bytes = with_file I_Info (\<lambda>file_name.
     thenP (WaitUntilFileIsRemoved file_name)
     (bindP (tmp_file file_name) (\<lambda>tmp.
     thenP (open_for_writing tmp file_name)
     (bindP (getP comm_big_endian) (\<lambda>be.
     thenP (write_from tmp 0 (framed be n bytes))
     (thenP (make_visible file_name)
       (localP ElapsedSeconds)))))))"

text \<open>\<open>consume\<close> is what the data container does with the elements: \<open>resize\<close> and the writes into it.\<close>

definition GenericReceive :: "info \<Rightarrow> nat \<Rightarrow> (nat \<Rightarrow> string \<Rightarrow> error + 'a) \<Rightarrow> (dbl \<times> 'a) file_prog" where
  "GenericReceive I_Info SizeOfData consume = with_file I_Info (\<lambda>file_name.
     thenP (wait_for file_name)
     (bindP (read_file file_name) (\<lambda>content.
     bindP (getP comm_big_endian) (\<lambda>be.
     bindP (liftP (unframe be SizeOfData content)) (\<lambda>(n, bytes).
     bindP (liftP (consume n bytes)) (\<lambda>x.
     thenP (RemovePath file_name)
     (bindP (localP ElapsedSeconds) (\<lambda>elapsed_time.
       retP (elapsed_time, x)))))))))"

definition doubles_bytes :: "bool \<Rightarrow> dbl list \<Rightarrow> string" where
  "doubles_bytes big_endian xs = concat (List.map (object_bytes big_endian 8) xs)"

fun bytes_doubles :: "bool \<Rightarrow> nat \<Rightarrow> string \<Rightarrow> dbl list" where
  "bytes_doubles big_endian 0 s = []"
| "bytes_doubles big_endian (Suc n) s =
     object_value big_endian (take 8 s) # bytes_doubles big_endian n (drop 8 s)"

definition fill_container :: "'c container \<Rightarrow> dbl list \<Rightarrow> ('c, unit) cpp" where
  "fill_container K xs = thenE (k_resize K (length xs)) (forE (\<lambda>i. k_put K i (xs ! i)) [0..<length xs])"

definition fill :: "'c container \<Rightarrow> dbl list \<Rightarrow> 'c \<Rightarrow> error + 'c" where
  "fill K xs x = (case fill_container K xs x of (Inl e, _) \<Rightarrow> Inl e | (Inr _, x') \<Rightarrow> Inr x')"

definition File_SendString :: "info \<Rightarrow> string \<Rightarrow> dbl file_prog" where
  "File_SendString I_Info rData = GenericSend I_Info (length rData) rData"

definition File_ReceiveString :: "info \<Rightarrow> (dbl \<times> string) file_prog" where
  "File_ReceiveString I_Info = GenericReceive I_Info 1 (\<lambda>n bytes. Inr bytes)"

definition File_SendDataContainer :: "info \<Rightarrow> dbl list \<Rightarrow> dbl file_prog" where
  "File_SendDataContainer I_Info rData =
     bindP (getP comm_big_endian) (\<lambda>be. GenericSend I_Info (length rData) (doubles_bytes be rData))"

definition File_ReceiveDataContainer :: "'c container \<Rightarrow> info \<Rightarrow> 'c \<Rightarrow> (dbl \<times> 'c) file_prog" where
  "File_ReceiveDataContainer K I_Info rData =
     bindP (getP comm_big_endian) (\<lambda>be.
       GenericReceive I_Info 8 (\<lambda>n bytes. fill K (bytes_doubles be n bytes) rData))"

definition file_methods :: "'c container \<Rightarrow> (file_communication, 'c) methods" where
  "file_methods K =
     \<lparr>GetCommunicationName = ''file'',
      GetCommunicationSettings = File_GetCommunicationSettings,
      DerivedHandShake = File_DerivedHandShake,
      PrepareConnection = (\<lambda>_. retP ()),
      ConnectDetail = (\<lambda>_. localP (new_info [])),
      DisconnectDetail = (\<lambda>_. localP (new_info [])),
      SendString = File_SendString,
      ReceiveString = File_ReceiveString,
      SendDataContainer = File_SendDataContainer,
      ReceiveDataContainer = File_ReceiveDataContainer K\<rparr>"

section \<open>The overridden transfers\<close>

definition File_ImportInfoImpl :: "'c container \<Rightarrow> info \<Rightarrow> info file_prog" where
  "File_ImportInfoImpl K I_Info =
     bindP (getP mUseFileSerializer) (\<lambda>use. if use then
       bindP (GenericReceiveWithFileSerializer I_Info (load_object (Info_load Info_new) ''obj''))
         (\<lambda>(rec_info, received_info).
       bindP (liftP (get_double rec_info ''elapsed_time'')) (\<lambda>t.
       bindP (liftP (get_size rec_info ''memory_usage_ipc'')) (\<lambda>mem.
         localP (set_entries [(''elapsed_time'', DDouble t), (''memory_usage_ipc'', DSize mem)] received_info))))
     else Base_ImportInfoImpl (file_methods K) I_Info)"

definition File_ExportInfoImpl :: "'c container \<Rightarrow> info \<Rightarrow> info file_prog" where
  "File_ExportInfoImpl K I_Info =
     bindP (getP mUseFileSerializer) (\<lambda>use. if use then
       GenericSendWithFileSerializer I_Info (save_object Info_save ''obj'' I_Info)
     else Base_ExportInfoImpl (file_methods K) I_Info)"

definition File_ImportDataImpl :: "'c container \<Rightarrow> info \<Rightarrow> 'c \<Rightarrow> (info \<times> 'c) file_prog" where
  "File_ImportDataImpl K I_Info rData =
     bindP (getP (\<lambda>c. mUseFileSerializer c \<and> mAlwaysUseSerializer c)) (\<lambda>use. if use then
       GenericReceiveWithFileSerializer I_Info (load_object (container_object_load K rData) ''obj'')
     else Base_ImportDataImpl (file_methods K) K I_Info rData)"

definition File_ExportDataImpl :: "'c container \<Rightarrow> info \<Rightarrow> dbl list \<Rightarrow> info file_prog" where
  "File_ExportDataImpl K I_Info rData =
     bindP (getP (\<lambda>c. mUseFileSerializer c \<and> mAlwaysUseSerializer c)) (\<lambda>use. if use then
       GenericSendWithFileSerializer I_Info (save_object container_object_save ''obj'' rData)
     else Base_ExportDataImpl (file_methods K) I_Info rData)"

definition File_ImportMeshImpl :: "'c container \<Rightarrow> info \<Rightarrow> model_part \<Rightarrow> (info \<times> model_part) file_prog" where
  "File_ImportMeshImpl K I_Info O_ModelPart =
     bindP (getP mUseFileSerializer) (\<lambda>use. if use then
       GenericReceiveWithFileSerializer I_Info (load_object (ModelPart_load O_ModelPart) ''obj'')
     else Base_ImportMeshImpl (file_methods K) I_Info O_ModelPart)"

definition File_ExportMeshImpl :: "'c container \<Rightarrow> info \<Rightarrow> model_part \<Rightarrow> info file_prog" where
  "File_ExportMeshImpl K I_Info I_ModelPart =
     bindP (getP mUseFileSerializer) (\<lambda>use. if use then
       GenericSendWithFileSerializer I_Info (save_object ModelPart_save ''obj'' I_ModelPart)
     else Base_ExportMeshImpl (file_methods K) I_Info I_ModelPart)"

text \<open>The six transfers that a connection offers.\<close>

definition File_ExportInfo :: "'c container \<Rightarrow> info \<Rightarrow> (info \<times> unit) file_prog" where
  "File_ExportInfo K I_Info = with_checks I_Info (no_result (File_ExportInfoImpl K I_Info))"

definition File_ImportInfo :: "'c container \<Rightarrow> info \<Rightarrow> (info \<times> unit) file_prog" where
  "File_ImportInfo K I_Info = with_checks I_Info (no_result (File_ImportInfoImpl K I_Info))"

definition File_ExportData :: "'c container \<Rightarrow> info \<Rightarrow> dbl list \<Rightarrow> (info \<times> unit) file_prog" where
  "File_ExportData K I_Info rData = with_checks I_Info (no_result (File_ExportDataImpl K I_Info rData))"

definition File_ImportData :: "'c container \<Rightarrow> info \<Rightarrow> 'c \<Rightarrow> (info \<times> 'c) file_prog" where
  "File_ImportData K I_Info rData = with_checks I_Info (File_ImportDataImpl K I_Info rData)"

definition File_ExportMesh :: "'c container \<Rightarrow> info \<Rightarrow> model_part \<Rightarrow> (info \<times> unit) file_prog" where
  "File_ExportMesh K I_Info I_ModelPart = with_checks I_Info (no_result (File_ExportMeshImpl K I_Info I_ModelPart))"

definition File_ImportMesh :: "'c container \<Rightarrow> info \<Rightarrow> model_part \<Rightarrow> (info \<times> model_part) file_prog" where
  "File_ImportMesh K I_Info O_ModelPart = with_checks I_Info (File_ImportMeshImpl K I_Info O_ModelPart)"

text \<open>A vector of the caller as container.\<close>

definition vector_container :: "dbl list container" where
  "vector_container = \<lparr>k_elems = (\<lambda>xs. xs), k_resize = vector_resize 0, k_put = vector_put\<rparr>"

end
