(* ===== verification/Interleaving.thy ===== *)
theory Interleaving
  imports Processes
begin

text \<open>
  How two programs beside each other are reasoned about. Every program is finite, so every run ends.
  \<open>leads s s'\<close> says that whatever a run from \<open>s\<close> ends in, a run from \<open>s'\<close> can end in as well: to know how
  all runs from \<open>s\<close> end it is enough to look at \<open>s'\<close>. The rules let one program go ahead: when the other
  one is blocked, or when what it can do until it blocks does not depend on the access and cannot
  disturb it. With them the many interleavings of a protocol reduce to one.
\<close>

section \<open>Runs end\<close>

primrec children :: "'a io \<Rightarrow> 'a io set" where
  "children (Done x) = {}"
| "children (Act u k) = range k"
| "children (Wait c p) = {p}"

lemma wf_children: "wf {(x, y). x \<in> children y}"
  unfolding wf_def
proof (intro allI impI)
  fix P :: "'a io \<Rightarrow> bool" and p
  assume "\<forall>x. (\<forall>y. (y, x) \<in> {(x, y). x \<in> children y} \<longrightarrow> P y) \<longrightarrow> P x"
  then have H: "\<And>x. (\<And>y. y \<in> children x \<Longrightarrow> P y) \<Longrightarrow> P x" by blast
  show "P p"
    by (induction p; rule H) auto
qed

lemma access_children: "access p w = Some (p', w') \<Longrightarrow> p' \<in> children p"
  by (cases p) (auto split: if_splits)

lemma wf_steps: "wf {(t, s). steps s t}"
proof -
  let ?R = "{(x, y). x \<in> children y} <*lex*> {(x, y). x \<in> children y}"
  have "wf ?R" using wf_children wf_children by (rule wf_lex_prod)
  then have "wf (inv_image ?R (\<lambda>(p, q, w). (p, q)))" by (rule wf_inv_image)
  moreover have "{(t, s). steps s t} \<subseteq> inv_image ?R (\<lambda>(p, q, w). (p, q))"
    by (auto elim!: steps.cases dest: access_children)
  ultimately show ?thesis by (rule wf_subset)
qed

lemma no_infinite_run: "\<not> (\<exists>r. \<forall>i. steps (r i) (r (Suc i)))"
  using wf_steps unfolding wf_iff_no_infinite_down_chain by blast

lemma reaches_stuck: "\<exists>t. reaches s t \<and> stuck t"
  using wf_steps
proof (induction s rule: wf_induct_rule)
  case (less s)
  show ?case
  proof (cases "stuck s")
    case False
    then obtain t where "steps s t" by (auto simp: stuck_iff)
    then show ?thesis using less by (meson case_prodI converse_rtranclp_into_rtranclp mem_Collect_eq)
  qed blast
qed

section \<open>Where runs end\<close>

definition ends :: "'a io \<times> 'b io \<times> world \<Rightarrow> 'a io \<times> 'b io \<times> world \<Rightarrow> bool" where
  "ends s t \<longleftrightarrow> reaches s t \<and> stuck t"

definition leads :: "'a io \<times> 'b io \<times> world \<Rightarrow> 'a io \<times> 'b io \<times> world \<Rightarrow> bool" where
  "leads s s' \<longleftrightarrow> (\<forall>t. ends s t \<longrightarrow> ends s' t)"

lemma leads_refl: "leads s s"
  by (simp add: leads_def)

lemma leads_trans [trans]: "leads s t \<Longrightarrow> leads t u \<Longrightarrow> leads s u"
  by (simp add: leads_def)

lemma ends_Done: "ends (Done x, Done y, w) t \<longleftrightarrow> t = (Done x, Done y, w)"
proof -
  have "stuck (Done x, Done y, w)" by (simp add: stuck_def)
  then show ?thesis
    by (auto simp: ends_def stuck_iff elim: converse_rtranclpE)
qed

lemma leads_Done: "leads s (Done x, Done y, w) \<Longrightarrow> ends s t \<Longrightarrow> t = (Done x, Done y, w)"
  unfolding leads_def ends_Done by blast

text \<open>The two programs change places.\<close>

definition flip :: "'a io \<times> 'b io \<times> world \<Rightarrow> 'b io \<times> 'a io \<times> world" where
  "flip s = (case s of (p, q, w) \<Rightarrow> (q, p, w))"

lemma flip_simps [simp]: "flip (p, q, w) = (q, p, w)" "flip (flip s) = s"
  by (simp_all add: flip_def split: prod.split)

lemma steps_flip: "steps s t \<Longrightarrow> steps (flip s) (flip t)"
  by (auto elim!: steps.cases intro: steps_left steps_right)

lemma reaches_flip: "reaches s t \<Longrightarrow> reaches (flip s) (flip t)"
  by (induction rule: rtranclp_induct) (auto dest: steps_flip)

lemma ends_flip: "ends s t \<Longrightarrow> ends (flip s) (flip t)"
  by (cases t) (auto simp: ends_def stuck_def dest: reaches_flip)

lemma leads_flip: "leads (flip s) (flip t) \<Longrightarrow> leads s t"
  unfolding leads_def by (metis ends_flip flip_simps(2))

section \<open>Going ahead\<close>

text \<open>
  \<open>indep c u q\<close>: as long as \<open>c\<close> holds, which the accesses of \<open>q\<close> keep, they commute with \<open>u\<close> and do not
  see it; \<open>u\<close> may end a wait of \<open>q\<close>, but not make it wait; a wait whose condition cannot hold under \<open>c\<close>
  ends what \<open>q\<close> can do.
\<close>

primrec indep :: "(world \<Rightarrow> bool) \<Rightarrow> (world \<Rightarrow> world) \<Rightarrow> 'a io \<Rightarrow> bool" where
  "indep c u (Done x) = True"
| "indep c u (Act v k) = (\<forall>w. c w \<longrightarrow> c (v w) \<and> u (v w) = v (u w) \<and> k (u w) = k w \<and> indep c u (k w))"
| "indep c u (Wait d q) = ((\<forall>w. c w \<longrightarrow> \<not> d w) \<or> ((\<forall>w. c w \<longrightarrow> d w \<longrightarrow> d (u w)) \<and> indep c u q))"

lemma go_ahead:
  assumes "\<And>w. c w \<Longrightarrow> access p w = Some (p', u w)"
    and "c w" "indep c u q"
  shows "leads (p, q, w) (p', q, u w)"
proof -
  have "ends (p', q, u w) t" if "reaches (p, q, w) t" "stuck t" "c w" "indep c u q" for t q w
    using that
  proof (induction "(p, q, w)" arbitrary: q w rule: converse_rtranclp_induct)
    case base
    then show ?case using assms(1) by (simp add: stuck_def)
  next
    case (step z)
    note c = \<open>c w\<close>
    from step(1) show ?case
    proof (cases rule: steps_cases)
      case (left p1 w1)
      then have "z = (p', q, u w)" using assms(1) [OF c] by simp
      then show ?thesis using step(2,4) unfolding ends_def by blast
    next
      case (right q1 w1)
      have "c w1 \<and> indep c u q1 \<and> access q (u w) = Some (q1, u w1)"
        using right(2) step(5,6)
        by (cases q) (auto split: if_splits)
      then have "ends (p', q1, u w1) t" "steps (p', q, u w) (p', q1, u w1)"
        using step(3) [OF right(1)] step(4) by (auto intro: steps.steps_right)
      then show ?thesis by (meson converse_rtranclp_into_rtranclp ends_def)
    qed
  qed
  then show ?thesis using assms(2,3) unfolding leads_def ends_def by blast
qed

lemma go_ahead_right:
  assumes "\<And>w. c w \<Longrightarrow> access q w = Some (q', u w)"
    and "c w" "indep c u p"
  shows "leads (p, q, w) (p, q', u w)"
  using go_ahead [OF assms] by - (rule leads_flip, simp)

text \<open>The other program is blocked.\<close>

lemma go_left:
  assumes "access p w = Some (p', w')" "access q w = None"
  shows "leads (p, q, w) (p', q, w')"
proof -
  have "steps (p, q, w) z \<Longrightarrow> z = (p', q, w')" for z
    using assms by (auto elim: steps_cases)
  moreover have "\<not> stuck (p, q, w)" using assms by (simp add: stuck_def)
  ultimately have "reaches (p', q, w') t" if "reaches (p, q, w) t" "stuck t" for t
    using that by (metis converse_rtranclpE)
  then show ?thesis unfolding leads_def ends_def by blast
qed

lemma go_right:
  assumes "access q w = Some (q', w')" "access p w = None"
  shows "leads (p, q, w) (p, q', w')"
  using go_left [OF assms] by - (rule leads_flip, simp)

text \<open>A program that runs alone, while the other one is blocked in every state that it passes.\<close>

primrec runs_to :: "(world \<Rightarrow> bool) \<Rightarrow> 'a io \<Rightarrow> 'a io \<Rightarrow> world \<Rightarrow> world \<Rightarrow> bool" where
  "runs_to b (Done x) p' = (\<lambda>w w'. p' = Done x \<and> w' = w)"
| "runs_to b (Act u k) p' = (\<lambda>w w'. (p' = Act u k \<and> w' = w) \<or> (b w \<and> runs_to b (k w) p' (u w) w'))"
| "runs_to b (Wait c p) p' = (\<lambda>w w'. (p' = Wait c p \<and> w' = w) \<or> (b w \<and> c w \<and> runs_to b p p' w w'))"

lemma go_blocked:
  "runs_to (\<lambda>w. access q w = None) p p' w w' \<Longrightarrow> leads (p, q, w) (p', q, w')"
proof (induction p arbitrary: w)
  case (Done x)
  then show ?case by (simp add: leads_refl)
next
  case (Act u k)
  then show ?case
    by (auto intro: leads_refl leads_trans [OF go_left [of "Act u k" w "k w" "u w"]])
next
  case (Wait c p)
  then show ?case
    by (auto intro: leads_refl leads_trans [OF go_left [of "Wait c p" w p w]])
qed

lemma go_blocked_right:
  "runs_to (\<lambda>w. access p w = None) q q' w w' \<Longrightarrow> leads (p, q, w) (p, q', w')"
  using go_blocked by - (rule leads_flip, simp)

text \<open>
  Testing whether a condition holds before waiting for it makes no difference.
\<close>

lemma test_before_wait:
  "leads (Act (\<lambda>w. w) (\<lambda>w. if c w then p else Wait c p), q, w) (Wait c p, q, w)"
proof -
  let ?p = "Act (\<lambda>w. w) (\<lambda>w. if c w then p else Wait c p)"
  have "ends (Wait c p, q, w) t" if "reaches (?p, q, w) t" "stuck t" for t q w
    using that
  proof (induction "(?p, q, w)" arbitrary: q w rule: converse_rtranclp_induct)
    case base
    then show ?case by (simp add: stuck_def)
  next
    case (step z)
    from step(1) show ?case
    proof (cases rule: steps_cases)
      case (left p1 w1)
      show ?thesis
      proof (cases "c w")
        case True
        then have "steps (Wait c p, q, w) (p, q, w)" by (intro steps.steps_left) simp
        moreover have "ends (p, q, w) t" using left True step(2,4) unfolding ends_def by simp
        ultimately show ?thesis by (meson converse_rtranclp_into_rtranclp ends_def)
      next
        case False
        then show ?thesis using left step(2,4) unfolding ends_def by simp
      qed
    next
      case (right q1 w1)
      then have "ends (Wait c p, q1, w1) t" using step(3) [OF right(1)] step(4) by simp
      moreover have "steps (Wait c p, q, w) (Wait c p, q1, w1)"
        using right(2) by (rule steps.steps_right)
      ultimately show ?thesis by (meson converse_rtranclp_into_rtranclp ends_def)
    qed
  qed
  then show ?thesis unfolding leads_def ends_def by blast
qed

lemma test_before_wait_right:
  "leads (p, Act (\<lambda>w. w) (\<lambda>w. if c w then q else Wait c q), w) (p, Wait c q, w)"
  using test_before_wait by - (rule leads_flip, simp)

end
