(* ===== verification/SyncProtocol.thy ===== *)
theory SyncProtocol
  imports Connecting Interleaving
begin

text \<open>
  \<open>SynchronizeAll\<close> on both sides: in every interleaving the two partners meet, neither leaves before the
  other has arrived, and no file is left behind.
\<close>

section \<open>Programs as accesses\<close>

named_theorems prog_io \<open>the accesses of a program, one after the other\<close>

lemma ret_io [prog_io]: "bindP (retP x) f s = f x s"
  by (auto simp: prog_defs split: sum.split prod.split)

lemma throw_io [prog_io]: "bindP (throwP e) f s = Done (Inl e, s)"
  by (auto simp: prog_defs split: sum.split prod.split)

lemma get_io [prog_io]: "bindP (getP g) f s = f (g s) s"
  by (auto simp: prog_defs split: sum.split prod.split)

lemma mod_io [prog_io]: "bindP (modP h) f s = f () (h s)"
  by (auto simp: prog_defs split: sum.split prod.split)

lemma lift_io [prog_io]: "bindP (liftP r) f s = (case r of Inl e \<Rightarrow> Done (Inl e, s) | Inr x \<Rightarrow> f x s)"
  by (auto simp: prog_defs split: sum.split prod.split)

lemma local_io [prog_io]: "bindP (localP m) f s = (case m s of (Inl e, s') \<Rightarrow> Done (Inl e, s') | (Inr x, s') \<Rightarrow> f x s')"
  by (auto simp: prog_defs split: sum.split prod.split)

lemma act_io [prog_io]: "bindP (actP u r) f s =
     Act u (\<lambda>w. case r w of Inl e \<Rightarrow> Done (Inl e, s) | Inr x \<Rightarrow> f x s)"
  by (auto simp: prog_defs split: sum.split prod.split)

lemma wait_io [prog_io]: "bindP (waitP c) f s = Wait c (f () s)"
  by (auto simp: prog_defs split: sum.split prod.split)

lemma when_io [prog_io]: "bindP (whenP b m) f s = (if b then bindP m f s else f () s)"
  by (auto simp: prog_defs split: sum.split prod.split)

lemma check_io [prog_io]: "bindP (checkP b e) f s = (if b then Done (Inl e, s) else f () s)"
  by (auto simp: prog_defs split: sum.split prod.split)

lemma assoc_io [prog_io]: "bindP (bindP m g) f s = bindP m (\<lambda>x. bindP (g x) f) s"
  by (simp add: bindP_assoc)

lemma thenP_io [prog_io]: "thenP m n = bindP m (\<lambda>_. n)"
  by (simp add: thenP_def)

lemma attempts_io: "bindP (remove_attempts (Suc i) p) f s = Act (remove_file p)
     (\<lambda>w. if files w p \<noteq> None then f () s else bindP (remove_attempts i p) f s)"
  by (auto simp: prog_io intro!: arg_cong2 [where f = Act] ext)

lemma remove_io [prog_io]:
  "bindP (RemovePath p) f s = Act (remove_file p) (\<lambda>w. if files w p \<noteq> None then f () s
     else bindP (remove_attempts 4 p) f s)"
proof -
  have "(5 :: nat) = Suc 4" by simp
  then show ?thesis unfolding RemovePath_def by (simp only: attempts_io)
qed

lemma removed_io [prog_io]:
  "bindP (WaitUntilFileIsRemoved p) f s = Act (\<lambda>w. w) (\<lambda>w. if \<not> exists w p then f () s
     else Wait (\<lambda>w. \<not> exists w p) (f () s))"
  by (auto simp: WaitUntilFileIsRemoved_def prog_io)

lemma wait_path_io [prog_io]:
  "bindP (WaitForPath p True) f s = Wait (\<lambda>w. exists w (avail p)) (bindP (RemovePath (avail p)) f s)"
  "bindP (WaitForPath p False) f s = Wait (\<lambda>w. exists w p) (f () s)"
  by (simp_all add: WaitForPath_def WaitUntilPathExists_def prog_io)

lemma permissions_io [prog_io]:
  "bindP (AddFilePermissions p) f s = Act (\<lambda>w. w) (\<lambda>w. if exists w p then f () s
     else Done (Inl (co_error ''filesystem_error''), s))"
  by (auto simp: AddFilePermissions_def prog_io)

lemma visible_io [prog_io]:
  "bindP (MakeFileVisible p True) f s = bindP (AddFilePermissions p) (\<lambda>_. bindP (create_file (avail p)) f) s"
  by (simp add: MakeFileVisible_def create_file_def prog_io)

lemma create_file_io [prog_io]: "bindP (create_file p) f s = Act (open_out p) (\<lambda>_. f () s)"
  by (simp add: create_file_def prog_io)

lemma create_sync_io [prog_io]:
  "bindP (create_sync_file p who) f s = Act (open_out p) (\<lambda>_. Act (\<lambda>w. w) (\<lambda>w.
     if exists w p then bindP (MakeFileVisible p True) f s
     else Done (Inl (sync_error who p), s)))"
  by (auto simp: create_sync_file_def prog_io intro!: arg_cong2 [where f = Act] ext)

section \<open>Files of a protocol\<close>

text \<open>\<open>p\<close> can be created and is not there.\<close>

definition free_path :: "world \<Rightarrow> path \<Rightarrow> bool" where
  "free_path w p \<longleftrightarrow> writable w p \<and> files w p = None"

lemma free_path_exists: "free_path w p \<Longrightarrow> \<not> exists w p"
  by (simp add: free_path_def exists_def writable_def)

lemma exists_files: "writable w p \<Longrightarrow> exists w p \<longleftrightarrow> files w p \<noteq> None"
  by (simp add: exists_def writable_def)

lemma open_out_writable: "writable w p \<Longrightarrow> open_out p w = set_file p (Some []) w"
  by (simp add: open_out_def)

lemma remove_file_set: "remove_file p = set_file p None"
  by (simp add: remove_file_def fun_eq_iff)

lemma set_file_commute: "p \<noteq> q \<Longrightarrow> set_file p a (set_file q b w) = set_file q b (set_file p a w)"
  by (simp add: set_file_def fun_upd_twist)

lemma world_files_eq: "files w = files v \<Longrightarrow> dirs w = dirs v \<Longrightarrow> streams w = streams v \<Longrightarrow> closed w = closed v \<Longrightarrow>
     listening w = listening v \<Longrightarrow> w = (v :: world)"
  by (cases w; cases v) simp

lemma clean_up [simp]: "files w p = None \<Longrightarrow> set_file p None w = w"
  by (rule set_file_same)

section \<open>Meeting\<close>

definition sync_ready :: "path \<Rightarrow> path \<Rightarrow> world \<Rightarrow> bool" where
  "sync_ready P S w \<longleftrightarrow> free_path w P \<and> free_path w S \<and> free_path w (avail P) \<and> free_path w (avail S) \<and>
     distinct [P, S, avail P, avail S]"

text \<open>The two sides of \<open>SynchronizeAll\<close> with what the programs do afterwards.\<close>

definition primary_side :: "path \<Rightarrow> path \<Rightarrow> ('x communication_scheme, 'a) prog \<Rightarrow>
    ('x communication_scheme, 'a) prog" where
  "primary_side P S K = thenP (create_sync_file P ''Primary'') (thenP (WaitForPath S True)
     (thenP (RemovePath S) (thenP (WaitUntilFileIsRemoved P) K)))"

definition secondary_side :: "path \<Rightarrow> path \<Rightarrow> ('x communication_scheme, 'a) prog \<Rightarrow>
    ('x communication_scheme, 'a) prog" where
  "secondary_side P S K = thenP (WaitForPath P True) (thenP (RemovePath P)
     (thenP (create_sync_file S ''Secondary'') (thenP (WaitUntilFileIsRemoved S) K)))"

lemma sync_ready_facts:
  assumes "sync_ready P S w"
  shows "writable w P" "writable w S" "writable w (avail P)" "writable w (avail S)"
    "files w P = None" "files w S = None" "files w (avail P) = None" "files w (avail S) = None"
    "\<not> dirs w P" "\<not> dirs w S" "\<not> dirs w (avail P)" "\<not> dirs w (avail S)"
  using assms by (auto simp: sync_ready_def free_path_def writable_def)

lemma meeting:
  assumes "sync_ready P S w"
    and "c w" "\<And>v. c v \<Longrightarrow> \<not> exists v P" "indep c (\<lambda>v. v) (KQ t)"
    and "e w" "\<And>v. e v \<Longrightarrow> \<not> exists v S" "indep e (\<lambda>v. v) (KP s)"
  shows "leads (primary_side P S KP s, secondary_side P S KQ t, w) (KP s, KQ t, w)"
proof -
  note f = sync_ready_facts [OF assms(1)]
  have n: "P \<noteq> S" "P \<noteq> avail P" "P \<noteq> avail S" "S \<noteq> avail P" "S \<noteq> avail S" "avail P \<noteq> avail S"
    using assms(1) by (auto simp: sync_ready_def)
  let ?w1 = "set_file (avail P) (Some []) (set_file P (Some []) w)"
  let ?w2 = "set_file (avail S) (Some []) (set_file S (Some []) w)"
  let ?p1 = "Wait (\<lambda>v. exists v (avail S)) (bindP (RemovePath (avail S)) (\<lambda>_. thenP (RemovePath S)
     (thenP (WaitUntilFileIsRemoved P) KP)) s)"
  let ?q2 = "thenP (WaitUntilFileIsRemoved S) KQ t"
  let ?p3 = "Wait (\<lambda>v. \<not> exists v P) (KP s)"
  let ?q3 = "Wait (\<lambda>v. \<not> exists v S) (KQ t)"
  have "leads (primary_side P S KP s, secondary_side P S KQ t, w) (?p1, secondary_side P S KQ t, ?w1)"
    by (rule go_blocked)
       (simp add: primary_side_def secondary_side_def prog_io f n n [symmetric] open_out_writable exists_def)
  also have "leads (?p1, secondary_side P S KQ t, ?w1) (?p1, ?q2, ?w2)"
    by (rule go_blocked_right)
       (simp add: secondary_side_def prog_io f n n [symmetric] open_out_writable exists_def remove_file_set)
  also have "leads (?p1, ?q2, ?w2) (?p1, ?q3, ?w2)"
    using test_before_wait_right by (simp add: prog_io)
  also have "leads (?p1, ?q3, ?w2) (thenP (WaitUntilFileIsRemoved P) KP s, ?q3, w)"
    by (rule go_blocked)
       (simp add: prog_io f n n [symmetric] exists_def remove_file_set set_file_commute)
  also have "leads (thenP (WaitUntilFileIsRemoved P) KP s, ?q3, w) (?p3, ?q3, w)"
    using test_before_wait by (simp add: prog_io)
  also have "leads (?p3, ?q3, w) (?p3, KQ t, w)"
    using go_ahead_right [of e ?q3 "KQ t" "\<lambda>v. v" w ?p3] assms(5-7) by simp
  also have "leads (?p3, KQ t, w) (KP s, KQ t, w)"
    using go_ahead [of c ?p3 "KP s" "\<lambda>v. v" w "KQ t"] assms(2-4) by simp
  finally show ?thesis .
qed

end
