(* ===== verification/HandshakeProtocol.thy ===== *)
theory HandshakeProtocol
  imports SyncProtocol
begin

text \<open>
  The exchange of information of the handshake: both partners write their file and read that of the
  other one, at the same time. In every interleaving each gets what the other one has written,
  complete, and no file is left behind.
\<close>

section \<open>Updates of one file\<close>

definition local_update :: "path \<Rightarrow> (world \<Rightarrow> world) \<Rightarrow> bool" where
  "local_update p u \<longleftrightarrow> (\<exists>f. \<forall>w. u w = set_file p (f (writable w p) (files w p)) w)"

lemma local_updates [simp, intro]:
  "local_update p (open_out p)" "local_update p (open_inout p)" "local_update p (remove_file p)"
  "local_update p (write_at p i ch)" "local_update p (\<lambda>w. w)"
proof -
  show "local_update p (open_out p)" unfolding local_update_def
    by (rule exI [of _ "\<lambda>b x. if b then Some [] else x"]) (simp add: open_out_def set_file_same)
  show "local_update p (open_inout p)" unfolding local_update_def
    by (rule exI [of _ "\<lambda>b x. if x = None \<and> b then Some [] else x"])
       (auto simp: open_inout_def open_out_def set_file_same)
  show "local_update p (remove_file p)" unfolding local_update_def
    by (rule exI [of _ "\<lambda>b x. None"]) (simp add: remove_file_def)
  show "local_update p (write_at p i ch)" unfolding local_update_def
    by (rule exI [of _ "\<lambda>b x. map_option (put_at i ch) x"])
       (simp add: write_at_def set_file_same split: option.split)
  show "local_update p (\<lambda>w. w)" unfolding local_update_def
    by (rule exI [of _ "\<lambda>b x. x"]) (simp add: set_file_same)
qed

lemma local_files: "local_update p u \<Longrightarrow> q \<noteq> p \<Longrightarrow> files (u w) q = files w q"
  by (auto simp: local_update_def)

lemma local_dirs: "local_update p u \<Longrightarrow> dirs (u w) = dirs w"
  by (auto simp: local_update_def)

lemma local_exists: "local_update p u \<Longrightarrow> q \<noteq> p \<Longrightarrow> exists (u w) q = exists w q"
  by (simp add: exists_def local_files local_dirs)

lemma local_writable: "local_update p u \<Longrightarrow> writable (u w) = writable w"
  by (simp add: writable_def local_dirs fun_eq_iff)

lemma local_commute:
  assumes "local_update p u" "local_update q v" "p \<noteq> q"
  shows "u (v w) = v (u w)"
proof -
  obtain f g where f: "\<And>w. u w = set_file p (f (writable w p) (files w p)) w"
    and g: "\<And>w. v w = set_file q (g (writable w q) (files w q)) w"
    using assms(1,2) by (auto simp: local_update_def)
  show ?thesis using assms(3) by (simp add: f g set_file_commute)
qed

lemma write_from_io [prog_io]:
  "bindP (write_from p i []) f s = f () s"
  "bindP (write_from p i (ch # cs)) f s = Act (write_at p i ch) (\<lambda>_. bindP (write_from p (Suc i) cs) f s)"
  by (simp_all add: prog_io)

text \<open>Changes that programs on the files of \<open>D\<close> do not see.\<close>

definition foreign :: "path set \<Rightarrow> (world \<Rightarrow> world) \<Rightarrow> bool" where
  "foreign D u \<longleftrightarrow> (\<forall>w. dirs (u w) = dirs w \<and> (\<forall>p \<in> D. files (u w) p = files w p)) \<and>
     (\<forall>p \<in> D. \<forall>v w. local_update p v \<longrightarrow> u (v w) = v (u w))"

lemma foreign_local: "local_update a u \<Longrightarrow> a \<notin> D \<Longrightarrow> foreign D u"
  unfolding foreign_def by (auto simp: local_dirs intro: local_files local_commute)

lemma foreignD:
  assumes "foreign D u"
  shows "dirs (u w) = dirs w" "writable (u w) = writable w" "p \<in> D \<Longrightarrow> files (u w) p = files w p"
    "p \<in> D \<Longrightarrow> exists (u w) p = exists w p" "p \<in> D \<Longrightarrow> local_update p v \<Longrightarrow> u (v w) = v (u w)"
  using assms by (simp_all add: foreign_def exists_def writable_def fun_eq_iff)

lemma indep_write_foreign:
  assumes "foreign D u" "p \<in> D" "\<And>i ch v. c v \<Longrightarrow> c (write_at p i ch v)" "indep c u (f () s)"
  shows "indep c u (bindP (write_from p i cs) f s)"
  using assms by (induction cs arbitrary: i) (auto simp: prog_io intro: foreignD(5) [OF _ _ local_updates(4)])

lemma indep_write:
  assumes "local_update a u" "a \<noteq> p" "\<And>i ch v. c v \<Longrightarrow> c (write_at p i ch v)" "indep c u (f () s)"
  shows "indep c u (bindP (write_from p i cs) f s)"
  using assms by (intro indep_write_foreign [of "{p}"] foreign_local) auto

lemma write_ahead:
  assumes "\<And>i ch. indep c (write_at p i ch) q" "\<And>i ch v. c v \<Longrightarrow> c (write_at p i ch v)"
    and "c w" "files w p = Some pre"
  shows "leads (bindP (write_from p (length pre) cs) f s, q, w) (f () s, q, set_file p (Some (pre @ cs)) w)"
  using assms(3,4)
proof (induction cs arbitrary: w pre)
  case Nil
  then show ?case by (simp add: prog_io set_file_same leads_refl)
next
  case (Cons ch cs)
  let ?w = "set_file p (Some (pre @ [ch])) w"
  have w: "write_at p (length pre) ch w = ?w" using Cons.prems(2) by (simp add: write_at_def put_at_end)
  have "leads (bindP (write_from p (length pre) (ch # cs)) f s, q, w)
      (bindP (write_from p (length (pre @ [ch])) cs) f s, q, ?w)"
    using go_ahead [where c = c and u = "write_at p (length pre) ch" and w = w and q = q and
        p = "bindP (write_from p (length pre) (ch # cs)) f s" and
        p' = "bindP (write_from p (Suc (length pre)) cs) f s", OF _ Cons.prems(1) assms(1)] w
    by (simp add: prog_io)
  moreover have "c ?w" using assms(2) [OF Cons.prems(1), of "length pre" ch] w by simp
  ultimately show ?case using Cons.IH [of ?w "pre @ [ch]"] leads_trans by (simp, blast)
qed

lemma write_ahead_right:
  assumes "\<And>i ch. indep c (write_at p i ch) q" "\<And>i ch v. c v \<Longrightarrow> c (write_at p i ch v)"
    and "c w" "files w p = Some pre"
  shows "leads (q, bindP (write_from p (length pre) cs) f s, w) (q, f () s, set_file p (Some (pre @ cs)) w)"
  using write_ahead [OF assms] by - (rule leads_flip, simp)

lemma indep_remove:
  assumes "local_update a u" "a \<noteq> p" "\<And>v. c v \<Longrightarrow> c (remove_file p v)" "indep c u (f () s)"
  shows "indep c u (bindP (RemovePath p) f s)"
proof -
  have "indep c u (bindP (remove_attempts i p) f s)" for i
    using assms by (induction i) (auto simp: attempts_io local_files throw_io
        simp del: remove_attempts.simps(2) intro: local_commute [OF _ local_updates(3)])
  then show ?thesis by (simp add: RemovePath_def)
qed

lemma save_io [prog_io]:
  "bindP (save_to_file p m) f s = Act (open_inout p) (\<lambda>w.
     if files w p = None \<and> \<not> writable w p then Done (Inl (co_error (''Error opening input file: '' @ p)), s)
     else bindP (write_from p 0 (mBuffer (snd (m (file_ser s []))))) (\<lambda>_. bindP (liftP (fst (m (file_ser s [])))) f) s)"
  by (auto simp: save_to_file_def FileSerializer_def prog_io split_beta split: option.split
      intro!: arg_cong2 [where f = Act] ext)

lemma load_io [prog_io]:
  "bindP (load_from_file p m) f s = Act (open_inout p) (\<lambda>w. case files w p of
     Some content \<Rightarrow> (case m (file_ser s content) of (r, s') \<Rightarrow> bindP (liftP r) f (s\<lparr>c_heap := mHeap s'\<rparr>))
   | None \<Rightarrow> if writable w p
       then (case m (file_ser s []) of (r, s') \<Rightarrow> bindP (liftP r) f (s\<lparr>c_heap := mHeap s'\<rparr>))
       else Done (Inl (co_error (''Error opening input file: '' @ p)), s))"
  by (auto simp: load_from_file_def FileSerializer_def prog_io split_beta split: option.split
      intro!: arg_cong2 [where f = Act] ext)

section \<open>The two halves of an exchange\<close>

definition receive_half :: "path \<Rightarrow> ('x communication_scheme, 'a) prog \<Rightarrow> ('x communication_scheme, 'a) prog" where
  "receive_half p K = thenP (RemovePath (avail p)) (bindP (getP mPartnerInfo) (\<lambda>old.
     bindP (load_from_file p (load_object (Info_load old) ''info'')) (\<lambda>partner.
     thenP (modP (\<lambda>c. c\<lparr>mPartnerInfo := partner\<rparr>)) (thenP (RemovePath p) K))))"

lemma wait_path_fun:
  "bindP (WaitForPath q True) f = (\<lambda>s. Wait (\<lambda>w. exists w (avail q)) (bindP (RemovePath (avail q)) f s))"
  by (simp add: fun_eq_iff wait_path_io)

lemma exchange_io [prog_io]:
  "thenP (exchange_data_for_handshake V p q) K s = Act (\<lambda>w. w) (\<lambda>w. if \<not> exists w p
     then bindP (localP (GetMyInfo V)) (\<lambda>my_info. bindP (save_to_file p (save_object Info_save ''info'' my_info))
        (\<lambda>_. bindP (MakeFileVisible p True) (\<lambda>_ s. Wait (\<lambda>w. exists w (avail q)) (receive_half q K s)))) s
     else Wait (\<lambda>w. \<not> exists w p) (bindP (localP (GetMyInfo V)) (\<lambda>my_info.
        bindP (save_to_file p (save_object Info_save ''info'' my_info))
        (\<lambda>_. bindP (MakeFileVisible p True) (\<lambda>_ s. Wait (\<lambda>w. exists w (avail q)) (receive_half q K s)))) s))"
  unfolding exchange_data_for_handshake_def receive_half_def thenP_def
  by (simp only: bindP_assoc removed_io) (simp only: wait_path_fun)

text \<open>Conditions on files and directories that changes of the files of \<open>A\<close> keep.\<close>

definition keeps_files :: "path set \<Rightarrow> (world \<Rightarrow> bool) \<Rightarrow> bool" where
  "keeps_files A c \<longleftrightarrow> (\<forall>p v w. p \<in> A \<longrightarrow> local_update p v \<longrightarrow> c w \<longrightarrow> c (v w))"

definition about_files :: "path set \<Rightarrow> (world \<Rightarrow> bool) \<Rightarrow> bool" where
  "about_files B c \<longleftrightarrow> (\<forall>v w. (\<forall>p \<in> B. files v p = files w p) \<longrightarrow> dirs v = dirs w \<longrightarrow> c w \<longrightarrow> c v)"

lemma keepsD: "keeps_files A c \<Longrightarrow> p \<in> A \<Longrightarrow> local_update p v \<Longrightarrow> c w \<Longrightarrow> c (v w)"
  by (simp add: keeps_files_def)

lemma aboutD: "about_files B c \<Longrightarrow> (\<And>p. p \<in> B \<Longrightarrow> files v p = files w p) \<Longrightarrow> dirs v = dirs w \<Longrightarrow> c w \<Longrightarrow> c v"
  unfolding about_files_def by blast

definition ends_at_once :: "('s, 'a) prog \<Rightarrow> bool" where
  "ends_at_once K \<longleftrightarrow> (\<forall>s. \<exists>x. K s = Done x)"

text \<open>Programs that do not look at the files of \<open>B\<close> and do not change them.\<close>

definition no_files :: "path set \<Rightarrow> 'a io \<Rightarrow> bool" where
  "no_files B x \<longleftrightarrow> (\<forall>a u c. a \<in> B \<longrightarrow> local_update a u \<longrightarrow> about_files B c \<longrightarrow> indep c u x)"

lemma no_filesD: "no_files B x \<Longrightarrow> a \<in> B \<Longrightarrow> local_update a u \<Longrightarrow> about_files B c \<Longrightarrow> indep c u x"
  unfolding no_files_def by blast

lemma no_files_ends: "ends_at_once K \<Longrightarrow> no_files B (K s)"
  unfolding ends_at_once_def no_files_def by (metis indep.simps(1))

lemma indep_receive:
  assumes "local_update a u" "a \<notin> {p, avail p}" "keeps_files {p, avail p} c"
    and "a \<in> B" "about_files B c" "\<And>s. no_files B (K s)"
  shows "indep c u (receive_half p K s)"
proof -
  have K: "indep c u (bindP (RemovePath p) (\<lambda>_. K) s)" for s
    using assms(1-3) by (intro indep_remove [of a] no_filesD [OF assms(6,4,1,5)]) (auto intro: keepsD)
  have ck: "c v \<Longrightarrow> c (open_inout p v)" for v
    by (rule keepsD [OF assms(3), of p]) simp_all
  show ?thesis
    unfolding receive_half_def thenP_io
  proof (rule indep_remove [of a])
    show "indep c u (bindP (getP mPartnerInfo) (\<lambda>old. bindP (load_from_file p (load_object (Info_load old)
        ''info'')) (\<lambda>partner. bindP (modP (mPartnerInfo_update (\<lambda>_. partner))) (\<lambda>_. bindP (RemovePath p) (\<lambda>_. K)))) s)"
      using assms K ck
      by (auto simp: get_io load_io lift_io mod_io local_files local_writable
          split: option.split sum.split prod.split intro: local_commute [OF _ local_updates(2)])
  qed (use assms in \<open>auto intro: keepsD\<close>)
qed

lemma indep_exchange_foreign:
  assumes "foreign {p, avail p} u"
    and keeps: "\<And>r v w. r \<in> {p, avail p} \<Longrightarrow> local_update r v \<Longrightarrow> c w \<Longrightarrow> c (v w)"
    and blocked: "\<And>w. c w \<Longrightarrow> \<not> exists w (avail q)"
  shows "indep c u (thenP (exchange_data_for_handshake V p q) K s)"
proof -
  have ck: "c v \<Longrightarrow> c (open_inout p v)" "c v \<Longrightarrow> c (open_out (avail p) v)" "c v \<Longrightarrow> c (write_at p i ch v)"
    for v i ch
    using keeps [of p] keeps [of "avail p"] by auto
  have uv: "u (open_inout p v) = open_inout p (u v)" "u (open_out (avail p) v) = open_out (avail p) (u v)" for v
    using foreignD(5) [OF assms(1), where p = p and v = "open_inout p" and w = v]
      foreignD(5) [OF assms(1), where p = "avail p" and v = "open_out (avail p)" and w = v] by auto
  have ex: "exists (u v) p = exists v p" "files (u v) p = files v p" "writable (u v) = writable v" for v
    using foreignD(2-4) [OF assms(1)] by simp_all
  have vis: "indep c u (bindP (MakeFileVisible p True) (\<lambda>_ s. Wait (\<lambda>w. exists w (avail q)) (receive_half q K s)) s)"
    for s
    using ck(2) uv(2) ex(1) blocked by (auto simp: visible_io permissions_io create_file_io)
  have "indep c u (bindP (write_from p i cs) (\<lambda>_. bindP (liftP r) (\<lambda>_. bindP (MakeFileVisible p True)
      (\<lambda>_ s. Wait (\<lambda>w. exists w (avail q)) (receive_half q K s)))) s)" for i cs r s
    using ck(3) vis by (intro indep_write_foreign [OF assms(1)]) (auto simp: lift_io split: sum.split)
  then show ?thesis
    using ck(1) uv(1) ex by (auto simp: exchange_io local_io save_io split: sum.split prod.split)
qed

lemma indep_exchange:
  assumes "local_update a u" "a \<notin> {p, avail p}" "keeps_files {p, avail p} c"
    and "\<And>w. c w \<Longrightarrow> \<not> exists w (avail q)"
  shows "indep c u (thenP (exchange_data_for_handshake V p q) K s)"
  by (rule indep_exchange_foreign [OF foreign_local [OF assms(1,2)]])
     (use assms(3,4) in \<open>auto simp: keeps_files_def\<close>)

lemma lift_fun: "bindP (liftP (Inr x)) f = f x"
  by (simp add: fun_eq_iff lift_io)

section \<open>Going through an exchange\<close>

lemma about_more: "about_files B c \<Longrightarrow> B \<subseteq> B' \<Longrightarrow> about_files B' c"
  unfolding about_files_def by blast

lemma keeps_pair:
  assumes "p \<notin> A" "p' \<notin> A"
  shows "keeps_files A (\<lambda>v. files v p = X \<and> files v p' = Y \<and> dirs v = D)"
    "keeps_files A (\<lambda>v. files v p = X \<and> dirs v = D)"
  using assms local_files local_dirs unfolding keeps_files_def by (auto, (metis | fastforce)+)

lemma about_pair:
  assumes "p \<in> B" "p' \<in> B"
  shows "about_files B (\<lambda>v. files v p = X \<and> files v p' = Y \<and> dirs v = D)" "about_files B (\<lambda>v. files v p = X \<and> dirs v = D)"
  using assms by (auto simp: about_files_def)

definition writes_info :: "('x communication_scheme, 'c) methods \<Rightarrow> 'x communication_scheme \<Rightarrow>
    'x communication_scheme \<Rightarrow> string \<Rightarrow> bool" where
  "writes_info V s s1 out \<longleftrightarrow> (\<exists>i ser. GetMyInfo V s = (Inr i, s1) \<and>
     save_object Info_save ''info'' i (file_ser s1 []) = (Inr (), ser) \<and> mBuffer ser = out)"

definition reads_info :: "'x communication_scheme \<Rightarrow> string \<Rightarrow> 'x communication_scheme \<Rightarrow> bool" where
  "reads_info s content s1 \<longleftrightarrow> (\<exists>i ser.
     load_object (Info_load (mPartnerInfo s)) ''info'' (file_ser s content) = (Inr i, ser) \<and>
     s1 = s\<lparr>c_heap := mHeap ser, mPartnerInfo := i\<rparr>)"

lemma send_half:
  assumes "free_path w p" "free_path w (avail p)" "{p, avail p} \<inter> {q, avail q} = {}" "p \<noteq> avail p"
    and "writes_info V s s1 out"
    and Q: "\<And>a u c. local_update a u \<Longrightarrow> a \<in> {p, avail p} \<Longrightarrow> keeps_files {q, avail q} c \<Longrightarrow>
      (\<And>v. c v \<Longrightarrow> \<not> exists v (avail p)) \<Longrightarrow> indep c u Q"
  shows "leads (thenP (exchange_data_for_handshake V p q) K s, Q, w)
    (Wait (\<lambda>w. exists w (avail q)) (receive_half q K s1), Q,
     set_file (avail p) (Some []) (set_file p (Some out) w))"
proof -
  let ?c = "\<lambda>X v. files v p = X \<and> files v (avail p) = None \<and> dirs v = dirs w"
  let ?e = "\<lambda>v. files v (avail p) = None \<and> dirs v = dirs w"
  let ?vis = "\<lambda>_. bindP (MakeFileVisible p True) (\<lambda>_ s. Wait (\<lambda>w. exists w (avail q)) (receive_half q K s))"
  obtain i ser where i: "GetMyInfo V s = (Inr i, s1)" and ser: "mBuffer ser = out"
    "save_object Info_save ''info'' i (file_ser s1 []) = (Inr (), ser)"
    using assms(5) by (auto simp: writes_info_def)
  let ?B = "bindP (save_to_file p (save_object Info_save ''info'' i)) ?vis s1"
  let ?W = "bindP (write_from p 0 out) ?vis s1"
  have d: "\<not> dirs w p" "\<not> dirs w (avail p)" "writable w p" "writable w (avail p)"
    and n: "files w p = None" "files w (avail p) = None"
    using assms(1,2) by (auto simp: free_path_def writable_def)
  have wr: "dirs v = dirs w \<Longrightarrow> writable v p" "dirs v = dirs w \<Longrightarrow> writable v (avail p)" for v
    using d(3,4) by (simp_all add: writable_def)
  have qc: "indep (?c X) u Q" "indep ?e u Q" if "local_update a u" "a \<in> {p, avail p}" for a u X
    using that d assms(3)
    by (intro Q [OF that] keeps_pair; auto simp: exists_def)+
  have wa: "files (write_at p i ch v) (avail p) = files v (avail p)" "dirs (write_at p i ch v) = dirs v"
    for i ch v
    using assms(4) local_files [OF local_updates(4)] local_dirs [OF local_updates(4)] by auto
  have "leads (thenP (exchange_data_for_handshake V p q) K s, Q, w) (?B, Q, w)"
    using go_ahead [where c = "?c None" and u = "\<lambda>v. v" and p' = ?B and w = w and q = Q and
        p = "thenP (exchange_data_for_handshake V p q) K s"] n d qc(1) [of p "\<lambda>v. v"]
    by (auto simp: exchange_io local_io i exists_def)
  also have "leads (?B, Q, w) (?W, Q, set_file p (Some []) w)"
    using go_ahead [where c = "?c None" and u = "open_inout p" and p' = ?W and w = w and q = Q and p = ?B]
      n d qc(1) [of p "open_inout p"] wr
    by (simp add: save_io ser lift_fun open_inout_def open_out_writable)
  also have "leads (?W, Q, set_file p (Some []) w) (?vis () s1, Q, set_file p (Some out) w)"
    using write_ahead [where c = ?e and q = Q and p = p and w = "set_file p (Some []) w" and pre = "[]"
        and cs = out and f = ?vis and s = s1] qc(2) [of p] n assms(4) by (simp add: wa)
  also have "leads (?vis () s1, Q, set_file p (Some out) w) (Act (open_out (avail p))
      (\<lambda>_. Wait (\<lambda>w. exists w (avail q)) (receive_half q K s1)), Q, set_file p (Some out) w)"
    using go_ahead [where c = "?c (Some out)" and u = "\<lambda>v. v" and w = "set_file p (Some out) w" and q = Q
        and p = "?vis () s1" and p' = "Act (open_out (avail p)) (\<lambda>_. Wait (\<lambda>w. exists w (avail q))
          (receive_half q K s1))"] n qc(1) [of p "\<lambda>v. v" "Some out"] assms(4)
    by (auto simp: visible_io permissions_io create_file_io exists_def)
  also have "leads \<dots> (Wait (\<lambda>w. exists w (avail q)) (receive_half q K s1), Q,
      open_out (avail p) (set_file p (Some out) w))"
    using go_ahead [where c = "?c (Some out)" and u = "open_out (avail p)" and w = "set_file p (Some out) w"
        and q = Q and p = "Act (open_out (avail p)) (\<lambda>_. Wait (\<lambda>w. exists w (avail q)) (receive_half q K s1))"
        and p' = "Wait (\<lambda>w. exists w (avail q)) (receive_half q K s1)"]
      n qc(1) [of "avail p" "open_out (avail p)" "Some out"] assms(4) by auto
  finally show ?thesis using d by (simp add: open_out_writable)
qed

lemma receive_half_ahead:
  assumes "files w (avail q) \<noteq> None" "files w q = Some content" "q \<noteq> avail q"
    "{p, avail p} \<inter> {q, avail q} = {}" and "reads_info s content s1"
    and Q: "\<And>a u c. local_update a u \<Longrightarrow> a \<in> {q, avail q} \<Longrightarrow> keeps_files {p, avail p} c \<Longrightarrow>
      about_files {q, avail q} c \<Longrightarrow> indep c u Q"
  shows "leads (Wait (\<lambda>w. exists w (avail q)) (receive_half q K s), Q, w)
    (K s1, Q, set_file q None (set_file (avail q) None w))"
proof -
  let ?c = "\<lambda>X Y v. files v q = X \<and> files v (avail q) = Y \<and> dirs v = dirs w"
  obtain y where y: "files w (avail q) = Some y" using assms(1) by auto
  obtain i ser where r: "load_object (Info_load (mPartnerInfo s)) ''info'' (file_ser s content) = (Inr i, ser)"
    and s1: "s1 = s\<lparr>c_heap := mHeap ser, mPartnerInfo := i\<rparr>"
    using assms(5) by (auto simp: reads_info_def)
  have qc: "indep (?c X Y) u Q" if "local_update a u" "a \<in> {q, avail q}" for a u X Y
    using that assms(4) by (intro Q [OF that] keeps_pair about_pair; auto)+
  let ?K = "\<lambda>s1. bindP (RemovePath q) (\<lambda>_. K) s1"
  let ?L = "Act (open_inout q) (\<lambda>v. case files v q of
      Some cs \<Rightarrow> (case load_object (Info_load (mPartnerInfo s)) ''info'' (file_ser s cs) of
        (r, s') \<Rightarrow> bindP (liftP r) (\<lambda>i. bindP (modP (mPartnerInfo_update (\<lambda>_. i))) (\<lambda>_. bindP (RemovePath q) (\<lambda>_. K)))
          (s\<lparr>c_heap := mHeap s'\<rparr>))
    | None \<Rightarrow> if writable v q then (case load_object (Info_load (mPartnerInfo s)) ''info'' (file_ser s []) of
        (r, s') \<Rightarrow> bindP (liftP r) (\<lambda>i. bindP (modP (mPartnerInfo_update (\<lambda>_. i))) (\<lambda>_. bindP (RemovePath q) (\<lambda>_. K)))
          (s\<lparr>c_heap := mHeap s'\<rparr>))
      else Done (Inl (co_error (''Error opening input file: '' @ q)), s))"
  let ?w = "remove_file (avail q) w"
  have acc: "access (receive_half q K s) v = Some (?L, remove_file (avail q) v)"
    if "files v (avail q) = Some y" for v
    using that by (simp add: receive_half_def remove_io thenP_io get_io load_io)
  have "leads (Wait (\<lambda>w. exists w (avail q)) (receive_half q K s), Q, w) (receive_half q K s, Q, w)"
    using go_ahead [where c = "?c (Some content) (Some y)" and u = "\<lambda>v. v" and q = Q and w = w
        and p = "Wait (\<lambda>w. exists w (avail q)) (receive_half q K s)" and p' = "receive_half q K s"]
      y assms(2) qc [of q "\<lambda>v. v"] by (simp add: exists_def)
  also have "leads (receive_half q K s, Q, w) (?L, Q, ?w)"
    using go_ahead [where c = "?c (Some content) (Some y)" and u = "remove_file (avail q)" and q = Q
        and w = w and p = "receive_half q K s" and p' = ?L]
      y assms(2) qc [of "avail q" "remove_file (avail q)"]
    by (simp add: acc)
  also have "leads (?L, Q, ?w) (?K s1, Q, ?w)"
    using go_ahead [where c = "?c (Some content) None" and u = "open_inout q" and q = Q
        and w = ?w and p = ?L and p' = "?K s1"]
      assms(2,3) qc [of q "open_inout q"] r s1
    by (simp add: lift_io mod_io open_inout_def remove_file_def [of "avail q"])
  also have "leads (?K s1, Q, ?w) (K s1, Q, remove_file q ?w)"
    using go_ahead [where c = "?c (Some content) None" and u = "remove_file q" and q = Q
        and w = ?w and p = "?K s1" and p' = "K s1"]
      assms(2,3) qc [of q "remove_file q"]
    by (simp add: remove_io remove_file_def [of "avail q"])
  finally show ?thesis by (simp add: remove_file_set)
qed

text \<open>
  The handshake: whoever is first, each side ends up with what the other one has written.
\<close>

lemma exchange_leads:
  assumes "sync_ready p q w" "writes_info V s s1 out_s" "writes_info V' t t1 out_t"
    and "reads_info s1 out_t s2" "reads_info t1 out_s t2"
    and "\<And>B s. B = {p, avail p, q, avail q} \<Longrightarrow> no_files B (KP s)" "\<And>B s. B = {p, avail p, q, avail q} \<Longrightarrow> no_files B (KQ s)"
  shows "leads (thenP (exchange_data_for_handshake V p q) KP s,
      thenP (exchange_data_for_handshake V' q p) KQ t, w) (KP s2, KQ t2, w)"
proof -
  note f = sync_ready_facts [OF assms(1)]
  have free: "free_path w p" "free_path w (avail p)" "free_path w q" "free_path w (avail q)"
    and n: "p \<noteq> q" "p \<noteq> avail p" "p \<noteq> avail q" "q \<noteq> avail p" "q \<noteq> avail q" "avail p \<noteq> avail q"
    using assms(1) by (auto simp: sync_ready_def)
  then have dis: "{p, avail p} \<inter> {q, avail q} = {}" "{q, avail q} \<inter> {p, avail p} = {}" by auto
  let ?w1 = "set_file (avail p) (Some []) (set_file p (Some out_s) w)"
  let ?w2 = "set_file (avail q) (Some []) (set_file q (Some out_t) ?w1)"
  let ?P = "Wait (\<lambda>w. exists w (avail q)) (receive_half q KP s1)"
  let ?Q = "Wait (\<lambda>w. exists w (avail p)) (receive_half p KQ t1)"
  let ?w3 = "set_file q None (set_file (avail q) None ?w2)"
  have "leads (thenP (exchange_data_for_handshake V p q) KP s, thenP (exchange_data_for_handshake V' q p) KQ t, w)
      (?P, thenP (exchange_data_for_handshake V' q p) KQ t, ?w1)"
    by (rule send_half [OF free(1,2) dis(1) n(2) assms(2)])
       (rule indep_exchange, assumption, use n in auto)
  also have "leads \<dots> (?P, ?Q, ?w2)"
  proof (rule leads_flip, unfold flip_simps, rule send_half [OF _ _ dis(2) n(5) assms(3)])
    show "free_path ?w1 q" "free_path ?w1 (avail q)" using free n by (simp_all add: free_path_def)
  qed simp
  also have "leads (?P, ?Q, ?w2) (KP s2, ?Q, ?w3)"
  proof (rule receive_half_ahead [OF _ _ n(5) dis(1) assms(4)])
    fix a u and c :: "world \<Rightarrow> bool"
    assume a: "local_update a u" "a \<in> {q, avail q}" "keeps_files {p, avail p} c" "about_files {q, avail q} c"
    have "about_files {p, avail p, q, avail q} c" using a(4) by (rule about_more) simp
    then have "indep c u (receive_half p KQ t1)"
      using a n by (intro indep_receive [of a _ _ _ "{p, avail p, q, avail q}"] assms(7)) auto
    then show "indep c u ?Q" using a n by (auto simp: local_exists)
  qed (use n in simp_all)
  also have "leads (KP s2, ?Q, ?w3) (KP s2, KQ t2, set_file p None (set_file (avail p) None ?w3))"
  proof (rule leads_flip, unfold flip_simps, rule receive_half_ahead [OF _ _ n(2) dis(2) assms(5)])
    show "files ?w3 (avail p) \<noteq> None" "files ?w3 p = Some out_s" using n by simp_all
    fix a u and c :: "world \<Rightarrow> bool"
    assume a: "local_update a u" "a \<in> {p, avail p}" "about_files {p, avail p} c"
    have "about_files {p, avail p, q, avail q} c" using a(3) by (rule about_more) simp
    then show "indep c u (KP s2)" using a by (intro no_filesD [OF assms(6) [OF refl]]) auto
  qed
  also have "set_file p None (set_file (avail p) None ?w3) = w"
    using f n by (intro world_files_eq) (auto simp: fun_eq_iff)
  finally show ?thesis .
qed

end
