(* ===== verification/HandshakeInfo.thy ===== *)
theory HandshakeInfo
  imports FileCommunication HandshakeProtocol InfoRoundTrip
begin

text \<open>
  What the partners tell each other in the handshake of the file communication: the entries of
  \<open>GetMyInfo\<close>, that they survive the serializer in every trace mode, and what the checks for
  compatibility find in them.
\<close>

section \<open>The entries\<close>

text \<open>
  \<open>st\<close> are the settings of the derived class, kept under the address \<open>a\<close>; the other entries are allocated
  from \<open>h\<close> on.
\<close>

definition own_entries :: "string \<Rightarrow> addr \<Rightarrow> info \<Rightarrow> addr \<Rightarrow> 'x communication_scheme \<Rightarrow> info" where
  "own_entries name a st h c =
     [(''always_use_serializer'', h + 8, DBool (mAlwaysUseSerializer c)),
      (''communication_format'', h + 4, DString name),
      (''communication_settings'', a, DInfo st),
      (''is_big_endian'', h + 7, DBool (IsBigEndian (machine_big_endian (plat (c_machine c))))),
      (''num_processes'', h + 6, DInt (word_of_nat (c_size c))),
      (''operating_system'', h + 5, DString GetOsName),
      (''primary_was_explicitly_specified'', h + 3, DBool (mPrimaryWasExplicitlySpecified c)),
      (''serializer_trace_type'', h + 9, DString (TraceTypeToString (mSerializerTraceType c))),
      (''version_major'', h, DInt GetMajorVersion),
      (''version_minor'', h + 1, DInt GetMinorVersion),
      (''version_patch'', h + 2, DString GetPatchVersion)]"

lemma GetMyInfo_own:
  assumes "GetCommunicationSettings V (c\<lparr>c_heap := c_heap c + 10\<rparr>) = (Inr st, c\<lparr>c_heap := a\<rparr>)"
  shows "GetMyInfo V c = (Inr (own_entries (GetCommunicationName V) a st (c_heap c) c), c\<lparr>c_heap := a + 1\<rparr>)"
  using assms
  by (simp add: GetMyInfo_def cpp_defs new_info_def set_entries_def Info_new_def Info_Set_def own_entries_def add.assoc)

lemma own_entries_wf: "info_wf st \<Longrightarrow> info_wf (own_entries name a st h c)"
  by (simp add: own_entries_def info_wf_def smap_wf_def)

lemma own_entries_distinct:
  assumes "distinct ([a, h, h + 1, h + 2, h + 3, h + 4, h + 5, h + 6, h + 7, h + 8, h + 9] @ entries_addrs st)"
  shows "distinct (entries_addrs (own_entries name a st h c))"
  using assms by (auto simp: own_entries_def)

lemma string_good_trace: "string_good T (TraceTypeToString t)"
  by (cases t) (simp_all add: string_good_def quote_def TraceTypeToString_def)

lemma own_entries_good:
  "data_good P T (DInfo st) \<Longrightarrow> string_good T name \<Longrightarrow> data_good P T (DInfo (own_entries name a st h c))"
  by (simp add: own_entries_def string_good_trace GetOsName_def GetPatchVersion_def)
     (simp add: string_good_def quote_def)

text \<open>The settings of the communication through files.\<close>

definition settings_entries :: "addr \<Rightarrow> file_communication \<Rightarrow> info" where
  "settings_entries h c =
     [(''use_aux_file_for_file_availability'', h + 10, DBool (mUseAuxFileForFileAvailability c)),
      (''use_file_serializer'', h + 11, DBool (mUseFileSerializer c))]"

abbreviation my_entries :: "addr \<Rightarrow> file_communication \<Rightarrow> info" where
  "my_entries h c \<equiv> own_entries ''file'' (h + 12) (settings_entries h c) h c"

lemma GetMyInfo_file:
  "GetMyInfo (file_methods K) c = (Inr (my_entries (c_heap c) c), c\<lparr>c_heap := c_heap c + 13\<rparr>)"
proof -
  have "GetCommunicationSettings (file_methods K) (c\<lparr>c_heap := c_heap c + 10\<rparr>) =
      (Inr (settings_entries (c_heap c) c), c\<lparr>c_heap := c_heap c + 12\<rparr>)"
    by (simp add: file_methods_def File_GetCommunicationSettings_def new_info_def set_entries_def Info_new_def
        Info_Set_def settings_entries_def add.assoc)
  from GetMyInfo_own [OF this] show ?thesis by (simp add: file_methods_def add.assoc)
qed

lemma my_entries_wf: "info_wf (my_entries h c)"
  by (rule own_entries_wf) (simp add: settings_entries_def info_wf_def smap_wf_def)

lemma my_entries_distinct: "distinct (entries_addrs (my_entries h c))"
  by (rule own_entries_distinct) (auto simp: settings_entries_def)

lemma my_entries_good: "data_good P T (DInfo (my_entries h c))"
  by (rule own_entries_good) (simp_all add: settings_entries_def, simp_all add: string_good_def quote_def)

section \<open>Reading the values\<close>

lemma find_value: "smap_find (entries_value m) k = map_option (\<lambda>(a, d). (0, data_value d)) (smap_find m k)"
  proof (induction m)
  case (Cons e m)
  then show ?case by (cases e) auto
qed simp

lemma data_value_type [simp]: "data_type (data_value d) = data_type d" "GetDataTypeName (data_value d) = GetDataTypeName d"
  by (cases d; simp add: GetDataTypeName_def)+

lemma Info_Get_value: "Info_Get t (entries_value m) k = bindR (Info_Get t m k) (\<lambda>d. Inr (data_value d))"
  by (auto simp: Info_Get_def Info_Has_def GetExistingKey_def find_value bindR_def split: option.splits)

lemma get_value:
  "get_int (entries_value m) k = get_int m k" "get_size (entries_value m) k = get_size m k"
  "get_double (entries_value m) k = get_double m k" "get_bool (entries_value m) k = get_bool m k"
  "get_string (entries_value m) k = get_string m k"
  "get_info (entries_value m) k = bindR (get_info m k) (\<lambda>n. Inr (entries_value n))"
  by (auto simp: get_int_def get_size_def get_double_def get_bool_def get_string_def get_info_def
      Info_Get_value bindR_def split: sum.split info_data.split)

section \<open>What the handshake writes and reads\<close>

definition info_text :: "'x communication_scheme \<Rightarrow> info \<Rightarrow> string" where
  "info_text c m = (let P = plat (c_machine c); T = mSerializerTraceType c in tag_out P T ''info'' @ info_out P T m)"

lemma file_ser_simps:
  "mPlatform (file_ser c s) = plat (c_machine c)" "mTrace (file_ser c s) = mSerializerTraceType c"
  "mBuffer (file_ser c s) = s" "mSavedPointers (file_ser c s) = {}" "mLoadedPointers (file_ser c s) = Map.empty"
  "reg_start (file_ser c s :: info_data ser)"
  by (simp_all add: file_ser_def StreamSerializer_def reg_start_def)

text \<open>An \<open>Info\<close> under a tag, through a file.\<close>

lemma info_saved:
  assumes "distinct (entries_addrs m)"
  shows "\<exists>ser. save_object Info_save tag m (file_ser c [] :: info_data ser) = (Inr (), ser) \<and>
     mBuffer ser = (let P = plat (c_machine c); T = mSerializerTraceType c in tag_out P T tag @ info_out P T m)"
proof -
  let ?P = "plat (c_machine c)" and ?T = "mSerializerTraceType c"
  let ?s = "file_ser c [] :: info_data ser"
  let ?s1 = "?s\<lparr>mBuffer := tag_out ?P ?T tag\<rparr>"
  have tag: "save_trace_point tag ?s = (Inr (), ?s1)"
    using writes_tag [of tag ?P ?T, unfolded writes_def, rule_format, of ?s] by (simp add: file_ser_simps)
  have "reg_start ?s1" using file_ser_simps(6) [of c "[]"] by (simp add: reg_start_def reg_ok_def)
  then have "\<exists>t. Info_save m ?s1 = (Inr (), t) \<and> mBuffer t = tag_out ?P ?T tag @ info_out ?P ?T m"
    using Info_save_out [of m ?s1] assms by (simp add: file_ser_simps)
  then show ?thesis using tag by (auto simp: save_object_def thenE_def bindE_def Let_def)
qed

lemma info_loaded_rest:
  assumes "info_wf m" "distinct (entries_addrs m)" "data_good P T (DInfo m)"
    and "P = plat (c_machine c)" "T = mSerializerTraceType c" "quote \<notin> set tag"
  obtains i t where "load_object (Info_load []) tag (file_ser c (tag_out P T tag @ info_out P T m @ rest)) = (Inr i, t)"
    "entries_value i = entries_value m"
proof -
  let ?s = "file_ser c (tag_out P T tag @ info_out P T m @ rest) :: info_data ser"
  have b: "mBuffer ?s = [] @ tag_out P T tag @ info_out P T m @ rest" by (simp add: file_ser_simps)
  have pt: "mPlatform ?s = P" "mTrace ?s = T" using assms(4,5) by (simp_all add: file_ser_simps)
  obtain g n where g: "g \<in> {[], gap T}"
    "load_trace_point tag ?s = (Inr (), ?s\<lparr>mBuffer := g @ info_out P T m @ rest, mNumberOfLines := n\<rparr>)"
    using readsD [OF reads_tag [OF assms(6)] pt _ b] by auto
  let ?t = "?s\<lparr>mBuffer := g @ info_out P T m @ rest, mNumberOfLines := n\<rparr>"
  have "reg_start ?t" using file_ser_simps(6) [of c] by (simp add: reg_start_def reg_ok_def)
  then obtain i t where "entries_value i = entries_value m" "Info_load [] ?t = (Inr i, t)"
    using Info_load_out [OF assms(1-3), of ?t g rest] g(1) pt by (auto simp: file_ser_simps)
  then show ?thesis using that g(2) by (simp add: load_object_def thenE_def bindE_def)
qed

lemma info_loaded:
  assumes "info_wf m" "distinct (entries_addrs m)" "data_good P T (DInfo m)"
    and "P = plat (c_machine c)" "T = mSerializerTraceType c" "quote \<notin> set tag"
  obtains i t where "load_object (Info_load []) tag (file_ser c (tag_out P T tag @ info_out P T m)) = (Inr i, t)"
    "entries_value i = entries_value m"
  using info_loaded_rest [OF assms, of "[]"] by auto

lemma writes_own_info:
  assumes "GetMyInfo V c = (Inr m, c\<lparr>c_heap := h\<rparr>)" "distinct (entries_addrs m)"
  shows "writes_info V c (c\<lparr>c_heap := h\<rparr>) (info_text c m)"
  using info_saved [OF assms(2), of "''info''" "c\<lparr>c_heap := h\<rparr>"] assms(1)
  by (auto simp: writes_info_def info_text_def Let_def)

lemma reads_own_info:
  assumes "mPartnerInfo s = []" "plat (c_machine s) = plat (c_machine c)" "mSerializerTraceType s = mSerializerTraceType c"
    and "info_wf m" "distinct (entries_addrs m)" "data_good (plat (c_machine c)) (mSerializerTraceType c) (DInfo m)"
  obtains h i where "reads_info (s\<lparr>c_heap := k\<rparr>) (info_text c m) (s\<lparr>c_heap := h, mPartnerInfo := i\<rparr>)"
    "entries_value i = entries_value m"
proof -
  have q: "quote \<notin> set ''info''" by (simp add: quote_def)
  have e: "plat (c_machine c) = plat (c_machine (s\<lparr>c_heap := k\<rparr>))"
    "mSerializerTraceType c = mSerializerTraceType (s\<lparr>c_heap := k\<rparr>)" using assms(2,3) by simp_all
  obtain i t where i: "load_object (Info_load []) ''info'' (file_ser (s\<lparr>c_heap := k\<rparr>) (info_text c m)) = (Inr i, t)"
    "entries_value i = entries_value m"
    using info_loaded [OF assms(4-6) e q] unfolding info_text_def Let_def by blast
  then have "reads_info (s\<lparr>c_heap := k\<rparr>) (info_text c m) (s\<lparr>c_heap := mHeap t, mPartnerInfo := i\<rparr>)"
    using assms(1) by (simp add: reads_info_def)
  then show ?thesis using i(2) that by blast
qed

section \<open>The checks\<close>

definition base_match :: "'x communication_scheme \<Rightarrow> 'y communication_scheme \<Rightarrow> bool" where
  "base_match s t \<longleftrightarrow>
     mPrimaryWasExplicitlySpecified s = mPrimaryWasExplicitlySpecified t \<and>
     (word_of_nat (c_size s) :: i32) = word_of_nat (c_size t) \<and>
     mAlwaysUseSerializer s = mAlwaysUseSerializer t"

lemma get_own_entries:
  "get_int (own_entries name a st h c) ''version_major'' = Inr GetMajorVersion"
  "get_int (own_entries name a st h c) ''version_minor'' = Inr GetMinorVersion"
  "get_bool (own_entries name a st h c) ''primary_was_explicitly_specified'' = Inr (mPrimaryWasExplicitlySpecified c)"
  "get_string (own_entries name a st h c) ''communication_format'' = Inr name"
  "get_string (own_entries name a st h c) ''operating_system'' = Inr GetOsName"
  "get_int (own_entries name a st h c) ''num_processes'' = Inr (word_of_nat (c_size c))"
  "get_bool (own_entries name a st h c) ''always_use_serializer'' = Inr (mAlwaysUseSerializer c)"
  "get_string (own_entries name a st h c) ''serializer_trace_type'' = Inr (TraceTypeToString (mSerializerTraceType c))"
  "get_bool (own_entries name a st h c) ''is_big_endian'' = Inr (IsBigEndian (machine_big_endian (plat (c_machine c))))"
  "get_info (own_entries name a st h c) ''communication_settings'' = Inr st"
  by (simp_all add: own_entries_def get_int_def get_bool_def get_string_def get_info_def
      Info_Get_def Info_Has_def GetExistingKey_def GetDataTypeName_def bindR_def)

lemma get_settings_entries:
  "get_bool (settings_entries h c) ''use_aux_file_for_file_availability'' = Inr (mUseAuxFileForFileAvailability c)"
  "get_bool (settings_entries h c) ''use_file_serializer'' = Inr (mUseFileSerializer c)"
  by (simp_all add: settings_entries_def get_bool_def Info_Get_def Info_Has_def GetExistingKey_def GetDataTypeName_def bindR_def)

lemma get_same_value:
  assumes "entries_value i = entries_value m"
  shows "get_int i k = get_int m k" "get_bool i k = get_bool m k" "get_string i k = get_string m k"
    "get_info m k = Inr n \<Longrightarrow> \<exists>n'. get_info i k = Inr n' \<and> entries_value n' = entries_value n"
  using get_value [of i k] get_value [of m k] assms
  by (auto simp: bindR_def split: sum.splits)

lemma check_partner_finds:
  assumes i: "entries_value (mPartnerInfo c) = entries_value (own_entries name a st h t)"
    and T: "mSerializerTraceType c = mSerializerTraceType t"
  shows "base_match c t \<Longrightarrow> GetCommunicationName V = name \<Longrightarrow> check_partner V c = Inr ()"
    "\<not> (base_match c t \<and> GetCommunicationName V = name) \<Longrightarrow> \<exists>msg. check_partner V c = Inl (CoSimError msg)"
proof -
  note g = get_same_value(1-3) [OF i] get_own_entries
  note d = check_partner_def check_version_def check_primary_def check_format_def check_processes_def
    check_always_def check_trace_def mismatch_def co_error_def
  show "base_match c t \<Longrightarrow> GetCommunicationName V = name \<Longrightarrow> check_partner V c = Inr ()"
    using T by (simp add: d g base_match_def)
  show "\<not> (base_match c t \<and> GetCommunicationName V = name) \<Longrightarrow> \<exists>msg. check_partner V c = Inl (CoSimError msg)"
    using T by (auto simp: d g base_match_def bindR_def)
qed

definition settings_match :: "file_communication \<Rightarrow> file_communication \<Rightarrow> bool" where
  "settings_match s t \<longleftrightarrow> base_match s t \<and>
     mUseAuxFileForFileAvailability s = mUseAuxFileForFileAvailability t \<and>
     mUseFileSerializer s = mUseFileSerializer t"

definition file_check :: "file_communication \<Rightarrow> error + unit" where
  "file_check c = bindR (check_setting ''use_aux_file_for_file_availability''
      (mUseAuxFileForFileAvailability c) (mPartnerInfo c) aux_note) (\<lambda>_.
    check_setting ''use_file_serializer'' (mUseFileSerializer c) (mPartnerInfo c) [])"

lemma checks_find:
  assumes i: "entries_value (mPartnerInfo c) = entries_value (my_entries h t)"
    and T: "mSerializerTraceType c = mSerializerTraceType t"
  shows "settings_match c t \<Longrightarrow> bindR (check_partner (file_methods K) c) (\<lambda>_. file_check c) = Inr ()"
    "\<not> settings_match c t \<Longrightarrow> \<exists>msg. bindR (check_partner (file_methods K) c) (\<lambda>_. file_check c) = Inl (CoSimError msg)"
proof -
  obtain n where n: "get_info (mPartnerInfo c) ''communication_settings'' = Inr n"
    "entries_value n = entries_value (settings_entries h t)"
    using get_same_value(4) [OF i get_own_entries(10)] by blast
  note d = file_check_def check_setting_def mismatch_def co_error_def n(1) get_same_value(2) [OF n(2)] get_settings_entries
  have V: "GetCommunicationName (file_methods K) = ''file''" by (simp add: file_methods_def)
  note base = check_partner_finds [OF i T, where V = "file_methods K", unfolded V]
  show "settings_match c t \<Longrightarrow> bindR (check_partner (file_methods K) c) (\<lambda>_. file_check c) = Inr ()"
    using base(1) by (simp add: d settings_match_def)
  assume "\<not> settings_match c t"
  then show "\<exists>msg. bindR (check_partner (file_methods K) c) (\<lambda>_. file_check c) = Inl (CoSimError msg)"
    using base by (cases "base_match c t") (auto simp: d settings_match_def bindR_def)
qed

end
