(* ===== verification/FileNames.thy ===== *)
theory FileNames
  imports HandshakeInfo
begin

text \<open>
  The names of the files of a communication: they are distinct, none is the auxiliary file of another,
  and where they are placed, in the folder of the connection or in the current directory, they can be
  created.
\<close>

section \<open>Placing a name\<close>

definition place :: "'x communication_scheme \<Rightarrow> string \<Rightarrow> path" where
  "place c x = (if mCommInFolder c then join_path (mCommFolder c) x else x)"

definition folder_ok :: "'x communication_scheme \<Rightarrow> bool" where
  "folder_ok c \<longleftrightarrow> (mCommInFolder c \<longrightarrow> mCommFolder c \<noteq> [] \<and> last (mCommFolder c) \<noteq> slash)"

definition comm_dir :: "world \<Rightarrow> 'x communication_scheme \<Rightarrow> bool" where
  "comm_dir w c \<longleftrightarrow> (mCommInFolder c \<longrightarrow> dirs w (mCommFolder c))"

lemma GetFileName_place: "GetFileName c p e = place c (p @ ''.'' @ e)"
  by (simp add: GetFileName_def place_def)

lemma place_inj [simp]: "place c x = place c y \<longleftrightarrow> x = y"
  by (auto simp: place_def join_path_def)

lemma avail_place: "folder_ok c \<Longrightarrow> avail (place c x) = place c (x @ ''.avail'')"
  by (auto simp: place_def join_path_def avail_def folder_ok_def)

lemma parent_join: "slash \<notin> set x \<Longrightarrow> parent_path (a @ slash # x) = a"
proof -
  assume "slash \<notin> set x"
  then have "dropWhile (\<lambda>c. c \<noteq> slash) (rev x @ slash # rev a) = slash # rev a"
    by (subst dropWhile_append2) auto
  then show ?thesis by (simp add: parent_path_def)
qed

lemma parent_place:
  assumes "folder_ok c" "slash \<notin> set x"
  shows "parent_path (place c x) = (if mCommInFolder c then mCommFolder c else [])"
  using assms parent_join [of x] by (auto simp: place_def join_path_def folder_ok_def parent_path_def)

lemma writable_place:
  assumes "folder_ok c" "slash \<notin> set x" "comm_dir w c"
  shows "writable w (place c x) \<longleftrightarrow> \<not> dirs w (place c x)"
  using assms by (auto simp: writable_def parent_place comm_dir_def)

lemma free_place:
  assumes "folder_ok c" "slash \<notin> set x" "comm_dir w c" "\<not> exists w (place c x)"
  shows "free_path w (place c x)"
  using assms by (simp add: free_path_def writable_place exists_def)

section \<open>The files of a communication\<close>

definition own_name :: "string \<Rightarrow> bool" where
  "own_name x \<longleftrightarrow> slash \<notin> set x \<and> (starts_with x ''CoSimIO_'' \<or> starts_with x ''.CoSimIO_'')"

text \<open>Neither a file of the communication nor a temporary one is there.\<close>

definition clean :: "world \<Rightarrow> 'x communication_scheme \<Rightarrow> bool" where
  "clean w c \<longleftrightarrow> comm_dir w c \<and> (\<forall>x. own_name x \<longrightarrow> \<not> exists w (place c x))"

lemma clean_free: "clean w c \<Longrightarrow> folder_ok c \<Longrightarrow> own_name x \<Longrightarrow> free_path w (place c x)"
  by (intro free_place) (auto simp: clean_def own_name_def)

lemma own_names:
  assumes "slash \<notin> set n" "slash \<notin> set m"
  shows "own_name (''CoSimIO_primary_'' @ n @ ''_'' @ m)" "own_name (''CoSimIO_secondary_'' @ n @ ''_'' @ m)"
    "own_name (''CoSimIO_'' @ n @ m)" "own_name (''CoSimIO_data_'' @ n @ ''_'' @ m)"
    "own_name (''.CoSimIO_data_'' @ n @ ''_'' @ m)"
  using assms by (simp_all add: own_name_def slash_def)

lemma sync_names:
  assumes "clean w c" "folder_ok c" "slash \<notin> set (mConnectionName c)" "slash \<notin> set tag"
  shows "sync_ready (primary_sync c tag) (secondary_sync c tag) w"
proof -
  note o = own_names [OF assms(3)]
  have f: "free_path w (place c (''CoSimIO_primary_'' @ mConnectionName c @ ''_'' @ tag @ x))"
    "free_path w (place c (''CoSimIO_secondary_'' @ mConnectionName c @ ''_'' @ tag @ x))"
    if "slash \<notin> set x" for x
    using o [of "tag @ x"] that assms(4) by (intro clean_free [OF assms(1,2)]; simp)+
  show ?thesis
    using f [of "''.sync''"] f [of "''.sync.avail''"]
    by (simp add: sync_ready_def primary_sync_def secondary_sync_def GetFileName_place avail_place [OF assms(2)]
        slash_def)
qed

lemma handshake_names:
  assumes "clean w c" "folder_ok c" "slash \<notin> set (mConnectionName c)"
  shows "sync_ready (file_name_p2s c) (file_name_s2p c) w"
proof -
  have f: "free_path w (place c (''CoSimIO_'' @ mConnectionName c @ x))" if "slash \<notin> set x" for x
    using own_names(3) [OF assms(3), of x] that by (intro clean_free [OF assms(1,2)]) simp
  show ?thesis
    using f [of "''_compatibility_check_primary_to_secondary.dat''"]
      f [of "''_compatibility_check_primary_to_secondary.dat.avail''"]
      f [of "''_compatibility_check_secondary_to_primary.dat''"]
      f [of "''_compatibility_check_secondary_to_primary.dat.avail''"]
    by (simp add: sync_ready_def file_name_p2s_def file_name_s2p_def GetFileName_place avail_place [OF assms(2)]
        slash_def)
qed

end
