(* ===== verification/ConnectProtocol.thy ===== *)
theory ConnectProtocol
  imports FileNames
begin

text \<open>
  Two partners of the file communication that connect: in every interleaving both calls of \<open>Connect\<close>
  return, both with the connection when their settings agree and both with an error when they do
  not, and the folder of the communication is left empty.
\<close>

section \<open>Connect as accesses\<close>

lemma end_io [prog_io]:
  "retP x s = Done (Inr x, s)" "throwP e s = Done (Inl e, s)" "liftP r s = Done (r, s)"
  "localP m s = Done (m s)"
  by (simp_all add: prog_defs)

lemma bind_self: "m s = m' s \<Longrightarrow> bindP m f s = bindP m' f s"
  by (simp add: bindP_def)

lemma bind_sync:
  assumes "c_rank s = 0"
  shows "bindP (SynchronizeAll tag) f s =
    (if mIsPrimaryConnection s then primary_side (primary_sync s tag) (secondary_sync s tag) (f ()) s
     else secondary_side (primary_sync s tag) (secondary_sync s tag) (f ()) s)"
proof -
  let ?P = "primary_sync s tag" and ?S = "secondary_sync s tag"
  have "bindP (SynchronizeAll tag) f s = (if mIsPrimaryConnection s
      then bindP (thenP (create_sync_file ?P ''Primary'') (thenP (WaitForPath ?S True)
          (thenP (RemovePath ?S) (WaitUntilFileIsRemoved ?P)))) f s
      else bindP (thenP (WaitForPath ?P True) (thenP (RemovePath ?P)
          (thenP (create_sync_file ?S ''Secondary'') (WaitUntilFileIsRemoved ?S)))) f s)"
    using assms by (simp add: SynchronizeAll_def bindP_def whenP_def Let_def)
  moreover obtain g where "f = (\<lambda>_. g)" by (rule that [of "f ()"]) (simp add: fun_eq_iff)
  ultimately show ?thesis
    unfolding primary_side_def secondary_side_def thenP_def bindP_assoc by simp
qed

definition after_sync :: "('x communication_scheme, 'c) methods \<Rightarrow> info \<Rightarrow> ('x communication_scheme, info) prog" where
  "after_sync V I_Info = thenP (PrepareConnection V I_Info) (thenP (HandShake V I_Info)
     (bindP (ConnectDetail V I_Info) (\<lambda>connect_detail_info.
     thenP (modP (\<lambda>c. c\<lparr>mIsConnected := True\<rparr>))
     (bindP (getP mWorkingDirectory) (\<lambda>wd.
       localP (set_entries [(''is_connected'', DBool True),
         (''connection_status'', DInt (status_int Connected)),
         (''working_directory'', DString wd)] connect_detail_info))))))"

lemma connect_io:
  "\<not> mIsConnected s \<Longrightarrow> Communication_Connect V I s = bindP (BaseConnectDetail I) (\<lambda>_. after_sync V I) s"
  unfolding Communication_Connect_def after_sync_def thenP_def by (simp only: get_io check_io if_False)


text \<open>The primary partner prepares the folder before it synchronizes.\<close>

definition fresh_folder :: "'x communication_scheme \<Rightarrow> world \<Rightarrow> world" where
  "fresh_folder c w = (if mCommInFolder c
     then create_directory (mCommFolder c) (remove_all (mCommFolder c) w) else w)"

lemma bind_base:
  "bindP (BaseConnectDetail I) f s =
    bindP (whenP (mCommInFolder s \<and> mIsPrimaryConnection s \<and> c_rank s = 0)
       (thenP (actP (remove_all (mCommFolder s)) (\<lambda>_. Inr ()))
       (bindP (actP (\<lambda>w. w) (\<lambda>w. Inr (exists w (mCommFolder s)))) (\<lambda>there.
         whenP (\<not> there)
           (thenP (actP (create_directory (mCommFolder s))
                    (\<lambda>w. if writable w (mCommFolder s) then Inr () else Inl (co_error ''filesystem_error'')))
             (AddFilePermissions (mCommFolder s))))))) (\<lambda>_. bindP (SynchronizeAll ''conn'') f) s"
  unfolding bindP_assoc [symmetric] thenP_def [symmetric]
  by (rule bind_self) (simp add: BaseConnectDetail_def Let_def)

lemma connect_secondary:
  assumes "\<not> mIsConnected s" "c_rank s = 0" "\<not> mIsPrimaryConnection s"
  shows "Communication_Connect V I s =
    secondary_side (primary_sync s ''conn'') (secondary_sync s ''conn'') (after_sync V I) s"
  using assms by (simp add: connect_io bind_base bind_sync when_io)


section \<open>The start\<close>

text \<open>
  Where the partners may start: the folder can be created and the secondary partner does not find the
  synchronization file of an earlier run. Anything else that is left in the folder does not matter.
  Without a folder no file of the communication may be left.
\<close>

definition startable :: "world \<Rightarrow> 'x communication_scheme \<Rightarrow> bool" where
  "startable w c \<longleftrightarrow> (if mCommInFolder c
     then (parent_path (mCommFolder c) = [] \<or> dirs w (parent_path (mCommFolder c))) \<and>
       \<not> exists w (avail (primary_sync c ''conn''))
     else clean w c)"

lemma runs_to_refl [simp]: "runs_to b p p w w"
  by (cases p) simp_all

lemma parent_shorter: "parent_path p \<noteq> [] \<Longrightarrow> length (parent_path p) < length p"
proof -
  assume a: "parent_path p \<noteq> []"
  then have "p \<noteq> []" by (auto simp: parent_path_def)
  moreover have "length (dropWhile (\<lambda>c. c \<noteq> slash) (rev p)) \<le> length p"
    using length_dropWhile_le [of _ "rev p"] by simp
  ultimately show ?thesis using a by (cases p) (auto simp: parent_path_def split: if_splits)
qed

lemma parent_not_below: "parent_path F \<noteq> [] \<Longrightarrow> \<not> below F (parent_path F)"
  using parent_shorter [of F] by (auto simp: below_def starts_with_iff)

lemma remove_all_simps [simp]:
  "files (remove_all F w) p = (if below F p then None else files w p)"
  "dirs (remove_all F w) p = (dirs w p \<and> \<not> below F p)"
  "exists (remove_all F w) p = (exists w p \<and> \<not> below F p)"
  by (auto simp: remove_all_def exists_def)

lemma below_refl [simp]: "below F F"
  by (simp add: below_def)

lemma below_place:
  "mCommInFolder c \<Longrightarrow> folder_ok c \<Longrightarrow> below (mCommFolder c) (place c x)"
  by (auto simp: below_def place_def join_path_def folder_ok_def starts_with_iff)

lemma place_not_folder: "mCommInFolder c \<Longrightarrow> folder_ok c \<Longrightarrow> place c x \<noteq> mCommFolder c"
  by (auto simp: place_def join_path_def folder_ok_def)

lemma create_directory_simps:
  assumes "writable w F"
  shows "exists (create_directory F w) p = (p = F \<or> exists w p)"
    "dirs (create_directory F w) p = (p = F \<or> dirs w p)" "files (create_directory F w) = files w"
  using assms by (auto simp: create_directory_def exists_def)

lemma writable_fresh:
  "startable w c \<Longrightarrow> mCommInFolder c \<Longrightarrow> writable (remove_all (mCommFolder c) w) (mCommFolder c)"
  using parent_not_below [of "mCommFolder c"] by (auto simp: startable_def writable_def)

lemma clean_fresh:
  assumes "startable w c" "folder_ok c"
  shows "clean (fresh_folder c w) c"
proof (cases "mCommInFolder c")
  case True
  then show ?thesis
    using create_directory_simps [OF writable_fresh [OF assms(1)]] below_place [OF _ assms(2)]
      place_not_folder [OF _ assms(2)]
    by (simp add: clean_def fresh_folder_def comm_dir_def)
next
  case False
  then show ?thesis using assms(1) by (simp add: startable_def fresh_folder_def)
qed

lemma start_leads:
  assumes "startable w s" "folder_ok s" "\<not> mIsConnected s" "c_rank s = 0" "mIsPrimaryConnection s"
  defines "P \<equiv> primary_sync s ''conn''"
  shows "leads (Communication_Connect V I s, secondary_side P S K t, w)
    (primary_side P (secondary_sync s ''conn'') (after_sync V I) s, secondary_side P S K t, fresh_folder s w)"
proof (cases "mCommInFolder s")
  case True
  let ?F = "mCommFolder s"
  obtain x where av: "avail P = place s x"
    unfolding P_def primary_sync_def GetFileName_place avail_place [OF assms(2)] by blast
  have n: "avail P \<noteq> ?F" "below ?F (avail P)"
    using av place_not_folder [OF True assms(2), of x] below_place [OF True assms(2), of x] by simp_all
  show ?thesis
    using True assms(3-5) n create_directory_simps [OF writable_fresh [OF assms(1) True]]
      writable_fresh [OF assms(1) True] assms(1)
    by (intro go_blocked)
       (simp add: connect_io bind_base bind_sync prog_io secondary_side_def startable_def fresh_folder_def
         P_def [symmetric])
next
  case False
  then show ?thesis
    using assms(3-5) by (simp add: connect_io bind_base bind_sync when_io fresh_folder_def leads_refl P_def)
qed


section \<open>The end\<close>

definition checked :: "('x communication_scheme, 'c) methods \<Rightarrow> info \<Rightarrow> ('x communication_scheme, info) prog" where
  "checked V I_Info = thenP (bindP (getP (check_partner V)) liftP)
     (thenP (DerivedHandShake V)
     (bindP (ConnectDetail V I_Info) (\<lambda>connect_detail_info.
     thenP (modP (\<lambda>c. c\<lparr>mIsConnected := True\<rparr>))
     (bindP (getP mWorkingDirectory) (\<lambda>wd.
       localP (set_entries [(''is_connected'', DBool True),
         (''connection_status'', DInt (status_int Connected)),
         (''working_directory'', DString wd)] connect_detail_info))))))"

lemma handshake_io:
  assumes "c_rank s = 0"
  shows "bindP (HandShake V I) F s = thenP (exchange_data_for_handshake V
      (if mIsPrimaryConnection s then file_name_p2s s else file_name_s2p s)
      (if mIsPrimaryConnection s then file_name_s2p s else file_name_p2s s))
      (thenP (bindP (getP (check_partner V)) liftP) (bindP (DerivedHandShake V) F)) s"
proof -
  have "bindP (HandShake V I) F s = bindP (thenP (exchange_data_for_handshake V
      (if mIsPrimaryConnection s then file_name_p2s s else file_name_s2p s)
      (if mIsPrimaryConnection s then file_name_s2p s else file_name_p2s s))
      (thenP (bindP (getP (check_partner V)) liftP) (DerivedHandShake V))) F s"
    by (rule bind_self) (simp add: HandShake_def whenP_def assms)
  then show ?thesis unfolding thenP_def bindP_assoc .
qed

lemma after_sync_io:
  assumes "c_rank s = 0" "PrepareConnection V I = retP ()"
  shows "after_sync V I s = thenP (exchange_data_for_handshake V
      (if mIsPrimaryConnection s then file_name_p2s s else file_name_s2p s)
      (if mIsPrimaryConnection s then file_name_s2p s else file_name_p2s s)) (checked V I) s"
  unfolding after_sync_def assms(2) thenP_def ret_io unfolding thenP_def [symmetric]
  by (simp only: thenP_def handshake_io [OF assms(1), unfolded thenP_def] checked_def bindP_assoc)

definition connected_info :: "'x communication_scheme \<Rightarrow> info" where
  "connected_info c = add_entries [(''is_connected'', DBool True),
     (''connection_status'', DInt (status_int Connected)),
     (''working_directory'', DString (mWorkingDirectory c))] (c_heap c) Info_new"

lemma checked_done:
  assumes "entries_value (mPartnerInfo s) = entries_value (my_entries h t)"
    and "mSerializerTraceType s = mSerializerTraceType t"
  shows "settings_match s t \<Longrightarrow> checked (file_methods K) I s =
      Done (Inr (connected_info s), s\<lparr>mIsConnected := True, c_heap := c_heap s + 3\<rparr>)"
    "\<not> settings_match s t \<Longrightarrow> \<exists>msg. checked (file_methods K) I s = Done (Inl (CoSimError msg), s)"
proof -
  have io: "checked (file_methods K) I s = (case bindR (check_partner (file_methods K) s) (\<lambda>_. file_check s) of
      Inl e \<Rightarrow> Done (Inl e, s)
    | Inr _ \<Rightarrow> Done (Inr (connected_info s), s\<lparr>mIsConnected := True, c_heap := c_heap s + 3\<rparr>))"
    by (cases "check_partner (file_methods K) s")
       (simp_all add: checked_def prog_io file_methods_def File_DerivedHandShake_def file_check_def new_info_def
         set_entries_def connected_info_def split: sum.split)
  show "settings_match s t \<Longrightarrow> checked (file_methods K) I s =
      Done (Inr (connected_info s), s\<lparr>mIsConnected := True, c_heap := c_heap s + 3\<rparr>)"
    using checks_find(1) [OF assms, of K] by (simp add: io)
  show "\<not> settings_match s t \<Longrightarrow> \<exists>msg. checked (file_methods K) I s = Done (Inl (CoSimError msg), s)"
    using checks_find(2) [OF assms, of K] by (auto simp: io)
qed

lemma checked_ends: "ends_at_once (checked (file_methods K) I)"
  unfolding ends_at_once_def
  by (auto simp: checked_def prog_io file_methods_def File_DerivedHandShake_def new_info_def
         set_entries_def split: sum.split)


section \<open>Two partners\<close>

definition partners :: "'x communication_scheme \<Rightarrow> 'y communication_scheme \<Rightarrow> bool" where
  "partners s t \<longleftrightarrow> mConnectionName t = mConnectionName s \<and> slash \<notin> set (mConnectionName s) \<and>
     mCommInFolder t = mCommInFolder s \<and> mCommFolder t = mCommFolder s \<and> folder_ok s \<and>
     plat (c_machine t) = plat (c_machine s) \<and> mSerializerTraceType t = mSerializerTraceType s \<and>
     c_rank s = 0 \<and> c_rank t = 0 \<and> mIsPrimaryConnection s \<and> \<not> mIsPrimaryConnection t \<and>
     \<not> mIsConnected s \<and> \<not> mIsConnected t \<and> mPartnerInfo s = [] \<and> mPartnerInfo t = []"

lemma partner_names:
  assumes "mConnectionName t = mConnectionName s" "mCommInFolder t = mCommInFolder s" "mCommFolder t = mCommFolder s"
  shows "primary_sync t tag = primary_sync s tag" "secondary_sync t tag = secondary_sync s tag"
    "file_name_p2s t = file_name_p2s s" "file_name_s2p t = file_name_s2p s"
proof -
  have "place t = place s" using assms by (auto simp: place_def fun_eq_iff)
  then show "primary_sync t tag = primary_sync s tag" "secondary_sync t tag = secondary_sync s tag"
    "file_name_p2s t = file_name_p2s s" "file_name_s2p t = file_name_s2p s"
    using assms(1)
    by (simp_all add: primary_sync_def secondary_sync_def file_name_p2s_def file_name_s2p_def GetFileName_place)
qed

lemma last_place: "x \<noteq> [] \<Longrightarrow> last (place c x) = last x"
  by (simp add: place_def join_path_def)

lemma last_names:
  "last (primary_sync c tag) = CHR ''c''" "last (secondary_sync c tag) = CHR ''c''"
  "last (file_name_p2s c) = CHR ''t''" "last (file_name_s2p c) = CHR ''t''" "last (avail p) = CHR ''l''"
  by (simp_all add: primary_sync_def secondary_sync_def file_name_p2s_def file_name_s2p_def GetFileName_place
      last_place avail_def)

lemma sync_not_handshake:
  "primary_sync c tag \<notin> {file_name_p2s c, file_name_s2p c, avail p}"
  "secondary_sync c tag \<notin> {file_name_p2s c, file_name_s2p c, avail p}"
  using last_names(1,2) [of c tag] last_names(3,4) [of c] last_names(5) [of p]
  by (auto dest: arg_cong [where f = last])

text \<open>What a side does after the meeting waits for the other one and does not touch the file that the
  partner waits for.\<close>

definition nothing_yet :: "path \<Rightarrow> path \<Rightarrow> world \<Rightarrow> world \<Rightarrow> bool" where
  "nothing_yet a q w v \<longleftrightarrow> files v a = None \<and> files v (avail q) = None \<and> dirs v = dirs w"

lemma indep_after_meeting:
  assumes "sync_ready p q w" "a \<notin> {p, q, avail p, avail q}" "files w a = None" "\<not> dirs w a"
  shows "nothing_yet a q w w" "\<And>v. nothing_yet a q w v \<Longrightarrow> \<not> exists v a"
    "indep (nothing_yet a q w) (\<lambda>v. v) (thenP (exchange_data_for_handshake V p q) K s)"
proof -
  note f = sync_ready_facts [OF assms(1)]
  have n: "p \<noteq> avail q" "avail p \<noteq> avail q" "p \<noteq> q" using assms(1) by (auto simp: sync_ready_def)
  show "nothing_yet a q w w" using f assms by (simp add: nothing_yet_def)
  show "\<And>v. nothing_yet a q w v \<Longrightarrow> \<not> exists v a" using assms(4) by (simp add: exists_def nothing_yet_def)
  have "indep (\<lambda>v. files v a = None \<and> files v (avail q) = None \<and> dirs v = dirs w) (\<lambda>v. v)
      (thenP (exchange_data_for_handshake V p q) K s)"
    using assms(2) n f(12)
    by (intro indep_exchange [of a] keeps_pair) (auto simp: exists_def)
  then show "indep (nothing_yet a q w) (\<lambda>v. v) (thenP (exchange_data_for_handshake V p q) K s)"
    by (simp only: nothing_yet_def [abs_def])
qed

lemma connect_meets:
  fixes s :: "'x communication_scheme" and t :: "'y communication_scheme"
  assumes "partners s t" "startable w s"
  defines "P \<equiv> primary_sync s ''conn''" and "S \<equiv> secondary_sync s ''conn''" and "v \<equiv> fresh_folder s w"
  assumes "c v" "\<And>v. c v \<Longrightarrow> \<not> exists v P" "indep c (\<lambda>v. v) (after_sync V' J t)"
    and "e v" "\<And>v. e v \<Longrightarrow> \<not> exists v S" "indep e (\<lambda>v. v) (after_sync V I s)"
  shows "leads (Communication_Connect V I s, Communication_Connect V' J t, w) (after_sync V I s, after_sync V' J t, v)"
proof -
  note a = assms(1) [unfolded partners_def]
  have folder: "folder_ok s" "\<not> mIsConnected s" "c_rank s = 0" "mIsPrimaryConnection s" using a by auto
  have t: "\<not> mIsConnected t" "c_rank t = 0" "\<not> mIsPrimaryConnection t" using a by auto
  have n: "primary_sync t tag = primary_sync s tag" "secondary_sync t tag = secondary_sync s tag" for tag
    using a by (intro partner_names; simp)+
  have clean: "clean v s" unfolding v_def by (rule clean_fresh [OF assms(2) folder(1)])
  have sync: "sync_ready P S v" unfolding P_def S_def using clean a by (intro sync_names) (auto simp: slash_def)
  have T: "Communication_Connect V' J t = secondary_side P S (after_sync V' J) t"
    unfolding P_def S_def by (simp only: connect_secondary [OF t] n)
  have "leads (Communication_Connect V I s, Communication_Connect V' J t, w)
      (primary_side P S (after_sync V I) s, secondary_side P S (after_sync V' J) t, v)"
    unfolding T P_def S_def v_def by (rule start_leads [OF assms(2) folder])
  also have "leads \<dots> (after_sync V I s, after_sync V' J t, v)"
    by (rule meeting [OF sync, where c = c and e = e]) (fact assms)+
  finally show ?thesis .
qed

text \<open>The files of the handshake are those of the primary partner and of the secondary one.\<close>

definition handshake_files :: "'x communication_scheme \<Rightarrow> path set" where
  "handshake_files c = {file_name_p2s c, avail (file_name_p2s c), file_name_s2p c, avail (file_name_s2p c)}"

lemma handshake_leads:
  fixes s :: "'x communication_scheme" and t :: "'y communication_scheme"
  assumes "clean w s" "folder_ok s" "slash \<notin> set (mConnectionName s)"
    and "writes_info V s s1 out_s" "writes_info V' t t1 out_t" "reads_info s1 out_t s2" "reads_info t1 out_s t2"
    and "\<And>s'. no_files (handshake_files s) (KP s')" "\<And>t'. no_files (handshake_files s) (KQ t')"
  shows "leads (thenP (exchange_data_for_handshake V (file_name_p2s s) (file_name_s2p s)) KP s,
      thenP (exchange_data_for_handshake V' (file_name_s2p s) (file_name_p2s s)) KQ t, w) (KP s2, KQ t2, w)"
  by (rule exchange_leads [OF handshake_names [OF assms(1-3)] assms(4-7)])
     (simp_all only: assms(8,9) [unfolded handshake_files_def])

text \<open>The handshake follows at once, as with all but the communication over TCP.\<close>

lemma connect_leads:
  fixes s :: "'x communication_scheme" and t :: "'y communication_scheme"
  assumes "partners s t" "startable w s" "PrepareConnection V I = retP ()" "PrepareConnection V' J = retP ()"
    and "writes_info V s s1 out_s" "writes_info V' t t1 out_t" "reads_info s1 out_t s2" "reads_info t1 out_s t2"
    and "\<And>s'. no_files (handshake_files s) (checked V I s')" "\<And>t'. no_files (handshake_files s) (checked V' J t')"
  shows "leads (Communication_Connect V I s, Communication_Connect V' J t, w) (checked V I s2, checked V' J t2, fresh_folder s w)"
proof -
  note a = assms(1) [unfolded partners_def]
  have n: "file_name_p2s t = file_name_p2s s" "file_name_s2p t = file_name_s2p s"
    using a by (intro partner_names; simp)+
  let ?P = "primary_sync s ''conn''" and ?S = "secondary_sync s ''conn''"
  let ?p = "file_name_p2s s" and ?q = "file_name_s2p s" and ?w = "fresh_folder s w"
  let ?X = "thenP (exchange_data_for_handshake V ?p ?q) (checked V I)"
  let ?Y = "thenP (exchange_data_for_handshake V' ?q ?p) (checked V' J)"
  have clean: "clean ?w s" using a by (intro clean_fresh [OF assms(2)]) auto
  have sync: "sync_ready ?P ?S ?w" using clean a by (intro sync_names) (auto simp: slash_def)
  have hand: "sync_ready ?p ?q ?w" using clean a by (intro handshake_names) auto
  have hand': "sync_ready ?q ?p ?w" using hand by (auto simp: sync_ready_def)
  note f = sync_ready_facts [OF sync]
  have X: "after_sync V I s = ?X s" and Y: "after_sync V' J t = ?Y t"
    using a by (simp_all only: after_sync_io [OF _ assms(3)] after_sync_io [OF _ assms(4)] n if_True if_False simp_thms)
  have out: "?P \<notin> {?q, ?p, avail ?q, avail ?p}" "?S \<notin> {?p, ?q, avail ?p, avail ?q}"
    using sync_not_handshake [of s "''conn''"] by auto
  note c = indep_after_meeting [OF hand' out(1) f(5,9)] and e = indep_after_meeting [OF hand out(2) f(6,10)]
  have "leads (Communication_Connect V I s, Communication_Connect V' J t, w) (?X s, ?Y t, ?w)"
    unfolding X [symmetric] Y [symmetric]
    by (rule connect_meets [where c = "nothing_yet ?P ?p ?w" and e = "nothing_yet ?S ?q ?w"])
       (simp_all only: assms(1,2) X Y c e not_False_eq_True)
  also have "leads \<dots> (checked V I s2, checked V' J t2, ?w)"
    using clean a by (intro handshake_leads [OF _ _ _ assms(5-10)]) auto
  finally show ?thesis .
qed

lemma file_connect_leads:
  fixes s t :: file_communication
  assumes "partners s t" "startable w s"
  obtains s2 t2 hs ht ms mt where
    "leads (Communication_Connect (file_methods K) I s, Communication_Connect (file_methods K') J t, w)
       (checked (file_methods K) I s2, checked (file_methods K') J t2, fresh_folder s w)"
    "s2 = s\<lparr>c_heap := hs, mPartnerInfo := ms\<rparr>" "entries_value ms = entries_value (my_entries (c_heap t) t)"
    "t2 = t\<lparr>c_heap := ht, mPartnerInfo := mt\<rparr>" "entries_value mt = entries_value (my_entries (c_heap s) s)"
proof -
  note a = assms(1) [unfolded partners_def]
  have p: "PrepareConnection (file_methods K) I = retP ()" for K :: "'k container" and I
    by (simp add: file_methods_def)
  note w = writes_own_info [OF GetMyInfo_file my_entries_distinct]
  have e: "mPartnerInfo s = []" "mPartnerInfo t = []" "plat (c_machine s) = plat (c_machine t)"
    "mSerializerTraceType s = mSerializerTraceType t" using a by auto
  obtain hs ms where rs: "reads_info (s\<lparr>c_heap := c_heap s + 13\<rparr>) (info_text t (my_entries (c_heap t) t))
      (s\<lparr>c_heap := hs, mPartnerInfo := ms\<rparr>)" "entries_value ms = entries_value (my_entries (c_heap t) t)"
    by (rule reads_own_info [OF e(1,3,4) my_entries_wf my_entries_distinct my_entries_good])
  obtain ht mt where rt: "reads_info (t\<lparr>c_heap := c_heap t + 13\<rparr>) (info_text s (my_entries (c_heap s) s))
      (t\<lparr>c_heap := ht, mPartnerInfo := mt\<rparr>)" "entries_value mt = entries_value (my_entries (c_heap s) s)"
    by (rule reads_own_info [OF e(2) e(3,4) [symmetric] my_entries_wf my_entries_distinct my_entries_good])
  have "leads (Communication_Connect (file_methods K) I s, Communication_Connect (file_methods K') J t, w)
      (checked (file_methods K) I (s\<lparr>c_heap := hs, mPartnerInfo := ms\<rparr>),
       checked (file_methods K') J (t\<lparr>c_heap := ht, mPartnerInfo := mt\<rparr>), fresh_folder s w)"
    by (rule connect_leads [OF assms p p w w rs(1) rt(1) no_files_ends [OF checked_ends] no_files_ends [OF checked_ends]])
  then show ?thesis by (rule that [OF _ refl rs(2) refl rt(2)])
qed

section \<open>Properties\<close>

definition every_run_ends :: "'a io \<times> 'b io \<times> world \<Rightarrow> 'a io \<times> 'b io \<times> world \<Rightarrow> bool" where
  "every_run_ends s e \<longleftrightarrow> (\<forall>t. ends s t \<longleftrightarrow> t = e) \<and> \<not> (\<exists>r. r 0 = s \<and> (\<forall>i. steps (r i) (r (Suc i))))"

lemma every_runI: "leads s (Done x, Done y, w) \<Longrightarrow> every_run_ends s (Done x, Done y, w)"
  using leads_Done [of s x y w] reaches_stuck [of s] no_infinite_run
  unfolding every_run_ends_def ends_def by blast

lemma settings_match_sym: "settings_match s t \<longleftrightarrow> settings_match t s"
  by (auto simp: settings_match_def base_match_def)

lemma connected_info_reads:
  "get_bool (connected_info c) ''is_connected'' = Inr True"
  "get_int (connected_info c) ''connection_status'' = Inr (status_int Connected)"
  "get_string (connected_info c) ''working_directory'' = Inr (mWorkingDirectory c)"
  by (simp_all add: connected_info_def info_wf_Set)

text \<open>
  Property C1. Two processes call \<open>Connect\<close> for the same connection through files, one as primary and
  one as secondary partner, with no synchronization file left from an earlier run. However their
  accesses to the file system interleave, no run goes on for ever or blocks, and all end in the same
  way: when the settings agree both calls return the connected status, both sides are connected, and
  each holds the information of the other; when they do not agree both calls end with an error
  and neither side is connected. The folder of the communication is there and empty.
\<close>

theorem partners_connect:
  assumes "partners s t" "startable w s"
  shows "\<exists>a b s' t'. every_run_ends
      (Communication_Connect (file_methods K) I s, Communication_Connect (file_methods K') J t, w)
      (Done (a, s'), Done (b, t'), fresh_folder s w) \<and>
    (if settings_match s t then mIsConnected s' \<and> mIsConnected t' \<and>
       (\<exists>m. fst (GetMyInfo (file_methods K') t) = Inr m \<and> entries_value (mPartnerInfo s') = entries_value m) \<and>
       (\<exists>m. fst (GetMyInfo (file_methods K) s) = Inr m \<and> entries_value (mPartnerInfo t') = entries_value m) \<and>
       (\<exists>i. a = Inr i \<and> get_int i ''connection_status'' = Inr (status_int Connected)) \<and>
       (\<exists>i. b = Inr i \<and> get_int i ''connection_status'' = Inr (status_int Connected))
     else \<not> mIsConnected s' \<and> \<not> mIsConnected t' \<and>
       (\<exists>x. a = Inl (CoSimError x)) \<and> (\<exists>y. b = Inl (CoSimError y)))"
proof -
  obtain s2 t2 hs ht ms mt where
    l: "leads (Communication_Connect (file_methods K) I s, Communication_Connect (file_methods K') J t, w)
       (checked (file_methods K) I s2, checked (file_methods K') J t2, fresh_folder s w)"
    and s2: "s2 = s\<lparr>c_heap := hs, mPartnerInfo := ms\<rparr>" "entries_value ms = entries_value (my_entries (c_heap t) t)"
    and t2: "t2 = t\<lparr>c_heap := ht, mPartnerInfo := mt\<rparr>" "entries_value mt = entries_value (my_entries (c_heap s) s)"
    by (rule file_connect_leads [OF assms])
  have T: "mSerializerTraceType s2 = mSerializerTraceType t" "mSerializerTraceType t2 = mSerializerTraceType s"
    and c: "\<not> mIsConnected s2" "\<not> mIsConnected t2"
    using assms(1) by (auto simp: partners_def s2 t2)
  have m: "settings_match s2 t = settings_match s t" "settings_match t2 s = settings_match s t"
    by (auto simp: settings_match_def base_match_def s2(1) t2(1))
  have i: "entries_value (mPartnerInfo s2) = entries_value (my_entries (c_heap t) t)"
    "entries_value (mPartnerInfo t2) = entries_value (my_entries (c_heap s) s)"
    using s2 t2 by simp_all
  note ds = checked_done [OF i(1) T(1), of K I, unfolded m] and dt = checked_done [OF i(2) T(2), of K' J, unfolded m]
  show ?thesis
  proof (cases "settings_match s t")
    case True
    have "every_run_ends
      (Communication_Connect (file_methods K) I s, Communication_Connect (file_methods K') J t, w)
      (Done (Inr (connected_info s2), s2\<lparr>mIsConnected := True, c_heap := c_heap s2 + 3\<rparr>),
       Done (Inr (connected_info t2), t2\<lparr>mIsConnected := True, c_heap := c_heap t2 + 3\<rparr>), fresh_folder s w)"
      using every_runI l ds(1) [OF True] dt(1) [OF True] by simp
    then show ?thesis
      using True i by (intro exI conjI) (auto simp: GetMyInfo_file connected_info_reads)
  next
    case False
    obtain x y where xy: "checked (file_methods K) I s2 = Done (Inl (CoSimError x), s2)" "checked (file_methods K') J t2 = Done (Inl (CoSimError y), t2)"
      using ds(2) [OF False] dt(2) [OF False] by blast
    have "every_run_ends
      (Communication_Connect (file_methods K) I s, Communication_Connect (file_methods K') J t, w)
      (Done (Inl (CoSimError x), s2), Done (Inl (CoSimError y), t2), fresh_folder s w)"
      using every_runI l xy by simp
    then show ?thesis using False c by (intro exI conjI) auto
  qed
qed

definition sample_machine :: machine where
  "sample_machine = \<lparr>plat = bits_platform, elapsed = (\<lambda>_. 0), plus_dbl = (+)\<rparr>"

definition sample_settings :: "string \<Rightarrow> string \<Rightarrow> info" where
  "sample_settings me other = [(''connect_to'', (1, DString other)), (''my_name'', (2, DString me))]"

definition sample_comm :: "string \<Rightarrow> string \<Rightarrow> bool \<Rightarrow> file_communication" where
  "sample_comm me other primary = \<lparr>c_rank = 0, c_size = 1, mConnectionName = ''A_B'', mMyName = me, mConnectTo = other,
     mPartnerInfo = [], mCommFolder = ''./.CoSimIOComm_A_B'', mCommInFolder = True, mAlwaysUseSerializer = False,
     mSerializerTraceType = SERIALIZER_NO_TRACE, mWorkingDirectory = ''.'', mEchoLevel = 0,
     mIsPrimaryConnection = primary, mPrimaryWasExplicitlySpecified = False, mPrintTiming = False,
     mIsConnected = False, c_machine = sample_machine, c_heap = 100, c_clock = 0,
     mUseAuxFileForFileAvailability = False, mUseFileSerializer = True\<rparr>"

definition sample_world :: world where
  "sample_world = \<lparr>files = (\<lambda>_. None), dirs = (\<lambda>p. p = ''.''), streams = (\<lambda>_. []), closed = (\<lambda>_. False),
     listening = (\<lambda>_. False)\<rparr>"

lemma sample_created:
  "new_FileCommunication (exists sample_world) sample_machine 100 0 1 (sample_settings ''A'' ''B'') = Inr (sample_comm ''A'' ''B'' True)"
  "new_FileCommunication (exists sample_world) sample_machine 100 0 1 (sample_settings ''B'' ''A'') = Inr (sample_comm ''B'' ''A'' False)"
  by (simp_all add: new_FileCommunication_def new_Communication_def sample_settings_def sample_comm_def
      get_string_def get_bool_default_def get_string_default_def get_int_default_def Info_Get_default_def Info_Get_def Info_Has_def
      GetExistingKey_def GetDataTypeName_def primary_of_def trace_type_of_def CreateConnectionName_def
      sample_world_def exists_def comm_folder_prefix_def join_path_def slash_def Info_new_def
      USE_AUX_FILE_FOR_FILE_AVAILABILITY_def communication.defs)

lemma sample_partners: "partners (sample_comm ''A'' ''B'' True) (sample_comm ''B'' ''A'' False)"
  "startable sample_world (sample_comm ''A'' ''B'' True)"
  by (simp_all add: partners_def sample_comm_def folder_ok_def slash_def startable_def sample_world_def
      parent_path_def exists_def) (auto dest: arg_cong [where f = last] simp: last_names)

theorem partners_connect_witness:
  "\<exists>s t. new_FileCommunication (exists sample_world) sample_machine 100 0 1 (sample_settings ''A'' ''B'') = Inr s \<and>
     new_FileCommunication (exists sample_world) sample_machine 100 0 1 (sample_settings ''B'' ''A'') = Inr t \<and>
     (\<exists>a b s' t'. every_run_ends (Communication_Connect (file_methods vector_container) [] s,
         Communication_Connect (file_methods vector_container) [] t, sample_world)
         (Done (a, s'), Done (b, t'), fresh_folder s sample_world) \<and> mIsConnected s' \<and> mIsConnected t')"
  using partners_connect [OF sample_partners, of vector_container "[]" vector_container "[]"] sample_created
  by (auto simp: settings_match_def base_match_def sample_comm_def)

end
