(* ===== verification/Parting.thy ===== *)
theory Parting
  imports ConnectProtocol
begin

text \<open>
  \<open>SynchronizeAll\<close> as a barrier between the partners, and \<open>Disconnect\<close> of both of them.
\<close>

section \<open>Meeting and parting\<close>

lemma bindP_ret:
  fixes m :: "('s, 'a) prog"
  shows "bindP m retP = m"
proof -
  have e: "(\<lambda>(r, s). case r of Inl e \<Rightarrow> Done (Inl e, s) | Inr y \<Rightarrow> retP y s) = (Done :: (error + 'a) \<times> 's \<Rightarrow> _)"
    by (auto simp: fun_eq_iff retP_def split: sum.split)
  show ?thesis unfolding bindP_def e by simp
qed

lemma sync_sides:
  assumes "c_rank s = 0"
  shows "SynchronizeAll tag s =
    (if mIsPrimaryConnection s then primary_side (primary_sync s tag) (secondary_sync s tag) (retP ()) s
     else secondary_side (primary_sync s tag) (secondary_sync s tag) (retP ()) s)"
  using bind_sync [OF assms, of tag retP] by (simp only: bindP_ret)

lemma waits_alone:
  assumes "sync_ready P S w"
  shows "alone (primary_side P S K s) w = None" "alone (secondary_side P S K t) w = None"
proof -
  note f = sync_ready_facts [OF assms]
  have n: "P \<noteq> S" "P \<noteq> avail P" "P \<noteq> avail S" "S \<noteq> avail P" "S \<noteq> avail S" "avail P \<noteq> avail S"
    using assms by (auto simp: sync_ready_def)
  show "alone (primary_side P S K s) w = None"
    by (simp add: primary_side_def prog_io f n n [symmetric] open_out_writable exists_def)
  show "alone (secondary_side P S K t) w = None"
    by (simp add: secondary_side_def prog_io f exists_def)
qed

text \<open>
  Property C14. \<open>SynchronizeAll\<close> is a barrier: with both partners in it every run ends with both
  returned and the file system as before, and neither partner returns as long as the other one has
  not come.
\<close>

theorem synchronize_is_barrier:
  assumes "sync_ready (primary_sync s tag) (secondary_sync s tag) w"
    and "c_rank s = 0" "mIsPrimaryConnection s" "c_rank t = 0" "\<not> mIsPrimaryConnection t"
    and "primary_sync t tag = primary_sync s tag" "secondary_sync t tag = secondary_sync s tag"
  shows "every_run_ends (SynchronizeAll tag s, SynchronizeAll tag t, w) (Done (Inr (), s), Done (Inr (), t), w) \<and>
    alone (SynchronizeAll tag s) w = None \<and> alone (SynchronizeAll tag t) w = None"
proof (intro conjI)
  note f = sync_ready_facts [OF assms(1)]
  let ?P = "primary_sync s tag" and ?S = "secondary_sync s tag"
  have io: "SynchronizeAll tag s = primary_side ?P ?S (retP ()) s"
    "SynchronizeAll tag t = secondary_side ?P ?S (retP ()) t"
    by (simp_all only: sync_sides [OF assms(2)] sync_sides [OF assms(4)] assms(3,5-7) if_True if_False)
  have "leads (primary_side ?P ?S (retP ()) s, secondary_side ?P ?S (retP ()) t, w) (retP () s, retP () t, w)"
    by (rule meeting [OF assms(1), where c = "\<lambda>v. \<not> exists v ?P" and e = "\<lambda>v. \<not> exists v ?S"])
       (simp_all add: f exists_def end_io)
  then show "every_run_ends (SynchronizeAll tag s, SynchronizeAll tag t, w) (Done (Inr (), s), Done (Inr (), t), w)"
    unfolding io by (simp add: end_io every_runI)
  show "alone (SynchronizeAll tag s) w = None" "alone (SynchronizeAll tag t) w = None"
    unfolding io by (rule waits_alone [OF assms(1)])+
qed

section \<open>Disconnecting\<close>

definition leaving :: "file_communication \<Rightarrow> file_communication" where
  "leaving c = c\<lparr>mIsConnected := False, c_heap := c_heap c + 1\<rparr>"

definition leaving_info :: "file_communication \<Rightarrow> info" where
  "leaving_info c = Info_Set (c_heap c) ''is_connected'' (DBool False) Info_new"

lemma bind_base_disconnect:
  "bindP (BaseDisconnectDetail I) f s = bindP (SynchronizeAll ''disconn'') (\<lambda>_.
     bindP (whenP (mCommInFolder s \<and> mIsPrimaryConnection s \<and> c_rank s = 0)
       (actP (remove_all (mCommFolder s)) (\<lambda>_. Inr ()))) f) s"
  unfolding bindP_assoc [symmetric] thenP_def [symmetric]
  by (rule bind_self) (simp add: BaseDisconnectDetail_def)

lemma disconnect_io:
  assumes "mIsConnected s"
  shows "Communication_Disconnect (file_methods K) I s =
    bindP (BaseDisconnectDetail I) (\<lambda>_. bindP (getP mIsConnected) (\<lambda>still. localP (set_entries [(''connection_status'',
       DInt (status_int (if still then DisconnectionError else Disconnected)))] (leaving_info s)))) (leaving s)"
  using assms
  by (simp add: Communication_Disconnect_def prog_io file_methods_def new_info_def set_entries_def Info_new_def
      leaving_def leaving_info_def)


definition left_info :: "file_communication \<Rightarrow> info" where
  "left_info c = Info_Set (c_heap c + 1) ''connection_status'' (DInt (status_int Disconnected)) (leaving_info c)"

definition left_comm :: "file_communication \<Rightarrow> file_communication" where
  "left_comm c = c\<lparr>mIsConnected := False, c_heap := c_heap c + 2\<rparr>"

definition left_folder :: "file_communication \<Rightarrow> world \<Rightarrow> world" where
  "left_folder c w = (if mCommInFolder c then remove_all (mCommFolder c) w else w)"

definition leave :: "file_communication \<Rightarrow> info file_prog" where
  "leave c = bindP (whenP (mCommInFolder c \<and> mIsPrimaryConnection c \<and> c_rank c = 0)
       (actP (remove_all (mCommFolder c)) (\<lambda>_. Inr ())))
     (\<lambda>_. bindP (getP mIsConnected) (\<lambda>still. localP (set_entries [(''connection_status'',
       DInt (status_int (if still then DisconnectionError else Disconnected)))] (leaving_info c))))"

lemma leave_io:
  "leave c (leaving c) = (if mCommInFolder c \<and> mIsPrimaryConnection c \<and> c_rank c = 0
     then Act (remove_all (mCommFolder c)) (\<lambda>_. Done (Inr (left_info c), left_comm c))
     else Done (Inr (left_info c), left_comm c))"
  by (simp add: leave_def prog_io leaving_def set_entries_def left_info_def left_comm_def add.commute)

lemma leave_sides:
  assumes "mIsConnected s" "c_rank s = 0"
  shows "Communication_Disconnect (file_methods K) I s = (if mIsPrimaryConnection s
     then primary_side (primary_sync s ''disconn'') (secondary_sync s ''disconn'') (leave s) (leaving s)
     else secondary_side (primary_sync s ''disconn'') (secondary_sync s ''disconn'') (leave s) (leaving s))"
proof -
  have l: "c_rank (leaving s) = 0" "mIsPrimaryConnection (leaving s) = mIsPrimaryConnection s"
    "mCommInFolder (leaving s) = mCommInFolder s" "mCommFolder (leaving s) = mCommFolder s"
    "mConnectionName (leaving s) = mConnectionName s"
    using assms(2) by (simp_all add: leaving_def)
  note n = partner_names(1,2) [OF l(5,3,4)]
  show ?thesis
    by (cases "mIsPrimaryConnection s"; simp only: disconnect_io [OF assms(1)] bind_base_disconnect
        bind_sync [OF l(1)] l(1-4) n assms(2) leave_def if_True if_False)
qed

definition connected_partners :: "file_communication \<Rightarrow> file_communication \<Rightarrow> bool" where
  "connected_partners s t \<longleftrightarrow> mConnectionName t = mConnectionName s \<and> slash \<notin> set (mConnectionName s) \<and>
     mCommInFolder t = mCommInFolder s \<and> mCommFolder t = mCommFolder s \<and> folder_ok s \<and>
     c_rank s = 0 \<and> c_rank t = 0 \<and> mIsPrimaryConnection s \<and> \<not> mIsPrimaryConnection t \<and>
     mIsConnected s \<and> mIsConnected t"

text \<open>
  Property C15. When both partners disconnect and no transfer is pending, every run ends with both
  calls returned with the status disconnected, both sides no longer connected, and the folder
  of the communication removed.
\<close>

theorem partners_disconnect:
  assumes "connected_partners s t" "clean w s"
  shows "\<exists>i j s' t'. every_run_ends
      (Communication_Disconnect (file_methods K) I s, Communication_Disconnect (file_methods K') J t, w)
      (Done (Inr i, s'), Done (Inr j, t'), left_folder s w) \<and>
    \<not> mIsConnected s' \<and> \<not> mIsConnected t' \<and>
    get_int i ''connection_status'' = Inr (status_int Disconnected) \<and>
    get_int j ''connection_status'' = Inr (status_int Disconnected)"
proof -
  note a = assms(1) [unfolded connected_partners_def]
  have s: "mIsConnected s" "c_rank s = 0" "mIsPrimaryConnection s" and t: "mIsConnected t" "c_rank t = 0"
    "\<not> mIsPrimaryConnection t" and folder: "folder_ok s" "slash \<notin> set (mConnectionName s)" using a by auto
  have n: "primary_sync t tag = primary_sync s tag" "secondary_sync t tag = secondary_sync s tag" for tag
    using a by (intro partner_names; simp)+
  let ?P = "primary_sync s ''disconn''" and ?S = "secondary_sync s ''disconn''"
  let ?x = "Done (Inr (left_info s), left_comm s)" and ?y = "Done (Inr (left_info t), left_comm t)"
  have sync: "sync_ready ?P ?S w" using folder by (intro sync_names [OF assms(2)]) (auto simp: slash_def)
  note f = sync_ready_facts [OF sync]
  have io: "Communication_Disconnect (file_methods K) I s = primary_side ?P ?S (leave s) (leaving s)"
    "Communication_Disconnect (file_methods K') J t = secondary_side ?P ?S (leave t) (leaving t)"
    by (simp_all only: leave_sides [OF s(1,2)] leave_sides [OF t(1,2)] s(3) t(3) n if_True if_False)
  have "leads (primary_side ?P ?S (leave s) (leaving s), secondary_side ?P ?S (leave t) (leaving t), w)
      (leave s (leaving s), leave t (leaving t), w)"
    using t(3)
    by (intro meeting [OF sync, where c = "\<lambda>v. \<not> exists v ?P" and e = "\<lambda>v. \<not> exists v ?S"])
       (simp_all add: f exists_def leave_io)
  also have "leads \<dots> (?x, ?y, left_folder s w)"
    using s t(3) by (auto simp: leave_io left_folder_def leads_refl intro: go_left)
  finally have "every_run_ends
      (Communication_Disconnect (file_methods K) I s, Communication_Disconnect (file_methods K') J t, w)
      (?x, ?y, left_folder s w)" unfolding io by (rule every_runI)
  then show ?thesis
    by (intro exI conjI) (auto simp: left_comm_def left_info_def leaving_info_def info_wf_Set)
qed


lemma sample_clean: "clean (fresh_folder (sample_comm ''A'' ''B'' True) sample_world) (sample_comm ''A'' ''B'' True)"
  using sample_partners by (intro clean_fresh) (simp_all add: partners_def)

theorem synchronize_is_barrier_witness:
  "let s = sample_comm ''A'' ''B'' True; t = sample_comm ''B'' ''A'' False; w = fresh_folder s sample_world in
    every_run_ends (SynchronizeAll ''conn'' s, SynchronizeAll ''conn'' t, w) (Done (Inr (), s), Done (Inr (), t), w) \<and>
    alone (SynchronizeAll ''conn'' s) w = None"
proof -
  let ?s = "sample_comm ''A'' ''B'' True" and ?t = "sample_comm ''B'' ''A'' False"
  have "sync_ready (primary_sync ?s ''conn'') (secondary_sync ?s ''conn'') (fresh_folder ?s sample_world)"
    using sample_partners(1) by (intro sync_names [OF sample_clean]) (simp_all add: partners_def slash_def)
  moreover have "primary_sync ?t tag = primary_sync ?s tag" "secondary_sync ?t tag = secondary_sync ?s tag" for tag
    using partner_names [of ?t ?s] by (simp_all add: sample_comm_def)
  ultimately show ?thesis
    using synchronize_is_barrier [of ?s "''conn''" "fresh_folder ?s sample_world" ?t]
    by (simp add: Let_def) (simp add: sample_comm_def)
qed

theorem partners_disconnect_witness:
  "\<exists>i j s' t'. every_run_ends
     (Communication_Disconnect (file_methods vector_container) [] (sample_comm ''A'' ''B'' True\<lparr>mIsConnected := True\<rparr>),
      Communication_Disconnect (file_methods vector_container) [] (sample_comm ''B'' ''A'' False\<lparr>mIsConnected := True\<rparr>),
      fresh_folder (sample_comm ''A'' ''B'' True) sample_world)
     (Done (Inr i, s'), Done (Inr j, t'), left_folder (sample_comm ''A'' ''B'' True)
        (fresh_folder (sample_comm ''A'' ''B'' True) sample_world)) \<and> \<not> mIsConnected s'"
proof -
  let ?s = "sample_comm ''A'' ''B'' True\<lparr>mIsConnected := True\<rparr>"
  have "connected_partners ?s (sample_comm ''B'' ''A'' False\<lparr>mIsConnected := True\<rparr>)"
    using sample_partners(1) by (simp add: connected_partners_def partners_def folder_ok_def)
  moreover have "clean (fresh_folder (sample_comm ''A'' ''B'' True) sample_world) ?s"
    using sample_clean by (auto simp: clean_def comm_dir_def place_def)
  moreover have "left_folder ?s = left_folder (sample_comm ''A'' ''B'' True)"
    by (simp add: left_folder_def fun_eq_iff)
  ultimately show ?thesis using partners_disconnect by metis
qed

end
