(* ===== verification/Connections.thy ===== *)
theory Connections
  imports FileCommunication
begin

text \<open>
  \<open>co_sim_io.hpp\<close>, \<open>sources/co_sim_io.cpp\<close>, \<open>sources/connect_impl.cpp\<close>, \<open>sources/connection.cpp\<close>,
  \<open>sources/communication/factory.cpp\<close>: the interface of the library. A table holds the connections
  under their names; every function looks up its connection and passes the call on to the
  communication of that connection. A connection also holds the functions that its partner may call
  while it is in \<open>Run\<close>.

  Functions of the user are elements of a type \<open>'f\<close>; what they do, which may be any calls of the
  library, is given by an environment.
\<close>

section \<open>State\<close>

record ('x, 'f) connection =
  mpComm :: "'x communication_scheme"
  mRegisteredFunctions :: "(string \<times> 'f) list"

text \<open>
  The pointer to a connection in the table may be null. The tables are listed in the order of
  insertion; the order in which the unordered maps of the code are traversed is not specified.
  \<open>l_heap\<close> is the next address of \<open>new\<close>.
\<close>

record ('x, 'f) library =
  s_co_sim_connections :: "(string \<times> ('x, 'f) connection option) list"
  l_heap :: addr

text \<open>The virtual functions of a communication that a connection calls.\<close>

record ('s, 'c) transfers =
  t_Connect :: "info \<Rightarrow> ('s, info) prog"
  t_Disconnect :: "info \<Rightarrow> ('s, info) prog"
  t_ImportInfo :: "info \<Rightarrow> ('s, info) prog"
  t_ExportInfo :: "info \<Rightarrow> ('s, info) prog"
  t_ImportData :: "info \<Rightarrow> 'c \<Rightarrow> ('s, info \<times> 'c) prog"
  t_ExportData :: "info \<Rightarrow> dbl list \<Rightarrow> ('s, info) prog"
  t_ImportMesh :: "info \<Rightarrow> model_part \<Rightarrow> ('s, info \<times> model_part) prog"
  t_ExportMesh :: "info \<Rightarrow> model_part \<Rightarrow> ('s, info) prog"

definition info_of :: "('s, info \<times> unit) prog \<Rightarrow> ('s, info) prog" where
  "info_of m = bindP m (\<lambda>(i, _). retP i)"

definition file_transfers :: "'c container \<Rightarrow> (file_communication, 'c) transfers" where
  "file_transfers K =
     \<lparr>t_Connect = Communication_Connect (file_methods K),
      t_Disconnect = Communication_Disconnect (file_methods K),
      t_ImportInfo = (\<lambda>i. info_of (File_ImportInfo K i)),
      t_ExportInfo = (\<lambda>i. info_of (File_ExportInfo K i)),
      t_ImportData = File_ImportData K,
      t_ExportData = (\<lambda>i x. info_of (File_ExportData K i x)),
      t_ImportMesh = File_ImportMesh K,
      t_ExportMesh = (\<lambda>i p. info_of (File_ExportMesh K i p))\<rparr>"

section \<open>The table of connections\<close>

definition table_set :: "string \<Rightarrow> 'v \<Rightarrow> (string \<times> 'v) list \<Rightarrow> (string \<times> 'v) list" where
  "table_set k v t = (if k \<in> fst ` set t then List.map (\<lambda>p. if fst p = k then (k, v) else p) t
     else t @ [(k, v)])"

definition HasConnection :: "string \<Rightarrow> ('x, 'f) library \<Rightarrow> bool" where
  "HasConnection rConnectionName L = (rConnectionName \<in> fst ` set (s_co_sim_connections L))"

definition GetConnection :: "string \<Rightarrow> ('x, 'f) library \<Rightarrow> error + ('x, 'f) connection option" where
  "GetConnection rConnectionName L =
     (case map_of (s_co_sim_connections L) rConnectionName of
        None \<Rightarrow> Inl (co_error (''Trying to use connection '' @ dq rConnectionName @ '' which does not exist!''))
      | Some c \<Rightarrow> Inr c)"

definition RemoveConnection :: "string \<Rightarrow> ('x, 'f) library \<Rightarrow> ('x, 'f) library" where
  "RemoveConnection rConnectionName L =
     L\<lparr>s_co_sim_connections := List.filter (\<lambda>p. fst p \<noteq> rConnectionName) (s_co_sim_connections L)\<rparr>"

definition put_connection :: "string \<Rightarrow> ('x, 'f) connection option \<Rightarrow> ('x, 'f) library \<Rightarrow> ('x, 'f) library" where
  "put_connection k c L = L\<lparr>s_co_sim_connections := table_set k c (s_co_sim_connections L)\<rparr>"

text \<open>A call of a member function of the connection of a name, and of its communication.\<close>

definition on_connection :: "string \<Rightarrow> (('x, 'f) connection, 'a) cpp \<Rightarrow> (('x, 'f) library, 'a) prog" where
  "on_connection k m = (\<lambda>L. case GetConnection k L of
     Inl e \<Rightarrow> Done (Inl e, L)
   | Inr None \<Rightarrow> Done (Inl (UndefinedBehaviour ''null connection''), L)
   | Inr (Some c) \<Rightarrow> (case m c of (r, c') \<Rightarrow> Done (r, put_connection k (Some c') L)))"

definition on_comm :: "string \<Rightarrow> ('x communication_scheme, 'a) prog \<Rightarrow> (('x, 'f) library, 'a) prog" where
  "on_comm k m = (\<lambda>L. case GetConnection k L of
     Inl e \<Rightarrow> Done (Inl e, L)
   | Inr None \<Rightarrow> Done (Inl (UndefinedBehaviour ''null connection''), L)
   | Inr (Some c) \<Rightarrow> bindI (m ((mpComm c)\<lparr>c_heap := l_heap L\<rparr>)) (\<lambda>(r, s).
       Done (r, put_connection k (Some (c\<lparr>mpComm := s\<rparr>)) (L\<lparr>l_heap := c_heap s\<rparr>))))"

section \<open>Making a communication\<close>

definition StartsWith :: "string \<Rightarrow> string \<Rightarrow> bool" where
  "StartsWith TheString Start = starts_with TheString Start"

type_synonym 's create_fcts = "(string \<times> ((path \<Rightarrow> bool) \<Rightarrow> addr \<Rightarrow> info \<Rightarrow> error + 's)) list"

text \<open>\<open>rest\<close> are the creating functions of the communications other than the one through files.\<close>

definition GetCommunicationCreateFunctions :: "machine \<Rightarrow> nat \<Rightarrow> nat \<Rightarrow> file_communication create_fcts \<Rightarrow>
    file_communication create_fcts" where
  "GetCommunicationCreateFunctions M rank ranks rest =
     (''file'', \<lambda>path_exists h. new_FileCommunication path_exists M h rank ranks) # rest"

definition unsupported :: "string \<Rightarrow> string list \<Rightarrow> bool \<Rightarrow> error" where
  "unsupported comm_format names is_mpi =
     co_error (''Unsupported communication format: '' @ comm_format @
       ''!'' @ [nl] @ ''Only the following option are available:'' @
       concat (List.map (\<lambda>n. [nl] @ ''    '' @ n) names) @
       (if \<not> is_mpi \<and> StartsWith comm_format ''mpi''
        then [nl] @ ''Note: mpi communication formats are only available when using ConnectMPI!'' else []))"

definition Create :: "'s create_fcts \<Rightarrow> bool \<Rightarrow> (path \<Rightarrow> bool) \<Rightarrow> addr \<Rightarrow> info \<Rightarrow> error + 's" where
  "Create fcts is_mpi path_exists h I_Settings =
     bindR (get_string I_Settings ''communication_format'') (\<lambda>comm_format.
     case map_of fcts comm_format of
       Some create \<Rightarrow> create path_exists h I_Settings
     | None \<Rightarrow> Inl (unsupported comm_format (List.map fst fcts) is_mpi))"

text \<open>\<open>Connection::Connection\<close> with \<open>Initialize\<close>; the message it prints reads the two names.\<close>

definition new_Connection :: "'x communication_scheme create_fcts \<Rightarrow> bool \<Rightarrow> info \<Rightarrow>
    (('x, 'f) library, ('x, 'f) connection) prog" where
  "new_Connection fcts is_mpi I_Settings =
     bindP (localP (\<lambda>L. if Info_Has I_Settings ''communication_format'' then (Inr (Info_copy I_Settings), L)
       else (Inr (Info_Set (l_heap L) ''communication_format'' (DString ''socket'') (Info_copy I_Settings)),
             L\<lparr>l_heap := l_heap L + 1\<rparr>))) (\<lambda>comm_settings.
     bindP (liftP (get_string comm_settings ''communication_format'')) (\<lambda>comm_format.
     bindP (liftP (get_string comm_settings ''my_name'')) (\<lambda>_.
     bindP (liftP (get_string comm_settings ''connect_to'')) (\<lambda>_.
     bindP (getP l_heap) (\<lambda>h.
     bindP (actP (\<lambda>w. w) (\<lambda>w. Create fcts is_mpi (exists w) h comm_settings)) (\<lambda>c.
       retP \<lparr>mpComm = c, mRegisteredFunctions = []\<rparr>))))))"

section \<open>Connecting\<close>

definition Connection_Connect :: "('x communication_scheme, 'c) transfers \<Rightarrow> info \<Rightarrow>
    ('x communication_scheme, info) prog" where
  "Connection_Connect T I_Info = bindP (t_Connect T I_Info) (\<lambda>info.
     localP (set_entries [(''connection_status'', DInt (status_int Connected))] info))"

definition Connection_Disconnect :: "('x communication_scheme, 'c) transfers \<Rightarrow> info \<Rightarrow>
    ('x communication_scheme, info) prog" where
  "Connection_Disconnect T I_Info = bindP (t_Disconnect T I_Info) (\<lambda>info.
     localP (set_entries [(''connection_status'', DInt (status_int Disconnected))] info))"

text \<open>
  \<open>s_co_sim_connections[connection_name] = make_unique<Connection>(...)\<close>: C++11, the standard the
  library is built with, does not say which side of the assignment is evaluated first. With
  \<open>lhs_first\<close> the entry is there, with a null pointer, when the constructor throws.
\<close>

definition ConnectImpl :: "('x communication_scheme, 'c) transfers \<Rightarrow> bool \<Rightarrow>
    'x communication_scheme create_fcts \<Rightarrow> bool \<Rightarrow> info \<Rightarrow> (('x, 'f) library, info) prog" where
  "ConnectImpl T lhs_first fcts is_mpi I_Settings =
     bindP (liftP (get_string I_Settings ''my_name'')) (\<lambda>my_name.
     bindP (liftP (get_string I_Settings ''connect_to'')) (\<lambda>connect_to.
     thenP (liftP (CheckEntry my_name ''my_name''))
     (thenP (liftP (CheckEntry connect_to ''connect_to''))
     (thenP (checkP (my_name = connect_to) (co_error ''Connecting to self is not allowed!''))
     (let connection_name = CreateConnectionName my_name connect_to in
      bindP (getP (HasConnection connection_name)) (\<lambda>has.
      thenP (checkP has (co_error (''A connection from '' @ dq my_name @ '' to '' @ dq connect_to @
        ''already exists!'')))
      (thenP (whenP lhs_first (modP (put_connection connection_name None)))
      (bindP (new_Connection fcts is_mpi I_Settings) (\<lambda>c.
      thenP (modP (put_connection connection_name (Some c)))
      (on_comm connection_name (bindP (Connection_Connect T I_Settings) (\<lambda>info.
        localP (set_entries [(''connection_name'', DString connection_name)] info)))))))))))))"

definition Connect :: "('x communication_scheme, 'c) transfers \<Rightarrow> bool \<Rightarrow> 'x communication_scheme create_fcts \<Rightarrow>
    info \<Rightarrow> (('x, 'f) library, info) prog" where
  "Connect T lhs_first fcts I_Settings = ConnectImpl T lhs_first fcts False I_Settings"

definition named :: "info \<Rightarrow> (string \<Rightarrow> (('x, 'f) library, 'a) prog) \<Rightarrow> (('x, 'f) library, 'a) prog" where
  "named I_Info m = bindP (liftP (get_string I_Info ''connection_name'')) m"

definition Disconnect :: "('x communication_scheme, 'c) transfers \<Rightarrow> info \<Rightarrow> (('x, 'f) library, info) prog" where
  "Disconnect T I_Info = named I_Info (\<lambda>connection_name.
     bindP (getP (HasConnection connection_name)) (\<lambda>has.
     thenP (checkP (\<not> has) (co_error (''Trying to disconnect connection '' @ dq connection_name @
       '' which does not exist!'')))
     (bindP (on_comm connection_name (Connection_Disconnect T I_Info)) (\<lambda>info.
     thenP (modP (RemoveConnection connection_name))
       (retP info)))))"

section \<open>Transfers\<close>

definition ImportInfo :: "('x communication_scheme, 'c) transfers \<Rightarrow> info \<Rightarrow> (('x, 'f) library, info) prog" where
  "ImportInfo T I_Info = named I_Info (\<lambda>k. on_comm k (t_ImportInfo T I_Info))"

definition ExportInfo :: "('x communication_scheme, 'c) transfers \<Rightarrow> info \<Rightarrow> (('x, 'f) library, info) prog" where
  "ExportInfo T I_Info = named I_Info (\<lambda>k. on_comm k (t_ExportInfo T I_Info))"

definition ImportData :: "('x communication_scheme, 'c) transfers \<Rightarrow> info \<Rightarrow> 'c \<Rightarrow>
    (('x, 'f) library, info \<times> 'c) prog" where
  "ImportData T I_Info rData = named I_Info (\<lambda>k. on_comm k (t_ImportData T I_Info rData))"

definition ExportData :: "('x communication_scheme, 'c) transfers \<Rightarrow> info \<Rightarrow> dbl list \<Rightarrow>
    (('x, 'f) library, info) prog" where
  "ExportData T I_Info rData = named I_Info (\<lambda>k. on_comm k (t_ExportData T I_Info rData))"

definition ImportMesh :: "('x communication_scheme, 'c) transfers \<Rightarrow> info \<Rightarrow> model_part \<Rightarrow>
    (('x, 'f) library, info \<times> model_part) prog" where
  "ImportMesh T I_Info O_ModelPart = named I_Info (\<lambda>k. on_comm k (t_ImportMesh T I_Info O_ModelPart))"

definition ExportMesh :: "('x communication_scheme, 'c) transfers \<Rightarrow> info \<Rightarrow> model_part \<Rightarrow>
    (('x, 'f) library, info) prog" where
  "ExportMesh T I_Info I_ModelPart = named I_Info (\<lambda>k. on_comm k (t_ExportMesh T I_Info I_ModelPart))"

text \<open>The variant for C++ wraps the vector of the caller.\<close>

definition ImportData_vector :: "('x communication_scheme, dbl list) transfers \<Rightarrow> info \<Rightarrow> dbl list \<Rightarrow>
    (('x, 'f) library, info \<times> dbl list) prog" where
  "ImportData_vector T I_Info rData = ImportData T I_Info rData"

section \<open>Remote control\<close>

definition allowed_names :: "string list" where
  "allowed_names = [''AdvanceInTime'', ''InitializeSolutionStep'', ''Predict'', ''SolveSolutionStep'',
     ''FinalizeSolutionStep'', ''OutputSolutionStep'', ''ImportMesh'', ''ExportMesh'', ''ImportData'',
     ''ExportData'', ''exit'']"

definition CheckIfNameIsValid :: "string \<Rightarrow> error + unit" where
  "CheckIfNameIsValid rName =
     (if rName \<in> set allowed_names then Inr ()
      else Inl (co_error (''The name '' @ dq rName @ '' is not allowed!'' @ [nl] @
        ''Only the following names are allowed:'' @
        concat (List.map (\<lambda>n. [nl] @ ''    '' @ n) allowed_names))))"

definition Connection_Register :: "string \<Rightarrow> 'f \<Rightarrow> (('x, 'f) connection, info) cpp" where
  "Connection_Register rFunctionName FunctionPointer =
     thenE (liftE (CheckIfNameIsValid rFunctionName))
     (bindE (getE mRegisteredFunctions) (\<lambda>t.
     thenE (checkE (rFunctionName \<in> fst ` set t)
       (co_error (''A function was already registered for '' @ rFunctionName @ ''!'')))
     (thenE (modE (\<lambda>c. c\<lparr>mRegisteredFunctions := table_set rFunctionName FunctionPointer (mRegisteredFunctions c)\<rparr>))
       (retE Info_new))))"

definition Register_function :: "info \<Rightarrow> 'f \<Rightarrow> (('x, 'f) library, info) prog" where
  "Register_function I_Info I_FunctionPointer = named I_Info (\<lambda>connection_name.
     bindP (liftP (get_string I_Info ''function_name'')) (\<lambda>function_name.
       on_connection connection_name (Connection_Register function_name I_FunctionPointer)))"

definition nothing_registered :: "string \<Rightarrow> string list \<Rightarrow> error" where
  "nothing_registered control_signal names =
     co_error (''Nothing was registered for '' @ dq control_signal @ ''!'' @ [nl] @
       ''Only the following names are currently registered:'' @
       concat (List.map (\<lambda>n. [nl] @ ''    '' @ n) names) @ [nl] @ ''    end'')"

text \<open>
  One round of the loop of \<open>Run\<close>: whether it goes on. A function that ends the connection it is
  called from leaves the loop without its object.
\<close>

definition run_round :: "('x communication_scheme, 'c) transfers \<Rightarrow> ('f \<Rightarrow> info \<Rightarrow> (('x, 'f) library, info) prog) \<Rightarrow>
    string \<Rightarrow> info \<Rightarrow> (('x, 'f) library, bool) prog" where
  "run_round T env k ctrl_info =
     bindP (getP (HasConnection k)) (\<lambda>there.
     thenP (checkP (\<not> there) (UndefinedBehaviour ''connection is gone''))
     (bindP (on_comm k (t_ImportInfo T ctrl_info)) (\<lambda>info.
     bindP (liftP (get_string info ''control_signal'')) (\<lambda>control_signal.
     thenP (liftP (CheckIfNameIsValid control_signal))
     (if control_signal = ''exit'' then retP False
      else bindP (on_connection k (getE mRegisteredFunctions)) (\<lambda>t.
        case map_of t control_signal of
          None \<Rightarrow> throwP (nothing_registered control_signal (List.map fst t))
        | Some f \<Rightarrow> bindP (liftP (get_info_default info ''settings'' Info_new)) (\<lambda>st.
            thenP (env f st) (retP True))))))))"

text \<open>
  The partner decides how many rounds there are: the loop is bounded by the first argument, and
  \<open>None\<close> says that the bound was reached.
\<close>

fun run_rounds :: "nat \<Rightarrow> ('x communication_scheme, 'c) transfers \<Rightarrow>
    ('f \<Rightarrow> info \<Rightarrow> (('x, 'f) library, info) prog) \<Rightarrow> string \<Rightarrow> info \<Rightarrow> (('x, 'f) library, info option) prog" where
  "run_rounds 0 T env k ctrl_info = retP None"
| "run_rounds (Suc n) T env k ctrl_info =
     bindP (run_round T env k ctrl_info) (\<lambda>more.
       if more then run_rounds n T env k ctrl_info else retP (Some Info_new))"

definition Run :: "nat \<Rightarrow> ('x communication_scheme, 'c) transfers \<Rightarrow>
    ('f \<Rightarrow> info \<Rightarrow> (('x, 'f) library, info) prog) \<Rightarrow> info \<Rightarrow> (('x, 'f) library, info option) prog" where
  "Run n T env I_Info = named I_Info (\<lambda>k.
     bindP (on_comm k (localP (new_info [(''identifier'', DString ''run_control'')])))
       (run_rounds n T env k))"

definition Hello :: "addr \<Rightarrow> info \<times> addr" where
  "Hello h = (add_entries [(''major_version'', DInt GetMajorVersion), (''minor_version'', DInt GetMinorVersion),
     (''patch_version'', DString GetPatchVersion)] h Info_new, h + 3)"

end
