(* ===== verification/Channel.thy ===== *)
theory Channel
  imports HandshakeProtocol
begin

text \<open>
  A channel of files between two programs: what a program does that delivers a file, what a program
  does that fetches it, and that the two together hand over a message in every interleaving.
\<close>

section \<open>Tests before waiting\<close>

text \<open>
  \<open>untested p q\<close>: \<open>q\<close> is \<open>p\<close> where some tests of a condition before waiting for it are left out.
\<close>

inductive untested :: "'a io \<Rightarrow> 'a io \<Rightarrow> bool" where
  untested_done: "untested (Done x) (Done x)"
| untested_act: "(\<And>w. untested (k w) (k' w)) \<Longrightarrow> untested (Act u k) (Act u k')"
| untested_wait: "untested p p' \<Longrightarrow> untested (Wait c p) (Wait c p')"
| untested_test: "untested p p' \<Longrightarrow> untested (Act (\<lambda>w. w) (\<lambda>w. if c w then p else Wait c p)) (Wait c p')"

inductive_cases untested_DoneE: "untested p (Done x)"

lemma untested_refl: "untested p p"
  by (induction p) (auto intro: untested.intros)

lemma untested_access_None: "untested p p' \<Longrightarrow> access p w = None \<Longrightarrow> access p' w = None"
  by (cases rule: untested.cases) (auto split: if_splits)

lemma untested_access_Some:
  assumes "untested p p'" "access p w = Some (r, v)"
  shows "(\<exists>r'. access p' w = Some (r', v) \<and> untested r r') \<or> (v = w \<and> untested r p')"
  using assms by (cases rule: untested.cases) (auto split: if_splits intro: untested.intros)

lemma untested_bind:
  assumes "untested p p'" "\<And>x. untested (f x) (f' x)"
  shows "untested (bindI p f) (bindI p' f')"
  using assms(1)
proof (induction rule: untested.induct)
  case (untested_test p p' c)
  have "(\<lambda>w. bindI (if c w then p else Wait c p) f) = (\<lambda>w. if c w then bindI p f else Wait c (bindI p f))"
    by auto
  then show ?case using untested_test.IH by (auto intro: untested.untested_test)
qed (auto intro: untested.intros assms(2))

lemma untested_leads:
  assumes "untested p p'" "leads (p', q, w) (Done x, Done y, v)"
  shows "leads (p, q, w) (Done x, Done y, v)"
proof -
  have "\<exists>p1'. ends (p', q, w) (p1', snd t) \<and> untested (fst t) p1'"
    if "reaches (p, q, w) t" "stuck t" "untested p p'" for t p p' q w
    using that
  proof (induction "(p, q, w)" arbitrary: p p' q w rule: converse_rtranclp_induct)
    case base
    then show ?case
      using untested_access_None [of p p' w] by (auto simp: stuck_def ends_def)
  next
    case (step z)
    from step(1) show ?case
    proof (cases rule: steps_cases)
      case (left p1 w1)
      from untested_access_Some [OF step(5) left(2)] show ?thesis
      proof (elim disjE exE conjE)
        fix r' assume r: "access p' w = Some (r', w1)" "untested p1 r'"
        then have "steps (p', q, w) (r', q, w1)" by (intro steps.steps_left)
        moreover obtain p1' where "ends (r', q, w1) (p1', snd t)" "untested (fst t) p1'"
          using step(3) [OF left(1) step(4) r(2)] by blast
        ultimately show ?thesis
          by (meson converse_rtranclp_into_rtranclp ends_def)
      next
        assume "w1 = w" "untested p1 p'"
        then show ?thesis using step(3) [OF _ step(4)] left(1) by blast
      qed
    next
      case (right q1 w1)
      then have "steps (p', q, w) (p', q1, w1)" by (intro steps.steps_right) 
      moreover obtain p1' where "ends (p', q1, w1) (p1', snd t)" "untested (fst t) p1'"
        using step(3) [OF right(1) step(4,5)] by blast
      ultimately show ?thesis
        by (meson converse_rtranclp_into_rtranclp ends_def)
    qed
  qed
  then show ?thesis
    using assms unfolding leads_def ends_Done
    by (metis ends_def prod.collapse prod.inject untested_DoneE)
qed

definition untestedP :: "('s, 'a) prog \<Rightarrow> ('s, 'a) prog \<Rightarrow> bool" where
  "untestedP m m' \<longleftrightarrow> (\<forall>s. untested (m s) (m' s))"

lemma untestedP_refl: "untestedP m m"
  by (simp add: untestedP_def untested_refl)

lemma untestedP_bind:
  assumes "untestedP m m'" "\<And>x. untestedP (f x) (f' x)"
  shows "untestedP (bindP m f) (bindP m' f')"
  using assms untested_refl
  by (auto simp: untestedP_def bindP_def split: sum.split intro!: untested_bind)

definition until_removed :: "path \<Rightarrow> ('s, unit) prog" where
  "until_removed p = waitP (\<lambda>w. \<not> exists w p)"

lemma untested_removed: "untested (WaitUntilFileIsRemoved p s) (until_removed p s)"
proof -
  have "WaitUntilFileIsRemoved p s = Act (\<lambda>w. w) (\<lambda>w. if \<not> exists w p then Done (Inr (), s)
      else Wait (\<lambda>w. \<not> exists w p) (Done (Inr (), s)))"
    by (auto simp: WaitUntilFileIsRemoved_def prog_defs)
  moreover have "until_removed p s = Wait (\<lambda>w. \<not> exists w p) (Done (Inr (), s))"
    by (simp add: until_removed_def waitP_def)
  ultimately show ?thesis using untested_test [OF untested_done] by metis
qed

lemma untestedP_removed: "untestedP (WaitUntilFileIsRemoved p) (until_removed p)"
  by (simp add: untestedP_def untested_removed)

section \<open>Running to a point\<close>

lemma runs_to_trans: "runs_to b p p' w w' \<Longrightarrow> runs_to b p' p'' w' w'' \<Longrightarrow> runs_to b p p'' w w''"
  by (induction p arbitrary: w) auto

lemma runs_to_same [simp]: "runs_to b p p w w"
  by (cases p) simp_all

lemma runs_to_write:
  assumes "files w p = Some pre" "\<And>v. dirs v = dirs w \<Longrightarrow> files v m = files w m \<Longrightarrow> b v" "m \<noteq> p"
  shows "runs_to b (bindP (write_from p (length pre) cs) f s) (f () s) w (set_file p (Some (pre @ cs)) w)"
  using assms(1,2)
proof (induction cs arbitrary: w pre)
  case Nil
  then show ?case by (simp add: write_from_io ret_io set_file_same)
next
  case (Cons ch cs)
  let ?w = "set_file p (Some (pre @ [ch])) w"
  have w: "write_at p (length pre) ch w = ?w" using Cons.prems(1) by (simp add: write_at_def put_at_end)
  have "runs_to b (bindP (write_from p (length (pre @ [ch])) cs) f s) (f () s) ?w
      (set_file p (Some ((pre @ [ch]) @ cs)) ?w)"
    using Cons.prems(2) assms(3) by (intro Cons.IH) auto
  then show ?case
    using Cons.prems(2) [of w] w by (simp add: write_from_io del: write_from.simps)
qed

section \<open>Deliveries and fetches\<close>

text \<open>
  The file that shows the receiver that the message is there: the file itself, which appears under its
  name when it is complete, or an auxiliary file.
\<close>

definition marker :: "bool \<Rightarrow> path \<Rightarrow> path" where
  "marker aux f = (if aux then avail f else f)"

definition published :: "bool \<Rightarrow> path \<Rightarrow> string \<Rightarrow> world \<Rightarrow> world" where
  "published aux f out w = (if aux then set_file (avail f) (Some []) (set_file f (Some out) w)
     else set_file f (Some out) w)"

definition slots_free :: "bool \<Rightarrow> path \<Rightarrow> path \<Rightarrow> world \<Rightarrow> bool" where
  "slots_free aux f tmp w \<longleftrightarrow> free_path w f \<and> free_path w (avail f) \<and> free_path w tmp \<and>
     f \<noteq> avail f \<and> (if aux then tmp = f else tmp \<notin> {f, avail f})"

text \<open>
  \<open>p\<close> waits until the slot of the message is free, writes the message, makes it visible and goes on
  as \<open>p'\<close>; what it does until then touches its own files only. Were its files tampered with, it
  could go on as some other program of \<open>A\<close>.
\<close>

definition delivers :: "bool \<Rightarrow> path \<Rightarrow> path \<Rightarrow> string \<Rightarrow> 'a io \<Rightarrow> 'a io \<Rightarrow> 'a io set \<Rightarrow> bool" where
  "delivers aux f tmp out p p' A \<longleftrightarrow> (\<exists>r. p = Wait (\<lambda>w. \<not> exists w f) r \<and>
     (\<forall>w b. slots_free aux f tmp w \<longrightarrow>
        (\<forall>v. dirs v = dirs w \<longrightarrow> files v (marker aux f) = None \<longrightarrow> b v) \<longrightarrow>
        runs_to b r p' w (published aux f out w)) \<and>
     (\<forall>c u a. local_update a u \<longrightarrow> a \<notin> {f, tmp, avail f} \<longrightarrow> keeps_files {f, tmp, avail f} c \<longrightarrow>
        (\<forall>x \<in> A. indep c u x) \<longrightarrow> indep c u r))"

text \<open>
  \<open>q\<close> waits for the message, reads and removes it and goes on as \<open>q'\<close>, beside any program that leaves
  the files of the message alone while it is there.
\<close>

definition leaves_alone :: "path \<Rightarrow> 'b io \<Rightarrow> bool" where
  "leaves_alone f p \<longleftrightarrow> (\<forall>c u a. local_update a u \<longrightarrow> a \<in> {f, avail f} \<longrightarrow> keeps_files (- {f, avail f}) c \<longrightarrow>
     (\<forall>v. c v \<longrightarrow> exists v f) \<longrightarrow> indep c u p)"

definition fetches :: "bool \<Rightarrow> path \<Rightarrow> string \<Rightarrow> 'b io \<Rightarrow> 'b io \<Rightarrow> 'a io \<Rightarrow> bool" where
  "fetches aux f out q q' p \<longleftrightarrow> (\<exists>r. q = Wait (\<lambda>w. exists w (marker aux f)) r) \<and>
     (\<forall>w. leaves_alone f p \<longrightarrow> free_path w f \<longrightarrow> free_path w (avail f) \<longrightarrow> f \<noteq> avail f \<longrightarrow>
        leads (p, q, published aux f out w) (p, q', w))"

text \<open>One message: the receiver is blocked until it is complete, then takes it while the sender goes on.\<close>

lemma message:
  assumes "delivers aux f tmp out p p' A" "fetches aux f out q q' p'" "slots_free aux f tmp w" "leaves_alone f p'"
  shows "leads (p, q, w) (p', q', w)"
proof -
  obtain r where r: "p = Wait (\<lambda>w. \<not> exists w f) r"
    "\<And>w b. slots_free aux f tmp w \<Longrightarrow> (\<forall>v. dirs v = dirs w \<longrightarrow> files v (marker aux f) = None \<longrightarrow> b v) \<Longrightarrow>
        runs_to b r p' w (published aux f out w)"
    using assms(1) unfolding delivers_def by blast
  obtain q1 where q: "q = Wait (\<lambda>w. exists w (marker aux f)) q1"
    using assms(2) unfolding fetches_def by blast
  have f: "free_path w f" "free_path w (avail f)" "f \<noteq> avail f"
    using assms(3) by (simp_all add: slots_free_def)
  have m: "\<not> dirs w (marker aux f)" "files w (marker aux f) = None"
    using f by (auto simp: marker_def free_path_def writable_def)
  have b: "\<forall>v. dirs v = dirs w \<longrightarrow> files v (marker aux f) = None \<longrightarrow> access q v = None"
    using m by (simp add: q exists_def)
  have "runs_to (\<lambda>v. access q v = None) p p' w (published aux f out w)"
    using r(2) [OF assms(3) b] m f(1) b by (simp add: r(1) free_path_exists)
  then have "leads (p, q, w) (p', q, published aux f out w)" by (rule go_blocked)
  also have "leads \<dots> (p', q', w)"
    using assms(2,4) f unfolding fetches_def by blast
  finally show ?thesis .
qed

lemma leaves_alone_Done [simp]: "leaves_alone f (Done x)"
  by (simp add: leaves_alone_def)

lemma delivers_leaves_alone:
  assumes "delivers aux g tmp out p p' A" "\<And>x. x \<in> A \<Longrightarrow> leaves_alone f x"
    and "g \<noteq> f \<Longrightarrow> {g, tmp, avail g} \<inter> {f, avail f} = {}"
  shows "leaves_alone f p"
proof -
  obtain r where r: "p = Wait (\<lambda>w. \<not> exists w g) r"
    "\<And>c u a. local_update a u \<Longrightarrow> a \<notin> {g, tmp, avail g} \<Longrightarrow> keeps_files {g, tmp, avail g} c \<Longrightarrow>
        (\<forall>x \<in> A. indep c u x) \<Longrightarrow> indep c u r"
    using assms(1) unfolding delivers_def by blast
  show ?thesis
    unfolding leaves_alone_def r(1)
  proof (intro allI impI)
    fix c u a
    assume a: "local_update a u" "a \<in> {f, avail f}" "keeps_files (- {f, avail f}) c" "\<forall>v. c v \<longrightarrow> exists v f"
    show "indep c u (Wait (\<lambda>w. \<not> exists w g) r)"
    proof (cases "g = f")
      case False
      have "\<forall>x \<in> A. indep c u x" using assms(2) a unfolding leaves_alone_def by blast
      moreover have "keeps_files {g, tmp, avail g} c"
        using a(3) assms(3) [OF False] unfolding keeps_files_def by blast
      ultimately have "indep c u r" using a(1,2) assms(3) [OF False] by (intro r(2) [of a]) auto
      moreover have "exists (u w) g = exists w g" for w
        using a(1,2) assms(3) [OF False] by (intro local_exists) auto
      ultimately show ?thesis by simp
    qed (use a(4) in simp)
  qed
qed

end
