(* ===== verification/FileTransfer.thy ===== *)
theory FileTransfer
  imports Channel ConnectProtocol
begin

text \<open>
  The transfers of the file communication as deliveries and fetches of the channel.
\<close>

section \<open>Making a file visible\<close>

lemma runs_to_Act: "b w \<Longrightarrow> runs_to b (k w) p' (u w) w' \<Longrightarrow> runs_to b (Act u k) p' w w'"
  by simp

lemma rename_io [prog_io]:
  "bindP (MakeFileVisible f False) F s = (case GetTmpFileName s f False of Inl e \<Rightarrow> Done (Inl e, s)
   | Inr tmp \<Rightarrow> Act (\<lambda>w. w) (\<lambda>w. if \<not> exists w tmp then Done (Inl (co_error ''filesystem_error''), s)
      else Act (rename_file tmp f) (\<lambda>w. if can_rename tmp f w then F () s
        else Done (Inl (co_error (dq f @ '' could not be made visible!'')), s))))"
  by (auto simp: MakeFileVisible_def prog_io split: sum.split intro!: arg_cong2 [where f = Act] ext)

definition draft_of :: "file_communication \<Rightarrow> path \<Rightarrow> path \<Rightarrow> bool" where
  "draft_of s f tmp \<longleftrightarrow> GetTmpFileName s f (mUseAuxFileForFileAvailability s) = Inr tmp"

lemma make_visible_io:
  assumes "draft_of s f tmp"
  shows "bindP (make_visible f) F s = Act (\<lambda>w. w) (\<lambda>w.
     if \<not> exists w tmp then Done (Inl (co_error ''filesystem_error''), s)
     else if mUseAuxFileForFileAvailability s then Act (open_out (avail f)) (\<lambda>_. F () s)
     else Act (rename_file tmp f) (\<lambda>w. if can_rename tmp f w then F () s
        else Done (Inl (co_error (dq f @ '' could not be made visible!'')), s)))"
  using assms
  by (cases "mUseAuxFileForFileAvailability s")
     (auto simp: make_visible_def prog_io draft_of_def GetTmpFileName_def intro!: arg_cong2 [where f = Act] ext)

lemma runs_visible:
  assumes "draft_of s f tmp" "slots_free (mUseAuxFileForFileAvailability s) f tmp w"
    and "\<And>v. dirs v = dirs w \<Longrightarrow> files v (marker (mUseAuxFileForFileAvailability s) f) = None \<Longrightarrow> b v"
  shows "runs_to b (bindP (make_visible f) F s) (F () s) (set_file tmp (Some out) w)
    (published (mUseAuxFileForFileAvailability s) f out w)"
proof (cases "mUseAuxFileForFileAvailability s")
  case True
  have f: "free_path w f" "free_path w (avail f)" "f \<noteq> avail f" "tmp = f" using assms(2) True by (auto simp: slots_free_def)
  then show ?thesis
    using True assms(3)
    by (simp add: make_visible_io [OF assms(1)] published_def marker_def free_path_def open_out_def exists_def)
next
  case False
  have f: "free_path w f" "free_path w tmp" "f \<noteq> tmp" using assms(2) False by (auto simp: slots_free_def)
  have "rename_file tmp f (set_file tmp (Some out) w) = set_file f (Some out) w"
    using f by (intro world_files_eq) (auto simp: rename_file_def free_path_def fun_eq_iff)
  then show ?thesis
    using False assms(3) f
    by (simp add: make_visible_io [OF assms(1)] published_def marker_def free_path_def exists_def can_rename_def)
qed

lemma indep_rename:
  assumes "local_update a u" "a \<notin> {f, tmp}" "keeps_files {f, tmp} c" "f \<noteq> tmp" "c w"
  shows "c (rename_file tmp f w)" "u (rename_file tmp f w) = rename_file tmp f (u w)"
    "can_rename tmp f (u w) = can_rename tmp f w"
proof -
  have l: "local_update f (set_file f (Some x))" "local_update tmp (set_file tmp None)" for x
    unfolding local_update_def by (rule exI [of _ "\<lambda>_ _. Some x"], simp) (rule exI [of _ "\<lambda>_ _. None"], simp)
  show "c (rename_file tmp f w)"
    using assms(5) keepsD [OF assms(3) _ l(1)] keepsD [OF assms(3) _ l(2)]
    by (auto simp: rename_file_def split: option.split)
  have e: "files (u w) tmp = files w tmp" "writable (u w) = writable w"
    using local_files [OF assms(1)] local_writable [OF assms(1)] assms(2) by auto
  then show "can_rename tmp f (u w) = can_rename tmp f w" by (simp add: can_rename_def)
  show "u (rename_file tmp f w) = rename_file tmp f (u w)"
    using local_commute [OF assms(1) l(1)] local_commute [OF assms(1) l(2)] assms(2) e
    by (auto simp: rename_file_def split: option.split)
qed

lemma indep_visible:
  assumes "draft_of s f tmp" "mUseAuxFileForFileAvailability s \<or> f \<noteq> tmp"
    and "local_update a u" "a \<notin> {f, tmp, avail f}" "keeps_files {f, tmp, avail f} c" "indep c u (F () s)"
  shows "indep c u (bindP (make_visible f) F s)"
proof -
  have k: "keeps_files {f, tmp} c" using assms(5) unfolding keeps_files_def by blast
  have ex: "exists (u v) tmp = exists v tmp" for v using assms(3,4) by (intro local_exists) auto
  have op: "c v \<Longrightarrow> c (open_out (avail f) v)" "u (open_out (avail f) v) = open_out (avail f) (u v)" for v
    using keepsD [OF assms(5), of "avail f"] local_commute [OF assms(3), of "avail f" "open_out (avail f)"] assms(4) by auto
  show ?thesis
    using ex op assms(2,4,6) indep_rename [OF assms(3) _ k]
    by (auto simp: make_visible_io [OF assms(1)])
qed


section \<open>Sending\<close>

lemma tmp_io: "draft_of s f tmp \<Longrightarrow> bindP (tmp_file f) F s = F tmp s"
  by (simp add: tmp_file_def draft_of_def prog_io)

definition raw_body :: "path \<Rightarrow> nat \<Rightarrow> string \<Rightarrow> dbl file_prog" where
  "raw_body f n bytes = bindP (tmp_file f) (\<lambda>tmp.
     thenP (open_for_writing tmp f)
     (bindP (getP comm_big_endian) (\<lambda>be.
     thenP (write_from tmp 0 (framed be n bytes))
     (thenP (make_visible f)
       (localP ElapsedSeconds)))))"

definition saved_body :: "path \<Rightarrow> ('o ser, unit) cpp \<Rightarrow> info file_prog" where
  "saved_body f save = bindP (tmp_file f) (\<lambda>tmp.
     thenP (SerializeToFile tmp save)
     (bindP (file_size tmp) (\<lambda>n.
     thenP (make_visible f)
     (bindP (localP ElapsedSeconds) (\<lambda>elapsed_time.
       localP (new_info [(''memory_usage_ipc'', DSize (word_of_nat n)),
         (''elapsed_time'', DDouble elapsed_time)]))))))"

lemma raw_io:
  assumes "draft_of s f tmp"
  shows "bindP (raw_body f n bytes) F s = Act (open_out tmp) (\<lambda>w. if writable w tmp
     then bindP (write_from tmp 0 (framed (comm_big_endian s) n bytes))
       (\<lambda>_. bindP (make_visible f) (\<lambda>_. bindP (localP ElapsedSeconds) F)) s
     else Done (Inl (co_error (dq f @ '' could not be opened!'')), s))"
  unfolding raw_body_def thenP_def bindP_assoc tmp_io [OF assms] open_for_writing_def
  by (auto simp: act_io get_io simp del: write_from.simps intro!: arg_cong2 [where f = Act] ext)

lemma saved_io:
  fixes F :: "info \<Rightarrow> 'b file_prog"
  assumes "draft_of s f tmp" "save (file_ser s []) = (Inr (), ser)"
  shows "bindP (saved_body f save) F s = Act (open_inout tmp) (\<lambda>w.
     if files w tmp = None \<and> \<not> writable w tmp then Done (Inl (co_error (''Error opening input file: '' @ tmp)), s)
     else bindP (write_from tmp 0 (mBuffer ser)) (\<lambda>_ s. Act (\<lambda>w. w) (\<lambda>w. case files w tmp of
         None \<Rightarrow> Done (Inl (co_error ''filesystem_error''), s)
       | Some x \<Rightarrow> bindP (make_visible f) (\<lambda>_. bindP (localP ElapsedSeconds) (\<lambda>elapsed_time.
            bindP (localP (new_info [(''memory_usage_ipc'', DSize (word_of_nat (length x))),
              (''elapsed_time'', DDouble elapsed_time)])) F)) s)) s)"
proof -
  have e: "bindP (file_size tmp) G = (\<lambda>s. Act (\<lambda>w. w) (\<lambda>w. case files w tmp of
         None \<Rightarrow> Done (Inl (co_error ''filesystem_error''), s) | Some x \<Rightarrow> G (length x) s))" for G :: "nat \<Rightarrow> 'b file_prog"
    by (auto simp: fun_eq_iff file_size_def act_io split: option.split)
  show ?thesis
    unfolding saved_body_def thenP_def bindP_assoc tmp_io [OF assms(1)] SerializeToFile_def save_io e
    by (simp add: assms(2) lift_fun cong: if_cong)
qed

lemma runs_draft:
  assumes "slots_free aux f tmp w" "\<forall>v. dirs v = dirs w \<longrightarrow> files v (marker aux f) = None \<longrightarrow> b v"
    and "runs_to b (G () s) p (set_file tmp (Some out) w) w'"
  shows "runs_to b (bindP (write_from tmp 0 out) G s) p (set_file tmp (Some []) w) w'"
proof -
  have t: "files w (marker aux f) = None" "marker aux f \<noteq> tmp"
    using assms(1) by (auto simp: slots_free_def free_path_def marker_def)
  have "runs_to b (bindP (write_from tmp 0 out) G s) (G () s) (set_file tmp (Some []) w) (set_file tmp (Some out) w)"
    using runs_to_write [where w = "set_file tmp (Some []) w" and p = tmp and pre = "[]" and cs = out
        and m = "marker aux f" and f = G and b = b and s = s] t assms(2) by simp
  then show ?thesis using assms(3) by (rule runs_to_trans)
qed

lemma delivers_raw:
  assumes "draft_of s f tmp" "mUseAuxFileForFileAvailability s \<or> f \<noteq> tmp"
  shows "delivers (mUseAuxFileForFileAvailability s) f tmp (framed (comm_big_endian s) n bytes)
     (Wait (\<lambda>w. \<not> exists w f) (bindP (raw_body f n bytes) F s)) (bindP (localP ElapsedSeconds) F s)
     {bindP (localP ElapsedSeconds) F s}"
  unfolding delivers_def
proof (intro exI conjI allI impI)
  let ?aux = "mUseAuxFileForFileAvailability s" and ?out = "framed (comm_big_endian s) n bytes"
  let ?G = "\<lambda>_. bindP (make_visible f) (\<lambda>_. bindP (localP ElapsedSeconds) F)"
  fix w :: world and b :: "world \<Rightarrow> bool"
  assume w: "slots_free ?aux f tmp w" "\<forall>v. dirs v = dirs w \<longrightarrow> files v (marker ?aux f) = None \<longrightarrow> b v"
  have t: "writable w tmp" "files w (marker ?aux f) = None"
    using w(1) by (auto simp: slots_free_def free_path_def marker_def)
  have "runs_to b (bindP (write_from tmp 0 ?out) ?G s) (bindP (localP ElapsedSeconds) F s)
      (set_file tmp (Some []) w) (published ?aux f ?out w)"
    using runs_visible [OF assms(1) w(1), of b "\<lambda>_. bindP (localP ElapsedSeconds) F" ?out] w(2)
    by (intro runs_draft [OF w]) blast
  then show "runs_to b (bindP (raw_body f n bytes) F s) (bindP (localP ElapsedSeconds) F s) w
      (published ?aux f ?out w)"
    unfolding raw_io [OF assms(1)] using t w(2) by (intro runs_to_Act) (simp_all add: open_out_writable)
next
  fix c u a
  assume i: "local_update a u" "a \<notin> {f, tmp, avail f}" "keeps_files {f, tmp, avail f} c"
    "\<forall>x \<in> {bindP (localP ElapsedSeconds) F s}. indep c u x"
  have v: "indep c u (bindP (make_visible f) (\<lambda>_. bindP (localP ElapsedSeconds) F) s)"
    using i by (intro indep_visible [OF assms]) auto
  have wr: "indep c u (bindP (write_from tmp k cs) (\<lambda>_. bindP (make_visible f) (\<lambda>_. bindP (localP ElapsedSeconds) F)) s)"
    for k cs using i v keepsD [OF i(3), of tmp] by (intro indep_write [of a]) auto
  show "indep c u (bindP (raw_body f n bytes) F s)"
    unfolding raw_io [OF assms(1)]
    using i(1,2) wr keepsD [OF i(3), of tmp "open_out tmp"] local_commute [OF i(1), of tmp "open_out tmp"]
    by (auto simp: local_writable)
qed simp


definition saved_result :: "nat \<Rightarrow> info file_prog" where
  "saved_result n = bindP (localP ElapsedSeconds) (\<lambda>elapsed_time.
     localP (new_info [(''memory_usage_ipc'', DSize (word_of_nat n)), (''elapsed_time'', DDouble elapsed_time)]))"

lemma saved_io':
  assumes "draft_of s f tmp" "save (file_ser s []) = (Inr (), ser)"
  shows "bindP (saved_body f save) F s = Act (open_inout tmp) (\<lambda>w.
     if files w tmp = None \<and> \<not> writable w tmp then Done (Inl (co_error (''Error opening input file: '' @ tmp)), s)
     else bindP (write_from tmp 0 (mBuffer ser)) (\<lambda>_ s. Act (\<lambda>w. w) (\<lambda>w. case files w tmp of
         None \<Rightarrow> Done (Inl (co_error ''filesystem_error''), s)
       | Some x \<Rightarrow> bindP (make_visible f) (\<lambda>_. bindP (saved_result (length x)) F) s)) s)"
  unfolding saved_io [where f = f and tmp = tmp and s = s and save = save and ser = ser and F = F, OF assms] saved_result_def bindP_assoc by simp

lemma delivers_saved:
  assumes "draft_of s f tmp" "mUseAuxFileForFileAvailability s \<or> f \<noteq> tmp"
    and "save (file_ser s []) = (Inr (), ser)" "mBuffer ser = out"
  shows "delivers (mUseAuxFileForFileAvailability s) f tmp out
     (Wait (\<lambda>w. \<not> exists w f) (bindP (saved_body f save) F s)) (bindP (saved_result (length out)) F s)
     {bindP (saved_result n) F s |n. True}"
  unfolding delivers_def
proof (intro exI conjI allI impI)
  let ?aux = "mUseAuxFileForFileAvailability s"
  let ?R = "bindP (saved_result (length out)) F"
  note S = saved_io' [where f = f and tmp = tmp and s = s and save = save and ser = ser and F = F, OF assms(1,3)]
  let ?G = "\<lambda>_ s. Act (\<lambda>w. w) (\<lambda>w. case files w tmp of
         None \<Rightarrow> Done (Inl (co_error ''filesystem_error''), s)
       | Some x \<Rightarrow> bindP (make_visible f) (\<lambda>_. bindP (saved_result (length x)) F) s)"
  fix w :: world and b :: "world \<Rightarrow> bool"
  assume w: "slots_free ?aux f tmp w" "\<forall>v. dirs v = dirs w \<longrightarrow> files v (marker ?aux f) = None \<longrightarrow> b v"
  have t: "writable w tmp" "files w tmp = None" "files w (marker ?aux f) = None" "marker ?aux f \<noteq> tmp"
    using w(1) by (auto simp: slots_free_def free_path_def marker_def)
  have "runs_to b (bindP (make_visible f) (\<lambda>_. ?R) s) (?R s) (set_file tmp (Some out) w) (published ?aux f out w)"
    using runs_visible [OF assms(1) w(1), of b "\<lambda>_. ?R" out] w(2) by blast
  then have "runs_to b (?G () s) (?R s) (set_file tmp (Some out) w) (published ?aux f out w)"
    using t w(2) by (intro runs_to_Act) simp_all
  then have "runs_to b (bindP (write_from tmp 0 out) ?G s) (?R s) (set_file tmp (Some []) w) (published ?aux f out w)"
    by (rule runs_draft [OF w])
  then show "runs_to b (bindP (saved_body f save) F s) (?R s) w (published ?aux f out w)"
    unfolding S using t w(2) assms(4)
    by (intro runs_to_Act) (simp_all add: open_inout_def open_out_writable)
next
  let ?G = "\<lambda>_ s. Act (\<lambda>w. w) (\<lambda>w. case files w tmp of
         None \<Rightarrow> Done (Inl (co_error ''filesystem_error''), s)
       | Some x \<Rightarrow> bindP (make_visible f) (\<lambda>_. bindP (saved_result (length x)) F) s)"
  note S = saved_io' [where f = f and tmp = tmp and s = s and save = save and ser = ser and F = F, OF assms(1,3)]
  fix c u a
  assume i: "local_update a u" "a \<notin> {f, tmp, avail f}" "keeps_files {f, tmp, avail f} c"
    "\<forall>x \<in> {bindP (saved_result n) F s |n. True}. indep c u x"
  have v: "indep c u (bindP (make_visible f) (\<lambda>_. bindP (saved_result n) F) s)" for n
    using i by (intro indep_visible [OF assms(1,2)]) auto
  have e: "files (u w) tmp = files w tmp" for w using i(1,2) by (intro local_files) auto
  have wr: "indep c u (bindP (write_from tmp k cs) ?G s)" for k cs
    using i(1,2) v e keepsD [OF i(3), of tmp] by (intro indep_write [of a]) (auto split: option.split)
  show "indep c u (bindP (saved_body f save) F s)"
    unfolding S using i(1,2) wr e keepsD [OF i(3), of tmp "open_inout tmp"]
      local_commute [OF i(1), of tmp "open_inout tmp"]
    by (auto simp: local_writable [OF i(1)])
qed simp


section \<open>Receiving\<close>

lemma fetch_step:
  assumes "leaves_alone f p" "local_update a u" "a \<in> {f, avail f}" "files w f = Some out"
    and "\<And>v. files v f = Some out \<Longrightarrow> files v (avail f) = files w (avail f) \<Longrightarrow> access q v = Some (q', u v)"
  shows "leads (p, q, w) (p, q', u w)"
proof -
  let ?c = "\<lambda>v. files v f = Some out \<and> files v (avail f) = files w (avail f)"
  have k: "keeps_files (- {f, avail f}) ?c"
    unfolding keeps_files_def using local_files by (metis ComplD insertI1 insertI2)
  have "indep ?c u p"
    by (rule assms(1) [unfolded leaves_alone_def, rule_format, OF assms(2,3) k]) (simp add: exists_def)
  then show ?thesis
    using assms(4,5) by (intro go_ahead_right [where c = ?c]) auto
qed

text \<open>\<open>r\<close> only reads the file, which holds \<open>out\<close>, and comes to \<open>x\<close>.\<close>

inductive reads_to :: "path \<Rightarrow> string \<Rightarrow> 'b io \<Rightarrow> 'b io \<Rightarrow> bool" for f out where
  reads_to_refl: "reads_to f out x x"
| reads_to_act: "(\<And>w. files w f = Some out \<Longrightarrow> u w = w) \<Longrightarrow> (\<And>w. files w f = Some out \<Longrightarrow> k w = r) \<Longrightarrow>
    reads_to f out r x \<Longrightarrow> reads_to f out (Act u k) x"

lemma reads_leads:
  assumes "reads_to f out r x" "leaves_alone f p" "files w f = Some out"
  shows "leads (p, r, w) (p, x, w)"
  using assms(1)
proof (induction rule: reads_to.induct)
  case (reads_to_act u k r x)
  have "leads (p, Act u k, w) (p, r, w)"
    using fetch_step [where u = "\<lambda>w. w" and a = f and f = f and p = p and w = w and out = out and q = "Act u k" and q' = r]
      assms(2,3) reads_to_act.hyps(1,2) by simp
  then show ?case using reads_to_act.IH by (rule leads_trans)
qed (rule leads_refl)

lemma remove_step:
  assumes "leaves_alone f p" "a \<in> {f, avail f}" "files w f = Some out" "files w a \<noteq> None"
  shows "leads (p, bindP (RemovePath a) G t, w) (p, G () t, remove_file a w)"
  using assms
  by (intro fetch_step [where a = a and f = f and out = out]) (auto simp: remove_io)

lemma fetchesI:
  assumes "reads_to f out (R t) (bindP (RemovePath f) G t')"
  shows "fetches (mUseAuxFileForFileAvailability t) f out (bindP (wait_for f) (\<lambda>_. R) t) (G () t') p"
  unfolding fetches_def
proof (intro conjI allI impI)
  let ?aux = "mUseAuxFileForFileAvailability t"
  show "\<exists>r. bindP (wait_for f) (\<lambda>_. R) t = Wait (\<lambda>w. exists w (marker ?aux f)) r"
    by (cases ?aux) (simp_all add: wait_for_def prog_io marker_def)
  fix w
  assume a: "leaves_alone f p" "free_path w f" "free_path w (avail f)" "f \<noteq> avail f"
  let ?w0 = "published ?aux f out w"
  let ?w1 = "set_file f (Some out) w"
  have n: "files w f = None" "files w (avail f) = None" using a(2,3) by (simp_all add: free_path_def)
  have e: "set_file f None ?w1 = w" using n by simp
  have take: "leads (p, bindP (RemovePath f) G t', ?w1) (p, G () t', w)"
    using remove_step [OF a(1), of f ?w1 out G t'] e by (simp add: remove_file_def)
  have read: "leads (p, R t, ?w1) (p, bindP (RemovePath f) G t', ?w1)"
    using assms a(1) by (rule reads_leads) simp
  have open_it: "leads (p, bindP (wait_for f) (\<lambda>_. R) t, ?w0) (p, R t, ?w1)"
  proof (cases ?aux)
    case True
    have w0: "files ?w0 f = Some out" "files ?w0 (avail f) = Some []" using True a(4) by (simp_all add: published_def)
    have "leads (p, bindP (wait_for f) (\<lambda>_. R) t, ?w0) (p, bindP (RemovePath (avail f)) (\<lambda>_. R) t, ?w0)"
      using fetch_step [where u = "\<lambda>w. w" and a = f and f = f and p = p and w = ?w0 and out = out
          and q = "bindP (wait_for f) (\<lambda>_. R) t" and q' = "bindP (RemovePath (avail f)) (\<lambda>_. R) t"] a(1) w0 True
      by (simp add: wait_for_def assoc_io get_io wait_path_io exists_def)
    also have "leads \<dots> (p, R t, remove_file (avail f) ?w0)"
      using remove_step [OF a(1), of "avail f" ?w0 out "\<lambda>_. R" t] w0 by simp
    also have "remove_file (avail f) ?w0 = ?w1"
      using True n a(4) by (intro world_files_eq) (auto simp: remove_file_def published_def fun_eq_iff)
    finally show ?thesis .
  next
    case False
    then show ?thesis
      using fetch_step [where u = "\<lambda>w. w" and a = f and f = f and p = p and w = ?w0 and out = out
          and q = "bindP (wait_for f) (\<lambda>_. R) t" and q' = "R t"] a(1)
      by (simp add: wait_for_def assoc_io get_io wait_path_io exists_def published_def)
  qed
  show "leads (p, bindP (wait_for f) (\<lambda>_. R) t, ?w0) (p, G () t', w)"
    using leads_trans [OF open_it leads_trans [OF read take]] .
qed


lemma with_file_io:
  assumes "get_string I ''identifier'' = Inr i"
  shows "bindP (with_file I m) F s = bindP (m (data_file s i)) F s"
  using assms by (simp add: with_file_def prog_io)

lemma fetches_raw:
  assumes "get_string I ''identifier'' = Inr i" "f = data_file t i"
    and "unframe (comm_big_endian t) sz out = Inr (n, bytes)" "consume n bytes = Inr x"
  shows "fetches (mUseAuxFileForFileAvailability t) f out (bindP (GenericReceive I sz consume) F t)
    (bindP (localP ElapsedSeconds) (\<lambda>e. F (e, x)) t) p"
proof -
  let ?G = "\<lambda>_ :: unit. bindP (localP ElapsedSeconds) (\<lambda>e. F (e, x))"
  let ?R = "bindP (read_file f) (\<lambda>content. bindP (getP comm_big_endian) (\<lambda>be.
     bindP (liftP (unframe be sz content)) (\<lambda>nb. bindP (liftP (consume (fst nb) (snd nb))) (\<lambda>x.
     bindP (RemovePath f) (\<lambda>_. bindP (localP ElapsedSeconds) (\<lambda>e. F (e, x)))))))"
  have fin: "bindP (retP y) F = F y" for y by (simp add: fun_eq_iff ret_io)
  have "bindP (GenericReceive I sz consume) F t = bindP (wait_for f) (\<lambda>_. ?R) t"
    unfolding GenericReceive_def thenP_def by (simp add: with_file_io [OF assms(1)] assms(2) bindP_assoc fin split_beta)
  moreover have "reads_to f out (?R t) (bindP (RemovePath f) ?G t)"
    unfolding read_file_def act_io
    by (rule reads_to_act [OF _ _ reads_to_refl]) (simp_all add: get_io assms(3,4) lift_fun)
  ultimately show ?thesis using fetchesI [of f out ?R t ?G t p] by simp
qed

definition loaded_result :: "nat \<Rightarrow> 'b \<Rightarrow> (info \<times> 'b) file_prog" where
  "loaded_result n obj = bindP (localP ElapsedSeconds) (\<lambda>elapsed_time.
     bindP (localP (new_info [(''memory_usage_ipc'', DSize (word_of_nat n)),
         (''elapsed_time'', DDouble elapsed_time)])) (\<lambda>info. retP (info, obj)))"

lemma fetches_saved:
  fixes F :: "info \<times> 'b \<Rightarrow> 'd file_prog"
  assumes "get_string I ''identifier'' = Inr i" "f = data_file t i"
    and "load (file_ser t out) = (Inr obj, ser)"
  shows "fetches (mUseAuxFileForFileAvailability t) f out (bindP (GenericReceiveWithFileSerializer I load) F t)
    (bindP (loaded_result (length out) obj) F (t\<lparr>c_heap := mHeap ser\<rparr>)) p"
proof -
  let ?G = "\<lambda>_ :: unit. bindP (loaded_result (length out) obj) F"
  let ?L = "\<lambda>n. bindP (SerializeFromFile f load) (\<lambda>obj.
     bindP (RemovePath f) (\<lambda>_. bindP (loaded_result n obj) F))"
  let ?R = "bindP (file_size f) ?L"
  have "bindP (GenericReceiveWithFileSerializer I load) F t = bindP (wait_for f) (\<lambda>_. ?R) t"
    unfolding GenericReceiveWithFileSerializer_def thenP_def loaded_result_def
    by (simp add: with_file_io [OF assms(1)] assms(2) bindP_assoc)
  moreover have "reads_to f out (?L (length out) t) (bindP (RemovePath f) ?G (t\<lparr>c_heap := mHeap ser\<rparr>))"
    unfolding SerializeFromFile_def load_io
    by (rule reads_to_act [OF _ _ reads_to_refl]) (simp_all add: assms(3) lift_fun open_inout_def)
  then have "reads_to f out (?R t) (bindP (RemovePath f) ?G (t\<lparr>c_heap := mHeap ser\<rparr>))"
    unfolding file_size_def act_io by (intro reads_to_act) simp_all
  ultimately show ?thesis using fetchesI [of f out ?R t ?G "t\<lparr>c_heap := mHeap ser\<rparr>" p] by simp
qed

section \<open>Encodings\<close>

lemma unframe_framed:
  assumes "length bytes = n * sz" "n < 2 ^ 64"
  shows "unframe be sz (framed be n bytes) = Inr (n, bytes)"
  using assms object_roundtrip [where ?'a = 64 and n = 8 and w = "word_of_nat n :: u64"]
  by (simp add: unframe_def framed_def Let_def length_object_bytes unat_word_of_nat)

lemma bytes_doubles_inverse:
  "bytes_doubles be (length xs) (doubles_bytes be xs) = xs"
proof (induction xs)
  case (Cons x xs)
  then show ?case by (simp add: doubles_bytes_def length_object_bytes object_roundtrip)
qed (simp add: doubles_bytes_def)

lemma length_doubles_bytes: "length (doubles_bytes be xs) = length xs * 8"
  by (induction xs) (simp_all add: doubles_bytes_def length_object_bytes)

end
