(* ===== verification/Transfers.thy ===== *)
theory Transfers
  imports FileTransfer MeshRoundTrip
begin

text \<open>
  Sequences of exports and imports of field data, meshes and \<open>Info\<close> objects between two connected
  partners of the file communication.
\<close>

section \<open>Programs that start with waiting for a free slot\<close>

definition starts :: "('s \<Rightarrow> path) \<Rightarrow> ('s, 'a) prog \<Rightarrow> bool" where
  "starts f m \<longleftrightarrow> (\<forall>s. (\<exists>e s'. m s = Done (Inl e, s')) \<or>
     (\<exists>R s'. m s = bindP (WaitUntilFileIsRemoved (f s)) (\<lambda>_. R) s'))"

lemma starts_bind: "starts f m \<Longrightarrow> starts f (bindP m G)"
  unfolding starts_def
proof
  fix s
  assume "\<forall>s. (\<exists>e s'. m s = Done (Inl e, s')) \<or> (\<exists>R s'. m s = bindP (WaitUntilFileIsRemoved (f s)) (\<lambda>_. R) s')"
  then consider e s' where "m s = Done (Inl e, s')" | R s' where "m s = bindP (WaitUntilFileIsRemoved (f s)) (\<lambda>_. R) s'"
    by metis
  then show "(\<exists>e s'. bindP m G s = Done (Inl e, s')) \<or>
      (\<exists>R s'. bindP m G s = bindP (WaitUntilFileIsRemoved (f s)) (\<lambda>_. R) s')"
  proof cases
    case 2
    have "bindP m G s = bindI (bindP (WaitUntilFileIsRemoved (f s)) (\<lambda>_. R) s')
        (\<lambda>(r, s'). case r of Inl e \<Rightarrow> Done (Inl e, s') | Inr x \<Rightarrow> G x s')"
      using 2 by (simp add: bindP_def)
    also have "\<dots> = bindP (WaitUntilFileIsRemoved (f s)) (\<lambda>_. bindP R G) s'"
      unfolding bindP_assoc [symmetric] by (simp add: bindP_def)
    finally show ?thesis by blast
  qed (simp add: bindP_def)
qed

lemma starts_then: "starts f m \<Longrightarrow> starts f (thenP m n)"
  by (simp add: thenP_def starts_bind)

lemma starts_get: "(\<And>x. starts f (F x)) \<Longrightarrow> starts f (bindP (getP g) F)"
  by (simp add: starts_def get_io)

lemma starts_lift: "(\<And>x. r = Inr x \<Longrightarrow> starts f (F x)) \<Longrightarrow> starts f (bindP (liftP r) F)"
  by (cases r) (auto simp: starts_def lift_io)

lemma starts_get_lift: "(\<And>x. starts f (F x)) \<Longrightarrow> starts f (bindP (bindP (getP g) liftP) F)"
  unfolding bindP_assoc by (intro starts_get starts_lift)

lemma starts_clock: "(\<And>s k. f (s\<lparr>c_clock := k\<rparr>) = f s) \<Longrightarrow> (\<And>x. starts f (F x)) \<Longrightarrow> starts f (bindP (localP ElapsedSeconds) F)"
  unfolding starts_def local_io ElapsedSeconds_def by simp metis

lemma starts_if: "(b \<Longrightarrow> starts f m) \<Longrightarrow> (\<not> b \<Longrightarrow> starts f n) \<Longrightarrow> starts f (if b then m else n)"
  by simp

definition ident :: "info \<Rightarrow> string" where
  "ident i = (case get_string i ''identifier'' of Inr x \<Rightarrow> x | Inl _ \<Rightarrow> [])"

definition slot_of :: "string \<Rightarrow> file_communication \<Rightarrow> path" where
  "slot_of i s = data_file s i"

lemma slot_fields:
  assumes "mConnectionName t = mConnectionName s" "mCommInFolder t = mCommInFolder s"
    "mCommFolder t = mCommFolder s" "c_rank t = c_rank s"
  shows "slot_of i t = slot_of i s"
  using assms by (simp add: slot_of_def data_file_def GetFileName_def Let_def cong: if_cong)

lemma starts_file:
  "starts (slot_of (ident I)) (with_file I (\<lambda>f. thenP (WaitUntilFileIsRemoved f) (rest f)))"
  unfolding with_file_def thenP_def
  by (rule starts_lift) (auto simp: starts_def get_io ident_def slot_of_def)

lemma starts_sends:
  "starts (slot_of (ident I)) (GenericSend I n bytes)"
  "starts (slot_of (ident I)) (GenericSendWithFileSerializer I save)"
  "starts (slot_of (ident I)) (SendObjectWithStreamSerializer (file_methods K) I save')"
proof -
  show raw: "starts (slot_of (ident I)) (GenericSend I n bytes)" for n bytes
    unfolding GenericSend_def by (rule starts_file)
  show "starts (slot_of (ident I)) (GenericSendWithFileSerializer I save)"
    unfolding GenericSendWithFileSerializer_def by (rule starts_file)
  have "SendString (file_methods K) I x = GenericSend I (length x) x" for x
    by (simp add: file_methods_def File_SendString_def)
  then show "starts (slot_of (ident I)) (SendObjectWithStreamSerializer (file_methods K) I save')"
    unfolding SendObjectWithStreamSerializer_def thenP_def
    by (auto split: prod.split
        intro!: slot_fields starts_get starts_lift starts_clock starts_bind [OF raw])
qed

lemma starts_exports:
  "starts (slot_of (ident I)) (File_ExportInfo K I)" "starts (slot_of (ident I)) (File_ExportData K I xs)"
  "starts (slot_of (ident I)) (File_ExportMesh K I p)"
proof -
  have d: "SendDataContainer (file_methods K) I xs = bindP (getP comm_big_endian) (\<lambda>be. GenericSend I (length xs) (doubles_bytes be xs))"
    for K :: "'c container" and xs by (simp add: file_methods_def File_SendDataContainer_def)
  show "starts (slot_of (ident I)) (File_ExportInfo K I)" "starts (slot_of (ident I)) (File_ExportData K I xs)"
    "starts (slot_of (ident I)) (File_ExportMesh K I p)"
    unfolding File_ExportInfo_def File_ExportData_def File_ExportMesh_def with_checks_def no_result_def thenP_def
      File_ExportInfoImpl_def File_ExportDataImpl_def File_ExportMeshImpl_def
      Base_ExportInfoImpl_def Base_ExportDataImpl_def Base_ExportMeshImpl_def d
    by (intro starts_get_lift starts_bind starts_get starts_if starts_sends)+
qed

text \<open>The program without the test before the waiting.\<close>

definition nowhere :: world where
  "nowhere = \<lparr>files = (\<lambda>_. None), dirs = (\<lambda>_. False), streams = (\<lambda>_. []), closed = (\<lambda>_. False),
     listening = (\<lambda>_. False)\<rparr>"

definition waiting :: "('s \<Rightarrow> path) \<Rightarrow> ('s, 'a) prog \<Rightarrow> ('s, 'a) prog" where
  "waiting f m = (\<lambda>s. case m s of Act u k \<Rightarrow> Wait (\<lambda>w. \<not> exists w (f s)) (k nowhere) | p \<Rightarrow> p)"

lemma waiting_io:
  "m s = bindP (WaitUntilFileIsRemoved (f s)) (\<lambda>_. R) s' \<Longrightarrow> waiting f m s = Wait (\<lambda>w. \<not> exists w (f s)) (R s')"
  by (simp add: waiting_def removed_io) (simp add: nowhere_def exists_def)

lemma untested_waiting: "starts f m \<Longrightarrow> untestedP m (waiting f m)"
  unfolding untestedP_def
proof
  fix s assume "starts f m"
  then consider e s' where "m s = Done (Inl e, s')" | R s' where "m s = bindP (WaitUntilFileIsRemoved (f s)) (\<lambda>_. R) s'"
    unfolding starts_def by metis
  then show "untested (m s) (waiting f m s)"
  proof cases
    case 2
    show ?thesis
      unfolding waiting_io [where f = f and R = R and m = m and s = s and s' = s', OF 2] unfolding 2 removed_io by (rule untested_test [OF untested_refl])
  qed (simp add: waiting_def untested_done)
qed

lemma waiting_bind:
  "m s = bindP (WaitUntilFileIsRemoved (f s)) (\<lambda>_. R) s' \<Longrightarrow>
     bindP (waiting f m) F s = Wait (\<lambda>w. \<not> exists w (f s)) (bindP R F s')"
  by (simp add: bindP_def waiting_io)


section \<open>Checks around a transfer\<close>

definition post :: "info \<Rightarrow> info \<times> 'r \<Rightarrow> ('x communication_scheme, info \<times> 'r) prog" where
  "post i x = thenP (liftP (PostChecks (fst x))) (thenP (liftP (PrintElapsedTime i (fst x))) (retP x))"

lemma with_checks_post:
  "with_checks i impl = thenP (bindP (getP (CheckConnection i)) liftP) (bindP impl (post i))"
  unfolding with_checks_def post_def by (simp add: split_def)

lemma with_checks_io:
  assumes "CheckConnection i s = Inr ()"
  shows "bindP (with_checks i impl) F s = bindP impl (\<lambda>x. bindP (post i x) F) s"
  unfolding with_checks_post thenP_def bindP_assoc by (simp add: get_io assms lift_fun)

lemma with_checks_end:
  assumes "CheckConnection i s = Inr ()"
  shows "with_checks i impl s = bindP impl (post i) s"
  unfolding with_checks_post thenP_def bindP_assoc by (simp add: get_io assms lift_fun)

lemma post_io:
  assumes "get_string i ''identifier'' = Inr n" "get_double o_info ''elapsed_time'' = Inr t"
    "Info_Has o_info ''elapsed_time''" "Info_Has o_info ''memory_usage_ipc''"
  shows "bindP (post i (o_info, r)) F = F (o_info, r)"
  using assms by (simp add: post_def PostChecks_def PrintElapsedTime_def fun_eq_iff prog_io)

lemma clock_io:
  "bindP (localP ElapsedSeconds) F s = F (elapsed (c_machine s) (c_clock s)) (s\<lparr>c_clock := c_clock s + 1\<rparr>)"
  by (simp add: local_io ElapsedSeconds_def)

lemma new_info_io:
  "bindP (localP (new_info kvs)) F s =
     F (add_entries kvs (c_heap s) Info_new) (s\<lparr>c_heap := c_heap s + word_of_nat (length kvs)\<rparr>)"
  "bindP (localP (set_entries kvs m)) F s =
     F (add_entries kvs (c_heap s) m) (s\<lparr>c_heap := c_heap s + word_of_nat (length kvs)\<rparr>)"
  by (simp_all add: local_io new_info_def set_entries_def)

section \<open>Messages\<close>

text \<open>
  Field data, an \<open>Info\<close> or a mesh, with the arguments of both sides: the information that names the message
  and, for field data and meshes, the container or part of the receiver.
\<close>

datatype 'c message = Data info info "dbl list" 'c | Settings info info | Mesh info info model_part model_part

text \<open>What the caller of an import gets beside the information.\<close>

datatype 'c cargo = Nothing | Values 'c | Part model_part

definition export_message :: "'c container \<Rightarrow> 'c message \<Rightarrow> (info \<times> unit) file_prog" where
  "export_message K m = (case m of Data i j xs x0 \<Rightarrow> File_ExportData K i xs | Settings i j \<Rightarrow> File_ExportInfo K i
     | Mesh i j p q \<Rightarrow> File_ExportMesh K i p)"

definition import_message :: "'c container \<Rightarrow> 'c message \<Rightarrow> (info \<times> 'c cargo) file_prog" where
  "import_message K m = (case m of
     Data i j xs x0 \<Rightarrow> bindP (File_ImportData K j x0) (\<lambda>(r, x). retP (r, Values x))
   | Settings i j \<Rightarrow> bindP (File_ImportInfo K j) (\<lambda>(r, _). retP (r, Nothing))
   | Mesh i j p q \<Rightarrow> bindP (File_ImportMesh K j q) (\<lambda>(r, x). retP (r, Part x)))"

definition message_id :: "'c message \<Rightarrow> string" where
  "message_id m = (case m of Data i j xs x0 \<Rightarrow> ident i | Settings i j \<Rightarrow> ident i | Mesh i j p q \<Rightarrow> ident i)"

definition same_comm :: "'x communication_scheme \<Rightarrow> 'x communication_scheme \<Rightarrow> bool" where
  "same_comm s0 s \<longleftrightarrow> (\<exists>h k. s = s0\<lparr>c_heap := h, c_clock := k\<rparr>)"

text \<open>Two sides of a connection with settings that agree.\<close>

definition linked :: "file_communication \<Rightarrow> file_communication \<Rightarrow> bool" where
  "linked s t \<longleftrightarrow> mIsConnected s \<and> mIsConnected t \<and> c_rank s = 0 \<and> c_rank t = 0 \<and> folder_ok s \<and>
     mConnectionName t = mConnectionName s \<and> slash \<notin> set (mConnectionName s) \<and>
     mCommInFolder t = mCommInFolder s \<and> mCommFolder t = mCommFolder s \<and>
     plat (c_machine t) = plat (c_machine s) \<and> mSerializerTraceType t = mSerializerTraceType s \<and>
     mAlwaysUseSerializer t = mAlwaysUseSerializer s \<and>
     mUseAuxFileForFileAvailability t = mUseAuxFileForFileAvailability s \<and>
     mUseFileSerializer s \<and> mUseFileSerializer t"

definition names_agree :: "info \<Rightarrow> info \<Rightarrow> bool" where
  "names_agree i j \<longleftrightarrow> (\<exists>n. get_string i ''identifier'' = Inr n \<and> get_string j ''identifier'' = Inr n \<and>
     CheckEntry n ''identifier'' = Inr ())"

definition good_message :: "('c \<Rightarrow> bool) \<Rightarrow> (nat \<Rightarrow> 'c \<Rightarrow> bool) \<Rightarrow> 'x communication_scheme \<Rightarrow> 'c message \<Rightarrow> bool" where
  "good_message ok room s m = (case m of
     Data i j xs x0 \<Rightarrow> names_agree i j \<and> length xs < 2 ^ 64 \<and> ok x0 \<and> room (length xs) x0 \<and>
       (mAlwaysUseSerializer s \<longrightarrow> mSerializerTraceType s \<noteq> SERIALIZER_NO_TRACE \<longrightarrow>
          (\<forall>x \<in> set xs. prints_exactly (plat (c_machine s)) x))
   | Settings i j \<Rightarrow> names_agree i j \<and> info_wf i \<and> distinct (entries_addrs i) \<and>
       data_good (plat (c_machine s)) (mSerializerTraceType s) (DInfo i)
   | Mesh i j p q \<Rightarrow> names_agree i j \<and> level_target q \<and>
       exportable (plat (c_machine s)) (mSerializerTraceType s) p)"

definition usable :: "'c container \<Rightarrow> ('c \<Rightarrow> bool) \<Rightarrow> (nat \<Rightarrow> 'c \<Rightarrow> bool) \<Rightarrow> bool" where
  "usable K ok room \<longleftrightarrow> array_container (k_elems K) (\<lambda>x. length (k_elems K x)) (k_resize K) (k_put K) ok room"

definition data_text :: "string \<Rightarrow> platform \<Rightarrow> TraceType \<Rightarrow> dbl list \<Rightarrow> string" where
  "data_text tag P T xs = tag_out P T tag @ (tag_out P T ''BaseClass'' @
     (tag_out P T ''size'' @ scalar_out sc_size_t P T (word_of_nat (length xs))) @
     concat (List.map (\<lambda>v. tag_out P T ''v'' @ scalar_out sc_double P T v) xs))"

definition message_text :: "file_communication \<Rightarrow> 'c message \<Rightarrow> string" where
  "message_text s m = (let P = plat (c_machine s); T = mSerializerTraceType s in case m of
     Data i j xs x0 \<Rightarrow> if mAlwaysUseSerializer s then data_text ''obj'' P T xs
       else framed (comm_big_endian s) (length xs) (doubles_bytes (comm_big_endian s) xs)
   | Settings i j \<Rightarrow> tag_out P T ''obj'' @ info_out P T i
   | Mesh i j p q \<Rightarrow> mesh_text P T ''obj'' p)"

definition received :: "'c container \<Rightarrow> 'c message \<Rightarrow> info \<times> 'c cargo \<Rightarrow> bool" where
  "received K m v = (case m of
     Data i j xs x0 \<Rightarrow> (\<exists>x. snd v = Values x \<and> k_elems K x = xs)
   | Settings i j \<Rightarrow> snd v = Nothing \<and> (\<forall>k. k \<noteq> ''elapsed_time'' \<longrightarrow> k \<noteq> ''memory_usage_ipc'' \<longrightarrow>
       info_abs (entries_value (fst v)) k = info_abs (entries_value i) k)
   | Mesh i j p q \<Rightarrow> (\<exists>p'. snd v = Part p' \<and> same_mesh p p'))"


section \<open>Sending a message\<close>

lemma export_data_io:
  assumes "CheckConnection i s = Inr ()" "get_string i ''identifier'' = Inr n" "mUseFileSerializer s"
  shows "mAlwaysUseSerializer s \<Longrightarrow> export_message K (Data i j xs x0) s =
      bindP (WaitUntilFileIsRemoved (data_file s n)) (\<lambda>_. bindP (saved_body (data_file s n)
        (save_object container_object_save ''obj'' xs)) (\<lambda>o_info. post i (o_info, ()))) s"
    "\<not> mAlwaysUseSerializer s \<Longrightarrow> export_message K (Data i j xs x0) s =
      bindP (WaitUntilFileIsRemoved (data_file s n)) (\<lambda>_. bindP (raw_body (data_file s n) (length xs)
        (doubles_bytes (comm_big_endian s) xs)) (\<lambda>e. bindP (localP (new_info [(''elapsed_time'', DDouble e),
           (''memory_usage_ipc'', DSize (word_of_nat (length xs * 8)))])) (\<lambda>o_info. post i (o_info, ())))) s"
proof -
  have r: "bindP (retP x) G = G x" for x and G :: "info \<times> unit \<Rightarrow> (info \<times> unit) file_prog"
    by (simp add: fun_eq_iff ret_io)
  have e: "export_message K (Data i j xs x0) s = bindP (File_ExportDataImpl K i xs) (\<lambda>o_info. post i (o_info, ())) s"
    unfolding export_message_def message.case File_ExportData_def with_checks_end [OF assms(1)] no_result_def bindP_assoc r ..
  show "mAlwaysUseSerializer s \<Longrightarrow> export_message K (Data i j xs x0) s =
      bindP (WaitUntilFileIsRemoved (data_file s n)) (\<lambda>_. bindP (saved_body (data_file s n)
        (save_object container_object_save ''obj'' xs)) (\<lambda>o_info. post i (o_info, ()))) s"
    unfolding e File_ExportDataImpl_def GenericSendWithFileSerializer_def saved_body_def thenP_def
    by (simp only: bindP_assoc get_io assms(3) if_True simp_thms with_file_io [OF assms(2)])
  have sd: "SendDataContainer (file_methods K) i xs = File_SendDataContainer i xs" by (simp add: file_methods_def)
  show "\<not> mAlwaysUseSerializer s \<Longrightarrow> export_message K (Data i j xs x0) s =
      bindP (WaitUntilFileIsRemoved (data_file s n)) (\<lambda>_. bindP (raw_body (data_file s n) (length xs)
        (doubles_bytes (comm_big_endian s) xs)) (\<lambda>e. bindP (localP (new_info [(''elapsed_time'', DDouble e),
           (''memory_usage_ipc'', DSize (word_of_nat (length xs * 8)))])) (\<lambda>o_info. post i (o_info, ())))) s"
    unfolding e File_ExportDataImpl_def Base_ExportDataImpl_def sd File_SendDataContainer_def GenericSend_def
      raw_body_def thenP_def
    by (simp only: bindP_assoc get_io if_False simp_thms with_file_io [OF assms(2)])
qed

lemma export_info_io:
  assumes "CheckConnection i s = Inr ()" "get_string i ''identifier'' = Inr n" "mUseFileSerializer s"
  shows "export_message K (Settings i j) s =
      bindP (WaitUntilFileIsRemoved (data_file s n)) (\<lambda>_. bindP (saved_body (data_file s n)
        (save_object Info_save ''obj'' i)) (\<lambda>o_info. post i (o_info, ()))) s"
proof -
  have r: "bindP (retP x) G = G x" for x and G :: "info \<times> unit \<Rightarrow> (info \<times> unit) file_prog"
    by (simp add: fun_eq_iff ret_io)
  have e: "export_message K (Settings i j) s = bindP (File_ExportInfoImpl K i) (\<lambda>o_info. post i (o_info, ())) s"
    unfolding export_message_def message.case File_ExportInfo_def with_checks_end [OF assms(1)] no_result_def bindP_assoc r ..
  show ?thesis
    unfolding e File_ExportInfoImpl_def GenericSendWithFileSerializer_def saved_body_def thenP_def
    by (simp only: bindP_assoc get_io assms(3) if_True with_file_io [OF assms(2)])
qed

lemma export_mesh_io:
  assumes "CheckConnection i s = Inr ()" "get_string i ''identifier'' = Inr n" "mUseFileSerializer s"
  shows "export_message K (Mesh i j p q) s =
      bindP (WaitUntilFileIsRemoved (data_file s n)) (\<lambda>_. bindP (saved_body (data_file s n)
        (save_object ModelPart_save ''obj'' p)) (\<lambda>o_info. post i (o_info, ()))) s"
proof -
  have r: "bindP (retP x) G = G x" for x and G :: "info \<times> unit \<Rightarrow> (info \<times> unit) file_prog"
    by (simp add: fun_eq_iff ret_io)
  have e: "export_message K (Mesh i j p q) s = bindP (File_ExportMeshImpl K i p) (\<lambda>o_info. post i (o_info, ())) s"
    unfolding export_message_def message.case File_ExportMesh_def with_checks_end [OF assms(1)] no_result_def bindP_assoc r ..
  show ?thesis
    unfolding e File_ExportMeshImpl_def GenericSendWithFileSerializer_def saved_body_def thenP_def
    by (simp only: bindP_assoc get_io assms(3) if_True with_file_io [OF assms(2)])
qed

end
