(* ===== verification/Delivery.thy ===== *)
theory Delivery
  imports Transfers
begin

text \<open>
  Every export of the file communication is a delivery of the channel: the names of the files of the
  messages, the states that the sides run through, and that what an export does is to publish the
  text of its message.
\<close>

section \<open>Names\<close>

definition draft_name :: "file_communication \<Rightarrow> string \<Rightarrow> path" where
  "draft_name s n = (if mUseAuxFileForFileAvailability s then data_file s n
     else place s (''.CoSimIO_data_'' @ mConnectionName s @ ''_'' @ n @ ''_'' @ show_nat (c_rank s) @ ''.dat''))"

lemma data_file_place:
  "data_file s n = place s (''CoSimIO_data_'' @ mConnectionName s @ ''_'' @ n @ ''_'' @ show_nat (c_rank s) @ ''.dat'')"
  by (simp add: data_file_def GetFileName_place)

lemma draft_ok:
  assumes "folder_ok s"
  shows "draft_of s (data_file s n) (draft_name s n)"
  using assms
  by (auto simp: draft_of_def GetTmpFileName_def draft_name_def data_file_place place_def join_path_def
      folder_ok_def Let_def)

lemma draft_differs: "mUseAuxFileForFileAvailability s \<or> data_file s n \<noteq> draft_name s n"
  by (simp add: draft_name_def data_file_place)

lemma data_names_apart:
  assumes "folder_ok s" "data_file s n \<noteq> data_file s m"
  shows "{data_file s n, draft_name s n, avail (data_file s n)} \<inter> {data_file s m, avail (data_file s m)} = {}"
proof -
  have a: "avail (data_file s k) = place s (''CoSimIO_data_'' @ mConnectionName s @ ''_'' @ k @ ''_'' @
      show_nat (c_rank s) @ ''.dat.avail'')" for k
    by (simp add: data_file_place avail_place [OF assms(1)])
  have l: "last (data_file s k) = CHR ''t''" "last (avail (data_file s k)) = CHR ''l''" for k
    by (simp_all add: data_file_place last_place avail_def)
  have d: "draft_name s n = data_file s n \<or> (draft_name s n \<noteq> data_file s m \<and> draft_name s n \<noteq> avail (data_file s m))"
    unfolding a by (auto simp: draft_name_def data_file_place)
  have "avail (data_file s n) \<noteq> avail (data_file s m)" using assms(2) by (simp add: avail_def)
  moreover have "data_file s k \<noteq> avail (data_file s k')" for k k'
    using l(1) [of k] l(2) [of k'] by (auto dest: arg_cong [where f = last])
  ultimately show ?thesis using assms(2) d by (auto simp: eq_commute)
qed

lemma id_no_slash: "CheckEntry n k = Inr () \<Longrightarrow> slash \<notin> set n"
  by (auto simp: CheckEntry_Inr disallowed_chars_def slash_def)

lemma show_nat_no_slash: "slash \<notin> set (show_nat n)"
  using show_base_digits [of 10 "CHR ''/''" n] by (auto simp: slash_def show_nat_def is_digit_def digit_val_def)

lemma slots_clean:
  assumes "clean w s" "folder_ok s" "slash \<notin> set (mConnectionName s)" "slash \<notin> set n" "c_rank s = 0"
  shows "slots_free (mUseAuxFileForFileAvailability s) (data_file s n) (draft_name s n) w"
proof -
  have f: "free_path w (place s (''CoSimIO_data_'' @ mConnectionName s @ ''_'' @ n @ ''_'' @ show_nat 0 @ x))"
    "free_path w (place s (''.CoSimIO_data_'' @ mConnectionName s @ ''_'' @ n @ ''_'' @ show_nat 0 @ x))"
    if "slash \<notin> set x" for x
    using own_names(4,5) [OF assms(3), of "n @ ''_'' @ show_nat 0 @ x"] that assms(4) show_nat_no_slash
    by (intro clean_free [OF assms(1,2)]; simp add: slash_def)+
  show ?thesis
    using f [of "''.dat''"] f(1) [of "''.dat.avail''"] assms(5)
    by (simp add: slots_free_def draft_name_def data_file_place avail_place [OF assms(2)] slash_def)
qed

section \<open>States of the two sides\<close>

lemma same_comm_fields:
  assumes "same_comm s0 s"
  shows "data_file s n = data_file s0 n" "draft_name s n = draft_name s0 n"
    "mUseAuxFileForFileAvailability s = mUseAuxFileForFileAvailability s0"
    "mAlwaysUseSerializer s = mAlwaysUseSerializer s0" "mUseFileSerializer s = mUseFileSerializer s0"
    "comm_big_endian s = comm_big_endian s0" "plat (c_machine s) = plat (c_machine s0)"
    "mSerializerTraceType s = mSerializerTraceType s0" "mIsConnected s = mIsConnected s0" "folder_ok s = folder_ok s0"
proof -
  obtain h k where s: "s = s0\<lparr>c_heap := h, c_clock := k\<rparr>" using assms by (auto simp: same_comm_def)
  have "place s = place s0" by (simp add: s place_def fun_eq_iff)
  then show "data_file s n = data_file s0 n" "draft_name s n = draft_name s0 n"
    by (simp_all add: s data_file_place draft_name_def)
qed (use assms in \<open>auto simp: same_comm_def comm_big_endian_def folder_ok_def\<close>)

lemma same_comm_step:
  assumes "same_comm s0 s"
  shows "same_comm s0 (s\<lparr>c_heap := h\<rparr>)" "same_comm s0 (s\<lparr>c_clock := k\<rparr>)"
proof -
  from assms obtain h' k' where s: "s = s0\<lparr>c_heap := h', c_clock := k'\<rparr>" by (auto simp: same_comm_def)
  have "s\<lparr>c_heap := h\<rparr> = s0\<lparr>c_heap := h, c_clock := k'\<rparr>" "s\<lparr>c_clock := k\<rparr> = s0\<lparr>c_heap := h', c_clock := k\<rparr>"
    by (simp_all add: s)
  then show "same_comm s0 (s\<lparr>c_heap := h\<rparr>)" "same_comm s0 (s\<lparr>c_clock := k\<rparr>)" unfolding same_comm_def by metis+
qed

lemma check_connection_ok:
  assumes "mIsConnected s" "get_string i ''identifier'' = Inr n" "CheckEntry n ''identifier'' = Inr ()"
  shows "CheckConnection i s = Inr ()"
proof -
  have "Info_Has i ''identifier''"
    using assms(2) by (auto simp: get_string_def Info_Get_def split: if_splits)
  then show ?thesis using assms by (simp add: CheckConnection_def)
qed


section \<open>Sending\<close>

lemma delivers_mono: "delivers aux f tmp out p p' A \<Longrightarrow> A \<subseteq> B \<Longrightarrow> delivers aux f tmp out p p' B"
  unfolding delivers_def by (elim exE conjE, intro exI conjI) (assumption | meson subsetD)+

lemma delivers_to:
  assumes "delivers aux f tmp out p p' A" "p' = x" "A \<subseteq> B"
  shows "delivers aux f tmp out p x B"
  using delivers_mono [OF assms(1,3)] assms(2) by simp

lemma new_entries:
  "m = add_entries [(''memory_usage_ipc'', DSize n), (''elapsed_time'', DDouble e)] h Info_new \<Longrightarrow>
     get_double m ''elapsed_time'' = Inr e \<and> get_size m ''memory_usage_ipc'' = Inr n \<and>
     Info_Has m ''elapsed_time'' \<and> Info_Has m ''memory_usage_ipc''"
  "m = add_entries [(''elapsed_time'', DDouble e), (''memory_usage_ipc'', DSize n)] h Info_new \<Longrightarrow>
     get_double m ''elapsed_time'' = Inr e \<and> get_size m ''memory_usage_ipc'' = Inr n \<and>
     Info_Has m ''elapsed_time'' \<and> Info_Has m ''memory_usage_ipc''"
  by (simp_all add: Info_new_def Info_Set_def get_double_def get_size_def Info_Get_def Info_Has_def
      GetExistingKey_def GetDataTypeName_def bindR_def)

lemma saved_result_io:
  assumes "get_string i ''identifier'' = Inr n" "same_comm s0 s"
  obtains o_info s' where "same_comm s0 s'"
    "\<And>F :: info \<times> unit \<Rightarrow> 'd file_prog.
       bindP (saved_result k) (\<lambda>o_info. bindP (post i (o_info, ())) F) s = F (o_info, ()) s'"
proof -
  let ?kvs = "[(''memory_usage_ipc'', DSize (word_of_nat k)), (''elapsed_time'', DDouble (elapsed (c_machine s) (c_clock s)))]"
  let ?s = "s\<lparr>c_clock := c_clock s + 1\<rparr>"
  let ?o = "add_entries ?kvs (c_heap s) Info_new"
  have p: "bindP (post i (?o, ())) F = F (?o, ())" for F :: "info \<times> unit \<Rightarrow> 'd file_prog"
    using new_entries(1) [OF refl] by (intro post_io [OF assms(1)]) blast+
  have "bindP (saved_result k) (\<lambda>o_info. bindP (post i (o_info, ())) F) s =
      F (?o, ()) (?s\<lparr>c_heap := c_heap s + word_of_nat (length ?kvs)\<rparr>)" for F :: "info \<times> unit \<Rightarrow> 'd file_prog"
    unfolding saved_result_def bindP_assoc clock_io new_info_io using p [of F] by simp
  then show ?thesis using that same_comm_step assms(2) by blast
qed

lemma raw_result_io:
  assumes "get_string i ''identifier'' = Inr n" "same_comm s0 s"
  obtains o_info s' where "same_comm s0 s'"
    "\<And>F :: info \<times> unit \<Rightarrow> 'd file_prog.
       bindP (localP ElapsedSeconds) (\<lambda>e. bindP (localP (new_info [(''elapsed_time'', DDouble e),
           (''memory_usage_ipc'', DSize k)])) (\<lambda>o_info. bindP (post i (o_info, ())) F)) s = F (o_info, ()) s'"
proof -
  let ?kvs = "[(''elapsed_time'', DDouble (elapsed (c_machine s) (c_clock s))), (''memory_usage_ipc'', DSize k)]"
  let ?s = "s\<lparr>c_clock := c_clock s + 1\<rparr>"
  let ?o = "add_entries ?kvs (c_heap s) Info_new"
  have p: "bindP (post i (?o, ())) F = F (?o, ())" for F :: "info \<times> unit \<Rightarrow> 'd file_prog"
    using new_entries(2) [OF refl] by (intro post_io [OF assms(1)]) blast+
  have "bindP (localP ElapsedSeconds) (\<lambda>e. bindP (localP (new_info [(''elapsed_time'', DDouble e),
           (''memory_usage_ipc'', DSize k)])) (\<lambda>o_info. bindP (post i (o_info, ())) F)) s =
      F (?o, ()) (?s\<lparr>c_heap := c_heap s + word_of_nat (length ?kvs)\<rparr>)" for F :: "info \<times> unit \<Rightarrow> 'd file_prog"
    unfolding clock_io new_info_io using p [of F] by simp
  then show ?thesis using that same_comm_step assms(2) by blast
qed

text \<open>What all exports have in common.\<close>

definition exports :: "'d itself \<Rightarrow> file_communication \<Rightarrow> string \<Rightarrow> string \<Rightarrow> file_communication \<Rightarrow> (info \<times> unit) file_prog \<Rightarrow> bool" where
  "exports TYPE('d) s0 n out s m \<longleftrightarrow> (\<exists>r s'. same_comm s0 s' \<and>
     (\<forall>F :: info \<times> unit \<Rightarrow> 'd file_prog.
        delivers (mUseAuxFileForFileAvailability s0) (data_file s0 n) (draft_name s0 n) out
          (bindP m F s) (F r s') {F r s' |r s'. same_comm s0 s'}))"

lemma exports_saved:
  assumes "linked s0 t0" "same_comm s0 s" "get_string i ''identifier'' = Inr n"
    and "save (file_ser s []) = (Inr (), ser)"
    and "export_message K m s = bindP (WaitUntilFileIsRemoved (data_file s n)) (\<lambda>_. bindP (saved_body (data_file s n) save)
           (\<lambda>o_info. post i (o_info, ()))) s"
  shows "exports TYPE('d) s0 n (mBuffer ser) s (waiting (slot_of n) (export_message K m))"
proof -
  note same = same_comm_fields [OF assms(2)]
  have d: "draft_of s (data_file s n) (draft_name s n)"
    using draft_ok [of s n] assms(1) same(10) by (simp add: linked_def)
  let ?B = "bindP (saved_body (data_file s n) save)"
  have w: "bindP (waiting (slot_of n) (export_message K m)) F s = Wait (\<lambda>w. \<not> exists w (data_file s n))
      (?B (\<lambda>o_info. bindP (post i (o_info, ())) F) s)" for F :: "info \<times> unit \<Rightarrow> 'd file_prog"
    using waiting_bind [of "export_message K m" s "slot_of n" "?B (\<lambda>o_info. post i (o_info, ()))" s F] assms(5)
    by (simp add: slot_of_def bindP_assoc)
  obtain o_info s' where r: "same_comm s0 s'"
    "\<And>F :: info \<times> unit \<Rightarrow> 'd file_prog.
      bindP (saved_result (length (mBuffer ser))) (\<lambda>o_info. bindP (post i (o_info, ())) F) s = F (o_info, ()) s'"
    using saved_result_io [OF assms(3,2), of "length (mBuffer ser)"] by metis
  show ?thesis
    unfolding exports_def w
  proof (intro exI [of _ "(o_info, ())"] exI [of _ s'] conjI allI r(1))
    fix F :: "info \<times> unit \<Rightarrow> 'd file_prog"
    let ?F = "\<lambda>o_info. bindP (post i (o_info, ())) F"
    have "{bindP (saved_result k) ?F s |k. True} \<subseteq> {F r s' |r s'. same_comm s0 s'}"
    proof clarify
      fix k
      obtain o_info s' where "same_comm s0 s'"
        "\<And>F :: info \<times> unit \<Rightarrow> 'd file_prog.
          bindP (saved_result k) (\<lambda>o_info. bindP (post i (o_info, ())) F) s = F (o_info, ()) s'"
        by (rule saved_result_io [OF assms(3,2), where 'd = 'd]) (rule that)
      then show "\<exists>r s'. bindP (saved_result k) ?F s = F r s' \<and> same_comm s0 s'" by blast
    qed
    with delivers_saved [where F = ?F and save = save and s = s and ser = ser, OF d draft_differs assms(4) refl]
    show "delivers (mUseAuxFileForFileAvailability s0) (data_file s0 n) (draft_name s0 n) (mBuffer ser)
       (Wait (\<lambda>w. \<not> exists w (data_file s n)) (?B ?F s)) (F (o_info, ()) s') {F r s' |r s'. same_comm s0 s'}"
      unfolding same(1-3) r(2) by (rule delivers_mono)
  qed
qed


lemma exports_raw:
  assumes "linked s0 t0" "same_comm s0 s" "get_string i ''identifier'' = Inr n"
    and "export_message K m s = bindP (WaitUntilFileIsRemoved (data_file s n)) (\<lambda>_. bindP (raw_body (data_file s n) k bytes)
       (\<lambda>e. bindP (localP (new_info [(''elapsed_time'', DDouble e), (''memory_usage_ipc'', DSize l)]))
         (\<lambda>o_info. post i (o_info, ())))) s"
  shows "exports TYPE('d) s0 n (framed (comm_big_endian s) k bytes) s (waiting (slot_of n) (export_message K m))"
proof -
  note same = same_comm_fields [OF assms(2)]
  have d: "draft_of s (data_file s n) (draft_name s n)"
    using draft_ok [of s n] assms(1) same(10) by (simp add: linked_def)
  let ?B = "bindP (raw_body (data_file s n) k bytes)"
  let ?N = "\<lambda>e. localP (new_info [(''elapsed_time'', DDouble e), (''memory_usage_ipc'', DSize l)])"
  have w: "bindP (waiting (slot_of n) (export_message K m)) F s = Wait (\<lambda>w. \<not> exists w (data_file s n))
      (?B (\<lambda>e. bindP (?N e) (\<lambda>o_info. bindP (post i (o_info, ())) F)) s)"
    for F :: "info \<times> unit \<Rightarrow> 'd file_prog"
    using waiting_bind [of "export_message K m" s "slot_of n" "?B (\<lambda>e. bindP (?N e) (\<lambda>o_info. post i (o_info, ())))" s F] assms(4)
    by (simp add: slot_of_def bindP_assoc)
  obtain o_info s' where r: "same_comm s0 s'"
    "\<And>F :: info \<times> unit \<Rightarrow> 'd file_prog.
      bindP (localP ElapsedSeconds) (\<lambda>e. bindP (?N e) (\<lambda>o_info. bindP (post i (o_info, ())) F)) s = F (o_info, ()) s'"
    by (rule raw_result_io [OF assms(3,2), where 'd = 'd]) (rule that)
  show ?thesis
    unfolding exports_def w
  proof (intro exI [of _ "(o_info, ())"] exI [of _ s'] conjI allI r(1))
    fix F :: "info \<times> unit \<Rightarrow> 'd file_prog"
    let ?F = "\<lambda>e. bindP (?N e) (\<lambda>o_info. bindP (post i (o_info, ())) F)"
    have "{bindP (localP ElapsedSeconds) ?F s} \<subseteq> {F r s' |r s'. same_comm s0 s'}"
      unfolding r(2) using r(1) by blast
    with delivers_raw [where F = ?F and s = s and n = k and bytes = bytes, OF d draft_differs]
    show "delivers (mUseAuxFileForFileAvailability s0) (data_file s0 n) (draft_name s0 n) (framed (comm_big_endian s) k bytes)
       (Wait (\<lambda>w. \<not> exists w (data_file s n)) (?B ?F s)) (F (o_info, ()) s') {F r s' |r s'. same_comm s0 s'}"
      unfolding same(1-3) r(2) by (rule delivers_mono)
  qed
qed

lemma container_saved:
  "\<exists>ser. save_object container_object_save tag xs (file_ser c [] :: unit ser) = (Inr (), ser) \<and>
     mBuffer ser = (let P = plat (c_machine c); T = mSerializerTraceType c in tag_out P T tag @
       (tag_out P T ''BaseClass'' @ (tag_out P T ''size'' @ scalar_out sc_size_t P T (word_of_nat (length xs))) @
        concat (List.map (\<lambda>v. tag_out P T ''v'' @ scalar_out sc_double P T v) xs)))"
proof -
  have w: "writes (save_object container_object_save tag xs :: (unit ser, unit) cpp) P T (tag_out P T tag @
       (tag_out P T ''BaseClass'' @ (tag_out P T ''size'' @ scalar_out sc_size_t P T (word_of_nat (length xs))) @
        concat (List.map (\<lambda>v. tag_out P T ''v'' @ scalar_out sc_double P T v) xs)))" for P T
    unfolding save_object_def container_object_save_def by (intro writes_then writes_tag writes_derived)
  show ?thesis
    using w [of "plat (c_machine c)" "mSerializerTraceType c", unfolded writes_def, rule_format, of "file_ser c []"]
    by (simp add: file_ser_simps Let_def)
qed

lemma sends:
  assumes "linked s0 t0" "same_comm s0 s" "good_message ok room s0 m"
  shows "exports TYPE('d) s0 (message_id m) (message_text s0 m) s (waiting (slot_of (message_id m)) (export_message K m))"
proof -
  note same = same_comm_fields [OF assms(2)]
  have s: "mUseFileSerializer s" "mIsConnected s"
    using assms(1) same(5,9) by (simp_all add: linked_def)
  show ?thesis
  proof (cases m)
    case (Data i j xs x0)
    obtain n where n: "get_string i ''identifier'' = Inr n" "CheckEntry n ''identifier'' = Inr ()" "message_id m = n"
      using assms(3) Data by (auto simp: good_message_def names_agree_def message_id_def ident_def)
    note c = check_connection_ok [OF s(2) n(1,2)]
    show ?thesis
    proof (cases "mAlwaysUseSerializer s")
      case True
      obtain ser where ser: "save_object container_object_save ''obj'' xs (file_ser s [] :: unit ser) = (Inr (), ser)"
        "mBuffer ser = message_text s0 m"
        using container_saved [of "''obj''" xs s] True same(4,7,8)
        by (auto simp: message_text_def data_text_def Data Let_def)
      show ?thesis
        using exports_saved [OF assms(1,2) n(1) ser(1) export_data_io(1) [OF c n(1) s(1) True]]
        unfolding ser(2) n(3) by (simp add: Data)
    next
      case False
      then have "message_text s0 m = framed (comm_big_endian s) (length xs) (doubles_bytes (comm_big_endian s) xs)"
        using same(4,6) by (simp add: message_text_def Data)
      then show ?thesis
        using exports_raw [OF assms(1,2) n(1) export_data_io(2) [OF c n(1) s(1) False]]
        unfolding n(3) by (simp add: Data)
    qed
  next
    case (Settings i j)
    obtain n where n: "get_string i ''identifier'' = Inr n" "CheckEntry n ''identifier'' = Inr ()" "message_id m = n"
      and i: "distinct (entries_addrs i)"
      using assms(3) Settings by (auto simp: good_message_def names_agree_def message_id_def ident_def)
    note c = check_connection_ok [OF s(2) n(1,2)]
    obtain ser where ser: "save_object Info_save ''obj'' i (file_ser s [] :: info_data ser) = (Inr (), ser)"
      "mBuffer ser = message_text s0 m"
      using info_saved [OF i, of "''obj''" s] same(7,8) by (auto simp: message_text_def Settings Let_def)
    show ?thesis
      using exports_saved [OF assms(1,2) n(1) ser(1) export_info_io [OF c n(1) s(1)]]
      unfolding ser(2) n(3) by (simp add: Settings)
  next
    case (Mesh i j p q)
    obtain n where n: "get_string i ''identifier'' = Inr n" "CheckEntry n ''identifier'' = Inr ()" "message_id m = n"
      and p: "exportable (plat (c_machine s)) (mSerializerTraceType s) p"
      using assms(3) same(7,8) Mesh by (auto simp: good_message_def names_agree_def message_id_def ident_def)
    note c = check_connection_ok [OF s(2) n(1,2)]
    have q: "quote \<notin> set ''obj''" by (simp add: quote_def)
    obtain ser where ser: "save_object ModelPart_save ''obj'' p (file_ser s [] :: mp_ser) = (Inr (), ser)"
      "mBuffer ser = message_text s0 m"
      using mesh_saved [OF p q, of "file_ser s []"] same(7,8)
      by (auto simp: file_ser_simps message_text_def Mesh Let_def)
    show ?thesis
      using exports_saved [OF assms(1,2) n(1) ser(1) export_mesh_io [OF c n(1) s(1)]]
      unfolding ser(2) n(3) by (simp add: Mesh)
  qed
qed

end
