(* ===== verification/Receipt.thy ===== *)
theory Receipt
  imports Delivery
begin

text \<open>
  Every import of the file communication is a fetch of the channel: it reads the text of the message
  and yields the field data, the mesh or the \<open>Info\<close> that the other side has sent.
\<close>

section \<open>Field data\<close>

context array_container
begin

lemma put_from:
  assumes "inv c" "length (elems c) = length xs" "k \<le> length xs"
  shows "\<exists>c'. forE (\<lambda>i. put i (xs ! i)) [k..<length xs] c = (Inr (), c') \<and> inv c' \<and>
     elems c' = take k (elems c) @ drop k xs"
  using assms
proof (induction "length xs - k" arbitrary: k c)
  case 0
  then show ?case by (simp add: retE_def)
next
  case (Suc d)
  then have k: "k < length xs" by simp
  then obtain c1 where c1: "put k (xs ! k) c = (Inr (), c1)" "inv c1" "elems c1 = (elems c)[k := xs ! k]"
    using put [OF Suc.prems(1), of k "xs ! k"] len [OF Suc.prems(1)] Suc.prems(2) by auto
  have "\<exists>c'. forE (\<lambda>i. put i (xs ! i)) [Suc k..<length xs] c1 = (Inr (), c') \<and> inv c' \<and>
      elems c' = take (Suc k) (elems c1) @ drop (Suc k) xs"
    using Suc c1 k by (intro Suc.hyps(1)) auto
  moreover have "[k..<length xs] = k # [Suc k..<length xs]" using k by (simp add: upt_conv_Cons)
  moreover have "take (Suc k) (elems c1) @ drop (Suc k) xs = take k (elems c) @ drop k xs"
    using k c1(3) Suc.prems(2) by (simp add: take_Suc_conv_app_nth Cons_nth_drop_Suc)
  ultimately show ?case using c1(1) by (auto simp: thenE_def bindE_def)
qed

lemma filled:
  assumes "inv c" "fits (length xs) c"
  shows "\<exists>c'. thenE (resize (length xs)) (forE (\<lambda>i. put i (xs ! i)) [0..<length xs]) c = (Inr (), c') \<and>
     inv c' \<and> elems c' = xs"
proof -
  obtain c1 where c1: "resize (length xs) c = (Inr (), c1)" "inv c1" "length (elems c1) = length xs"
    using resize_ok [OF assms] .
  then show ?thesis using put_from [OF c1(2,3), of 0] by (auto simp: thenE_def bindE_def)
qed

end

lemma fill_ok:
  assumes "usable K ok room" "ok x0" "room (length xs) x0"
  obtains x where "fill K xs x0 = Inr x" "k_elems K x = xs"
proof -
  obtain x where "fill_container K xs x0 = (Inr (), x)" "k_elems K x = xs"
    using array_container.filled [OF assms(1) [unfolded usable_def] assms(2,3)]
    unfolding fill_container_def by blast
  then show ?thesis using that by (simp add: fill_def)
qed

lemma container_loaded_rest:
  assumes "usable K ok room" "ok x0" "room (length xs) x0" "length xs < 2 ^ 64" "quote \<notin> set tag"
    and "P = plat (c_machine c)" "T = mSerializerTraceType c"
    and "T \<noteq> SERIALIZER_NO_TRACE \<longrightarrow> (\<forall>x \<in> set xs. prints_exactly P x)"
  obtains x t where "load_object (container_object_load K x0) tag
      (file_ser c (tag_out P T tag @ (tag_out P T ''BaseClass'' @
        (tag_out P T ''size'' @ scalar_out sc_size_t P T (word_of_nat (length xs))) @
        concat (List.map (\<lambda>v. tag_out P T ''v'' @ scalar_out sc_double P T v) xs)) @ rest)) = (Inr x, t)"
    "k_elems K x = xs"
proof -
  let ?out = "\<lambda>v. tag_out P T ''v'' @ scalar_out sc_double P T v"
  let ?o = "tag_out P T ''BaseClass'' @ (tag_out P T ''size'' @ scalar_out sc_size_t P T (word_of_nat (length xs))) @
        concat (List.map ?out xs)"
  let ?s = "file_ser c (tag_out P T tag @ ?o @ rest) :: unit ser"
  have b: "mBuffer ?s = [] @ tag_out P T tag @ ?o @ rest" by (simp add: file_ser_simps)
  have pt: "mPlatform ?s = P" "mTrace ?s = T" using assms(6,7) by (simp_all add: file_ser_simps)
  obtain g n where g: "g \<in> {[], gap T}"
    "load_trace_point tag ?s = (Inr (), ?s\<lparr>mBuffer := g @ ?o @ rest, mNumberOfLines := n\<rparr>)"
    using readsD [OF reads_tag [OF assms(5)] pt _ b] by auto
  let ?t = "?s\<lparr>mBuffer := g @ ?o @ rest, mNumberOfLines := n\<rparr>"
  have elem: "reads (load_direct sc_double ''v'' :: (unit ser, dbl) cpp) P T (?out x) x" if "x \<in> set xs" for x
    using that assms(8) by (intro double_codec.load_out) (auto simp: quote_def)
  have "\<exists>x t. derived_load (\<lambda>x. length (k_elems K x)) (k_resize K) (k_put K) (load_direct sc_double)
      (x0, ?t) = (Inr (), (x, t)) \<and> ok x \<and> k_elems K x = xs"
    using elem assms(2-4) pt g(1)
    by (intro array_container.derived_load_ok [OF assms(1) [unfolded usable_def], where out = ?out and rest = rest and g = g]) auto
  then show ?thesis
    using that g(2) by (auto simp: load_object_def thenE_def bindE_def container_object_load_def)
qed


lemma container_loaded:
  assumes "usable K ok room" "ok x0" "room (length xs) x0" "length xs < 2 ^ 64" "quote \<notin> set tag"
    and "P = plat (c_machine c)" "T = mSerializerTraceType c"
    and "T \<noteq> SERIALIZER_NO_TRACE \<longrightarrow> (\<forall>x \<in> set xs. prints_exactly P x)"
  obtains x t where "load_object (container_object_load K x0) tag (file_ser c (data_text tag P T xs)) = (Inr x, t)"
    "k_elems K x = xs"
  using container_loaded_rest [OF assms, of "[]"] by (auto simp: data_text_def)

section \<open>Receiving a message\<close>

lemma import_data_io:
  fixes G :: "info \<times> 'c cargo \<Rightarrow> 'd file_prog"
  assumes "CheckConnection j t = Inr ()" "mUseFileSerializer t"
  shows "mAlwaysUseSerializer t \<Longrightarrow> bindP (import_message K (Data i j xs x0)) G t =
      bindP (GenericReceiveWithFileSerializer j (load_object (container_object_load K x0) ''obj''))
        (\<lambda>x. bindP (post j x) (\<lambda>(r, x). G (r, Values x))) t"
    "\<not> mAlwaysUseSerializer t \<Longrightarrow> bindP (import_message K (Data i j xs x0)) G t =
      bindP (GenericReceive j 8 (\<lambda>n bytes. fill K (bytes_doubles (comm_big_endian t) n bytes) x0))
        (\<lambda>(e, x). bindP (localP (new_info [(''elapsed_time'', DDouble e),
            (''memory_usage_ipc'', DSize (word_of_nat (length (k_elems K x) * 8)))]))
          (\<lambda>info. bindP (post j (info, x)) (\<lambda>(r, x). G (r, Values x)))) t"
proof -
  have r: "bindP (retP x) F = F x" for x and F :: "'x \<Rightarrow> 'd file_prog"
    by (simp add: fun_eq_iff ret_io)
  have c: "bindP (case_prod f x) F = (case x of (a, b) \<Rightarrow> bindP (f a b) F)"
    for f :: "'x \<Rightarrow> 'y \<Rightarrow> 'z file_prog" and F :: "'z \<Rightarrow> 'd file_prog" and x
    by (simp add: split_def)
  have e: "bindP (import_message K (Data i j xs x0)) G t =
      bindP (File_ImportDataImpl K j x0) (\<lambda>x. bindP (post j x) (\<lambda>(r, x). G (r, Values x))) t"
    unfolding import_message_def message.case bindP_assoc c r File_ImportData_def with_checks_io [OF assms(1)] ..
  show "mAlwaysUseSerializer t \<Longrightarrow> bindP (import_message K (Data i j xs x0)) G t =
      bindP (GenericReceiveWithFileSerializer j (load_object (container_object_load K x0) ''obj''))
        (\<lambda>x. bindP (post j x) (\<lambda>(r, x). G (r, Values x))) t"
    unfolding e File_ImportDataImpl_def by (simp only: bindP_assoc get_io assms(2) if_True simp_thms)
  have rd: "ReceiveDataContainer (file_methods K) j x0 = File_ReceiveDataContainer K j x0" by (simp add: file_methods_def)
  show "\<not> mAlwaysUseSerializer t \<Longrightarrow> bindP (import_message K (Data i j xs x0)) G t =
      bindP (GenericReceive j 8 (\<lambda>n bytes. fill K (bytes_doubles (comm_big_endian t) n bytes) x0))
        (\<lambda>(e, x). bindP (localP (new_info [(''elapsed_time'', DDouble e),
            (''memory_usage_ipc'', DSize (word_of_nat (length (k_elems K x) * 8)))]))
          (\<lambda>info. bindP (post j (info, x)) (\<lambda>(r, x). G (r, Values x)))) t"
    unfolding e File_ImportDataImpl_def Base_ImportDataImpl_def rd File_ReceiveDataContainer_def
    by (simp only: bindP_assoc get_io if_False simp_thms c r)
qed

lemma import_info_io:
  fixes G :: "info \<times> 'c cargo \<Rightarrow> 'd file_prog"
  assumes "CheckConnection j t = Inr ()" "mUseFileSerializer t"
  shows "bindP (import_message K (Settings i j)) G t =
      bindP (GenericReceiveWithFileSerializer j (load_object (Info_load Info_new) ''obj''))
        (\<lambda>(rec_info, received_info).
           bindP (liftP (get_double rec_info ''elapsed_time'')) (\<lambda>e.
           bindP (liftP (get_size rec_info ''memory_usage_ipc'')) (\<lambda>mem.
           bindP (localP (set_entries [(''elapsed_time'', DDouble e), (''memory_usage_ipc'', DSize mem)] received_info))
             (\<lambda>i. bindP (post j (i, ())) (\<lambda>(r, _). G (r, Nothing)))))) t"
proof -
  have r: "bindP (retP x) F = F x" for x and F :: "'x \<Rightarrow> 'd file_prog"
    by (simp add: fun_eq_iff ret_io)
  have c: "bindP (case_prod f x) F = (case x of (a, b) \<Rightarrow> bindP (f a b) F)"
    for f :: "'x \<Rightarrow> 'y \<Rightarrow> 'z file_prog" and F :: "'z \<Rightarrow> 'd file_prog" and x
    by (simp add: split_def)
  show ?thesis
    unfolding import_message_def message.case bindP_assoc c r File_ImportInfo_def no_result_def
      with_checks_io [OF assms(1)] File_ImportInfoImpl_def
    by (simp only: bindP_assoc get_io assms(2) if_True c)
qed

lemma import_mesh_io:
  fixes G :: "info \<times> 'c cargo \<Rightarrow> 'd file_prog"
  assumes "CheckConnection j t = Inr ()" "mUseFileSerializer t"
  shows "bindP (import_message K (Mesh i j p q)) G t =
      bindP (GenericReceiveWithFileSerializer j (load_object (ModelPart_load q) ''obj''))
        (\<lambda>x. bindP (post j x) (\<lambda>(r, x). G (r, Part x))) t"
proof -
  have r: "bindP (retP x) F = F x" for x and F :: "'x \<Rightarrow> 'd file_prog"
    by (simp add: fun_eq_iff ret_io)
  have c: "bindP (case_prod f x) F = (case x of (a, b) \<Rightarrow> bindP (f a b) F)"
    for f :: "'x \<Rightarrow> 'y \<Rightarrow> 'z file_prog" and F :: "'z \<Rightarrow> 'd file_prog" and x
    by (simp add: split_def)
  show ?thesis
    unfolding import_message_def message.case bindP_assoc c r File_ImportMesh_def with_checks_io [OF assms(1)]
      File_ImportMeshImpl_def
    by (simp only: get_io assms(2) if_True)
qed

lemma loaded_result_io:
  assumes "same_comm s0 s"
  obtains o_info e s' where "same_comm s0 s'" "get_double o_info ''elapsed_time'' = Inr e"
    "get_size o_info ''memory_usage_ipc'' = Inr (word_of_nat k)"
    "Info_Has o_info ''elapsed_time''" "Info_Has o_info ''memory_usage_ipc''"
    "\<And>F :: info \<times> 'b \<Rightarrow> 'd file_prog. bindP (loaded_result k obj) F s = F (o_info, obj) s'"
proof -
  let ?e = "elapsed (c_machine s) (c_clock s)"
  let ?kvs = "[(''memory_usage_ipc'', DSize (word_of_nat k)), (''elapsed_time'', DDouble ?e)]"
  let ?s = "s\<lparr>c_clock := c_clock s + 1\<rparr>"
  let ?o = "add_entries ?kvs (c_heap s) Info_new"
  have "bindP (loaded_result k obj) F s = F (?o, obj) (?s\<lparr>c_heap := c_heap s + word_of_nat (length ?kvs)\<rparr>)"
    for F :: "info \<times> 'b \<Rightarrow> 'd file_prog"
    unfolding loaded_result_def bindP_assoc clock_io new_info_io ret_io by simp
  then show ?thesis
    using that [of _ ?o ?e] same_comm_step assms new_entries(1) [of ?o "word_of_nat k" ?e "c_heap s"] by blast
qed

definition imports_as :: "'d itself \<Rightarrow> 'e itself \<Rightarrow> file_communication \<Rightarrow> string \<Rightarrow> string \<Rightarrow> (info \<times> 'c cargo \<Rightarrow> bool) \<Rightarrow> file_communication \<Rightarrow>
    (info \<times> 'c cargo) file_prog \<Rightarrow> bool" where
  "imports_as TYPE('d) TYPE('e) t0 n out good t m \<longleftrightarrow> (\<exists>v t'. same_comm t0 t' \<and> good v \<and>
     (\<forall>(G :: info \<times> 'c cargo \<Rightarrow> 'd file_prog)
        (p :: 'e io).
        fetches (mUseAuxFileForFileAvailability t0) (data_file t0 n) out (bindP m G t) (G v t') p))"

lemma imports_asI:
  assumes "same_comm t0 t" "same_comm t0 t''" "good v"
    and "\<And>(G :: info \<times> 'c cargo \<Rightarrow> 'd file_prog)
        (p :: 'e io).
      fetches (mUseAuxFileForFileAvailability t) (data_file t n) out (bindP m G t) (H G t') p"
    and "\<And>G :: info \<times> 'c cargo \<Rightarrow> 'd file_prog. H G t' = G v t''"
  shows "imports_as TYPE('d) TYPE('e) t0 n out good t m"
  unfolding imports_as_def
proof (intro exI conjI allI)
  show "fetches (mUseAuxFileForFileAvailability t0) (data_file t0 n) out (bindP m G t) (G v t'') p"
    for G :: "info \<times> 'c cargo \<Rightarrow> 'd file_prog" and p :: "'e io"
    using assms(4) [of G p] same_comm_fields(1,3) [OF assms(1)] assms(5) [of G] by simp
qed (rule assms(2,3))+

lemma imports_saved:
  fixes load :: "('o ser, 'b) cpp"
    and H :: "(info \<times> 'c cargo \<Rightarrow> 'd file_prog) \<Rightarrow> info \<times> 'b \<Rightarrow> 'd file_prog"
  assumes "same_comm t0 t" "get_string j ''identifier'' = Inr n" "load (file_ser t out) = (Inr obj, ser)"
    and m: "\<And>G. bindP m G t = bindP (GenericReceiveWithFileSerializer j load) (H G) t"
    and H: "\<And>o_info e k t1. same_comm t0 t1 \<Longrightarrow> get_double o_info ''elapsed_time'' = Inr e \<Longrightarrow>
      get_size o_info ''memory_usage_ipc'' = Inr k \<Longrightarrow> Info_Has o_info ''elapsed_time'' \<Longrightarrow>
      Info_Has o_info ''memory_usage_ipc'' \<Longrightarrow>
      \<exists>v t2. same_comm t0 t2 \<and> good v \<and> (\<forall>G. H G (o_info, obj) t1 = G v t2)"
  shows "imports_as TYPE('d) TYPE('e) t0 n out good t m"
proof -
  let ?t = "t\<lparr>c_heap := mHeap ser\<rparr>" and ?R = "loaded_result (length out) obj"
  obtain o_info e t1 where r: "same_comm t0 t1" "get_double o_info ''elapsed_time'' = Inr e"
    "get_size o_info ''memory_usage_ipc'' = Inr (word_of_nat (length out))"
    "Info_Has o_info ''elapsed_time''" "Info_Has o_info ''memory_usage_ipc''"
    "\<And>F :: info \<times> 'b \<Rightarrow> 'd file_prog. bindP ?R F ?t = F (o_info, obj) t1"
    by (rule loaded_result_io [OF same_comm_step(1) [OF assms(1)], where 'b = 'b and 'd = 'd])
       (rule that)
  obtain v t2 where v: "same_comm t0 t2" "good v" "\<And>G. H G (o_info, obj) t1 = G v t2"
    using H [OF r(1-5)] by blast
  have "fetches (mUseAuxFileForFileAvailability t) (data_file t n) out (bindP m G t) (bindP ?R (H G) ?t) p"
    for G and p :: "'e io"
    unfolding m using assms(2) refl assms(3) by (rule fetches_saved)
  then show ?thesis
    using v(3) by (intro imports_asI [where H = "\<lambda>G. bindP ?R (H G)" and t' = ?t and t = t and t'' = t2 and v = v and good = good, OF assms(1) v(1,2)]) (auto simp: r(6))
qed

lemma imports_raw:
  fixes H :: "(info \<times> 'c cargo \<Rightarrow> 'd file_prog) \<Rightarrow> dbl \<times> 'b \<Rightarrow> 'd file_prog"
  assumes "same_comm t0 t" "get_string j ''identifier'' = Inr n"
    and "unframe (comm_big_endian t) sz out = Inr (k, bytes)" "consume k bytes = Inr x"
    and m: "\<And>G. bindP m G t = bindP (GenericReceive j sz consume) (H G) t"
    and H: "\<And>e t1. same_comm t0 t1 \<Longrightarrow> \<exists>v t2. same_comm t0 t2 \<and> good v \<and> (\<forall>G. H G (e, x) t1 = G v t2)"
  shows "imports_as TYPE('d) TYPE('e) t0 n out good t m"
proof -
  let ?E = "\<lambda>G. bindP (localP ElapsedSeconds) (\<lambda>e. H G (e, x))"
  obtain v t2 where v: "same_comm t0 t2" "good v"
    "\<And>G. H G (elapsed (c_machine t) (c_clock t), x) (t\<lparr>c_clock := c_clock t + 1\<rparr>) = G v t2"
    using H [OF same_comm_step(2) [OF assms(1)]] by blast
  have "fetches (mUseAuxFileForFileAvailability t) (data_file t n) out (bindP m G t) (?E G t) p"
    for G and p :: "'e io"
    unfolding m using assms(2) refl assms(3,4) by (rule fetches_raw)
  then show ?thesis
    using v(3)
    by (intro imports_asI [where H = ?E and t' = t and t = t and t'' = t2 and v = v and good = good, OF assms(1) v(1,2)])
       (auto simp: clock_io)
qed

lemma goes_on:
  assumes "same_comm t0 t'" "good v" "\<And>G. X G = G v t'"
  shows "\<exists>v t'. same_comm t0 t' \<and> good v \<and> (\<forall>G. X G = G v t')"
  using assms by blast

lemma smap_find_other: "k' \<noteq> k \<Longrightarrow> smap_find (smap_assign k v m) k' = smap_find m k'"
  by (induction k v m rule: smap_assign.induct) auto

lemma smap_find_same: "smap_find (smap_assign k v m) k = Some v"
  by (induction k v m rule: smap_assign.induct) auto

lemma timed_entries:
  "m = add_entries [(''elapsed_time'', DDouble e), (''memory_usage_ipc'', DSize n)] h i \<Longrightarrow>
     get_double m ''elapsed_time'' = Inr e \<and> Info_Has m ''elapsed_time'' \<and> Info_Has m ''memory_usage_ipc''"
  by (simp add: Info_Set_def get_double_def Info_Get_def Info_Has_def smap_find_same smap_find_other
      GetExistingKey_def GetDataTypeName_def bindR_def)

lemma receives_data:
  fixes K :: "'c container"
  assumes "linked s0 t0" "usable K ok room" "same_comm t0 t" "good_message ok room s0 (Data i j xs x0)"
  shows "imports_as TYPE('d) TYPE('e) t0 (message_id (Data i j xs x0)) (message_text s0 (Data i j xs x0))
     (received K (Data i j xs x0)) t (import_message K (Data i j xs x0))"
proof -
  let ?m = "Data i j xs x0"
  note same = same_comm_fields [OF assms(3)]
  have t: "mUseFileSerializer t" "mIsConnected t"
    using assms(1) same(5,9) by (simp_all add: linked_def)
  have st: "plat (c_machine t) = plat (c_machine s0)" "mSerializerTraceType t = mSerializerTraceType s0"
    "mAlwaysUseSerializer t = mAlwaysUseSerializer s0" "comm_big_endian t = comm_big_endian s0"
    using assms(1) same(4,6,7,8) by (simp_all add: linked_def comm_big_endian_def)
  obtain n where n: "get_string j ''identifier'' = Inr n" "CheckEntry n ''identifier'' = Inr ()" "message_id ?m = n"
    and x: "length xs < 2 ^ 64" "ok x0" "room (length xs) x0"
    and exact: "mAlwaysUseSerializer s0 \<longrightarrow> mSerializerTraceType s0 \<noteq> SERIALIZER_NO_TRACE \<longrightarrow>
        (\<forall>x \<in> set xs. prints_exactly (plat (c_machine s0)) x)"
    using assms(4) by (auto simp: good_message_def names_agree_def message_id_def ident_def)
  note c = check_connection_ok [OF t(2) n(1,2)]
  show ?thesis
    unfolding n(3)
  proof (cases "mAlwaysUseSerializer t")
    case True
    have q: "quote \<notin> set ''obj''" by (simp add: quote_def)
    obtain x ser where l: "load_object (container_object_load K x0) ''obj'' (file_ser t (message_text s0 ?m)) = (Inr x, ser)"
      "k_elems K x = xs"
      using container_loaded [OF assms(2) x(2,3,1) q st(1,2) [symmetric]] exact True st(3)
      unfolding message_text_def data_text_def Let_def by auto
    show "imports_as TYPE('d) TYPE('e) t0 n (message_text s0 ?m) (received K ?m) t (import_message K ?m)"
      by (rule imports_saved [OF assms(3) n(1) l(1) import_data_io(1) [OF c t(1) True]])
         (use l(2) in \<open>auto simp: post_io [OF n(1)] received_def\<close>)
  next
    case False
    obtain x where f: "fill K xs x0 = Inr x" "k_elems K x = xs"
      using fill_ok [OF assms(2) x(2,3)] .
    let ?be = "comm_big_endian t"
    have written: "message_text s0 ?m = framed ?be (length xs) (doubles_bytes ?be xs)"
      using False st by (simp add: message_text_def)
    have u: "unframe ?be 8 (framed ?be (length xs) (doubles_bytes ?be xs)) = Inr (length xs, doubles_bytes ?be xs)"
      using x(1) by (intro unframe_framed) (simp_all add: length_doubles_bytes)
    let ?kvs = "\<lambda>e. [(''elapsed_time'', DDouble e), (''memory_usage_ipc'', DSize (word_of_nat (length xs * 8)))]"
    have p: "bindP (post j (add_entries (?kvs e) h Info_new, x)) F = F (add_entries (?kvs e) h Info_new, x)"
      for e h and F :: "info \<times> 'c \<Rightarrow> 'd file_prog"
      using new_entries(2) [OF refl] by (intro post_io [OF n(1)]) blast+
    have rec: "received K ?m (o_info, Values x)" for o_info using f(2) by (simp add: received_def)
    show "imports_as TYPE('d) TYPE('e) t0 n (message_text s0 ?m) (received K ?m) t (import_message K ?m)"
      unfolding written
    proof (rule imports_raw [OF assms(3) n(1) u _ import_data_io(2) [OF c t(1) False]])
      fix e t1
      assume t1: "same_comm t0 t1"
      show "\<exists>v t2. same_comm t0 t2 \<and> received K ?m v \<and>
        (\<forall>G :: info \<times> 'c cargo \<Rightarrow> 'd file_prog. (case (e, x) of (e, x) \<Rightarrow>
          bindP (localP (new_info [(''elapsed_time'', DDouble e), (''memory_usage_ipc'', DSize (word_of_nat (length (k_elems K x) * 8)))]))
            (\<lambda>info. bindP (post j (info, x)) (\<lambda>(r, x). G (r, Values x)))) t1 = G v t2)"
        unfolding prod.case new_info_io f(2) p
        by (rule goes_on [where good = "received K ?m"], rule same_comm_step(1) [OF t1], rule rec, rule refl)
    qed (simp add: bytes_doubles_inverse f(1))
  qed
qed

lemma receives_info:
  fixes K :: "'c container"
  assumes "linked s0 t0" "same_comm t0 t" "good_message ok room s0 (Settings i j)"
  shows "imports_as TYPE('d) TYPE('e) t0 (message_id (Settings i j :: 'c message)) (message_text s0 (Settings i j :: 'c message))
     (received K (Settings i j)) t (import_message K (Settings i j))"
proof -
  let ?m = "Settings i j :: 'c message"
  let ?P = "plat (c_machine s0)" and ?T = "mSerializerTraceType s0"
  note same = same_comm_fields [OF assms(2)]
  have t: "mUseFileSerializer t" "mIsConnected t" "?P = plat (c_machine t)" "?T = mSerializerTraceType t"
    using assms(1) same(5,7-9) by (simp_all add: linked_def)
  obtain n where n: "get_string j ''identifier'' = Inr n" "CheckEntry n ''identifier'' = Inr ()" "message_id ?m = n"
    and i: "info_wf i" "distinct (entries_addrs i)" "data_good ?P ?T (DInfo i)"
    using assms(3) by (auto simp: good_message_def names_agree_def message_id_def ident_def)
  note c = check_connection_ok [OF t(2) n(1,2)]
  have q: "quote \<notin> set ''obj''" by (simp add: quote_def)
  obtain i' ser where l: "load_object (Info_load Info_new) ''obj'' (file_ser t (message_text s0 ?m)) = (Inr i', ser)"
    "entries_value i' = entries_value i"
    using info_loaded [OF i t(3,4) q] unfolding message_text_def Info_new_def Let_def by auto
  have set: "received K ?m (add_entries [(''elapsed_time'', DDouble e), (''memory_usage_ipc'', DSize k)] h i', Nothing)" for e k h
  proof -
    have "map_option (\<lambda>(a, d). (0 :: addr, data_value d)) (smap_find i' x) =
        map_option (\<lambda>(a, d). (0, data_value d)) (smap_find i x)" for x
      using l(2) find_value [of i' x] find_value [of i x] by simp
    then show ?thesis
      by (simp add: received_def info_abs_def Info_Set_def find_value smap_find_other)
  qed
  show ?thesis
    unfolding n(3)
  proof (rule imports_saved [OF assms(2) n(1) l(1) import_info_io [OF c t(1)]])
    fix o_info e k t1
    assume t1: "same_comm t0 t1" "get_double o_info ''elapsed_time'' = Inr e" "get_size o_info ''memory_usage_ipc'' = Inr k"
    let ?kvs = "[(''elapsed_time'', DDouble e), (''memory_usage_ipc'', DSize k)]"
    have p: "bindP (post j (add_entries ?kvs h i', ())) F = F (add_entries ?kvs h i', ())"
      for h and F :: "info \<times> unit \<Rightarrow> 'd file_prog"
      using timed_entries [OF refl] by (intro post_io [OF n(1)]) blast+
    show "\<exists>v t2. same_comm t0 t2 \<and> received K ?m v \<and>
        (\<forall>G :: info \<times> 'c cargo \<Rightarrow> 'd file_prog. (case (o_info, i') of (rec_info, received_info) \<Rightarrow>
        bindP (liftP (get_double rec_info ''elapsed_time'')) (\<lambda>e. bindP (liftP (get_size rec_info ''memory_usage_ipc'')) (\<lambda>mem.
        bindP (localP (set_entries [(''elapsed_time'', DDouble e), (''memory_usage_ipc'', DSize mem)] received_info))
             (\<lambda>i. bindP (post j (i, ())) (\<lambda>(r, _). G (r, Nothing)))))) t1 = G v t2)"
      unfolding prod.case t1(2,3) lift_fun new_info_io p
      by (rule goes_on [where good = "received K ?m"], rule same_comm_step(1) [OF t1(1)], rule set, rule refl)
  qed
qed

lemma receives_mesh:
  fixes K :: "'c container"
  assumes "linked s0 t0" "same_comm t0 t" "good_message ok room s0 (Mesh i j p q)"
  shows "imports_as TYPE('d) TYPE('e) t0 (message_id (Mesh i j p q :: 'c message)) (message_text s0 (Mesh i j p q :: 'c message))
     (received K (Mesh i j p q)) t (import_message K (Mesh i j p q))"
proof -
  let ?m = "Mesh i j p q :: 'c message"
  let ?P = "plat (c_machine s0)" and ?T = "mSerializerTraceType s0"
  note same = same_comm_fields [OF assms(2)]
  have t: "mUseFileSerializer t" "mIsConnected t" "plat (c_machine t) = ?P" "mSerializerTraceType t = ?T"
    using assms(1) same(5,7-9) by (simp_all add: linked_def)
  obtain n where n: "get_string j ''identifier'' = Inr n" "CheckEntry n ''identifier'' = Inr ()" "message_id ?m = n"
    and p: "exportable ?P ?T p" "level_target q"
    using assms(3) by (auto simp: good_message_def names_agree_def message_id_def ident_def)
  note c = check_connection_ok [OF t(2) n(1,2)]
  have q: "quote \<notin> set ''obj''" by (simp add: quote_def)
  obtain p' ser where l: "load_object (ModelPart_load q) ''obj'' (file_ser t (message_text s0 ?m)) = (Inr p', ser)"
    "same_mesh p p'"
    using mesh_loaded [OF p q, of "file_ser t (message_text s0 ?m)" "[]"] t(3,4)
    by (auto simp: file_ser_simps message_text_def Let_def)
  show ?thesis
    unfolding n(3)
    by (rule imports_saved [OF assms(2) n(1) l(1) import_mesh_io [OF c t(1)]])
       (use l(2) in \<open>auto simp: post_io [OF n(1)] received_def\<close>)
qed

end
