(* ===== verification/Conversation.thy ===== *)
theory Conversation
  imports Channel
begin

text \<open>
  Conversations over a channel of files: the two programs take turns in sending and receiving in an
  agreed order, and every message arrives, in every interleaving.
\<close>

section \<open>Programs that keep to some files\<close>

text \<open>
  \<open>confined D Q p\<close>: \<open>p\<close> reads and changes files of \<open>D\<close> only, and what it returns satisfies \<open>Q\<close>, whatever
  it finds in the files.
\<close>

primrec confined :: "path set \<Rightarrow> ('a \<Rightarrow> bool) \<Rightarrow> 'a io \<Rightarrow> bool" where
  "confined D Q (Done x) = Q x"
| "confined D Q (Act v k) = ((\<exists>b \<in> D. local_update b v) \<and>
     (\<forall>a u w. local_update a u \<longrightarrow> a \<notin> D \<longrightarrow> k (u w) = k w) \<and> (\<forall>w. confined D Q (k w)))"
| "confined D Q (Wait d p) = ((\<forall>a u w. local_update a u \<longrightarrow> a \<notin> D \<longrightarrow> d (u w) = d w) \<and> confined D Q p)"

lemma confined_bindI:
  assumes "confined D Q p" "\<And>x. Q x \<Longrightarrow> confined D R (f x)"
  shows "confined D R (bindI p f)"
  using assms(1) by (induction p) (simp_all add: assms(2))

lemma confined_indep:
  assumes "confined D Q p" "\<And>x. Q x \<Longrightarrow> indep c u (f x)"
    and "local_update a u" "a \<notin> D" "keeps_files D c"
  shows "indep c u (bindI p f)"
  using assms(1)
proof (induction p)
  case (Act v k)
  then obtain b where b: "b \<in> D" "local_update b v" by auto
  have "u (v w) = v (u w)" for w
    using local_commute [OF assms(3) b(2)] b(1) assms(4) by auto
  moreover have "c w \<Longrightarrow> c (v w)" for w using keepsD [OF assms(5) b] by simp
  ultimately show ?case using Act assms(3,4) by auto
qed (use assms in auto)

definition confinedP :: "path set \<Rightarrow> ('s \<Rightarrow> bool) \<Rightarrow> ('s, 'a) prog \<Rightarrow> bool" where
  "confinedP D I m \<longleftrightarrow> (\<forall>s. I s \<longrightarrow> confined D (\<lambda>(r, s'). I s') (m s))"

lemma confinedP_simps [simp]:
  "confinedP D I (retP x)" "confinedP D I (throwP e)" "confinedP D I (liftP r)" "confinedP D I (getP g)"
  by (simp_all add: confinedP_def prog_defs)

lemma confinedP_local: "(\<And>s. I s \<Longrightarrow> I (snd (m s))) \<Longrightarrow> confinedP D I (localP m)"
  by (auto simp: confinedP_def localP_def split_beta)

lemma confinedP_mod: "(\<And>s. I s \<Longrightarrow> I (g s)) \<Longrightarrow> confinedP D I (modP g)"
  by (simp add: confinedP_def modP_def)

lemma confinedP_bind:
  assumes "confinedP D I m" "\<And>x. confinedP D I (f x)"
  shows "confinedP D I (bindP m f)"
  using assms unfolding confinedP_def bindP_def
  by (auto intro!: confined_bindI [where Q = "\<lambda>(r, s'). I s'"] split: sum.split)

lemma confinedP_get:
  assumes "\<And>s. I s \<Longrightarrow> confinedP D I (f (g s))"
  shows "confinedP D I (bindP (getP g) f)"
  using assms unfolding confinedP_def by (simp add: bindP_def getP_def)

lemma confinedP_then: "confinedP D I m \<Longrightarrow> confinedP D I n \<Longrightarrow> confinedP D I (thenP m n)"
  unfolding thenP_def by (rule confinedP_bind)

lemma confinedP_act:
  assumes "local_update b u" "b \<in> D" "\<And>w v. files v b = files w b \<Longrightarrow> dirs v = dirs w \<Longrightarrow> r v = r w"
  shows "confinedP D I (actP u r)"
proof -
  have "r (v w) = r w" if "local_update a v" "a \<notin> D" for a v w
    using that assms(2) by (intro assms(3) local_files [OF that(1)] local_dirs [OF that(1)]) auto
  then show ?thesis using assms(1,2) unfolding confinedP_def actP_def by auto
qed

lemma confinedP_wait:
  assumes "b \<in> D" "\<And>w v. files v b = files w b \<Longrightarrow> dirs v = dirs w \<Longrightarrow> d v = d w"
  shows "confinedP D I (waitP d)"
proof -
  have "d (v w) = d w" if "local_update a v" "a \<notin> D" for a v w
    using that assms(1) by (intro assms(2) local_files [OF that(1)] local_dirs [OF that(1)]) auto
  then show ?thesis unfolding confinedP_def waitP_def by auto
qed

lemma confined_leaves_alone:
  assumes "confinedP D I m" "I s" "D \<inter> {f, avail f} = {}" "\<And>r s'. I s' \<Longrightarrow> leaves_alone f (F r s')"
  shows "leaves_alone f (bindP m F s)"
  unfolding leaves_alone_def bindP_def
proof (intro allI impI)
  fix c u a
  assume a: "local_update a u" "a \<in> {f, avail f}" "keeps_files (- {f, avail f}) c" "\<forall>v. c v \<longrightarrow> exists v f"
  show "indep c u (bindI (m s) (\<lambda>(r, s'). case r of Inl e \<Rightarrow> Done (Inl e, s') | Inr x \<Rightarrow> F x s'))"
  proof (rule confined_indep [where Q = "\<lambda>(r, s'). I s'" and D = D])
    show "keeps_files D c" using a(3) assms(3) unfolding keeps_files_def by blast
    show "indep c u (case x of (r, s') \<Rightarrow> case r of Inl e \<Rightarrow> Done (Inl e, s') | Inr x \<Rightarrow> F x s')"
      if "case x of (r, s') \<Rightarrow> I s'" for x
    proof -
      obtain r s' where x: "x = (r, s')" by (cases x)
      then have "leaves_alone f (F y s')" for y using that assms(4) by simp
      then show ?thesis using a x by (cases r) (auto simp: leaves_alone_def)
    qed
  qed (use assms(1-3) a(1,2) in \<open>auto simp: confinedP_def\<close>)
qed

section \<open>Sequences of programs\<close>

fun each :: "('m \<Rightarrow> ('s, 'a) prog) \<Rightarrow> 'm list \<Rightarrow> ('s, 'a list) prog" where
  "each f [] = retP []"
| "each f (m # ms) = bindP (f m) (\<lambda>r. bindP (each f ms) (\<lambda>rs. retP (r # rs)))"

lemma each_io:
  "bindP (each f []) F s = F [] s"
  "bindP (each f (m # ms)) F s = bindP (f m) (\<lambda>r. bindP (each f ms) (\<lambda>rs. F (r # rs))) s"
proof -
  have "bindP (retP (r # rs)) F = F (r # rs)" for r rs by (simp add: fun_eq_iff ret_io)
  then show "bindP (each f (m # ms)) F s = bindP (f m) (\<lambda>r. bindP (each f ms) (\<lambda>rs. F (r # rs))) s"
    by (simp add: bindP_assoc)
qed (simp add: ret_io)

lemma untestedP_each: "(\<And>m. untestedP (f m) (f' m)) \<Longrightarrow> untestedP (each f ms) (each f' ms)"
  by (induction ms) (auto intro!: untestedP_bind untestedP_refl)

section \<open>Taking turns\<close>

text \<open>Which side sends: \<open>Forth m\<close> is sent by this side, \<open>Back m\<close> by the other one.\<close>

datatype 'm turn = Forth 'm | Back 'm

primrec message_of :: "'m turn \<Rightarrow> 'm" where
  "message_of (Forth m) = m"
| "message_of (Back m) = m"

primrec other_side :: "'m turn \<Rightarrow> 'm turn" where
  "other_side (Forth m) = Back m"
| "other_side (Back m) = Forth m"

primrec take_turn :: "('m \<Rightarrow> ('s, 'r) prog) \<Rightarrow> ('m \<Rightarrow> ('s, 'v) prog) \<Rightarrow> 'm turn \<Rightarrow> ('s, 'r + 'v) prog" where
  "take_turn send recv (Forth m) = bindP (send m) (\<lambda>r. retP (Inl r))"
| "take_turn send recv (Back m) = bindP (recv m) (\<lambda>v. retP (Inr v))"

lemma turn_io:
  "bindP (take_turn send recv (Forth m)) F = bindP (send m) (\<lambda>r. F (Inl r))"
  "bindP (take_turn send recv (Back m)) F = bindP (recv m) (\<lambda>v. F (Inr v))"
proof -
  have "bindP (retP x) F = F x" for x by (simp add: fun_eq_iff ret_io)
  then show "bindP (take_turn send recv (Forth m)) F = bindP (send m) (\<lambda>r. F (Inl r))"
    "bindP (take_turn send recv (Back m)) F = bindP (recv m) (\<lambda>v. F (Inr v))"
    by (simp_all add: bindP_assoc)
qed

lemma untestedP_turn:
  assumes "\<And>m. untestedP (send m) (send' m)"
  shows "untestedP (take_turn send recv t) (take_turn send' recv t)"
  using assms by (cases t) (auto intro!: untestedP_bind untestedP_refl)

primrec took :: "('m \<Rightarrow> 'v \<Rightarrow> bool) \<Rightarrow> 'm turn \<Rightarrow> 'r + 'v \<Rightarrow> bool" where
  "took got (Forth m) x = (\<exists>r. x = Inl r)"
| "took got (Back m) x = (\<exists>v. x = Inr v \<and> got m v)"

text \<open>
  The contract of a channel: sending a message delivers it, receiving it fetches it, both keep what
  the two sides rely on, and the messages have files of their own.
\<close>

locale file_channel =
  fixes send :: "'m \<Rightarrow> ('s, 'r) prog" and recv :: "'m \<Rightarrow> ('s, 'v) prog"
    and slot :: "'m \<Rightarrow> path" and draft :: "'m \<Rightarrow> path" and text_of :: "'m \<Rightarrow> string" and aux :: bool
    and party :: "'s \<Rightarrow> bool" and good :: "'m \<Rightarrow> bool" and got :: "'m \<Rightarrow> 'v \<Rightarrow> bool"
  assumes send: "party s \<Longrightarrow> good m \<Longrightarrow> \<exists>r s'. party s' \<and>
      (\<forall>F. delivers aux (slot m) (draft m) (text_of m) (bindP (send m) F s :: ((error + ('r + 'v) list) \<times> 's) io) (F r s')
        {F r s' |r s'. party s'})"
    and recv: "party t \<Longrightarrow> good m \<Longrightarrow> \<exists>v t'. party t' \<and> got m v \<and>
      (\<forall>G (p :: ((error + ('r + 'v) list) \<times> 's) io). fetches aux (slot m) (text_of m)
         (bindP (recv m) G t :: ((error + ('r + 'v) list) \<times> 's) io) (G v t') p)"
    and recv_confined: "good m \<Longrightarrow> confinedP {slot m, avail (slot m)} party (recv m)"
    and apart: "good m \<Longrightarrow> good m' \<Longrightarrow> slot m \<noteq> slot m' \<Longrightarrow>
      {slot m, draft m, avail (slot m)} \<inter> {slot m', avail (slot m')} = {}"
begin

definition talk :: "'m turn list \<Rightarrow> ('s, ('r + 'v) list) prog" where
  "talk ts = each (take_turn send recv) ts"

lemma talk_io:
  "bindP (talk []) F s = F [] s"
  "bindP (talk (Forth m # ts)) F s = bindP (send m) (\<lambda>r. bindP (talk ts) (\<lambda>rs. F (Inl r # rs))) s"
  "bindP (talk (Back m # ts)) F s = bindP (recv m) (\<lambda>v. bindP (talk ts) (\<lambda>rs. F (Inr v # rs))) s"
  unfolding talk_def each_io turn_io by (rule refl)+

lemma talk_leaves_alone:
  assumes "party s" "\<forall>t \<in> set ts. good (message_of t)" "good m" "\<forall>m'. Back m' \<in> set ts \<longrightarrow> slot m' \<noteq> slot m"
    and "\<And>rs s. leaves_alone (slot m) (F rs s :: ((error + ('r + 'v) list) \<times> 's) io)"
  shows "leaves_alone (slot m) (bindP (talk ts) F s)"
  using assms(1,2,4,5)
proof (induction ts arbitrary: s F)
  case (Cons t ts)
  have ih: "party s' \<Longrightarrow> leaves_alone (slot m) (bindP (talk ts) (\<lambda>rs. F (x # rs)) s')" for x s'
    using Cons.prems by (intro Cons.IH) auto
  show ?case
  proof (cases t)
    case (Forth m1)
    then have m1: "good m1" using Cons.prems(2) by simp
    obtain r s' where r: "party s'"
      "\<And>F. delivers aux (slot m1) (draft m1) (text_of m1) (bindP (send m1) F s :: ((error + ('r + 'v) list) \<times> 's) io) (F r s')
         {F r s' |r s'. party s'}"
      using send [OF Cons.prems(1) m1] by auto
    have a: "slot m1 \<noteq> slot m \<Longrightarrow> {slot m1, draft m1, avail (slot m1)} \<inter> {slot m, avail (slot m)} = {}"
      by (rule apart [OF m1 assms(3)])
    have l: "x \<in> {bindP (talk ts) (\<lambda>rs. F (Inl r # rs)) s' |r s'. party s'} \<Longrightarrow> leaves_alone (slot m) x" for x
      using ih by auto
    show ?thesis
      unfolding Forth talk_io
      by (rule delivers_leaves_alone [OF r(2) [of "\<lambda>r. bindP (talk ts) (\<lambda>rs. F (Inl r # rs))"]])
         (erule l, rule a)
  next
    case (Back m1)
    then have m1: "good m1" "slot m1 \<noteq> slot m" using Cons.prems(2,3) by simp_all
    show ?thesis
      unfolding Back talk_io using apart [OF m1(1) assms(3) m1(2)]
      by (intro confined_leaves_alone [OF recv_confined [OF m1(1)] Cons.prems(1)] ih) auto
  qed
qed (simp add: talk_io)

lemma one_turn:
  assumes "party s" "party t" "good m" "slots_free aux (slot m) (draft m) w"
    and "\<And>r s'. party s' \<Longrightarrow> leaves_alone (slot m) (F r s' :: ((error + ('r + 'v) list) \<times> 's) io)"
  shows "\<exists>r v s' t'. party s' \<and> party t' \<and> got m v \<and>
     leads (bindP (send m) F s, bindP (recv m) G t :: ((error + ('r + 'v) list) \<times> 's) io, w) (F r s', G v t', w)"
proof -
  obtain r s' where r: "party s'" "delivers aux (slot m) (draft m) (text_of m) (bindP (send m) F s) (F r s')
       {F r s' |r s'. party s'}"
    using send [OF assms(1,3)] by auto
  obtain v t' where v: "party t'" "got m v" "fetches aux (slot m) (text_of m) (bindP (recv m) G t) (G v t') (F r s')"
    using recv [OF assms(2,3)] by blast
  show ?thesis
    using message [OF r(2) v(3) assms(4) assms(5) [OF r(1)]] r(1) v(1,2) by blast
qed

lemma other_sides:
  "Back m \<in> set (map other_side ts) \<longleftrightarrow> Forth m \<in> set ts"
  "(\<forall>t \<in> set (map other_side ts). good (message_of t)) \<longleftrightarrow> (\<forall>t \<in> set ts. good (message_of t))"
proof -
  have "other_side t = Back m \<longleftrightarrow> t = Forth m" for t by (cases t) auto
  then show "Back m \<in> set (map other_side ts) \<longleftrightarrow> Forth m \<in> set ts" by (induction ts) (auto simp: eq_commute)
  have "message_of (other_side t) = message_of t" for t :: "'m turn" by (cases t) auto
  then show "(\<forall>t \<in> set (map other_side ts). good (message_of t)) \<longleftrightarrow> (\<forall>t \<in> set ts. good (message_of t))" by simp
qed

lemma first_turn:
  assumes "party s" "party t" "\<forall>t \<in> set (x # ts). good (message_of t)"
    and "slots_free aux (slot (message_of x)) (draft (message_of x)) w"
    and "\<forall>m m'. Forth m \<in> set (x # ts) \<longrightarrow> Back m' \<in> set (x # ts) \<longrightarrow> slot m \<noteq> slot m'"
    and F: "\<And>m rs s. leaves_alone (slot m) (F rs s :: ((error + ('r + 'v) list) \<times> 's) io)"
    and G: "\<And>m rs s. leaves_alone (slot m) (G rs s :: ((error + ('r + 'v) list) \<times> 's) io)"
  shows "\<exists>a b s' t'. took got x a \<and> took got (other_side x) b \<and> party s' \<and> party t' \<and>
     leads (bindP (talk (x # ts)) F s, bindP (talk (map other_side (x # ts))) G t, w)
       (bindP (talk ts) (\<lambda>rs. F (a # rs)) s', bindP (talk (map other_side ts)) (\<lambda>rs. G (b # rs)) t', w)"
proof (cases x)
  case (Forth m)
  have m: "good m" "slots_free aux (slot m) (draft m) w" "\<forall>m'. Back m' \<in> set ts \<longrightarrow> slot m' \<noteq> slot m"
    "\<forall>t \<in> set ts. good (message_of t)"
    using assms(3-5) Forth by (simp, simp, metis list.set_intros, simp)
  have "leaves_alone (slot m) (bindP (talk ts) (\<lambda>rs. F (a # rs)) s')" if "party s'" for a s'
    by (rule talk_leaves_alone [OF that m(4,1,3)]) (rule F)
  then obtain r v s' t' where "party s'" "party t'" "got m v"
    "leads (bindP (talk (x # ts)) F s, bindP (talk (map other_side (x # ts))) G t, w)
       (bindP (talk ts) (\<lambda>rs. F (Inl r # rs)) s', bindP (talk (map other_side ts)) (\<lambda>rs. G (Inr v # rs)) t', w)"
    unfolding Forth list.map other_side.simps talk_io
    using one_turn [where F = "\<lambda>r. bindP (talk ts) (\<lambda>rs. F (Inl r # rs))"
        and G = "\<lambda>v. bindP (talk (map other_side ts)) (\<lambda>rs. G (Inr v # rs))", OF assms(1,2) m(1,2)] by blast
  then show ?thesis unfolding Forth by (intro exI [of _ "Inl r"] exI [of _ "Inr v"] exI [of _ s'] exI [of _ t']) simp
next
  case (Back m)
  have m: "good m" "slots_free aux (slot m) (draft m) w" "\<forall>m'. Back m' \<in> set (map other_side ts) \<longrightarrow> slot m' \<noteq> slot m"
    "\<forall>t \<in> set (map other_side ts). good (message_of t)"
    using assms(3-5) Back unfolding other_sides by simp_all
  have "leaves_alone (slot m) (bindP (talk (map other_side ts)) (\<lambda>rs. G (a # rs)) s')" if "party s'" for a s'
    by (rule talk_leaves_alone [OF that m(4,1,3)]) (rule G)
  then obtain r v s' t' where "party s'" "party t'" "got m v"
    "leads (bindP (talk (map other_side (x # ts))) G t, bindP (talk (x # ts)) F s, w)
       (bindP (talk (map other_side ts)) (\<lambda>rs. G (Inl r # rs)) t', bindP (talk ts) (\<lambda>rs. F (Inr v # rs)) s', w)"
    unfolding Back list.map other_side.simps talk_io
    using one_turn [where F = "\<lambda>r. bindP (talk (map other_side ts)) (\<lambda>rs. G (Inl r # rs))"
        and G = "\<lambda>v. bindP (talk ts) (\<lambda>rs. F (Inr v # rs))", OF assms(2,1) m(1,2)] by blast
  moreover from this(4) have "leads (bindP (talk (x # ts)) F s, bindP (talk (map other_side (x # ts))) G t, w)
       (bindP (talk ts) (\<lambda>rs. F (Inr v # rs)) s', bindP (talk (map other_side ts)) (\<lambda>rs. G (Inl r # rs)) t', w)"
    by - (rule leads_flip, simp)
  ultimately show ?thesis unfolding Back by (intro exI [of _ "Inr v"] exI [of _ "Inl r"] exI [of _ s'] exI [of _ t']) simp
qed

lemma all_turns:
  assumes "party s" "party t" "\<forall>t \<in> set ts. good (message_of t) \<and> slots_free aux (slot (message_of t)) (draft (message_of t)) w"
    and "\<forall>m m'. Forth m \<in> set ts \<longrightarrow> Back m' \<in> set ts \<longrightarrow> slot m \<noteq> slot m'"
    and "\<And>m rs s. leaves_alone (slot m) (F rs s :: ((error + ('r + 'v) list) \<times> 's) io)"
    and "\<And>m rs s. leaves_alone (slot m) (G rs s :: ((error + ('r + 'v) list) \<times> 's) io)"
  shows "\<exists>rs vs s' t'. list_all2 (took got) ts rs \<and> list_all2 (took got) (map other_side ts) vs \<and> party s' \<and> party t' \<and>
     leads (bindP (talk ts) F s, bindP (talk (map other_side ts)) G t, w) (F rs s', G vs t', w)"
  using assms
proof (induction ts arbitrary: s t F G)
  case Nil
  then show ?case by (intro exI [of _ "[]"] exI [of _ s] exI [of _ t]) (simp add: talk_io leads_refl)
next
  case (Cons x ts)
  obtain a b s1 t1 where one: "took got x a" "took got (other_side x) b" "party s1" "party t1"
    "leads (bindP (talk (x # ts)) F s, bindP (talk (map other_side (x # ts))) G t, w)
       (bindP (talk ts) (\<lambda>rs. F (a # rs)) s1, bindP (talk (map other_side ts)) (\<lambda>rs. G (b # rs)) t1, w)"
    using first_turn [of s t x ts w F G] Cons.prems by auto
  obtain rs vs s' t' where rest: "list_all2 (took got) ts rs" "list_all2 (took got) (map other_side ts) vs" "party s'" "party t'"
     "leads (bindP (talk ts) (\<lambda>rs. F (a # rs)) s1, bindP (talk (map other_side ts)) (\<lambda>rs. G (b # rs)) t1, w)
       (F (a # rs) s', G (b # vs) t', w)"
    using Cons.IH [OF one(3,4), of "\<lambda>rs. F (a # rs)" "\<lambda>rs. G (b # rs)"] Cons.prems(3-) by auto
  show ?case
    using rest one(1,2) leads_trans [OF one(5) rest(5)]
    by (intro exI [of _ "a # rs"] exI [of _ "b # vs"] exI [of _ s'] exI [of _ t']) simp
qed

end

end
