(* ===== verification/Confinement.thy ===== *)
theory Confinement
  imports Receipt Conversation
begin

text \<open>
  An import touches the file of its message and the auxiliary file of it only, whatever it finds there.
\<close>

lemma remove_confined: "a \<in> D \<Longrightarrow> confinedP D I (RemovePath a)"
proof -
  assume a: "a \<in> D"
  have "confinedP D I (remove_attempts n a)" for n
  proof (induction n)
    case (Suc n)
    have "confinedP D I (actP (remove_file a) (\<lambda>w. Inr (files w a \<noteq> None)))"
      using a by (intro confinedP_act [of a]) simp_all
    then show ?case using Suc by (auto intro!: confinedP_bind)
  qed simp
  then show ?thesis unfolding RemovePath_def .
qed

lemma wait_path_confined: "a \<in> D \<Longrightarrow> confinedP D I (WaitUntilPathExists a)"
  unfolding WaitUntilPathExists_def by (rule confinedP_wait [of a]) (auto simp: exists_def)

lemma wait_confined: "{f, avail f} \<subseteq> D \<Longrightarrow> confinedP D I (wait_for f)"
  unfolding wait_for_def WaitForPath_def
  by (auto intro!: confinedP_bind confinedP_then wait_path_confined remove_confined)

lemma read_confined:
  assumes "f \<in> D"
  shows "confinedP D I (read_file f)" "confinedP D I (file_size f)" "confinedP D I (FileSerializer f)"
  unfolding read_file_def file_size_def FileSerializer_def
  using assms by (auto intro!: confinedP_act [of f] simp: writable_def split: option.split)

lemma clock_confined:
  assumes "\<And>s h. I s \<Longrightarrow> I (s\<lparr>c_heap := h\<rparr>)" "\<And>s k. I s \<Longrightarrow> I (s\<lparr>c_clock := k\<rparr>)"
  shows "confinedP D I (localP ElapsedSeconds)" "confinedP D I (localP (new_info kvs))"
    "confinedP D I (localP (set_entries kvs m))"
  using assms by (auto intro!: confinedP_local simp: ElapsedSeconds_def new_info_def set_entries_def)


section \<open>Imports\<close>

text \<open>What the states of an import have in common.\<close>

definition importer :: "string \<Rightarrow> path \<Rightarrow> (file_communication \<Rightarrow> bool) \<Rightarrow> bool" where
  "importer n f I \<longleftrightarrow> (\<forall>s. I s \<longrightarrow> data_file s n = f) \<and>
     (\<forall>s h. I s \<longrightarrow> I (s\<lparr>c_heap := h\<rparr>)) \<and> (\<forall>s k. I s \<longrightarrow> I (s\<lparr>c_clock := k\<rparr>))"

lemma importer_confined:
  assumes "importer n f I"
  shows "confinedP D I (localP ElapsedSeconds)" "confinedP D I (localP (new_info kvs))"
    "confinedP D I (localP (set_entries kvs m))" "confinedP D I (modP (\<lambda>c. c\<lparr>c_heap := h\<rparr>))"
  using assms clock_confined [of I] by (auto simp: importer_def intro!: confinedP_mod)

lemma with_file_confined:
  assumes "importer n f I" "get_string j ''identifier'' = Inr n" "confinedP D I (m f)"
  shows "confinedP D I (with_file j m)"
proof -
  have "with_file j m = bindP (getP (\<lambda>c. data_file c n)) m"
    unfolding with_file_def assms(2) lift_fun ..
  then show ?thesis using assms(1,3) by (auto intro!: confinedP_get simp: importer_def)
qed

lemma receive_confined:
  assumes "importer n f I" "get_string j ''identifier'' = Inr n"
  shows "confinedP {f, avail f} I (GenericReceive j sz consume)"
    "confinedP {f, avail f} I (GenericReceiveWithFileSerializer j load)"
proof -
  note i = importer_confined [OF assms(1), of "{f, avail f}"]
  have l: "confinedP {f, avail f} I (SerializeFromFile f load)"
    unfolding SerializeFromFile_def load_from_file_def
    by (auto intro!: confinedP_bind confinedP_then read_confined i split: prod.split)
  show "confinedP {f, avail f} I (GenericReceive j sz consume)"
    unfolding GenericReceive_def
    by (rule with_file_confined [OF assms])
       (auto intro!: confinedP_bind confinedP_then read_confined wait_confined remove_confined i split: prod.split)
  show "confinedP {f, avail f} I (GenericReceiveWithFileSerializer j load)"
    unfolding GenericReceiveWithFileSerializer_def
    by (rule with_file_confined [OF assms])
       (auto intro!: confinedP_bind confinedP_then read_confined wait_confined remove_confined i l split: prod.split)
qed

lemma checks_confined:
  fixes impl :: "(info \<times> 'r) file_prog"
  assumes "confinedP D I impl"
  shows "confinedP D I (with_checks j impl)"
  unfolding with_checks_post post_def by (auto intro!: confinedP_bind confinedP_then assms)

lemma impl_confined:
  assumes "importer n f I" "get_string j ''identifier'' = Inr n"
  shows "confinedP {f, avail f} I (File_ImportInfoImpl K j)" "confinedP {f, avail f} I (File_ImportDataImpl K j x)"
    "confinedP {f, avail f} I (File_ImportMeshImpl K j p)"
proof -
  note i = importer_confined [OF assms(1), of "{f, avail f}"] and r = receive_confined [OF assms]
  have s: "confinedP {f, avail f} I (ReceiveObjectWithStreamSerializer (file_methods K) j load)" for load :: "('o ser, 'b) cpp"
    unfolding ReceiveObjectWithStreamSerializer_def file_methods_def methods.simps File_ReceiveString_def
    by (auto intro!: confinedP_bind confinedP_then i r split: prod.split)
  show "confinedP {f, avail f} I (File_ImportInfoImpl K j)"
    unfolding File_ImportInfoImpl_def Base_ImportInfoImpl_def
    by (auto intro!: confinedP_bind i r s split: prod.split)
  have d: "ReceiveDataContainer (file_methods K) j x = File_ReceiveDataContainer K j x" by (simp add: file_methods_def)
  show "confinedP {f, avail f} I (File_ImportDataImpl K j x)"
    unfolding File_ImportDataImpl_def Base_ImportDataImpl_def d File_ReceiveDataContainer_def
    by (auto intro!: confinedP_bind i r s split: prod.split)
  show "confinedP {f, avail f} I (File_ImportMeshImpl K j p)"
    unfolding File_ImportMeshImpl_def Base_ImportMeshImpl_def
    by (auto intro!: confinedP_bind i r s split: prod.split)
qed

lemma import_confined:
  assumes "importer (message_id m) f I" "good_message ok room s m"
  shows "confinedP {f, avail f} I (import_message K m)"
proof (cases m)
  case (Data i j xs x0)
  then have "get_string j ''identifier'' = Inr (message_id m)"
    using assms(2) by (auto simp: good_message_def names_agree_def message_id_def ident_def)
  from impl_confined(2) [OF assms(1) this] show ?thesis
    unfolding Data import_message_def message.case File_ImportData_def
    by (auto intro!: confinedP_bind checks_confined split: prod.split)
next
  case (Settings i j)
  then have "get_string j ''identifier'' = Inr (message_id m)"
    using assms(2) by (auto simp: good_message_def names_agree_def message_id_def ident_def)
  from impl_confined(1) [OF assms(1) this] show ?thesis
    unfolding Settings import_message_def message.case File_ImportInfo_def no_result_def
    by (auto intro!: confinedP_bind checks_confined split: prod.split)
next
  case (Mesh i j p q)
  then have "get_string j ''identifier'' = Inr (message_id m)"
    using assms(2) by (auto simp: good_message_def names_agree_def message_id_def ident_def)
  from impl_confined(3) [OF assms(1) this] show ?thesis
    unfolding Mesh import_message_def message.case File_ImportMesh_def
    by (auto intro!: confinedP_bind checks_confined split: prod.split)
qed

end
