(* ===== verification/Exchanges.thy ===== *)
theory Exchanges
  imports Confinement Parting
begin

text \<open>
  The file communication provides the channel: in a conversation of exports and imports of field data,
  \<open>Info\<close> objects and meshes between two connected partners every message arrives, complete and in order, in
  every interleaving.
\<close>

section \<open>Both sides agree on the messages\<close>

lemma linked_sym: "linked s t \<Longrightarrow> linked t s"
  by (simp add: linked_def folder_ok_def)

lemma linked_same:
  assumes "linked s t"
  shows "data_file t n = data_file s n" "draft_name t n = draft_name s n" "message_text t m = message_text s m"
    "good_message ok room t m = good_message ok room s m"
    "mUseAuxFileForFileAvailability t = mUseAuxFileForFileAvailability s"
proof -
  show d: "data_file t n = data_file s n" for n
    using slot_fields [of t s n] assms by (simp add: linked_def slot_of_def)
  have "place t = place s" using assms by (simp add: linked_def place_def fun_eq_iff)
  then show "draft_name t n = draft_name s n"
    using assms d by (simp add: linked_def draft_name_def)
  have e: "plat (c_machine t) = plat (c_machine s)" "mSerializerTraceType t = mSerializerTraceType s"
    "mAlwaysUseSerializer t = mAlwaysUseSerializer s" "comm_big_endian t = comm_big_endian s"
    using assms by (simp_all add: linked_def comm_big_endian_def)
  show "message_text t m = message_text s m" "good_message ok room t m = good_message ok room s m"
    unfolding message_text_def good_message_def e by (rule refl)+
  show "mUseAuxFileForFileAvailability t = mUseAuxFileForFileAvailability s" using assms by (simp add: linked_def)
qed

definition party :: "file_communication \<Rightarrow> file_communication \<Rightarrow> file_communication \<Rightarrow> bool" where
  "party s t c \<longleftrightarrow> linked s t \<and> (same_comm s c \<or> same_comm t c)"

lemma same_comm_refl: "same_comm s s"
proof -
  have "s = s\<lparr>c_heap := c_heap s, c_clock := c_clock s\<rparr>" by simp
  then show ?thesis unfolding same_comm_def by metis
qed

lemma party_cases:
  assumes "party s t c"
  obtains u v where "linked u v" "same_comm u c" "\<And>d. same_comm u d \<Longrightarrow> party s t d"
    "\<And>n. data_file u n = data_file s n" "\<And>n. draft_name u n = draft_name s n"
    "\<And>m :: 'c message. message_text u m = message_text s m" "\<And>m :: 'c message. message_text v m = message_text s m"
    "\<And>(m :: 'c message) ok room. good_message ok room u m = good_message ok room s m"
    "\<And>(m :: 'c message) ok room. good_message ok room v m = good_message ok room s m"
    "mUseAuxFileForFileAvailability u = mUseAuxFileForFileAvailability s"
proof -
  have l: "linked s t" using assms by (simp add: party_def)
  note e = linked_same [OF l]
  consider "same_comm s c" | "same_comm t c" using assms by (auto simp: party_def)
  then show ?thesis
  proof cases
    case 1
    have "party s t d" if "same_comm s d" for d using that l by (simp add: party_def)
    then show ?thesis by (rule that [OF l 1]) (assumption | rule refl e)+
  next
    case 2
    have "party s t d" if "same_comm t d" for d using that l by (simp add: party_def)
    then show ?thesis by (rule that [OF linked_sym [OF l] 2]) (assumption | rule refl e)+
  qed
qed

lemma party_importer: "importer n (data_file s n) (party s t)"
proof -
  have "data_file c n = data_file s n" if "party s t c" for c
    using that same_comm_fields(1) linked_same(1) by (auto simp: party_def)
  then show ?thesis
    unfolding importer_def party_def by (auto intro: same_comm_step)
qed

interpretation transfers: file_channel "\<lambda>m. waiting (slot_of (message_id m)) (export_message K m)" "import_message K"
  "\<lambda>m. data_file s0 (message_id m)" "\<lambda>m. draft_name s0 (message_id m)" "message_text s0"
  "mUseAuxFileForFileAvailability s0" "party s0 t0" "\<lambda>m. linked s0 t0 \<and> usable K ok room \<and> good_message ok room s0 m"
  "received K" for K :: "'c container" and ok room s0 t0
proof (unfold_locales; (elim conjE)?)
  fix s and m :: "'c message"
  assume m: "party s0 t0 s" "good_message ok room s0 m"
  obtain u v where u: "linked u v" "same_comm u s" "\<And>d. same_comm u d \<Longrightarrow> party s0 t0 d"
    "\<And>n. data_file u n = data_file s0 n" "\<And>n. draft_name u n = draft_name s0 n"
    "\<And>m :: 'c message. message_text u m = message_text s0 m"
    "\<And>(m :: 'c message) ok room. good_message ok room u m = good_message ok room s0 m"
    "mUseAuxFileForFileAvailability u = mUseAuxFileForFileAvailability s0"
    by (rule party_cases [OF m(1)]) (rule that)
  have "exports TYPE(((info \<times> unit) + (info \<times> 'c cargo)) list) u (message_id m) (message_text u m) s
      (waiting (slot_of (message_id m)) (export_message K m))"
    using u(1,2) m(2) by (intro sends [where ok = ok and room = room]) (simp_all add: u(7))
  then obtain r s' where r: "same_comm u s'"
    "\<And>F. delivers (mUseAuxFileForFileAvailability u) (data_file u (message_id m)) (draft_name u (message_id m))
        (message_text u m) (bindP (waiting (slot_of (message_id m)) (export_message K m)) F s ::
          ((error + ((info \<times> unit) + (info \<times> 'c cargo)) list) \<times> file_communication) io) (F r s')
        {F r s' |r s'. same_comm u s'}"
    unfolding exports_def by blast
  show "\<exists>r s'. party s0 t0 s' \<and>
      (\<forall>F. delivers (mUseAuxFileForFileAvailability s0) (data_file s0 (message_id m)) (draft_name s0 (message_id m))
        (message_text s0 m) (bindP (waiting (slot_of (message_id m)) (export_message K m)) F s ::
          ((error + ((info \<times> unit) + (info \<times> 'c cargo)) list) \<times> file_communication) io) (F r s')
        {F r s' |r s'. party s0 t0 s'})"
    using r u(3) by (intro exI [of _ r] exI [of _ s'] conjI allI delivers_mono [OF r(2) [unfolded u(4-6,8)]]) auto
next
  fix t and m :: "'c message"
  assume m: "party s0 t0 t" "usable K ok room" "good_message ok room s0 m"
  obtain u v where u: "linked u v" "same_comm u t" "\<And>d. same_comm u d \<Longrightarrow> party s0 t0 d"
    "\<And>n. data_file u n = data_file s0 n"
    "\<And>m :: 'c message. message_text v m = message_text s0 m"
    "\<And>(m :: 'c message) ok room. good_message ok room v m = good_message ok room s0 m"
    "mUseAuxFileForFileAvailability u = mUseAuxFileForFileAvailability s0"
    by (rule party_cases [OF m(1)]) (rule that)
  have g: "good_message ok room v m" using m(3) u(6) by simp
  have "imports_as TYPE(((info \<times> unit) + (info \<times> 'c cargo)) list)
      TYPE((error + ((info \<times> unit) + (info \<times> 'c cargo)) list) \<times> file_communication)
      u (message_id m) (message_text v m) (received K m) t (import_message K m)"
    using receives_data [OF linked_sym [OF u(1)] m(2) u(2)] receives_info [OF linked_sym [OF u(1)] u(2)]
      receives_mesh [OF linked_sym [OF u(1)] u(2)] g
    by (cases m) simp_all
  then show "\<exists>v t'. party s0 t0 t' \<and> received K m v \<and>
      (\<forall>G p. fetches (mUseAuxFileForFileAvailability s0) (data_file s0 (message_id m)) (message_text s0 m)
        (bindP (import_message K m) G t :: ((error + ((info \<times> unit) + (info \<times> 'c cargo)) list) \<times> file_communication) io) (G v t')
        (p :: ((error + ((info \<times> unit) + (info \<times> 'c cargo)) list) \<times> file_communication) io))"
    unfolding imports_as_def u(4,5,7) using u(3) by blast
next
  fix m :: "'c message"
  assume "good_message ok room s0 m"
  then show "confinedP {data_file s0 (message_id m), avail (data_file s0 (message_id m))} (party s0 t0) (import_message K m)"
    by (rule import_confined [OF party_importer])
next
  fix m m' :: "'c message"
  assume "linked s0 t0" "data_file s0 (message_id m) \<noteq> data_file s0 (message_id m')"
  then show "{data_file s0 (message_id m), draft_name s0 (message_id m), avail (data_file s0 (message_id m))} \<inter>
      {data_file s0 (message_id m'), avail (data_file s0 (message_id m'))} = {}"
    by (intro data_names_apart) (simp_all add: linked_def)
qed


section \<open>Conversations\<close>

text \<open>
  What a solver does between \<open>Connect\<close> and \<open>Disconnect\<close>: it exports and imports in the order of its
  coupling algorithm.
\<close>

definition converse_with :: "'c container \<Rightarrow> 'c message turn list \<Rightarrow> ((info \<times> unit) + (info \<times> 'c cargo)) list file_prog" where
  "converse_with K ts = each (take_turn (export_message K) (import_message K)) ts"

lemma starts_message: "starts (slot_of (message_id m)) (export_message K m)"
  by (cases m) (simp_all add: message_id_def export_message_def starts_exports)

lemma untested_converse:
  "untestedP (converse_with K ts) (transfers.talk K ts)"
  unfolding converse_with_def transfers.talk_def
  by (intro untestedP_each untestedP_turn untested_waiting starts_message)

lemma data_file_inj: "data_file s n = data_file s n' \<longleftrightarrow> n = n'"
  by (simp add: data_file_place)

lemma converse_leads:
  assumes "linked s t" "usable K ok room" "clean w s" "\<forall>x \<in> set ts. good_message ok room s (message_of x)"
    and "\<forall>m m'. Forth m \<in> set ts \<longrightarrow> Back m' \<in> set ts \<longrightarrow> message_id m \<noteq> message_id m'"
  shows "\<exists>rs vs s' t'. list_all2 (took (received K)) ts rs \<and> list_all2 (took (received K)) (map other_side ts) vs \<and>
     party s t s' \<and> party s t t' \<and>
     leads (converse_with K ts s, converse_with K (map other_side ts) t, w) (Done (Inr rs, s'), Done (Inr vs, t'), w)"
proof -
  have p: "party s t s" "party s t t"
    using assms(1) by (simp_all add: party_def same_comm_refl)
  have f: "slots_free (mUseAuxFileForFileAvailability s) (data_file s (message_id m)) (draft_name s (message_id m)) w"
    if "good_message ok room s m" for m :: "'a message"
  proof -
    have "slash \<notin> set (message_id m)"
      using that by (cases m) (auto simp: good_message_def names_agree_def message_id_def ident_def dest: id_no_slash)
    then show ?thesis using assms(1,3) by (intro slots_clean) (simp_all add: linked_def)
  qed
  have l: "leaves_alone f (retP rs c)" for f rs and c :: 'x by (simp add: retP_def)
  obtain rs vs s' t' where r: "list_all2 (took (received K)) ts rs" "list_all2 (took (received K)) (map other_side ts) vs"
    "party s t s'" "party s t t'"
    "leads (transfers.talk K ts s, transfers.talk K (map other_side ts) t, w) (Done (Inr rs, s'), Done (Inr vs, t'), w)"
    using transfers.all_turns [OF p, of ts K ok room w retP retP] assms(1,2,4,5) f l
    unfolding bindP_ret data_file_inj by (auto simp: retP_def)
  have "leads (converse_with K ts s, transfers.talk K (map other_side ts) t, w) (Done (Inr rs, s'), Done (Inr vs, t'), w)"
    using untested_converse [of K ts] r(5) by (auto simp: untestedP_def intro: untested_leads)
  then have "leads (transfers.talk K (map other_side ts) t, converse_with K ts s, w) (Done (Inr vs, t'), Done (Inr rs, s'), w)"
    by - (rule leads_flip, simp)
  then have "leads (converse_with K (map other_side ts) t, converse_with K ts s, w) (Done (Inr vs, t'), Done (Inr rs, s'), w)"
    using untested_converse [of K "map other_side ts"] by (auto simp: untestedP_def intro: untested_leads)
  then have "leads (converse_with K ts s, converse_with K (map other_side ts) t, w) (Done (Inr rs, s'), Done (Inr vs, t'), w)"
    by - (rule leads_flip, simp)
  then show ?thesis using r(1-4) by blast
qed


section \<open>Properties\<close>

text \<open>
  Property C2. Two connected partners converse through files: each exports and imports field data,
  \<open>Info\<close> objects and meshes in an agreed order, in both directions, any number of times and with any containers
  that keep the contract of an array. However their accesses to the file system interleave, no run
  blocks or goes on for ever, no call fails, and all runs end in the same way: every import has
  received exactly what the matching export sent (for a mesh: a part with the same nodes, elements and
  internal parts), both sides are still connected and no file is left
  over. Only that an identifier which one side exports is not exported by the other side is asked for.
\<close>

theorem conversation_arrives:
  assumes "linked s t" "usable K ok room" "clean w s" "\<forall>x \<in> set ts. good_message ok room s (message_of x)"
    and "\<forall>m m'. Forth m \<in> set ts \<longrightarrow> Back m' \<in> set ts \<longrightarrow> message_id m \<noteq> message_id m'"
  shows "\<exists>rs vs s' t'. every_run_ends (converse_with K ts s, converse_with K (map other_side ts) t, w)
       (Done (Inr rs, s'), Done (Inr vs, t'), w) \<and>
     list_all2 (took (received K)) ts rs \<and> list_all2 (took (received K)) (map other_side ts) vs \<and>
     mIsConnected s' \<and> mIsConnected t'"
proof -
  obtain rs vs s' t' where r: "list_all2 (took (received K)) ts rs" "list_all2 (took (received K)) (map other_side ts) vs"
    "party s t s'" "party s t t'"
    "leads (converse_with K ts s, converse_with K (map other_side ts) t, w) (Done (Inr rs, s'), Done (Inr vs, t'), w)"
    using converse_leads [OF assms] by blast
  have "mIsConnected c" if "party s t c" for c
    using that assms(1) same_comm_fields(9) by (auto simp: party_def linked_def)
  then show ?thesis using r every_runI [OF r(5)] by blast
qed

lemma usable_vectors: "usable vector_container (\<lambda>_. True) (\<lambda>_ _. True)"
proof -
  have l: "vector_size = (\<lambda>x :: dbl list. length x)" by (simp add: fun_eq_iff vector_size_def)
  have "array_container (\<lambda>xs :: dbl list. xs) vector_size (vector_resize 0) vector_put (\<lambda>_. True) (\<lambda>_ _. True)"
    by (rule vec.array_container_axioms)
  then show ?thesis unfolding l usable_def vector_container_def container.simps .
qed

definition sample_linked :: "string \<Rightarrow> string \<Rightarrow> bool \<Rightarrow> file_communication" where
  "sample_linked me other primary = (sample_comm me other primary)\<lparr>mIsConnected := True\<rparr>"

definition sample_id :: "string \<Rightarrow> info" where
  "sample_id n = [(''identifier'', (1, DString n))]"

definition sample_turns :: "dbl list message turn list" where
  "sample_turns = [Forth (Data (sample_id ''load'') (sample_id ''load'') [1, 2, 3] [0]),
     Back (Data (sample_id ''disp'') (sample_id ''disp'') [7] []),
     Forth (Settings (Info_Set 2 ''converged'' (DBool True) (sample_id ''ctrl'')) (sample_id ''ctrl'')),
     Forth (Data (sample_id ''load'') (sample_id ''load'') [] [5]),
     Forth (Mesh (sample_id ''mesh'') (sample_id ''mesh'') sample_mesh sample_part)]"

lemma sample_turns_good:
  "linked (sample_linked ''A'' ''B'' True) (sample_linked ''B'' ''A'' False)"
  "clean (fresh_folder (sample_comm ''A'' ''B'' True) sample_world) (sample_linked ''A'' ''B'' True)"
  "\<forall>x \<in> set sample_turns. good_message (\<lambda>_. True) (\<lambda>_ _. True) (sample_linked ''A'' ''B'' True) (message_of x)"
  "\<forall>m m'. Forth m \<in> set sample_turns \<longrightarrow> Back m' \<in> set sample_turns \<longrightarrow> message_id m \<noteq> message_id m'"
proof -
  show "linked (sample_linked ''A'' ''B'' True) (sample_linked ''B'' ''A'' False)"
    by (simp add: linked_def sample_linked_def sample_comm_def folder_ok_def slash_def)
  show "clean (fresh_folder (sample_comm ''A'' ''B'' True) sample_world) (sample_linked ''A'' ''B'' True)"
    using sample_clean by (auto simp: clean_def comm_dir_def place_def sample_linked_def)
  have n: "get_string (sample_id n) ''identifier'' = Inr n" for n
    by (simp add: sample_id_def get_string_def Info_Get_def Info_Has_def GetExistingKey_def GetDataTypeName_def bindR_def)
  have c: "get_string (Info_Set 2 ''converged'' (DBool True) (sample_id ''ctrl'')) ''identifier'' = Inr ''ctrl''"
    by (simp add: sample_id_def get_string_def Info_Get_def Info_Has_def GetExistingKey_def GetDataTypeName_def bindR_def Info_Set_def)
  have e: "CheckEntry x ''identifier'' = Inr ()" if "x \<in> {''load'', ''disp'', ''ctrl'', ''mesh''}" for x
    using that by (auto simp: CheckEntry_Inr disallowed_chars_def max_allowed_size_def)
  have m: "exportable P SERIALIZER_NO_TRACE sample_mesh" "level_target sample_part" for P
    using sample_mesh(1) new_ModelPart_target [OF sample_new] by (simp_all add: coordinates_print_def)
  show "\<forall>x \<in> set sample_turns. good_message (\<lambda>_. True) (\<lambda>_ _. True) (sample_linked ''A'' ''B'' True) (message_of x)"
    by (simp add: sample_turns_def good_message_def names_agree_def n c e m sample_linked_def sample_comm_def)
       (simp add: Info_Set_def sample_id_def info_wf_def smap_wf_def string_good_def)
  show "\<forall>m m'. Forth m \<in> set sample_turns \<longrightarrow> Back m' \<in> set sample_turns \<longrightarrow> message_id m \<noteq> message_id m'"
    by (auto simp: sample_turns_def message_id_def ident_def n c)
qed

theorem conversation_arrives_witness:
  "\<exists>rs vs s' t'. every_run_ends (converse_with vector_container sample_turns (sample_linked ''A'' ''B'' True),
       converse_with vector_container (map other_side sample_turns) (sample_linked ''B'' ''A'' False),
       fresh_folder (sample_comm ''A'' ''B'' True) sample_world)
       (Done (Inr rs, s'), Done (Inr vs, t'), fresh_folder (sample_comm ''A'' ''B'' True) sample_world) \<and>
     (\<exists>v. vs ! 0 = Inr v \<and> snd v = Values [1, 2, 3]) \<and> (\<exists>v. rs ! 1 = Inr v \<and> snd v = Values [7]) \<and>
     (\<exists>v p. vs ! 4 = Inr v \<and> snd v = Part p \<and> part_elements p = part_elements sample_mesh)"
proof -
  obtain rs vs s' t' where r: "every_run_ends (converse_with vector_container sample_turns (sample_linked ''A'' ''B'' True),
       converse_with vector_container (map other_side sample_turns) (sample_linked ''B'' ''A'' False),
       fresh_folder (sample_comm ''A'' ''B'' True) sample_world)
       (Done (Inr rs, s'), Done (Inr vs, t'), fresh_folder (sample_comm ''A'' ''B'' True) sample_world)"
    "list_all2 (took (received vector_container)) sample_turns rs"
    "list_all2 (took (received vector_container)) (map other_side sample_turns) vs"
    using conversation_arrives [OF sample_turns_good(1) usable_vectors sample_turns_good(2-4)] by blast
  have "took (received vector_container) (sample_turns ! 1) (rs ! 1)"
    "took (received vector_container) (map other_side sample_turns ! 0) (vs ! 0)"
    "took (received vector_container) (map other_side sample_turns ! 4) (vs ! 4)"
    using list_all2_nthD [OF r(2), of 1] list_all2_nthD [OF r(3), of 0] list_all2_nthD [OF r(3), of 4]
    by (simp_all add: sample_turns_def)
  then have "(\<exists>v. rs ! 1 = Inr v \<and> snd v = Values [7])" "(\<exists>v. vs ! 0 = Inr v \<and> snd v = Values [1, 2, 3])"
    "\<exists>v p. vs ! 4 = Inr v \<and> snd v = Part p \<and> part_elements p = part_elements sample_mesh"
    by (auto simp: sample_turns_def received_def vector_container_def dest: same_mesh_shows(2))
  then show ?thesis using r(1) by blast
qed

end
