(* ===== verification/ReadBack.thy ===== *)
theory ReadBack
  imports Exchanges
begin

text \<open>
  What happens when both sides export under the same identifier: the file of a message is named after
  the connection and the identifier, not after the side that sends, so a side can read its own message.
\<close>

lemma reaches_solo: "reaches (p, Done y, w) (p', Done y, w') \<Longrightarrow> reaches (p, q, w) (p', q, w')"
proof (induction "(p, Done y, w)" arbitrary: p w rule: converse_rtranclp_induct)
  case (step z)
  from step(1) show ?case
  proof (cases rule: steps_cases)
    case (left p1 w1)
    then show ?thesis
      using step(3) [OF left(1)] steps_left [OF left(2), of q] by (meson converse_rtranclp_into_rtranclp)
  qed simp
qed simp

lemma leads_solo:
  assumes "leads (p, Done (), w) (Done x, Done (), w')"
  shows "reaches (p, q, w) (Done x, q, w')"
proof -
  obtain u where u: "ends (p, Done (), w) u" using reaches_stuck [of "(p, Done (), w)"] by (auto simp: ends_def)
  then have "u = (Done x, Done (), w')" by (rule leads_Done [OF assms])
  then have "reaches (p, Done (), w) (Done x, Done (), w')" using u by (simp add: ends_def)
  then show ?thesis by (rule reaches_solo)
qed

lemma delivers_solo:
  assumes "delivers aux f tmp out p p' A" "slots_free aux f tmp w"
  shows "leads (p, Done (), w) (p', Done (), published aux f out w)"
proof -
  obtain r where r: "p = Wait (\<lambda>w. \<not> exists w f) r"
    "runs_to (\<lambda>v. access (Done ()) v = None) r p' w (published aux f out w)"
    using assms unfolding delivers_def by auto
  have "\<not> exists w f" using assms(2) by (simp add: slots_free_def free_path_exists)
  then show ?thesis using r by (intro go_blocked) simp
qed

lemma fetches_solo:
  fixes q q' :: "'b io"
  assumes "fetches aux f out q q' (Done () :: unit io)" "slots_free aux f tmp w"
  shows "leads (q, Done (), published aux f out w) (q', Done (), w)"
proof -
  have "leads (Done (), q, published aux f out w) (Done (), q', w)"
    using assms unfolding fetches_def slots_free_def by simp
  then show ?thesis by - (rule leads_flip, simp)
qed

lemma fetches_blocked: "fetches aux f out q q' p \<Longrightarrow> slots_free aux f tmp w \<Longrightarrow> access q w = None"
  by (auto simp: fetches_def slots_free_def marker_def free_path_def writable_def exists_def)

section \<open>A message read by its sender\<close>

lemma message_slot:
  assumes "linked s t" "clean w s" "good_message ok room s m"
  shows "slots_free (mUseAuxFileForFileAvailability s) (data_file s (message_id m)) (draft_name s (message_id m)) w"
proof -
  have "slash \<notin> set (message_id m)"
    using assms(3) by (cases m) (auto simp: good_message_def names_agree_def message_id_def ident_def dest: id_no_slash)
  then show ?thesis using assms(1,2) by (intro slots_clean) (simp_all add: linked_def)
qed

lemma sender_reads:
  fixes m :: "'c message"
  assumes "linked s t" "usable K ok room" "clean w s" "good_message ok room s m" "good_message ok room s d"
    and "message_id d = message_id m" "message_text s d = message_text s m" "import_message K d = import_message K m'"
  shows "\<exists>r v s'. leads (converse_with K [Forth m, Back m'] s, Done (), w) (Done (Inr [Inl r, Inr v], s'), Done (), w) \<and>
     received K d v"
proof -
  let ?f = "data_file s (message_id m)" and ?tmp = "draft_name s (message_id m)" and ?aux = "mUseAuxFileForFileAvailability s"
  let ?G = "\<lambda>r v. retP [Inl r, Inr v] :: ((info \<times> unit) + (info \<times> 'c cargo)) list file_prog"
  note l = linked_same [OF assms(1)] and f = message_slot [OF assms(1,3,4)]
  have "exports TYPE(((info \<times> unit) + (info \<times> 'c cargo)) list) s (message_id m) (message_text s m) s
      (waiting (slot_of (message_id m)) (export_message K m))"
    by (rule sends [OF assms(1) same_comm_refl assms(4)])
  then obtain r s1 where e: "same_comm s s1" "\<And>F :: info \<times> unit \<Rightarrow> ((info \<times> unit) + (info \<times> 'c cargo)) list file_prog.
      delivers ?aux ?f ?tmp (message_text s m) (bindP (waiting (slot_of (message_id m)) (export_message K m)) F s) (F r s1)
        {F r s' |r s'. same_comm s s'}"
    unfolding exports_def by blast
  have d: "good_message ok room t d" using assms(5) unfolding l(4) .
  have "imports_as TYPE(((info \<times> unit) + (info \<times> 'c cargo)) list) TYPE(unit) s (message_id d) (message_text t d)
      (received K d) s1 (import_message K d)"
    using receives_data [OF linked_sym [OF assms(1)] assms(2) e(1)] receives_info [OF linked_sym [OF assms(1)] e(1)]
      receives_mesh [OF linked_sym [OF assms(1)] e(1)] d
    by (cases d) simp_all
  then obtain v s2 where v: "received K d v"
    "\<And>G :: info \<times> 'c cargo \<Rightarrow> ((info \<times> unit) + (info \<times> 'c cargo)) list file_prog.
      fetches ?aux ?f (message_text s m) (bindP (import_message K m') G s1) (G v s2) (Done () :: unit io)"
    unfolding imports_as_def l(3) assms(6-8) by blast
  have two: "transfers.talk K [Forth m, Back m'] =
      bindP (waiting (slot_of (message_id m)) (export_message K m)) (\<lambda>r. bindP (import_message K m') (?G r))"
  proof -
    have r: "bindP (retP x) F = F x" for x and F :: "'x \<Rightarrow> 'd file_prog" by (simp add: fun_eq_iff ret_io)
    show ?thesis unfolding transfers.talk_def each.simps turn_io bindP_assoc r ..
  qed
  have "leads (bindP (waiting (slot_of (message_id m)) (export_message K m)) (\<lambda>r. bindP (import_message K m') (?G r)) s, Done (), w)
      (bindP (import_message K m') (?G r) s1, Done (), published ?aux ?f (message_text s m) w)"
    using e(2) [of "\<lambda>r. bindP (import_message K m') (?G r)"] f by (rule delivers_solo)
  also have "leads \<dots> (?G r v s2, Done (), w)" using v(2) f by (rule fetches_solo)
  finally have "leads (transfers.talk K [Forth m, Back m'] s, Done (), w) (Done (Inr [Inl r, Inr v], s2), Done (), w)"
    unfolding two by (simp add: retP_def)
  then have "leads (converse_with K [Forth m, Back m'] s, Done (), w) (Done (Inr [Inl r, Inr v], s2), Done (), w)"
    using untested_converse [of K "[Forth m, Back m']"] by (auto simp: untestedP_def intro: untested_leads)
  then show ?thesis using v(1) by blast
qed

lemma receiver_blocked:
  fixes m :: "'c message"
  assumes "linked s t" "usable K ok room" "clean w s" "good_message ok room s m"
  shows "access (converse_with K (Back m # ts) t) w = None"
proof -
  let ?H = "\<lambda>v. bindP (converse_with K ts) (\<lambda>rs. retP (Inr v # rs))"
  have "imports_as TYPE(((info \<times> unit) + (info \<times> 'c cargo)) list) TYPE(unit) t (message_id m) (message_text s m)
      (received K m) t (import_message K m)"
    using receives_data [OF assms(1,2) same_comm_refl] receives_info [OF assms(1) same_comm_refl]
      receives_mesh [OF assms(1) same_comm_refl] assms(4)
    by (cases m) simp_all
  then obtain v t' where "fetches (mUseAuxFileForFileAvailability s) (data_file s (message_id m)) (message_text s m)
      (bindP (import_message K m) ?H t) (?H v t') (Done () :: unit io)"
    unfolding imports_as_def linked_same [OF assms(1)] by blast
  then have "access (bindP (import_message K m) ?H t) w = None"
    using message_slot [OF assms(1,3,4)] by (rule fetches_blocked)
  moreover have "converse_with K (Back m # ts) = bindP (import_message K m) ?H"
    unfolding converse_with_def each.simps turn_io ..
  ultimately show ?thesis by simp
qed

section \<open>Properties\<close>

text \<open>
  Property C16. The first partner exports field data and then imports; the second one, in the agreed order, imports and
  then exports; and both directions use one and the same identifier. There is a run in which the import of the first
  partner reads back and removes its own message, and the second one waits in its import for ever for that
  message, which was there: the exchange ends blocked.
\<close>

theorem own_export_read_back:
  fixes K :: "'c container"
  assumes "linked s t" "usable K ok room" "clean w s" "good_message ok room s (Data i j xs x0)"
    and "good_message ok room s (Data i' j' ys y0)" "ident i = ident i'" "room (length xs) y0"
  shows "\<exists>r v s'. ends
     (converse_with K [Forth (Data i j xs x0), Back (Data i' j' ys y0)] s,
      converse_with K [Back (Data i j xs x0), Forth (Data i' j' ys y0)] t, w)
     (Done (Inr [Inl r, Inr v], s'),
      converse_with K [Back (Data i j xs x0), Forth (Data i' j' ys y0)] t, w) \<and>
     (\<exists>x. snd v = Values x \<and> k_elems K x = xs)"
proof -
  let ?m = "Data i j xs x0" and ?m' = "Data i' j' ys y0" and ?d = "Data i j' xs y0"
  let ?B = "converse_with K [Back ?m, Forth ?m'] t"
  have d: "good_message ok room s ?d" "message_id ?d = message_id ?m" "message_text s ?d = message_text s ?m"
    "import_message K ?d = import_message K ?m'"
    using assms(4-7) by (auto simp: good_message_def names_agree_def ident_def message_id_def message_text_def import_message_def)
  obtain r v s' where A: "leads (converse_with K [Forth ?m, Back ?m'] s, Done (), w) (Done (Inr [Inl r, Inr v], s'), Done (), w)"
    "received K ?d v"
    using sender_reads [OF assms(1-4) d] by blast
  have "access ?B w = None" by (rule receiver_blocked [OF assms(1-4)])
  then have "ends (converse_with K [Forth ?m, Back ?m'] s, ?B, w) (Done (Inr [Inl r, Inr v], s'), ?B, w)"
    using leads_solo [OF A(1), of ?B] by (simp add: ends_def stuck_def)
  moreover obtain x where "snd v = Values x" "k_elems K x = xs" using A(2) by (auto simp: received_def)
  ultimately show ?thesis
    by (intro exI [of _ r] exI [of _ v] exI [of _ s'] conjI exI [of _ x])
qed

theorem own_export_read_back_witness:
  "\<exists>r v s'. ends
     (converse_with vector_container [Forth (Data (sample_id ''x'') (sample_id ''x'') [1] []),
        Back (Data (sample_id ''x'') (sample_id ''x'') [2] [])] (sample_linked ''A'' ''B'' True),
      converse_with vector_container [Back (Data (sample_id ''x'') (sample_id ''x'') [1] []),
        Forth (Data (sample_id ''x'') (sample_id ''x'') [2] [])] (sample_linked ''B'' ''A'' False),
      fresh_folder (sample_comm ''A'' ''B'' True) sample_world)
     (Done (Inr [Inl r, Inr v], s'),
      converse_with vector_container [Back (Data (sample_id ''x'') (sample_id ''x'') [1] []),
        Forth (Data (sample_id ''x'') (sample_id ''x'') [2] [])] (sample_linked ''B'' ''A'' False),
      fresh_folder (sample_comm ''A'' ''B'' True) sample_world) \<and>
     snd v = Values [1]"
proof -
  have "get_string (sample_id ''x'') ''identifier'' = Inr ''x''"
    by (simp add: sample_id_def get_string_def Info_Get_def Info_Has_def GetExistingKey_def GetDataTypeName_def bindR_def)
  then have "good_message (\<lambda>_. True) (\<lambda>_ _. True) (sample_linked ''A'' ''B'' True) (Data (sample_id ''x'') (sample_id ''x'') [y] [])" for y
    by (simp add: good_message_def names_agree_def CheckEntry_Inr disallowed_chars_def max_allowed_size_def sample_linked_def sample_comm_def)
  from own_export_read_back [OF sample_turns_good(1) usable_vectors sample_turns_good(2) this this refl TrueI]
  show ?thesis by (simp add: vector_container_def)
qed

end
