(* ===== verification/ConnectionLaws.thy ===== *)
theory ConnectionLaws
  imports Connections ConnectProtocol
begin

text \<open>
  What the table of connections guarantees: calls for one connection leave the others alone, calls for
  an unknown one fail without an effect, names are taken for good by a call of \<open>Connect\<close>, and only
  allowed functions are ever registered.
\<close>

section \<open>What a program can return\<close>

text \<open>\<open>returns Q p\<close>: whatever \<open>p\<close> finds in the shared state, what it returns satisfies \<open>Q\<close>.\<close>

primrec returns :: "('a \<Rightarrow> bool) \<Rightarrow> 'a io \<Rightarrow> bool" where
  "returns Q (Done x) = Q x"
| "returns Q (Act u k) = (\<forall>w. returns Q (k w))"
| "returns Q (Wait c p) = returns Q p"

lemma returns_bindI: "returns Q p \<Longrightarrow> (\<And>x. Q x \<Longrightarrow> returns R (f x)) \<Longrightarrow> returns R (bindI p f)"
  by (induction p) simp_all

lemma returns_mono: "returns Q p \<Longrightarrow> (\<And>x. Q x \<Longrightarrow> R x) \<Longrightarrow> returns R p"
  by (induction p) simp_all

lemma returns_True: "returns (\<lambda>_. True) p"
  by (induction p) simp_all

text \<open>
  \<open>gives I V m\<close>: from a state with \<open>I\<close>, \<open>m\<close> comes to states with \<open>I\<close>, also when it throws, and a value
  that it returns satisfies \<open>V\<close>.
\<close>

definition gives :: "('s \<Rightarrow> bool) \<Rightarrow> ('a \<Rightarrow> bool) \<Rightarrow> ('s, 'a) prog \<Rightarrow> bool" where
  "gives I V m \<longleftrightarrow> (\<forall>s. I s \<longrightarrow> returns (\<lambda>(r, s'). I s' \<and> (\<forall>x. r = Inr x \<longrightarrow> V x)) (m s))"

abbreviation keeps :: "('s \<Rightarrow> bool) \<Rightarrow> ('s, 'a) prog \<Rightarrow> bool" where
  "keeps I m \<equiv> gives I (\<lambda>_. True) m"

lemma keeps_simps [simp]:
  "keeps I (retP x)" "keeps I (throwP e)" "keeps I (liftP r)" "keeps I (getP g)" "keeps I (actP u h)" "keeps I (checkP b e)"
  by (simp_all add: gives_def prog_defs)

lemma gives_bind:
  assumes "gives I V m" "\<And>x. V x \<Longrightarrow> gives I W (f x)"
  shows "gives I W (bindP m f)"
  using assms unfolding gives_def bindP_def
  by (auto intro!: returns_bindI [where Q = "\<lambda>(r, s'). I s' \<and> (\<forall>x. r = Inr x \<longrightarrow> V x)"] split: sum.split)

lemma keeps_bind: "keeps I m \<Longrightarrow> (\<And>x. gives I W (f x)) \<Longrightarrow> gives I W (bindP m f)"
  by (rule gives_bind)

lemma keeps_then: "keeps I m \<Longrightarrow> gives I W n \<Longrightarrow> gives I W (thenP m n)"
  unfolding thenP_def by (rule keeps_bind)

lemma keeps_lift: "(\<And>x. r = Inr x \<Longrightarrow> gives I W (f x)) \<Longrightarrow> gives I W (bindP (liftP r) f)"
  by (cases r) (auto simp: gives_def bindP_def liftP_def)

lemma gives_ret: "V x \<Longrightarrow> gives I V (retP x)"
  by (simp add: gives_def retP_def)

lemma keeps_mod: "(\<And>s. I s \<Longrightarrow> I (g s)) \<Longrightarrow> keeps I (modP g)"
  by (simp add: gives_def modP_def)

lemma keeps_when: "(b \<Longrightarrow> keeps I m) \<Longrightarrow> keeps I (whenP b m)"
  by (simp add: whenP_def)

lemma keeps_local: "(\<And>s. I s \<Longrightarrow> I (snd (m s))) \<Longrightarrow> keeps I (localP m)"
  by (auto simp: gives_def localP_def split_beta)

section \<open>The table\<close>

lemma map_of_replace:
  "map_of (List.map (\<lambda>p. if fst p = k then (k, v) else p) t) k' =
     (if k' = k then map_option (\<lambda>_. v) (map_of t k) else map_of t k')"
  by (induction t) auto

lemma map_of_table_set: "map_of (table_set k v t) = (map_of t)(k \<mapsto> v)"
proof
  fix k'
  show "map_of (table_set k v t) k' = ((map_of t)(k \<mapsto> v)) k'"
  proof (cases "map_of t k")
    case None
    then have "k \<notin> fst ` set t" by (simp add: map_of_eq_None_iff)
    then show ?thesis using None by (simp add: table_set_def map_add_def split: option.split)
  next
    case (Some y)
    then have "k \<in> fst ` set t" using weak_map_of_SomeI map_of_SomeD by force
    then show ?thesis using Some by (simp add: table_set_def map_of_replace)
  qed
qed

lemma keys_table_set: "fst ` set (table_set k v t) = insert k (fst ` set t)"
  using arg_cong [OF map_of_table_set, of dom k v t] by (simp add: dom_map_of_conv_image_fst)

lemma distinct_table_set: "distinct (List.map fst t) \<Longrightarrow> distinct (List.map fst (table_set k v t))"
proof -
  have e: "List.map fst (List.map (\<lambda>p. if fst p = k then (k, v) else p) t) = List.map fst t"
    by (induction t) auto
  show "distinct (List.map fst t) \<Longrightarrow> ?thesis" unfolding table_set_def by (simp add: e del: map_map)
qed

lemma has_put: "HasConnection k (put_connection k' c L) \<longleftrightarrow> k = k' \<or> HasConnection k L"
  by (simp add: HasConnection_def put_connection_def keys_table_set)

lemma has_map_of: "HasConnection k L \<longleftrightarrow> map_of (s_co_sim_connections L) k \<noteq> None"
  by (simp add: HasConnection_def map_of_eq_None_iff)

lemma keeps_on_comm:
  assumes "\<And>L c s. I L \<Longrightarrow> map_of (s_co_sim_connections L) k = Some (Some c) \<Longrightarrow>
      I (put_connection k (Some (c\<lparr>mpComm := s\<rparr>)) (L\<lparr>l_heap := c_heap s\<rparr>))"
  shows "keeps I (on_comm k m)"
  unfolding gives_def on_comm_def GetConnection_def
  by (auto intro!: returns_bindI [OF returns_True] assms split: option.split)

lemma keeps_on_connection:
  assumes "\<And>L c r c'. I L \<Longrightarrow> map_of (s_co_sim_connections L) k = Some (Some c) \<Longrightarrow> m c = (r, c') \<Longrightarrow>
      I (put_connection k (Some c') L)"
  shows "keeps I (on_connection k m)"
  unfolding gives_def on_connection_def GetConnection_def
  by (auto intro!: assms split: option.split prod.split)


section \<open>The calls of the library\<close>

datatype ('c, 'f) api_call =
    CallConnect info
  | CallDisconnect info
  | CallImportInfo info
  | CallExportInfo info
  | CallImportData info 'c
  | CallExportData info "dbl list"
  | CallImportMesh info model_part
  | CallExportMesh info model_part
  | CallRegister info 'f

definition discarded :: "('s, 'a) prog \<Rightarrow> ('s, unit) prog" where
  "discarded m = bindP m (\<lambda>_. retP ())"

primrec api :: "('x communication_scheme, 'c) transfers \<Rightarrow> bool \<Rightarrow> 'x communication_scheme create_fcts \<Rightarrow>
    ('c, 'f) api_call \<Rightarrow> (('x, 'f) library, unit) prog" where
  "api T lhs fcts (CallConnect i) = discarded (Connect T lhs fcts i)"
| "api T lhs fcts (CallDisconnect i) = discarded (Disconnect T i)"
| "api T lhs fcts (CallImportInfo i) = discarded (ImportInfo T i)"
| "api T lhs fcts (CallExportInfo i) = discarded (ExportInfo T i)"
| "api T lhs fcts (CallImportData i x) = discarded (ImportData T i x)"
| "api T lhs fcts (CallExportData i xs) = discarded (ExportData T i xs)"
| "api T lhs fcts (CallImportMesh i p) = discarded (ImportMesh T i p)"
| "api T lhs fcts (CallExportMesh i p) = discarded (ExportMesh T i p)"
| "api T lhs fcts (CallRegister i f) = discarded (Register_function i f)"

text \<open>The connection that a call is for.\<close>

definition connect_name :: "info \<Rightarrow> error + string" where
  "connect_name i = bindR (get_string i ''my_name'') (\<lambda>a. bindR (get_string i ''connect_to'') (\<lambda>b.
     Inr (CreateConnectionName a b)))"

primrec target :: "('c, 'f) api_call \<Rightarrow> error + string" where
  "target (CallConnect i) = connect_name i"
| "target (CallDisconnect i) = get_string i ''connection_name''"
| "target (CallImportInfo i) = get_string i ''connection_name''"
| "target (CallExportInfo i) = get_string i ''connection_name''"
| "target (CallImportData i x) = get_string i ''connection_name''"
| "target (CallExportData i xs) = get_string i ''connection_name''"
| "target (CallImportMesh i p) = get_string i ''connection_name''"
| "target (CallExportMesh i p) = get_string i ''connection_name''"
| "target (CallRegister i f) = get_string i ''connection_name''"

text \<open>What calls for the connection \<open>k\<close> do to the table.\<close>

definition stable :: "string \<Rightarrow> (('x, 'f) library \<Rightarrow> bool) \<Rightarrow> bool" where
  "stable k I \<longleftrightarrow>
     (\<forall>L c s. I L \<longrightarrow> map_of (s_co_sim_connections L) k = Some (Some c) \<longrightarrow>
        I (put_connection k (Some (c\<lparr>mpComm := s\<rparr>)) (L\<lparr>l_heap := c_heap s\<rparr>))) \<and>
     (\<forall>L c f n. I L \<longrightarrow> map_of (s_co_sim_connections L) k = Some (Some c) \<longrightarrow> n \<in> set allowed_names \<longrightarrow>
        n \<notin> fst ` set (mRegisteredFunctions c) \<longrightarrow>
        I (put_connection k (Some (c\<lparr>mRegisteredFunctions := table_set n f (mRegisteredFunctions c)\<rparr>)) L)) \<and>
     (\<forall>L c. I L \<longrightarrow> (c = None \<or> (\<exists>d. c = Some d \<and> mRegisteredFunctions d = [])) \<longrightarrow> I (put_connection k c L)) \<and>
     (\<forall>L. I L \<longrightarrow> I (RemoveConnection k L)) \<and> (\<forall>L h. I L \<longrightarrow> I (L\<lparr>l_heap := h\<rparr>))"

lemma stableD:
  assumes "stable k I"
  shows "I L \<Longrightarrow> map_of (s_co_sim_connections L) k = Some (Some c) \<Longrightarrow>
      I (put_connection k (Some (c\<lparr>mpComm := s\<rparr>)) (L\<lparr>l_heap := c_heap s\<rparr>))"
    "I L \<Longrightarrow> map_of (s_co_sim_connections L) k = Some (Some c) \<Longrightarrow> n \<in> set allowed_names \<Longrightarrow>
      n \<notin> fst ` set (mRegisteredFunctions c) \<Longrightarrow>
      I (put_connection k (Some (c\<lparr>mRegisteredFunctions := table_set n f (mRegisteredFunctions c)\<rparr>)) L)"
    "I L \<Longrightarrow> I (put_connection k None L)"
    "I L \<Longrightarrow> mRegisteredFunctions c = [] \<Longrightarrow> I (put_connection k (Some c) L)"
    "I L \<Longrightarrow> I (RemoveConnection k L)" "I L \<Longrightarrow> I (L\<lparr>l_heap := h\<rparr>)"
  using assms by (simp_all add: stable_def)

lemma stable_comm: "stable k I \<Longrightarrow> keeps I (on_comm k m)"
  by (rule keeps_on_comm) (simp add: stable_def)

lemma stable_named: "(\<And>k. get_string i ''connection_name'' = Inr k \<Longrightarrow> keeps I (m k)) \<Longrightarrow> keeps I (named i m)"
  unfolding named_def by (rule keeps_lift)

lemma stable_register:
  assumes "stable k I"
  shows "keeps I (on_connection k (Connection_Register n f))"
proof (rule keeps_on_connection)
  fix L c r c'
  assume L: "I L" "map_of (s_co_sim_connections L) k = Some (Some c)" and m: "Connection_Register n f c = (r, c')"
  have "I ((put_connection k (Some (c\<lparr>mpComm := mpComm c\<rparr>)) (L\<lparr>l_heap := c_heap (mpComm c)\<rparr>))\<lparr>l_heap := l_heap L\<rparr>)"
    by (rule stableD(6) [OF assms stableD(1) [OF assms L]])
  then have same: "I (put_connection k (Some c) L)" by (simp add: put_connection_def)
  have "c' = c \<or> (c' = c\<lparr>mRegisteredFunctions := table_set n f (mRegisteredFunctions c)\<rparr> \<and> n \<in> set allowed_names \<and>
      n \<notin> fst ` set (mRegisteredFunctions c))"
    using m by (auto simp: Connection_Register_def CheckIfNameIsValid_def cpp_defs split: if_splits)
  then show "I (put_connection k (Some c') L)"
    using same stableD(2) [OF assms L, of n f] by auto
qed

lemma stable_new_Connection:
  assumes "stable k I"
  shows "gives I (\<lambda>c. mRegisteredFunctions c = []) (new_Connection fcts mpi i)"
  unfolding new_Connection_def using stableD(6) [OF assms]
  by (auto intro!: keeps_bind keeps_local gives_ret)

lemma stable_connect_steps:
  assumes "stable k I"
  shows "keeps I (bindP (getP (HasConnection k)) (\<lambda>has. thenP (checkP has e)
      (thenP (whenP lhs (modP (put_connection k None)))
      (bindP (new_Connection fcts mpi i) (\<lambda>c. thenP (modP (put_connection k (Some c))) (on_comm k m))))))"
proof (rule keeps_bind, simp, rule keeps_then, simp, rule keeps_then)
  show "keeps I (whenP lhs (modP (put_connection k None)))"
    by (intro keeps_when keeps_mod stableD(3) [OF assms])
  show "keeps I (bindP (new_Connection fcts mpi i) (\<lambda>c. thenP (modP (put_connection k (Some c))) (on_comm k m)))"
    by (intro gives_bind [OF stable_new_Connection [OF assms]] keeps_then keeps_mod stableD(4) [OF assms] stable_comm [OF assms])
qed

lemma stable_Connect:
  assumes "\<And>k. connect_name i = Inr k \<Longrightarrow> stable k I"
  shows "keeps I (Connect T lhs fcts i)"
  unfolding Connect_def ConnectImpl_def Let_def
proof (rule keeps_lift, rule keeps_lift, rule keeps_then, simp, rule keeps_then, simp, rule keeps_then, simp)
  fix a b
  assume "get_string i ''my_name'' = Inr a" "get_string i ''connect_to'' = Inr b"
  then have "stable (CreateConnectionName a b) I" using assms by (simp add: connect_name_def bindR_def)
  then show "keeps I (bindP (getP (HasConnection (CreateConnectionName a b))) (\<lambda>has.
      thenP (checkP has (co_error (''A connection from '' @ dq a @ '' to '' @ dq b @ ''already exists!'')))
      (thenP (whenP lhs (modP (put_connection (CreateConnectionName a b) None)))
      (bindP (new_Connection fcts False i) (\<lambda>c.
      thenP (modP (put_connection (CreateConnectionName a b) (Some c)))
      (on_comm (CreateConnectionName a b) (bindP (Connection_Connect T i) (\<lambda>info.
        localP (set_entries [(''connection_name'', DString (CreateConnectionName a b))] info)))))))))"
    by (rule stable_connect_steps)
qed

lemma stable_api:
  assumes "\<And>k. target c = Inr k \<Longrightarrow> stable k I"
  shows "keeps I (api T lhs fcts c)"
proof (cases c)
  case (CallConnect i)
  then show ?thesis using assms by (auto simp: discarded_def intro!: keeps_bind stable_Connect)
next
  case (CallDisconnect i)
  have "keeps I (Disconnect T i)"
    unfolding Disconnect_def
  proof (rule stable_named)
    fix k assume "get_string i ''connection_name'' = Inr k"
    then have s: "stable k I" using assms CallDisconnect by simp
    show "keeps I (bindP (getP (HasConnection k)) (\<lambda>has. thenP (checkP (\<not> has) (co_error (''Trying to disconnect connection '' @ dq k @
       '' which does not exist!''))) (bindP (on_comm k (Connection_Disconnect T i)) (\<lambda>info.
       thenP (modP (RemoveConnection k)) (retP info)))))"
      by (rule keeps_bind, simp, rule keeps_then, simp, rule keeps_bind, rule stable_comm [OF s],
          rule keeps_then, rule keeps_mod, erule stableD(5) [OF s], simp)
  qed
  then show ?thesis using CallDisconnect by (auto simp: discarded_def intro!: keeps_bind)
next
  case (CallRegister i f)
  have "keeps I (Register_function i f)"
    unfolding Register_function_def
  proof (rule stable_named, rule keeps_lift)
    fix k n assume "get_string i ''connection_name'' = Inr k"
    then have "stable k I" using assms CallRegister by simp
    then show "keeps I (on_connection k (Connection_Register n f))" by (rule stable_register)
  qed
  then show ?thesis using CallRegister by (auto simp: discarded_def intro!: keeps_bind)
qed (use assms in \<open>auto simp: discarded_def ImportInfo_def ExportInfo_def ImportData_def ExportData_def
    ImportMesh_def ExportMesh_def intro!: keeps_bind stable_named stable_comm\<close>)

lemma stable_Run:
  assumes "\<And>k. get_string i ''connection_name'' = Inr k \<Longrightarrow> stable k I" "\<And>f st. keeps I (env f st)"
  shows "keeps I (Run n T env i)"
  unfolding Run_def
proof (rule stable_named)
  fix k assume "get_string i ''connection_name'' = Inr k"
  then have s: "stable k I" by (rule assms(1))
  have t: "keeps I (on_connection k (getE mRegisteredFunctions))"
  proof (rule keeps_on_connection)
    fix L c r c' assume L: "I L" "map_of (s_co_sim_connections L) k = Some (Some c)" "getE mRegisteredFunctions c = (r, c')"
    have "I ((put_connection k (Some (c\<lparr>mpComm := mpComm c\<rparr>)) (L\<lparr>l_heap := c_heap (mpComm c)\<rparr>))\<lparr>l_heap := l_heap L\<rparr>)"
      by (rule stableD(6) [OF s stableD(1) [OF s L(1,2)]])
    then show "I (put_connection k (Some c') L)" using L(3) by (simp add: put_connection_def getE_def)
  qed
  have r: "keeps I (run_round T env k ctrl)" for ctrl
    unfolding run_round_def
    by (rule keeps_bind, simp, rule keeps_then, simp, rule keeps_bind, rule stable_comm [OF s], rule keeps_bind, simp,
        rule keeps_then, simp) (auto intro!: keeps_bind keeps_then t assms(2) split: option.split)
  have "keeps I (run_rounds n T env k ctrl)" for n ctrl
    by (induction n) (auto intro!: keeps_bind r)
  then show "keeps I (bindP (on_comm k (localP (new_info [(''identifier'', DString ''run_control'')]))) (run_rounds n T env k))"
    by (auto intro!: keeps_bind stable_comm [OF s])
qed

section \<open>Properties\<close>

text \<open>
  What is always true of the table: every name is there once, and every function that is registered
  for a connection has one of the allowed names and was registered once.
\<close>

definition functions_ok :: "(string \<times> 'f) list \<Rightarrow> bool" where
  "functions_ok t \<longleftrightarrow> distinct (List.map fst t) \<and> fst ` set t \<subseteq> set allowed_names"

definition registry_ok :: "('x, 'f) library \<Rightarrow> bool" where
  "registry_ok L \<longleftrightarrow> distinct (List.map fst (s_co_sim_connections L)) \<and>
     (\<forall>k c. map_of (s_co_sim_connections L) k = Some (Some c) \<longrightarrow> functions_ok (mRegisteredFunctions c))"

lemma functions_ok_set:
  "functions_ok []" "functions_ok t \<Longrightarrow> n \<in> set allowed_names \<Longrightarrow> functions_ok (table_set n f t)"
  by (simp_all add: functions_ok_def distinct_table_set keys_table_set)

lemma registry_ok_put:
  assumes "registry_ok L" "\<And>d. c = Some d \<Longrightarrow> functions_ok (mRegisteredFunctions d)"
  shows "registry_ok (put_connection k c L)"
  using assms by (simp add: registry_ok_def put_connection_def map_of_table_set distinct_table_set)

lemma registry_ok_stable: "stable k registry_ok"
proof -
  have f: "registry_ok L \<Longrightarrow> map_of (s_co_sim_connections L) k = Some (Some c) \<Longrightarrow> functions_ok (mRegisteredFunctions c)" for L c
    by (simp add: registry_ok_def)
  have h: "registry_ok L \<Longrightarrow> registry_ok (L\<lparr>l_heap := h\<rparr>)" for L h by (simp add: registry_ok_def)
  have r: "registry_ok L \<Longrightarrow> registry_ok (RemoveConnection k L)" for L
    by (auto simp: registry_ok_def RemoveConnection_def distinct_map inj_on_def map_of_filter)
  show ?thesis
    unfolding stable_def using f h r by (auto intro!: registry_ok_put functions_ok_set)
qed


text \<open>
  Property C24. The table of connections is well-formed after every sequence of calls of the library:
  each name occurs once and the functions registered for a connection have allowed names, each once.
  This holds after calls that fail as well, whatever the communications and the other process do, and
  during \<open>Run\<close>, whose callbacks may call the library themselves.
\<close>

theorem registry_typed:
  "keeps registry_ok (api T lhs fcts c) \<and>
   ((\<forall>f st. keeps registry_ok (env f st)) \<longrightarrow> keeps registry_ok (Run n T env i))"
  using stable_api [OF registry_ok_stable] stable_Run [OF registry_ok_stable] by blast

theorem registry_typed_witness:
  "keeps registry_ok (Run 3 (file_transfers vector_container)
     (\<lambda>f st. ExportData (file_transfers vector_container) f [1, 2]) [(''connection_name'', (1, DString ''A_B''))])"
proof -
  have "keeps registry_ok (ExportData T f xs)" for T f xs
    unfolding ExportData_def by (intro stable_named stable_comm registry_ok_stable)
  then show ?thesis
    using registry_typed [of "file_transfers vector_container" True "[]" _
        "\<lambda>f st. ExportData (file_transfers vector_container) f [1, 2]" 3] by blast
qed

text \<open>
  Property C25. A call for one connection leaves every other connection as it is: its communication,
  its registered functions and whether it is there, also when the call throws.
\<close>

theorem connections_isolated:
  fixes x :: "('x, 'f) connection option option"
  assumes "target c \<noteq> Inr k"
  shows "keeps (\<lambda>L. map_of (s_co_sim_connections L) k = x) (api T lhs fcts c)"
proof (rule stable_api)
  fix k' assume "target c = Inr k'"
  then have "k \<noteq> k'" using assms by auto
  moreover from this have "map_of (List.filter (\<lambda>p. fst p \<noteq> k') t) k = map_of t k" for t :: "(string \<times> ('x, 'f) connection option) list"
    by (induction t) auto
  ultimately show "stable k' (\<lambda>L. map_of (s_co_sim_connections L) k = x)"
    by (auto simp: stable_def put_connection_def map_of_table_set RemoveConnection_def)
qed


theorem connections_isolated_witness:
  "keeps (\<lambda>L. map_of (s_co_sim_connections L) ''C_D'' = None)
     (api (file_transfers vector_container) True [] (CallExportInfo [(''connection_name'', (1, DString ''A_B''))] :: (dbl list, nat) api_call))"
  by (rule connections_isolated)
     (simp add: get_string_def Info_Get_def Info_Has_def GetExistingKey_def GetDataTypeName_def bindR_def)

text \<open>
  Property C26. A call for a connection that is not in the table, or without a name, ends at once with an
  error of the library: nothing is changed and no file is touched.
\<close>

theorem unknown_connection_refused:
  fixes L :: "('x, 'f) library" and c :: "('c, 'f) api_call"
  assumes "\<not> (\<exists>i. c = CallConnect i)" "\<forall>k. target c = Inr k \<longrightarrow> \<not> HasConnection k L"
  shows "\<exists>x. api T lhs fcts c L = Done (Inl x, L)"
proof -
  have g: "HasConnection k L \<or> (\<exists>x. GetConnection k L = Inl x)" for k
    by (auto simp: GetConnection_def has_map_of split: option.split)
  have n: "\<exists>x. named i m L = Done (Inl x, L)"
    if "\<forall>k. get_string i ''connection_name'' = Inr k \<longrightarrow> (\<exists>x. m k L = Done (Inl x, L))" for i and m :: "string \<Rightarrow> (('x, 'f) library, 'y) prog"
    using that by (cases "get_string i ''connection_name''") (auto simp: named_def bindP_def liftP_def)
  have d: "\<exists>x. discarded m L = Done (Inl x, L)" if "\<exists>x. m L = Done (Inl x, L)" for m :: "(('x, 'f) library, 'y) prog"
    using that by (auto simp: discarded_def bindP_def)
  have o: "\<exists>x. on_comm k m L = Done (Inl x, L)" if "\<not> HasConnection k L" for k and m :: "('x communication_scheme, 'y) prog"
    using g [of k] that by (auto simp: on_comm_def)
  have r: "\<exists>x. bindP (liftP y) (\<lambda>n. on_connection k (m n)) L = Done (Inl x, L)"
    if "\<not> HasConnection k L" for k y and m :: "string \<Rightarrow> (('x, 'f) connection, 'z) cpp"
    using g [of k] that by (cases y) (auto simp: bindP_def liftP_def on_connection_def)
  have u: "\<exists>x. bindP (getP (HasConnection k)) (\<lambda>has. thenP (checkP (\<not> has) (e k)) (m k)) L = Done (Inl x, L)"
    if "\<not> HasConnection k L" for k e and m :: "string \<Rightarrow> (('x, 'f) library, 'y) prog"
    using that by (simp add: prog_defs)
  show ?thesis
    using assms
    by (cases c)
       (auto simp: ImportInfo_def ExportInfo_def ImportData_def ExportData_def ImportMesh_def ExportMesh_def
         Disconnect_def Register_function_def intro!: d n o r u)
qed

theorem unknown_connection_refused_witness:
  "\<exists>x. api (file_transfers vector_container) True [] (CallExportInfo [(''connection_name'', (1, DString ''A_B''))] :: (dbl list, nat) api_call)
     \<lparr>s_co_sim_connections = [], l_heap = 1\<rparr> = Done (Inl x, \<lparr>s_co_sim_connections = [], l_heap = 1\<rparr>)"
  by (rule unknown_connection_refused) (simp_all add: HasConnection_def)

lemma returns_bindP:
  assumes "returns (\<lambda>(r, s). case r of Inl e \<Rightarrow> Q (Inl e, s) | Inr x \<Rightarrow> returns Q (f x s)) (m s)"
  shows "returns Q (bindP m f s)"
  unfolding bindP_def by (rule returns_bindI [OF assms]) (auto split: sum.splits)

lemma connect_refused:
  assumes "get_string j ''my_name'' = Inr a" "get_string j ''connect_to'' = Inr b" "HasConnection (CreateConnectionName a b) L"
  shows "\<exists>x. Connect T lhs fcts j L = Done (Inl x, L)"
  using assms
  by (auto simp: Connect_def ConnectImpl_def Let_def prog_defs split: sum.split)

text \<open>
  How a call of \<open>Connect\<close> can leave the table: the constructor of the connection has thrown, and only
  a null entry may have been made; or the name is in the table.
\<close>

definition not_created :: "((path \<Rightarrow> bool) \<Rightarrow> addr \<Rightarrow> info \<Rightarrow> error + 's) \<Rightarrow> info \<Rightarrow> bool \<Rightarrow> string \<Rightarrow> ('x, 'f) library \<Rightarrow>
    (error + info) \<times> ('x, 'f) library \<Rightarrow> bool" where
  "not_created create i lhs k L x \<longleftrightarrow> (\<exists>ex h e. create ex h i = Inl e \<and>
     x = (Inl e, if lhs then put_connection k None L else L))"

lemma connect_holds_name:
  fixes L :: "('x, 'f) library"
  assumes "get_string i ''my_name'' = Inr a" "get_string i ''connect_to'' = Inr b"
    and "CheckEntry a ''my_name'' = Inr ()" "CheckEntry b ''connect_to'' = Inr ()" "a \<noteq> b"
    and "get_string i ''communication_format'' = Inr fmt" "map_of fcts fmt = Some create"
  shows "returns (\<lambda>x. not_created create i lhs (CreateConnectionName a b) L x \<or> HasConnection (CreateConnectionName a b) (snd x))
     (Connect T lhs fcts i L)"
proof (cases "HasConnection (CreateConnectionName a b) L")
  case True
  then show ?thesis using connect_refused [OF assms(1,2) True, of T lhs fcts] by auto
next
  case False
  let ?k = "CreateConnectionName a b" and ?I = "HasConnection (CreateConnectionName a b)"
  let ?L = "if lhs then put_connection ?k None L else L"
  let ?Q = "\<lambda>x. not_created create i lhs ?k L x \<or> ?I (snd x)"
  have put: "returns ?Q (thenP (modP (put_connection ?k (Some c))) (on_comm ?k m) L')"
    for c and m :: "('x communication_scheme, info) prog" and L' :: "('x, 'f) library"
  proof -
    have "keeps ?I (on_comm ?k m)" by (rule keeps_on_comm) (simp add: has_put)
    moreover have "?I (put_connection ?k (Some c) L')" by (simp add: has_put)
    ultimately have "returns (\<lambda>(r, L'). ?I L' \<and> (\<forall>x. r = Inr x \<longrightarrow> True)) (on_comm ?k m (put_connection ?k (Some c) L'))"
      unfolding gives_def by blast
    then have "returns ?Q (on_comm ?k m (put_connection ?k (Some c) L'))" by (rule returns_mono) auto
    then show ?thesis by (simp add: prog_defs)
  qed
  have h: "Info_Has i ''communication_format''"
    using assms(6) by (auto simp: get_string_def Info_Get_def split: if_splits)
  have cr: "Create fcts mpi ex hp i = create ex hp i" for mpi ex hp
    using assms(6,7) by (simp add: Create_def)
  have new: "returns ?Q (bindP (new_Connection fcts mpi i) (\<lambda>c. thenP (modP (put_connection ?k (Some c))) (on_comm ?k m)) ?L)"
    for mpi and m :: "('x communication_scheme, info) prog"
    unfolding new_Connection_def bindP_assoc
    using h assms(1,2,6) put
    by (auto simp: Info_copy_def local_io lift_fun get_io act_io ret_io cr not_created_def split: sum.split)
  show ?thesis
    unfolding Connect_def ConnectImpl_def Let_def assms(1-4) lift_fun thenP_def get_io
    using False assms(5) new [unfolded thenP_def] by (cases lhs) (simp_all add: check_io prog_defs)
qed

lemma CreateConnectionName_commute: "CreateConnectionName a b = CreateConnectionName b a"
  by (auto simp: CreateConnectionName_def)

lemma disconnect_frees:
  fixes L :: "('x, 'f) library"
  assumes "get_string d ''connection_name'' = Inr k"
  shows "returns (\<lambda>(r, L'). r \<in> range Inr \<longrightarrow> \<not> HasConnection k L') (Disconnect T d L)"
proof -
  have "\<not> HasConnection k (RemoveConnection k L')" for L' :: "('x, 'f) library"
    by (auto simp: HasConnection_def RemoveConnection_def)
  then have "returns (\<lambda>(r, L'). r \<in> range Inr \<longrightarrow> \<not> HasConnection k L')
      (bindP (on_comm k m) (\<lambda>info. thenP (modP (RemoveConnection k)) (retP info)) L')"
    for m :: "('x communication_scheme, 'y) prog" and L' :: "('x, 'f) library"
    unfolding bindP_def [of "on_comm k m"]
    by (intro returns_bindI [OF returns_True]) (auto simp: prog_defs split: sum.split)
  then show ?thesis
    unfolding Disconnect_def named_def assms lift_fun thenP_def get_io check_io by (auto simp: thenP_def)
qed

text \<open>
  Property C23. \<open>Connect\<close> takes the name of the connection, and keeps it when it fails while it is
  connecting: unless the communication itself could not be created - then the error is the one of its
  constructor and the table is as it was, or has a null entry when the left side of the assignment is
  evaluated first - every \<open>Connect\<close> for the two names, in either order, is refused from then on with an
  error and without an effect. \<open>Disconnect\<close>, when it returns, has freed the name.
\<close>

theorem connect_takes_name:
  fixes L :: "('x, 'f) library"
  assumes "get_string i ''my_name'' = Inr a" "get_string i ''connect_to'' = Inr b"
    and "CheckEntry a ''my_name'' = Inr ()" "CheckEntry b ''connect_to'' = Inr ()" "a \<noteq> b"
    and "get_string i ''communication_format'' = Inr fmt" "map_of fcts fmt = Some create"
    and "get_string d ''connection_name'' = Inr (CreateConnectionName b a)"
  shows "returns (\<lambda>(r, L'). not_created create i lhs (CreateConnectionName a b) L (r, L') \<or>
       (\<forall>j. connect_name j \<in> {Inr (CreateConnectionName a b), Inr (CreateConnectionName b a)} \<longrightarrow>
         (\<exists>x. Connect T lhs fcts j L' = Done (Inl x, L')))) (Connect T lhs fcts i L) \<and>
     returns (\<lambda>(r, L'). r \<in> range Inr \<longrightarrow> \<not> HasConnection (CreateConnectionName a b) L') (Disconnect T d L)"
proof
  have r: "connect_name j = Inr k \<Longrightarrow> HasConnection k L' \<Longrightarrow> \<exists>x. Connect T lhs fcts j L' = Done (Inl x, L')" for j k L'
    using connect_refused by (auto simp: connect_name_def bindR_def split: sum.splits)
  show "returns (\<lambda>(r, L'). not_created create i lhs (CreateConnectionName a b) L (r, L') \<or>
       (\<forall>j. connect_name j \<in> {Inr (CreateConnectionName a b), Inr (CreateConnectionName b a)} \<longrightarrow>
         (\<exists>x. Connect T lhs fcts j L' = Done (Inl x, L')))) (Connect T lhs fcts i L)"
    by (rule returns_mono [OF connect_holds_name [OF assms(1-7)]]) (use r CreateConnectionName_commute [of b a] in auto)
qed (rule disconnect_frees, simp add: assms(8) CreateConnectionName_commute [of b a])

text \<open>With the library's own function for \<open>file\<close>, only a missing working directory keeps it from being created here.\<close>

theorem connect_takes_name_witness:
  "let T = file_transfers vector_container; fcts = GetCommunicationCreateFunctions sample_machine 0 1 [];
       L = \<lparr>s_co_sim_connections = [] :: (string \<times> (_, nat) connection option) list, l_heap = 4\<rparr> in
     returns (\<lambda>(r, L'). r = Inl (co_error (''The working directory '' @ dq ''.'' @ '' does not exist!'')) \<and> L' = L \<or>
       (\<forall>j. connect_name j \<in> {Inr ''A_B''} \<longrightarrow> (\<exists>x. Connect T False fcts j L' = Done (Inl x, L'))))
       (Connect T False fcts [(''communication_format'', (3, DString ''file'')), (''connect_to'', (1, DString ''B'')),
          (''my_name'', (2, DString ''A''))] L)"
proof -
  have n: "CreateConnectionName ''A'' ''B'' = ''A_B''" "CreateConnectionName ''B'' ''A'' = ''A_B''"
    by (simp_all add: CreateConnectionName_def)
  let ?i = "[(''communication_format'', (3 :: addr, DString ''file'')), (''connect_to'', (1, DString ''B'')), (''my_name'', (2, DString ''A''))]"
  let ?fcts = "GetCommunicationCreateFunctions sample_machine 0 1 []"
  let ?create = "\<lambda>ex h. new_FileCommunication ex sample_machine h 0 1"
  have g: "get_string ?i ''my_name'' = Inr ''A''" "get_string ?i ''connect_to'' = Inr ''B''"
    "get_string ?i ''communication_format'' = Inr ''file''"
    by (simp_all add: get_string_def Info_Get_def Info_Has_def GetExistingKey_def GetDataTypeName_def bindR_def)
  have c: "CheckEntry ''A'' ''my_name'' = Inr ()" "CheckEntry ''B'' ''connect_to'' = Inr ()" "''A'' \<noteq> ''B''"
    by (simp_all add: CheckEntry_Inr disallowed_chars_def max_allowed_size_def)
  have d: "get_string [(''connection_name'', (1, DString ''A_B''))] ''connection_name'' = Inr (CreateConnectionName ''B'' ''A'')"
    by (simp add: n get_string_def Info_Get_def Info_Has_def GetExistingKey_def GetDataTypeName_def bindR_def)
  have m: "map_of ?fcts ''file'' = Some ?create" by (simp add: GetCommunicationCreateFunctions_def)
  have defaults: "get_bool_default ?i ''always_use_serializer'' x = Inr x" "get_string_default ?i ''working_directory'' y = Inr y"
    "get_int_default ?i ''echo_level'' z = Inr z" "get_bool_default ?i ''print_timing'' x = Inr x"
    "primary_of ?i ''A'' ''B'' = Inr (''A'' < ''B'', False)" "trace_type_of ?i = Inr SERIALIZER_NO_TRACE"
    "get_bool_default ?i ''use_folder_for_communication'' x = Inr x"
    "get_bool_default ?i ''use_aux_file_for_file_availability'' x = Inr x" "get_bool_default ?i ''use_file_serializer'' x = Inr x" for x y z
    by (simp_all add: get_bool_default_def get_string_default_def get_int_default_def primary_of_def trace_type_of_def
        Info_Get_default_def Info_Has_def)
  have e: "e = co_error (''The working directory '' @ dq ''.'' @ '' does not exist!'')" if "?create ex h ?i = Inl e" for ex h e
    using that unfolding new_FileCommunication_def new_Communication_def g
    by (auto simp: defaults bindR_eq_Inl split: if_splits)
  show ?thesis
    unfolding Let_def
    by (rule returns_mono [OF connect_takes_name [OF g(1,2) c g(3) m d, unfolded n insert_absorb2, THEN conjunct1]])
      (use e in \<open>auto simp: not_created_def\<close>)
qed

end
