(* ===== verification/Streams.thy ===== *)
theory Streams
  imports SyncProtocol
begin

text \<open>
  Byte streams between two programs, as sockets provide them: a writer appends bytes as long as the
  system has room for them and waits otherwise, a reader takes them out in order and waits for them. An
  operation on several bytes is no single access: the partner may run between any two bytes. The main
  result is that a writer and a reader of the same bytes bring each other to the end of both, in
  every interleaving and for every room.
\<close>

section \<open>Writing and reading\<close>

definition push :: "path \<Rightarrow> string \<Rightarrow> world \<Rightarrow> world" where
  "push p cs w = w\<lparr>streams := (streams w)(p := streams w p @ cs)\<rparr>"

definition pop :: "path \<Rightarrow> nat \<Rightarrow> world \<Rightarrow> world" where
  "pop p n w = w\<lparr>streams := (streams w)(p := drop n (streams w p))\<rparr>"

definition close_stream :: "path \<Rightarrow> world \<Rightarrow> world" where
  "close_stream p w = w\<lparr>closed := (closed w)(p := True)\<rparr>"

text \<open>\<open>asio::system_error\<close>, which \<open>CO_SIM_IO_CATCH\<close> turns into an error of the library.\<close>

definition stream_error :: error where
  "stream_error = CoSimError ''Error: system_error''"

text \<open>
  One packet: some bytes that are written at once when there is room for all of them, and that fail
  when the other end is closed; and a reader that takes at most \<open>n\<close> bytes of what is there, nothing
  at the end of a closed stream.
\<close>

definition room_for :: "path \<Rightarrow> nat \<Rightarrow> string \<Rightarrow> world \<Rightarrow> bool" where
  "room_for p room cs w \<longleftrightarrow> length (streams w p) + length cs \<le> room \<or> closed w p"

definition written :: "path \<Rightarrow> string \<Rightarrow> world \<Rightarrow> world" where
  "written p cs w = (if closed w p then w else push p cs w)"

definition something_in :: "path \<Rightarrow> world \<Rightarrow> bool" where
  "something_in p w \<longleftrightarrow> streams w p \<noteq> [] \<or> closed w p"

definition write_packet :: "error \<Rightarrow> path \<Rightarrow> nat \<Rightarrow> string \<Rightarrow> ('s, unit) prog" where
  "write_packet e p room cs = thenP (waitP (room_for p room cs))
     (actP (written p cs) (\<lambda>w. if closed w p then Inl e else Inr ()))"

definition read_packet :: "path \<Rightarrow> nat \<Rightarrow> ('s, string) prog" where
  "read_packet p n = thenP (waitP (something_in p)) (actP (pop p n) (\<lambda>w. Inr (take n (streams w p))))"

text \<open>
  \<open>asio::write\<close> returns when all bytes are written, \<open>asio::read\<close> when as many as asked for have been
  read; both throw when the other end is closed, \<open>asio::read\<close> after what was written before.
\<close>

fun write_bytes :: "error \<Rightarrow> path \<Rightarrow> nat \<Rightarrow> string \<Rightarrow> ('s, unit) prog" where
  "write_bytes e p room [] = retP ()"
| "write_bytes e p room (c # cs) = thenP (write_packet e p room [c]) (write_bytes e p room cs)"

abbreviation write_stream :: "path \<Rightarrow> nat \<Rightarrow> string \<Rightarrow> ('s, unit) prog" where
  "write_stream \<equiv> write_bytes stream_error"

fun read_stream :: "path \<Rightarrow> nat \<Rightarrow> ('s, string) prog" where
  "read_stream p 0 = retP []"
| "read_stream p (Suc n) = bindP (read_packet p 1) (\<lambda>c. thenP (checkP (c = []) stream_error)
     (bindP (read_stream p n) (\<lambda>cs. retP (c @ cs))))"

lemma push_simps [simp]:
  "streams (push p cs w) q = (if q = p then streams w p @ cs else streams w q)"
  "closed (push p cs w) = closed w" "listening (push p cs w) = listening w" "files (push p cs w) = files w" "dirs (push p cs w) = dirs w"
  by (simp_all add: push_def)

lemma pop_simps [simp]:
  "streams (pop p n w) q = (if q = p then drop n (streams w p) else streams w q)"
  "closed (pop p n w) = closed w" "listening (pop p n w) = listening w" "files (pop p n w) = files w" "dirs (pop p n w) = dirs w"
  by (simp_all add: pop_def)

lemma pop_push: "streams w p = [] \<Longrightarrow> pop p (length cs) (push p cs w) = w"
  by (rule world_files_eq) (auto simp: fun_eq_iff)

lemma pop_commute: "pop p n (pop q m w) = pop q m (pop p n w)"
  by (rule world_files_eq) (auto simp: fun_eq_iff add.commute)

lemma pop_push_commute: "n \<le> length (streams w p) \<Longrightarrow> pop p n (push q cs w) = push q cs (pop p n w)"
  by (auto intro!: world_files_eq simp: fun_eq_iff)

section \<open>Bytes that a program writes or reads\<close>

inductive packs :: "path \<Rightarrow> nat \<Rightarrow> string list \<Rightarrow> 'a io \<Rightarrow> 'a io \<Rightarrow> bool" where
  packs_nil: "packs p room [] x x"
| packs_cons: "(\<And>w. \<not> closed w p \<Longrightarrow> k w = y) \<Longrightarrow> packs p room cs y z \<Longrightarrow>
     packs p room (c # cs) (Wait (room_for p room c) (Act (written p c) k)) z"

inductive unpacks :: "path \<Rightarrow> string list \<Rightarrow> 'a io \<Rightarrow> 'a io \<Rightarrow> bool" where
  unpacks_nil: "unpacks p [] x x"
| unpacks_cons: "(\<And>w. take (length c) (streams w p) = c \<Longrightarrow> k w = y) \<Longrightarrow> unpacks p cs y z \<Longrightarrow>
     unpacks p (c # cs) (Wait (something_in p) (Act (pop p (length c)) k)) z"

inductive_cases packs_consE: "packs p room (c # cs) x z"
inductive_cases unpacks_consE: "unpacks p (c # cs) x z"
inductive_cases packs_nilE: "packs p room [] x z"
inductive_cases unpacks_nilE: "unpacks p [] x z"

lemma packs_append: "packs p room a x y \<Longrightarrow> packs p room b y z \<Longrightarrow> packs p room (a @ b) x z"
proof (induction rule: packs.induct)
  case (packs_cons p k y room cs z c)
  show ?case unfolding append_Cons by (rule packs.packs_cons) (use packs_cons in auto)
qed simp

lemma unpacks_append: "unpacks p a x y \<Longrightarrow> unpacks p b y z \<Longrightarrow> unpacks p (a @ b) x z"
proof (induction rule: unpacks.induct)
  case (unpacks_cons c p k y cs z)
  show ?case unfolding append_Cons by (rule unpacks.unpacks_cons) (use unpacks_cons in auto)
qed simp

lemma packet_io:
  "bindP (write_packet e p room cs) F s = Wait (room_for p room cs)
     (Act (written p cs) (\<lambda>w. if closed w p then Done (Inl e, s) else F () s))"
  "bindP (read_packet p n) G s = Wait (something_in p) (Act (pop p n) (\<lambda>w. G (take n (streams w p)) s))"
  unfolding write_packet_def read_packet_def thenP_def bindP_assoc wait_io act_io
  by (rule arg_cong2 [where f = Wait, OF refl], rule arg_cong2 [where f = Act, OF refl], simp add: fun_eq_iff)+

lemma packs_packet: "packs p room [cs] (bindP (write_packet e p room cs) F s) (F () s)"
  unfolding packet_io by (rule packs_cons [OF _ packs_nil]) simp

lemma unpacks_packet: "unpacks p [cs] (bindP (read_packet p (length cs)) G s) (G cs s)"
  unfolding packet_io by (rule unpacks_cons [OF _ unpacks_nil]) simp

abbreviation singles :: "string \<Rightarrow> string list" where
  "singles cs \<equiv> map (\<lambda>c. [c]) cs"

lemma puts_write: "packs p room (singles cs) (bindP (write_bytes e p room cs) F s) (F () s)"
proof (induction cs)
  case (Cons c cs)
  then show ?case
    using packs_append [OF packs_packet [where F = "\<lambda>_. bindP (write_bytes e p room cs) F"] Cons] by (simp add: thenP_def bindP_assoc)
qed (simp add: prog_io packs_nil)

lemma gets_read: "unpacks p (singles cs) (bindP (read_stream p (length cs)) F s) (F cs s)"
proof (induction cs arbitrary: F)
  case (Cons c cs)
  have r: "bindP (retP x) F = F x" for x by (simp add: fun_eq_iff ret_io)
  have one: "unpacks p [[c]] (bindP (read_stream p (length (c # cs))) F s) (bindP (read_stream p (length cs)) (\<lambda>cs. F (c # cs)) s)"
    using unpacks_packet [of p "[c]" "\<lambda>x. bindP (checkP (x = []) stream_error) (\<lambda>_. bindP (read_stream p (length cs)) (\<lambda>cs. F (x @ cs)))" s]
    unfolding list.size add_Suc_right add_0_right read_stream.simps thenP_def bindP_assoc r One_nat_def by (simp add: check_io)
  then show ?case using unpacks_append [OF one Cons [of "\<lambda>cs. F (c # cs)"]] by (simp del: read_stream.simps)
qed (simp add: prog_io unpacks_nil)

section \<open>Programs that a reader does not disturb\<close>

text \<open>
  \<open>steady p Q x\<close>: taking bytes out of the stream \<open>p\<close> that are in it makes no difference to \<open>x\<close>, and what \<open>x\<close>
  returns satisfies \<open>Q\<close>.
\<close>

primrec steady :: "path \<Rightarrow> ('a \<Rightarrow> bool) \<Rightarrow> 'a io \<Rightarrow> bool" where
  "steady p Q (Done x) = Q x"
| "steady p Q (Act v k) = (\<forall>w. (\<exists>e. streams (v w) p = streams w p @ e) \<and> steady p Q (k w) \<and>
     (\<forall>n \<le> length (streams w p). pop p n (v w) = v (pop p n w) \<and> k (pop p n w) = k w))"
| "steady p Q (Wait d x) = ((\<forall>w. \<forall>n \<le> length (streams w p). d w \<longrightarrow> d (pop p n w)) \<and> steady p Q x)"

lemma steady_bindI:
  assumes "steady p Q x" "\<And>r. Q r \<Longrightarrow> steady p R (f r)"
  shows "steady p R (bindI x f)"
  using assms(1) by (induction x) (simp_all add: assms(2))

lemma begins: "take (length c) xs = c \<Longrightarrow> length c \<le> length xs"
  by (metis length_take min.cobounded1 min_def)

lemma begins_append: "take (length c) xs = c \<Longrightarrow> take (length c) (xs @ e) = c"
  using begins [of c xs] by simp

lemma steady_indep:
  "steady p Q x \<Longrightarrow> indep (\<lambda>w. take (length c) (streams w p) = c) (pop p (length c)) x"
  "steady p Q x \<Longrightarrow> indep (\<lambda>w. take (length c) (streams w p) = c) (\<lambda>w. w) x"
proof (induction x)
  case (Act v k)
  have t: "take (length c) (streams (v w) p) = c" "length c \<le> length (streams w p)"
    if "steady p Q (Act v k)" "take (length c) (streams w p) = c" for w
  proof -
    obtain e where "streams (v w) p = streams w p @ e" using \<open>steady p Q (Act v k)\<close> by auto
    then show "take (length c) (streams (v w) p) = c" using begins_append [OF that(2)] by simp
    show "length c \<le> length (streams w p)" by (rule begins [OF that(2)])
  qed
  {
    case 1
    then show ?case using Act(1) [OF rangeI] t [OF 1] by simp
  next
    case 2
    then show ?case using Act(2) [OF rangeI] t [OF 2] by simp
  }
next
  case (Wait d x)
  {
    case 1
    then show ?case using Wait(1) begins [of c] by simp
  next
    case 2
    then show ?case using Wait(2) by simp
  }
qed simp_all

definition steadyP :: "path \<Rightarrow> ('s \<Rightarrow> bool) \<Rightarrow> ('s, 'a) prog \<Rightarrow> bool" where
  "steadyP p I m \<longleftrightarrow> (\<forall>s. I s \<longrightarrow> steady p (\<lambda>(r, s'). I s') (m s))"

named_theorems steady_intros \<open>programs that a reader does not disturb\<close>

lemma steadyP_simps [steady_intros]:
  "steadyP p I (retP x)" "steadyP p I (throwP e)" "steadyP p I (liftP r)" "steadyP p I (getP g)"
  by (simp_all add: steadyP_def prog_defs)

lemma steadyP_local: "(\<And>s. I s \<Longrightarrow> I (snd (m s))) \<Longrightarrow> steadyP p I (localP m)"
  by (auto simp: steadyP_def localP_def split_beta)

lemma steadyP_mod: "(\<And>s. I s \<Longrightarrow> I (g s)) \<Longrightarrow> steadyP p I (modP g)"
  by (simp add: steadyP_def modP_def)

lemma steadyP_bind [steady_intros]:
  assumes "steadyP p I m" "\<And>x. steadyP p I (f x)"
  shows "steadyP p I (bindP m f)"
  using assms unfolding steadyP_def bindP_def
  by (auto intro!: steady_bindI [where Q = "\<lambda>(r, s'). I s'"] split: sum.split)

lemma steadyP_then [steady_intros]: "steadyP p I m \<Longrightarrow> steadyP p I n \<Longrightarrow> steadyP p I (thenP m n)"
  unfolding thenP_def by (intro steadyP_bind)

lemma steadyP_if [steady_intros]:
  "steadyP p I m \<Longrightarrow> steadyP p I n \<Longrightarrow> steadyP p I (if b then m else n)"
  by simp

lemma steadyP_prod [steady_intros]:
  "(\<And>a b. steadyP p I (f a b)) \<Longrightarrow> steadyP p I (case x of (a, b) \<Rightarrow> f a b)"
  by (simp add: split_beta)

lemma steadyP_packet [steady_intros]: "steadyP p I (write_packet e q room cs)"
  unfolding write_packet_def
  by (intro steady_intros)
     (auto simp: steadyP_def waitP_def actP_def pop_push_commute room_for_def written_def)

lemma steadyP_take [steady_intros]: "q \<noteq> p \<Longrightarrow> steadyP p I (read_packet q n)"
  unfolding read_packet_def
  by (intro steady_intros) (auto simp: steadyP_def waitP_def actP_def pop_commute something_in_def)

lemma steadyP_check [steady_intros]: "steadyP p I (checkP b e)"
  unfolding checkP_def whenP_def by (intro steady_intros)

lemma steadyP_write [steady_intros]: "steadyP p I (write_bytes e q room cs)"
  by (induction cs) (auto intro!: steady_intros)

lemma steadyP_read [steady_intros]: "q \<noteq> p \<Longrightarrow> steadyP p I (read_stream q n)"
  by (induction n) (auto intro!: steady_intros)

section \<open>Meeting over a stream\<close>

lemma steady_put:
  assumes "steady p Q (Wait d (Act v k))" "\<And>w. \<not> closed w p \<Longrightarrow> k w = y"
  shows "steady p Q y"
proof -
  let ?w = "\<lparr>files = \<lambda>_. None, dirs = \<lambda>_. False, streams = \<lambda>_. [], closed = \<lambda>_. False, listening = \<lambda>_. False\<rparr>"
  have "steady p Q (k ?w)" using assms(1) by simp
  then show ?thesis using assms(2) [of ?w] by simp
qed

lemma exchange:
  assumes "packs p room cs x x'" "unpacks p cs y y'" "steady p Q x" "streams w p = []" "\<not> closed w p"
    and "\<forall>c \<in> set cs. c \<noteq> [] \<and> length c \<le> room"
  shows "leads (x, y, w) (x', y', w) \<and> steady p Q x'"
  using assms(1-3,6)
proof (induction cs arbitrary: x y)
  case Nil
  then show ?case by (auto elim!: packs_nilE unpacks_nilE intro: leads_refl)
next
  case (Cons c cs)
  obtain k x1 where x: "x = Wait (room_for p room c) (Act (written p c) k)" "\<And>w. \<not> closed w p \<Longrightarrow> k w = x1" "packs p room cs x1 x'"
    using Cons.prems(1) by (auto elim!: packs_consE)
  obtain l y1 where y: "y = Wait (something_in p) (Act (pop p (length c)) l)"
    "\<And>w. take (length c) (streams w p) = c \<Longrightarrow> l w = y1" "unpacks p cs y1 y'"
    using Cons.prems(2) by (auto elim!: unpacks_consE)
  let ?v = "push p c w" and ?c = "\<lambda>w. take (length c) (streams w p) = c"
  have c: "c \<noteq> []" "length c \<le> room" using Cons.prems(4) by simp_all
  have st: "steady p Q x1" using steady_put [OF Cons.prems(3) [unfolded x(1)] x(2)] .
  have v: "streams ?v p = c" "pop p (length c) ?v = w" using assms(4) by (simp_all add: pop_push)
  have "leads (x, y, w) (Act (written p c) k, y, w)"
    using assms(4,5) c(2) by (intro go_left) (simp_all add: x(1) y(1) room_for_def something_in_def)
  also have "leads (Act (written p c) k, y, w) (x1, y, ?v)"
    using assms(4,5) x(2) by (intro go_left) (simp_all add: y(1) written_def something_in_def)
  also have "leads (x1, y, ?v) (x1, Act (pop p (length c)) l, ?v)"
    using v(1) c(1) steady_indep(2) [OF st] by (intro go_ahead_right [where c = ?c]) (auto simp: y(1) something_in_def)
  also have "leads (x1, Act (pop p (length c)) l, ?v) (x1, y1, pop p (length c) ?v)"
    using v(1) y(2) steady_indep(1) [OF st] by (intro go_ahead_right [where c = ?c]) auto
  finally have "leads (x, y, w) (x1, y1, w)" unfolding v(2) .
  then show ?case using Cons.IH [OF x(3) y(3) st] Cons.prems(4) leads_trans by (simp, blast)
qed

definition quiet :: "path \<Rightarrow> world \<Rightarrow> bool" where
  "quiet p w \<longleftrightarrow> streams w p = [] \<and> \<not> closed w p"

section \<open>Two writers\<close>

text \<open>
  \<open>writing p n x w\<close>: the program \<open>x\<close> has still packets to write, more than the stream has room for.
\<close>

definition writing :: "path \<Rightarrow> nat \<Rightarrow> 'a io \<Rightarrow> world \<Rightarrow> bool" where
  "writing p n x w \<longleftrightarrow> \<not> closed w p \<and> (\<exists>r x'. n < length (streams w p) + length (concat r) \<and> length (streams w p) \<le> n \<and>
     (packs p n r x x' \<or> (\<exists>c cs k y. r = c # cs \<and> length (streams w p) + length c \<le> n \<and>
        x = Act (written p c) k \<and> (\<forall>w. \<not> closed w p \<longrightarrow> k w = y) \<and> packs p n cs y x')))"

lemma writing_start: "quiet p w \<Longrightarrow> packs p n out x x' \<Longrightarrow> n < length (concat out) \<Longrightarrow> writing p n x w"
  unfolding writing_def quiet_def by (intro conjI exI [of _ out] exI [of _ x'] disjI1) simp_all

lemma writing_not_done: "\<not> writing p n (Done v) w"
  unfolding writing_def by (auto elim: packs.cases)

lemma writing_step:
  assumes "writing p n x w" "access x w = Some (x', w')"
  shows "writing p n x' w' \<and> (\<forall>q. q \<noteq> p \<longrightarrow> streams w' q = streams w q) \<and> closed w' = closed w"
proof -
  obtain r z where w: "\<not> closed w p" "n < length (streams w p) + length (concat r)" "length (streams w p) \<le> n"
    and r: "packs p n r x z \<or> (\<exists>c cs k y. r = c # cs \<and> length (streams w p) + length c \<le> n \<and>
        x = Act (written p c) k \<and> (\<forall>w. \<not> closed w p \<longrightarrow> k w = y) \<and> packs p n cs y z)"
    using assms(1) unfolding writing_def by blast
  have "r \<noteq> []" using w(2,3) by auto
  then obtain c cs where c: "r = c # cs" by (cases r) auto
  from r consider (wait) "packs p n r x z"
    | (act) k y where "length (streams w p) + length c \<le> n" "x = Act (written p c) k"
      "\<forall>w. \<not> closed w p \<longrightarrow> k w = y" "packs p n cs y z"
    using c by auto
  then show ?thesis
  proof cases
    case wait
    then obtain k y where k: "x = Wait (room_for p n c) (Act (written p c) k)" "\<And>w. \<not> closed w p \<Longrightarrow> k w = y" "packs p n cs y z"
      unfolding c by (rule packs_consE) auto
    have s: "length (streams w p) + length c \<le> n" "x' = Act (written p c) k" "w' = w"
      using assms(2) w(1) by (auto simp: k(1) room_for_def split: if_splits)
    have "\<exists>c' cs' l y'. r = c' # cs' \<and> length (streams w p) + length c' \<le> n \<and>
        x' = Act (written p c') l \<and> (\<forall>w. \<not> closed w p \<longrightarrow> l w = y') \<and> packs p n cs' y' z"
      using c s(1,2) k(2,3) by (intro exI [of _ c] exI [of _ cs] exI [of _ k] exI [of _ y]) simp
    then show ?thesis
      unfolding writing_def s(3) using w by blast
  next
    case act
    then have "x' = y" "w' = push p c w" using assms(2) w(1) by (auto simp: written_def)
    then show ?thesis
      unfolding writing_def using w c act(1,4) by (auto intro!: exI [of _ cs])
  qed
qed

lemma writing_frame:
  "writing p n x w \<Longrightarrow> streams w' p = streams w p \<Longrightarrow> closed w' = closed w \<Longrightarrow> writing p n x w'"
  unfolding writing_def by simp

lemma two_writers:
  assumes "writing p n x w" "writing q m y w" "p \<noteq> q" "ends (x, y, w) (x', y', w')"
  shows "writing p n x' w' \<and> writing q m y' w'"
proof -
  have "reaches (x, y, w) (x', y', w')" using assms(4) by (simp add: ends_def)
  then show ?thesis
    using assms(1,2)
  proof (induction "(x, y, w)" arbitrary: x y w rule: converse_rtranclp_induct)
    case (step z)
    from step(1) show ?case
    proof (cases rule: steps_cases)
      case (left x1 w1)
      then show ?thesis
        using writing_step [OF step(4) left(2)] writing_frame [OF step(5)] assms(3) step(3) by auto
    next
      case (right y1 w1)
      then show ?thesis
        using writing_step [OF step(5) right(2)] writing_frame [OF step(4)] assms(3) step(3) by auto
    qed
  qed simp
qed

end
