(* ===== verification/StreamChannel.thy ===== *)
theory StreamChannel
  imports Streams Conversation
begin

text \<open>
  A channel of byte streams between two programs, one stream for each direction: the two programs take
  turns in sending and receiving in an agreed order, and every message arrives, in every interleaving.
  A message is a list of packets; each must have room in the stream.
\<close>

locale stream_channel =
  fixes send :: "'m \<Rightarrow> ('s, 'r) prog" and recv :: "'m \<Rightarrow> ('s, 'v) prog"
    and text_of :: "'m \<Rightarrow> string list" and side :: "path \<Rightarrow> path \<Rightarrow> nat \<Rightarrow> 's \<Rightarrow> bool"
    and good :: "'m \<Rightarrow> bool" and got :: "'m \<Rightarrow> 'v \<Rightarrow> bool"
  assumes send: "side p q n s \<Longrightarrow> good m \<Longrightarrow> \<exists>r s'. side p q n s' \<and>
      (\<forall>F. packs p n (text_of m) (bindP (send m) F s :: ((error + ('r + 'v) list) \<times> 's) io) (F r s'))"
    and recv: "side p q n t \<Longrightarrow> good m \<Longrightarrow> \<exists>v t'. side p q n t' \<and> got m v \<and>
      (\<forall>G. unpacks q (text_of m) (bindP (recv m) G t :: ((error + ('r + 'v) list) \<times> 's) io) (G v t'))"
    and fits: "side p q n s \<Longrightarrow> good m \<Longrightarrow> \<forall>c \<in> set (text_of m). c \<noteq> [] \<and> length c \<le> n"
    and send_steady: "good m \<Longrightarrow> p \<noteq> q \<Longrightarrow> steadyP p (side p q n) (send m)"
    and recv_steady: "good m \<Longrightarrow> p \<noteq> q \<Longrightarrow> steadyP p (side p q n) (recv m)"
begin

abbreviation talk :: "'m turn list \<Rightarrow> ('s, ('r + 'v) list) prog" where
  "talk ts \<equiv> each (take_turn send recv) ts"

lemma talk_io:
  "bindP (talk []) F s = F [] s"
  "bindP (talk (Forth m # ts)) F s = bindP (send m) (\<lambda>r. bindP (talk ts) (\<lambda>rs. F (Inl r # rs))) s"
  "bindP (talk (Back m # ts)) F s = bindP (recv m) (\<lambda>v. bindP (talk ts) (\<lambda>rs. F (Inr v # rs))) s"
  unfolding each_io turn_io by (rule refl)+

lemma steady_talk:
  assumes "p \<noteq> q" "\<forall>x \<in> set ts. good (message_of x)"
  shows "steadyP p (side p q n) (talk ts)"
  using assms(2)
proof (induction ts)
  case (Cons t ts)
  have "steadyP p (side p q n) (take_turn send recv t)"
    using send_steady [OF _ assms(1)] recv_steady [OF _ assms(1)] Cons.prems
    by (cases t) (auto intro!: steady_intros)
  then show ?case using Cons by (auto intro!: steady_intros)
qed (simp add: steadyP_simps)

text \<open>What follows a message on the side \<open>side p q n\<close>.\<close>

definition calm :: "path \<Rightarrow> path \<Rightarrow> nat \<Rightarrow> ('b \<Rightarrow> ('s, ('r + 'v) list) prog) \<Rightarrow> bool" where
  "calm p q n F \<longleftrightarrow> (\<forall>r s. side p q n s \<longrightarrow> steady p (\<lambda>_. True) (F r s))"

lemma calm_talk: "p \<noteq> q \<Longrightarrow> \<forall>x \<in> set ts. good (message_of x) \<Longrightarrow> calm p q n F \<Longrightarrow> calm p q n (\<lambda>r. bindP (talk ts) (\<lambda>rs. F (f r rs)))"
  using steady_talk [of p q ts n] unfolding calm_def steadyP_def bindP_def
  by (auto intro!: steady_bindI [where Q = "\<lambda>(r, s'). side p q n s'"] split: sum.split)

lemma calm_send: "good m \<Longrightarrow> p \<noteq> q \<Longrightarrow> calm p q n F \<Longrightarrow> side p q n s \<Longrightarrow> steady p (\<lambda>_. True) (bindP (send m) F s)"
  using send_steady [of m p q n] unfolding calm_def steadyP_def bindP_def
  by (auto intro!: steady_bindI [where Q = "\<lambda>(r, s'). side p q n s'"] split: sum.split)

lemma other_message: "message_of (other_side t) = message_of t"
  by (cases t) auto

lemma one_turn:
  assumes "side p q n s" "side q p n' t" "good m" "p \<noteq> q" "quiet p w" "calm p q n F"
  shows "\<exists>r v s' t'. side p q n s' \<and> side q p n' t' \<and> got m v \<and>
     leads (bindP (send m) F s, bindP (recv m) G t :: ((error + ('r + 'v) list) \<times> 's) io, w) (F r s', G v t', w)"
proof -
  obtain r s' where r: "side p q n s'" "packs p n (text_of m) (bindP (send m) F s) (F r s')"
    using send [OF assms(1,3)] by auto
  obtain v t' where v: "side q p n' t'" "got m v" "unpacks p (text_of m) (bindP (recv m) G t) (G v t')"
    using recv [OF assms(2,3)] by blast
  have "leads (bindP (send m) F s, bindP (recv m) G t, w) (F r s', G v t', w)"
    using exchange [OF r(2) v(3) calm_send [OF assms(3,4,6,1)]] assms(5) fits [OF assms(1,3)] by (simp add: quiet_def)
  then show ?thesis using r(1) v(1,2) by blast
qed

lemma all_turns:
  assumes "side p q n s" "side q p n' t" "p \<noteq> q" "quiet p w" "quiet q w"
    and "\<forall>x \<in> set ts. good (message_of x)" "calm p q n F" "calm q p n' G"
  shows "\<exists>rs vs s' t'. list_all2 (took got) ts rs \<and> list_all2 (took got) (map other_side ts) vs \<and>
     side p q n s' \<and> side q p n' t' \<and>
     leads (bindP (talk ts) F s, bindP (talk (map other_side ts)) G t, w) (F rs s', G vs t', w)"
  using assms(1,2,6-)
proof (induction ts arbitrary: s t F G)
  case Nil
  then show ?case
    by - (rule exI [of _ "[]"], rule exI [of _ "[]"], rule exI [of _ s], rule exI [of _ t], simp add: ret_io leads_refl)
next
  case (Cons x ts)
  have c: "calm p q n (\<lambda>r. bindP (talk ts) (\<lambda>rs. F (f r rs)))"
    "calm q p n' (\<lambda>r. bindP (talk (map other_side ts)) (\<lambda>rs. G (g r rs)))" for f g
    using Cons.prems(3-5) assms(3) by (auto intro!: calm_talk simp: other_message)
  obtain a b s1 t1 where one: "took got x a" "took got (other_side x) b" "side p q n s1" "side q p n' t1"
    "leads (bindP (talk (x # ts)) F s, bindP (talk (map other_side (x # ts))) G t, w)
       (bindP (talk ts) (\<lambda>rs. F (a # rs)) s1, bindP (talk (map other_side ts)) (\<lambda>rs. G (b # rs)) t1, w)"
  proof (cases x)
    case (Forth m)
    have "good m" using Cons.prems(3) Forth by simp
    then obtain r v s1 t1 where "side p q n s1" "side q p n' t1" "got m v"
      "leads (bindP (send m) (\<lambda>r. bindP (talk ts) (\<lambda>rs. F (Inl r # rs))) s,
         bindP (recv m) (\<lambda>v. bindP (talk (map other_side ts)) (\<lambda>rs. G (Inr v # rs))) t, w)
       (bindP (talk ts) (\<lambda>rs. F (Inl r # rs)) s1, bindP (talk (map other_side ts)) (\<lambda>rs. G (Inr v # rs)) t1, w)"
      using one_turn [OF Cons.prems(1,2) _ assms(3,4) c(1) [of "\<lambda>r rs. Inl r # rs"],
        where G = "\<lambda>v. bindP (talk (map other_side ts)) (\<lambda>rs. G (Inr v # rs))"] by blast
    then show ?thesis
      using that [of "Inl r" "Inr v" s1 t1] unfolding Forth list.map other_side.simps talk_io by simp
  next
    case (Back m)
    have "good m" using Cons.prems(3) Back by simp
    then obtain r v s1 t1 where r: "side p q n s1" "side q p n' t1" "got m v"
      "leads (bindP (send m) (\<lambda>r. bindP (talk (map other_side ts)) (\<lambda>rs. G (Inl r # rs))) t,
         bindP (recv m) (\<lambda>v. bindP (talk ts) (\<lambda>rs. F (Inr v # rs))) s, w)
       (bindP (talk (map other_side ts)) (\<lambda>rs. G (Inl r # rs)) t1, bindP (talk ts) (\<lambda>rs. F (Inr v # rs)) s1, w)"
      using one_turn [OF Cons.prems(2,1) _ assms(3) [symmetric] assms(5) c(2) [of "\<lambda>r rs. Inl r # rs"],
        where G = "\<lambda>v. bindP (talk ts) (\<lambda>rs. F (Inr v # rs))"] by blast
    have "leads (bindP (recv m) (\<lambda>v. bindP (talk ts) (\<lambda>rs. F (Inr v # rs))) s,
        bindP (send m) (\<lambda>r. bindP (talk (map other_side ts)) (\<lambda>rs. G (Inl r # rs))) t, w)
      (bindP (talk ts) (\<lambda>rs. F (Inr v # rs)) s1, bindP (talk (map other_side ts)) (\<lambda>rs. G (Inl r # rs)) t1, w)"
      using r(4) by - (rule leads_flip, simp)
    then show ?thesis
      using that [of "Inr v" "Inl r" s1 t1] r(1-3) unfolding Back list.map other_side.simps talk_io by simp
  qed
  have calm: "calm p q n (\<lambda>rs. F (a # rs))" "calm q p n' (\<lambda>rs. G (b # rs))"
    using Cons.prems(4,5) by (auto simp: calm_def)
  obtain rs vs s' t' where rest: "list_all2 (took got) ts rs" "list_all2 (took got) (map other_side ts) vs"
    "side p q n s'" "side q p n' t'"
     "leads (bindP (talk ts) (\<lambda>rs. F (a # rs)) s1, bindP (talk (map other_side ts)) (\<lambda>rs. G (b # rs)) t1, w)
       (F (a # rs) s', G (b # vs) t', w)"
    using Cons.IH [OF one(3,4) _ calm] Cons.prems(3) by auto
  show ?case
    using rest one(1,2) leads_trans [OF one(5) rest(5)]
    by (intro exI [of _ "a # rs"] exI [of _ "b # vs"] exI [of _ s'] exI [of _ t']) simp
qed

end

end
