(* ===== verification/SocketCommunication.thy ===== *)
theory SocketCommunication
  imports Streams Connections
begin

text \<open>
  \<open>base_socket_communication\<close>, \<open>local_socket_communication\<close> and \<open>socket_communication\<close> (\<open>.hpp\<close> and
  \<open>.cpp\<close>): the communication through sockets. The primary partner accepts the connection of the
  secondary one; with TCP it first chooses a port and tells the secondary partner address and port
  in the handshake. A message is its size and then its bytes.

  The sockets themselves (\<open>asio\<close> and the operating system) are a pair of byte streams. The thread that
  runs the \<open>io_context\<close> has nothing to do, since all operations are synchronous, and is left out.
\<close>

section \<open>Sockets\<close>

record asio_socket =
  s_out :: path
  s_in :: path
  s_room :: nat

text \<open>
  An end point is named by its address. While it is listening, a connection to it is queued and can
  be accepted; it is refused otherwise. Both ends begin with nothing to read.
\<close>

definition to_server :: "path \<Rightarrow> path" where "to_server e = e @ ''>''"
definition to_client :: "path \<Rightarrow> path" where "to_client e = e @ ''<''"

definition server_socket :: "nat \<Rightarrow> path \<Rightarrow> asio_socket" where
  "server_socket room e = \<lparr>s_out = to_client e, s_in = to_server e, s_room = room\<rparr>"

definition client_socket :: "nat \<Rightarrow> path \<Rightarrow> asio_socket" where
  "client_socket room e = \<lparr>s_out = to_server e, s_in = to_client e, s_room = room\<rparr>"

definition listen :: "path \<Rightarrow> world \<Rightarrow> world" where
  "listen e w = w\<lparr>listening := (listening w)(e := True), streams := (streams w)(e := [])\<rparr>"

definition stop_listening :: "path \<Rightarrow> world \<Rightarrow> world" where
  "stop_listening e w = w\<lparr>listening := (listening w)(e := False)\<rparr>"

definition dial :: "path \<Rightarrow> world \<Rightarrow> world" where
  "dial e w = w\<lparr>streams := (streams w)(e := streams w e @ ''c'', to_server e := [], to_client e := []),
     closed := (closed w)(to_server e := False, to_client e := False)\<rparr>"

definition asio_accept :: "nat \<Rightarrow> path \<Rightarrow> ('s, asio_socket) prog" where
  "asio_accept room e = thenP (waitP (\<lambda>w. streams w e \<noteq> []))
     (thenP (actP (pop e 1) (\<lambda>_. Inr ())) (retP (server_socket room e)))"

definition asio_connect :: "nat \<Rightarrow> path \<Rightarrow> ('s, asio_socket) prog" where
  "asio_connect room e = thenP (actP (\<lambda>w. if listening w e then dial e w else w)
       (\<lambda>w. if listening w e then Inr () else Inl stream_error))
     (retP (client_socket room e))"

definition asio_close :: "asio_socket \<Rightarrow> ('s, unit) prog" where
  "asio_close S = actP (\<lambda>w. close_stream (s_out S) (close_stream (s_in S) w)) (\<lambda>_. Inr ())"

section \<open>The common base\<close>

record base_socket_communication = communication +
  mpAsioSocket :: "asio_socket option"

definition with_socket :: "(asio_socket \<Rightarrow> ('x base_socket_communication_scheme, 'a) prog) \<Rightarrow>
    ('x base_socket_communication_scheme, 'a) prog" where
  "with_socket m = bindP (getP mpAsioSocket) (\<lambda>S. case S of
       None \<Rightarrow> throwP (UndefinedBehaviour ''null socket'')
     | Some S \<Rightarrow> m S)"

definition Socket_ConnectDetail :: "info \<Rightarrow> ('x base_socket_communication_scheme, info) prog" where
  "Socket_ConnectDetail I_Info = localP (new_info [])"

definition Socket_DisconnectDetail :: "info \<Rightarrow> ('x base_socket_communication_scheme, info) prog" where
  "Socket_DisconnectDetail I_Info =
     thenP (with_socket asio_close)
     (thenP (modP (\<lambda>c. c\<lparr>mpAsioSocket := None\<rparr>))
       (localP (new_info [])))"

definition SendSize :: "u64 \<Rightarrow> ('x base_socket_communication_scheme, unit) prog" where
  "SendSize Size = bindP (getP comm_big_endian) (\<lambda>be.
     with_socket (\<lambda>S. write_stream (s_out S) (s_room S) (object_bytes be 8 Size)))"

definition ReceiveSize :: "('x base_socket_communication_scheme, u64) prog" where
  "ReceiveSize = bindP (getP comm_big_endian) (\<lambda>be.
     with_socket (\<lambda>S. bindP (read_stream (s_in S) 8) (\<lambda>bytes. retP (object_value be bytes))))"

definition Socket_SendString :: "info \<Rightarrow> string \<Rightarrow> ('x base_socket_communication_scheme, dbl) prog" where
  "Socket_SendString I_Info rData =
     thenP (SendSize (word_of_nat (length rData)))
     (thenP (with_socket (\<lambda>S. write_stream (s_out S) (s_room S) rData))
       (localP ElapsedSeconds))"

text \<open>\<open>rData.front()\<close> has no meaning for an empty string, even when nothing is read into it.\<close>

definition Socket_ReceiveString :: "info \<Rightarrow> ('x base_socket_communication_scheme, dbl \<times> string) prog" where
  "Socket_ReceiveString I_Info =
     bindP ReceiveSize (\<lambda>received_size.
     thenP (checkP (received_size = 0) (UndefinedBehaviour ''front of an empty string''))
     (bindP (with_socket (\<lambda>S. read_stream (s_in S) (unat received_size))) (\<lambda>rData.
     bindP (localP ElapsedSeconds) (\<lambda>elapsed_time.
       retP (elapsed_time, rData)))))"

definition Socket_SendDataContainer :: "info \<Rightarrow> dbl list \<Rightarrow> ('x base_socket_communication_scheme, dbl) prog" where
  "Socket_SendDataContainer I_Info rData =
     thenP (SendSize (word_of_nat (length rData)))
     (bindP (getP comm_big_endian) (\<lambda>be.
     thenP (with_socket (\<lambda>S. write_stream (s_out S) (s_room S) (doubles_bytes be rData)))
       (localP ElapsedSeconds)))"

text \<open>The container is resized first; then its memory is read into.\<close>

definition resized :: "'c container \<Rightarrow> nat \<Rightarrow> 'c \<Rightarrow> error + 'c" where
  "resized K n x = (case k_resize K n x of (Inl e, _) \<Rightarrow> Inl e | (Inr _, x') \<Rightarrow> Inr x')"

definition stored :: "'c container \<Rightarrow> dbl list \<Rightarrow> 'c \<Rightarrow> error + 'c" where
  "stored K xs x = (case forE (\<lambda>i. k_put K i (xs ! i)) [0..<length xs] x of
     (Inl e, _) \<Rightarrow> Inl e | (Inr _, x') \<Rightarrow> Inr x')"

definition Socket_ReceiveDataContainer :: "'c container \<Rightarrow> info \<Rightarrow> 'c \<Rightarrow>
    ('x base_socket_communication_scheme, dbl \<times> 'c) prog" where
  "Socket_ReceiveDataContainer K I_Info rData =
     bindP ReceiveSize (\<lambda>received_size.
     bindP (liftP (resized K (unat received_size) rData)) (\<lambda>rData.
     let n = length (k_elems K rData) in
     bindP (getP comm_big_endian) (\<lambda>be.
     bindP (with_socket (\<lambda>S. read_stream (s_in S) (n * 8))) (\<lambda>bytes.
     bindP (liftP (stored K (bytes_doubles be n bytes) rData)) (\<lambda>rData.
     bindP (localP ElapsedSeconds) (\<lambda>elapsed_time.
       retP (elapsed_time, rData)))))))"

text \<open>The destructor of a communication that is still connected.\<close>

definition destroy :: "('x communication_scheme, 'c) methods \<Rightarrow> ('x communication_scheme, unit) prog" where
  "destroy V = bindP (getP mIsConnected) (\<lambda>connected.
     if connected then bindP (Communication_Disconnect V Info_new) (\<lambda>_. retP ()) else retP ())"

section \<open>Local sockets\<close>

record local_socket_communication = base_socket_communication +
  mpLocalAcceptor :: "path option"

definition new_LocalSocketCommunication :: "(path \<Rightarrow> bool) \<Rightarrow> machine \<Rightarrow> addr \<Rightarrow> nat \<Rightarrow> nat \<Rightarrow> info \<Rightarrow>
    error + local_socket_communication" where
  "new_LocalSocketCommunication path_exists M h rank ranks I_Settings =
     bindR (new_Communication path_exists M h rank ranks I_Settings) (\<lambda>c.
       Inr (communication.extend c \<lparr>mpAsioSocket = None, mpLocalAcceptor = None\<rparr>))"

definition bind_file :: "'x communication_scheme \<Rightarrow> path" where
  "bind_file c = join_path (mCommFolder c) ''socket_bind''"

text \<open>\<open>acceptor\<close> creates the file of the end point, \<open>unlink\<close> removes what was left of an earlier one.\<close>

definition local_acceptor :: "path \<Rightarrow> ('s, unit) prog" where
  "local_acceptor e = actP (\<lambda>w. if files w e = None \<and> writable w e then listen e (set_file e (Some []) w) else w)
     (\<lambda>w. if files w e = None \<and> writable w e then Inr () else Inl stream_error)"

definition Local_ConnectDetail :: "nat \<Rightarrow> info \<Rightarrow> (local_socket_communication, info) prog" where
  "Local_ConnectDetail room I_Info =
     bindP (getP bind_file) (\<lambda>bind_file_name.
     bindP (getP mIsPrimaryConnection) (\<lambda>primary.
     thenP (whenP primary
       (thenP (create_file bind_file_name) (actP (remove_file bind_file_name) (\<lambda>_. Inr ()))))
     (thenP (SynchronizeAll ''local_sock_1'')
     (thenP (if primary then
         thenP (local_acceptor bind_file_name)
         (thenP (modP (\<lambda>c. c\<lparr>mpLocalAcceptor := Some bind_file_name\<rparr>))
         (thenP (SynchronizeAll ''local_sock_2'')
         (bindP (asio_accept room bind_file_name) (\<lambda>S.
         thenP (modP (\<lambda>c. c\<lparr>mpAsioSocket := Some S\<rparr>))
           (actP (stop_listening bind_file_name) (\<lambda>_. Inr ()))))))
       else
         thenP (SynchronizeAll ''local_sock_2'')
         (bindP (asio_connect room bind_file_name) (\<lambda>S.
           modP (\<lambda>c. c\<lparr>mpAsioSocket := Some S\<rparr>))))
       (Socket_ConnectDetail I_Info)))))"

definition local_socket_methods :: "nat \<Rightarrow> 'c container \<Rightarrow> (local_socket_communication, 'c) methods" where
  "local_socket_methods room K =
     \<lparr>GetCommunicationName = ''local_socket'',
      GetCommunicationSettings = new_info [],
      DerivedHandShake = retP (),
      PrepareConnection = (\<lambda>_. retP ()),
      ConnectDetail = Local_ConnectDetail room,
      DisconnectDetail = Socket_DisconnectDetail,
      SendString = Socket_SendString,
      ReceiveString = Socket_ReceiveString,
      SendDataContainer = Socket_SendDataContainer,
      ReceiveDataContainer = Socket_ReceiveDataContainer K\<rparr>"

section \<open>Sockets over TCP\<close>

record ConnectionInfo =
  PortNumber :: i32
  IpAddress :: string

record socket_communication = base_socket_communication +
  mpAsioAcceptor :: "path option"
  mPortNumber :: "16 word"
  mIpAddress :: string
  mSerializedConnectionInfo :: string

text \<open>
  What the network of the machine provides: the addresses of its interfaces (\<open>None\<close> when \<open>getifaddrs\<close>
  fails), which texts are addresses, on which of them it can listen, the free port that is chosen when
  given end points are listening, the room of a socket, and what the other ranks of the partner send to rank 0.
\<close>

record network =
  n_addresses :: "(string \<times> string) list option"
  n_valid :: "string \<Rightarrow> bool"
  n_local :: "string \<Rightarrow> bool"
  n_free_port :: "(path \<Rightarrow> bool) \<Rightarrow> string \<Rightarrow> 16 word"
  n_room :: nat
  n_ranks :: "nat \<Rightarrow> ConnectionInfo"

definition LOCAL_IP_ADDRESS :: string where
  "LOCAL_IP_ADDRESS = ''127.0.0.1''"

text \<open>The tables are listed in the order of insertion; that of the unordered map is not specified.\<close>

definition GetIpv4Addresses :: "network \<Rightarrow> error + (string \<times> string) list" where
  "GetIpv4Addresses N = (case n_addresses N of
       None \<Rightarrow> Inl (co_error ''Available networks could not be determined'')
     | Some as \<Rightarrow> Inr (fold (\<lambda>(n, a) m. table_set n a m) as []))"

definition unknown_network :: "string \<Rightarrow> (string \<times> string) list \<Rightarrow> error" where
  "unknown_network requested_network avail_networks =
     co_error (''The network with name '' @ dq requested_network @
       '' could not be found! Only the following networks are available:'' @
       concat (List.map (\<lambda>(n, a). [nl] @ ''    Network name: '' @ n @ '' | IP address: '' @ a) avail_networks))"

definition GetIpAddress :: "network \<Rightarrow> info \<Rightarrow> error + string" where
  "GetIpAddress N I_Settings =
     (if Info_Has I_Settings ''ip_address'' then get_string I_Settings ''ip_address''
      else if Info_Has I_Settings ''network_name'' then
        bindR (get_string I_Settings ''network_name'') (\<lambda>requested_network.
        bindR (GetIpv4Addresses N) (\<lambda>avail_networks.
        case map_of avail_networks requested_network of
          Some a \<Rightarrow> Inr a
        | None \<Rightarrow> Inl (unknown_network requested_network avail_networks)))
      else Inr LOCAL_IP_ADDRESS)"

definition new_SocketCommunication :: "network \<Rightarrow> (path \<Rightarrow> bool) \<Rightarrow> machine \<Rightarrow> addr \<Rightarrow> nat \<Rightarrow> nat \<Rightarrow> info \<Rightarrow>
    error + socket_communication" where
  "new_SocketCommunication N path_exists M h rank ranks I_Settings =
     bindR (new_Communication path_exists M h rank ranks I_Settings) (\<lambda>c.
     bindR (if mIsPrimaryConnection c then GetIpAddress N I_Settings else Inr []) (\<lambda>ip.
       Inr (communication.extend c \<lparr>mpAsioSocket = None, mpAsioAcceptor = None, mPortNumber = 0,
         mIpAddress = ip, mSerializedConnectionInfo = []\<rparr>)))"

definition ConnectionInfo_save :: "ConnectionInfo \<Rightarrow> (unit ser, unit) cpp" where
  "ConnectionInfo_save i = thenE (save_direct sc_int ''PortNumber'' (PortNumber i))
     (save_string ''IpAddress'' (IpAddress i))"

definition ConnectionInfo_load :: "(unit ser, ConnectionInfo) cpp" where
  "ConnectionInfo_load = bindE (load_direct sc_int ''PortNumber'') (\<lambda>p.
     bindE (load_string ''IpAddress'') (\<lambda>a. retE \<lparr>PortNumber = p, IpAddress = a\<rparr>))"

text \<open>The information of the connection is an entry of the handshake, which is text between quotes.\<close>

definition disallowed_in_text :: "char list" where
  "disallowed_in_text = [CHR ''<'', CHR ''>'']"

definition replace_char :: "char \<Rightarrow> char \<Rightarrow> string \<Rightarrow> string" where
  "replace_char a b rString = List.map (\<lambda>c. if c = a then b else c) rString"

fun check_text :: "char list \<Rightarrow> string \<Rightarrow> error + unit" where
  "check_text [] rString = Inr ()"
| "check_text (ch # chs) rString =
     (if ch \<in> set rString then Inl (co_error (''String contains a character that is not allowed: '' @ dq [ch] @ ''!''))
      else check_text chs rString)"

definition PrepareStringForAsciiSerialization :: "string \<Rightarrow> error + string" where
  "PrepareStringForAsciiSerialization rString =
     bindR (check_text disallowed_in_text rString) (\<lambda>_.
       Inr (replace_char quote (CHR ''>'') (replace_char nl (CHR ''<'') rString)))"

definition RevertAsciiSerialization :: "string \<Rightarrow> string" where
  "RevertAsciiSerialization rString =
     replace_char (CHR ''>'') quote (replace_char (CHR ''<'') nl rString)"

definition tcp_endpoint :: "string \<Rightarrow> 16 word \<Rightarrow> path" where
  "tcp_endpoint ip port = ip @ '':'' @ show_nat (unat port)"

definition conn_infos :: "network \<Rightarrow> 'x socket_communication_scheme \<Rightarrow> ConnectionInfo list" where
  "conn_infos N c = (if c_rank c = 0 then
       \<lparr>PortNumber = ucast (mPortNumber c), IpAddress = mIpAddress c\<rparr> # List.map (n_ranks N) [1..<c_size c]
     else [])"

definition serialized_conn_infos :: "network \<Rightarrow> 'x socket_communication_scheme \<Rightarrow> error + string" where
  "serialized_conn_infos N c =
     (case save_vector (save_object ConnectionInfo_save) ''conn_info'' (conn_infos N c) (stream_ser c) of
        (Inl e, _) \<Rightarrow> Inl e
      | (Inr _, s) \<Rightarrow>
          (if mSerializerTraceType c \<noteq> SERIALIZER_NO_TRACE
           then PrepareStringForAsciiSerialization (GetStringRepresentation s)
           else Inr (GetStringRepresentation s)))"

definition tcp_acceptor :: "network \<Rightarrow> string \<Rightarrow> ('s, 16 word) prog" where
  "tcp_acceptor N ip =
     thenP (checkP (\<not> n_valid N ip) stream_error)
     (actP (\<lambda>w. if n_local N ip then listen (tcp_endpoint ip (n_free_port N (listening w) ip)) w else w)
        (\<lambda>w. if n_local N ip then Inr (n_free_port N (listening w) ip) else Inl stream_error))"

definition Tcp_PrepareConnection :: "network \<Rightarrow> info \<Rightarrow> (socket_communication, unit) prog" where
  "Tcp_PrepareConnection N I_Info =
     bindP (getP mIsPrimaryConnection) (\<lambda>primary.
     whenP primary
       (bindP (getP mIpAddress) (\<lambda>ip.
       bindP (tcp_acceptor N ip) (\<lambda>port.
       thenP (modP (\<lambda>c. c\<lparr>mpAsioAcceptor := Some (tcp_endpoint ip port), mPortNumber := port\<rparr>))
       (bindP (getP (serialized_conn_infos N)) (\<lambda>r.
       bindP (liftP r) (\<lambda>info.
         modP (\<lambda>c. c\<lparr>mSerializedConnectionInfo := info\<rparr>))))))))"

definition Tcp_GetCommunicationSettings :: "(socket_communication, info) cpp" where
  "Tcp_GetCommunicationSettings = (\<lambda>c. new_info
     (if mIsPrimaryConnection c \<and> c_rank c = 0
      then [(''connection_info'', DString (mSerializedConnectionInfo c))] else []) c)"

definition loaded_conn_infos :: "'x communication_scheme \<Rightarrow> error + ConnectionInfo list" where
  "loaded_conn_infos c =
     bindR (get_info (mPartnerInfo c) ''communication_settings'') (\<lambda>st.
     bindR (get_string st ''connection_info'') (\<lambda>serialized_info.
     let serialized_info = (if mSerializerTraceType c \<noteq> SERIALIZER_NO_TRACE
           then RevertAsciiSerialization serialized_info else serialized_info) in
     fst (load_vector (\<lambda>tag _. load_object ConnectionInfo_load tag) \<lparr>PortNumber = 0, IpAddress = []\<rparr> ''conn_info'' []
       (StreamSerializer_data (plat (c_machine c)) (c_heap c) serialized_info (mSerializerTraceType c)))))"

definition GetConnectionInformation :: "(socket_communication, unit) prog" where
  "GetConnectionInformation =
     bindP (getP mIsPrimaryConnection) (\<lambda>primary.
     thenP (checkP primary (co_error ''This function can only be used as secondary connection!''))
     (bindP (getP loaded_conn_infos) (\<lambda>r.
     bindP (liftP r) (\<lambda>infos.
     bindP (getP c_size) (\<lambda>n.
     thenP (checkP (length infos \<noteq> n) (co_error ''Wrong number of connection infos!''))
       (modP (\<lambda>c. let i = infos ! c_rank c in
          c\<lparr>mPortNumber := ucast (PortNumber i), mIpAddress := IpAddress i\<rparr>)))))))"

definition Tcp_ConnectDetail :: "network \<Rightarrow> info \<Rightarrow> (socket_communication, info) prog" where
  "Tcp_ConnectDetail N I_Info =
     bindP (getP mIsPrimaryConnection) (\<lambda>primary.
     thenP (if \<not> primary then GetConnectionInformation else retP ())
     (thenP (if primary then
         bindP (getP mpAsioAcceptor) (\<lambda>acceptor. case acceptor of
           None \<Rightarrow> throwP (UndefinedBehaviour ''null acceptor'')
         | Some e \<Rightarrow> bindP (asio_accept (n_room N) e) (\<lambda>S.
             thenP (modP (\<lambda>c. c\<lparr>mpAsioSocket := Some S\<rparr>))
             (thenP (actP (stop_listening e) (\<lambda>_. Inr ()))
               (modP (\<lambda>c. c\<lparr>mpAsioAcceptor := None\<rparr>)))))
       else
         bindP (getP (\<lambda>c. (mIpAddress c, mPortNumber c))) (\<lambda>(ip, port).
         thenP (checkP (\<not> n_valid N ip) stream_error)
         (bindP (asio_connect (n_room N) (tcp_endpoint ip port)) (\<lambda>S.
           modP (\<lambda>c. c\<lparr>mpAsioSocket := Some S\<rparr>)))))
       (Socket_ConnectDetail I_Info)))"

definition socket_methods :: "network \<Rightarrow> 'c container \<Rightarrow> (socket_communication, 'c) methods" where
  "socket_methods N K =
     \<lparr>GetCommunicationName = ''socket'',
      GetCommunicationSettings = Tcp_GetCommunicationSettings,
      DerivedHandShake = retP (),
      PrepareConnection = Tcp_PrepareConnection N,
      ConnectDetail = Tcp_ConnectDetail N,
      DisconnectDetail = Socket_DisconnectDetail,
      SendString = Socket_SendString,
      ReceiveString = Socket_ReceiveString,
      SendDataContainer = Socket_SendDataContainer,
      ReceiveDataContainer = Socket_ReceiveDataContainer K\<rparr>"

end
