(* ===== verification/StreamTransfers.thy ===== *)
theory StreamTransfers
  imports StreamChannel SocketCommunication Exchanges
begin

text \<open>
  Exports and imports of a communication over byte streams: what its four virtual functions for sending
  and receiving must promise (the locale \<open>stream_methods\<close>) so that the transfers of the base class provide the
  channel of streams.
\<close>

section \<open>Transfers\<close>

definition stream_export :: "('x communication_scheme, 'c) methods \<Rightarrow> 'c message \<Rightarrow>
    ('x communication_scheme, info \<times> unit) prog" where
  "stream_export V m = (case m of Data i j xs x0 \<Rightarrow> Base_ExportData V i xs | Settings i j \<Rightarrow> Base_ExportInfo V i
     | Mesh i j p q \<Rightarrow> Base_ExportMesh V i p)"

definition stream_import :: "('x communication_scheme, 'c) methods \<Rightarrow> 'c container \<Rightarrow> 'c message \<Rightarrow>
    ('x communication_scheme, info \<times> 'c cargo) prog" where
  "stream_import V K m = (case m of
     Data i j xs x0 \<Rightarrow> bindP (Base_ImportData V K j x0) (\<lambda>(r, x). retP (r, Values x))
   | Settings i j \<Rightarrow> bindP (Base_ImportInfo V j) (\<lambda>(r, _). retP (r, Nothing))
   | Mesh i j p q \<Rightarrow> bindP (Base_ImportMesh V j q) (\<lambda>(r, x). retP (r, Part x)))"

definition stream_frame :: "'x communication_scheme \<Rightarrow> 'c message \<Rightarrow> nat \<times> string" where
  "stream_frame s m = (let P = plat (c_machine s); T = mSerializerTraceType s in case m of
     Data i j xs x0 \<Rightarrow> if mAlwaysUseSerializer s then (let t = data_text ''object'' P T xs in (length t, t))
       else (length xs, doubles_bytes (comm_big_endian s) xs)
   | Settings i j \<Rightarrow> (let t = tag_out P T ''object'' @ info_out P T i in (length t, t))
   | Mesh i j p q \<Rightarrow> (let t = mesh_text P T ''object'' p in (length t, t)))"

definition stream_text :: "'x communication_scheme \<Rightarrow> 'c message \<Rightarrow> string" where
  "stream_text s m = framed (comm_big_endian s) (fst (stream_frame s m)) (snd (stream_frame s m))"

text \<open>
  How a message is cut into packets is up to the kind of stream: \<open>frames k n bytes\<close> are the packets for
  \<open>n\<close> elements of \<open>k\<close> bytes each, and \<open>fits k bytes\<close> says that each of them can be written at once.
\<close>

definition element_size :: "'x communication_scheme \<Rightarrow> 'c message \<Rightarrow> nat" where
  "element_size s m = (case m of Data i j xs x0 \<Rightarrow> if mAlwaysUseSerializer s then 1 else 8
     | Settings i j \<Rightarrow> 1 | Mesh i j p q \<Rightarrow> 1)"

lemma element_sizes: "element_size s m \<in> {1, 8}"
  by (simp add: element_size_def split: message.split)

definition stream_packets :: "(nat \<Rightarrow> nat \<Rightarrow> string \<Rightarrow> string list) \<Rightarrow> 'x communication_scheme \<Rightarrow> 'c message \<Rightarrow> string list" where
  "stream_packets frames s m = frames (element_size s m) (fst (stream_frame s m)) (snd (stream_frame s m))"

definition message_fits :: "(nat \<Rightarrow> string \<Rightarrow> bool) \<Rightarrow> 'x communication_scheme \<Rightarrow> 'c message \<Rightarrow> bool" where
  "message_fits fits s m \<longleftrightarrow> fits (element_size s m) (snd (stream_frame s m))"

type_synonym 'c talks = "((info \<times> unit) + (info \<times> 'c cargo)) list"

definition agrees :: "'x communication_scheme \<Rightarrow> 'x communication_scheme \<Rightarrow> bool" where
  "agrees s0 s \<longleftrightarrow> mIsConnected s \<and> plat (c_machine s) = plat (c_machine s0) \<and>
     mSerializerTraceType s = mSerializerTraceType s0 \<and> mAlwaysUseSerializer s = mAlwaysUseSerializer s0"

lemma send_object_io:
  assumes "save (stream_ser s) = (Inr (), ser)"
  shows "bindP (SendObjectWithStreamSerializer V i save) F s =
     bindP (SendString V i (mBuffer ser)) (\<lambda>e.
     bindP (getP (\<lambda>c. plus_dbl (c_machine c))) (\<lambda>plus.
     bindP (localP (new_info [(''elapsed_time'', DDouble (plus e (elapsed (c_machine s) (c_clock s)))),
         (''elapsed_time_ipc'', DDouble e), (''elapsed_time_serializer'', DDouble (elapsed (c_machine s) (c_clock s))),
         (''memory_usage_ipc'', DSize (word_of_nat (length (mBuffer ser))))])) F)) (s\<lparr>c_clock := c_clock s + 1\<rparr>)"
  unfolding SendObjectWithStreamSerializer_def bindP_assoc get_io assms prod.case thenP_def lift_fun clock_io
    GetStringRepresentation_def by (rule refl)

lemma four_entries:
  "m = add_entries [(''elapsed_time'', DDouble a), (''elapsed_time_ipc'', DDouble b),
      (''elapsed_time_serializer'', DDouble c), (''memory_usage_ipc'', DSize n)] h Info_new \<Longrightarrow>
     get_double m ''elapsed_time'' = Inr a \<and> get_double m ''elapsed_time_ipc'' = Inr b \<and>
     get_double m ''elapsed_time_serializer'' = Inr c \<and> get_size m ''memory_usage_ipc'' = Inr n \<and>
     Info_Has m ''elapsed_time'' \<and> Info_Has m ''memory_usage_ipc''"
  by (simp add: Info_new_def Info_Set_def get_double_def get_size_def Info_Get_def Info_Has_def
      GetExistingKey_def GetDataTypeName_def bindR_def)

lemma export_io:
  assumes "CheckConnection i s = Inr ()"
  shows "bindP (with_checks i (no_result m)) F s = bindP m (\<lambda>o_info. bindP (post i (o_info, ())) F) s"
proof -
  have r: "bindP (retP x) F = F x" for x and F :: "'x \<Rightarrow> ('y, 'z) prog" by (simp add: fun_eq_iff ret_io)
  show ?thesis unfolding with_checks_io [OF assms] no_result_def bindP_assoc r ..
qed

lemma filled_in_steps:
  assumes "usable K ok room" "ok x0" "room (length xs) x0"
  obtains x1 x2 where "resized K (length xs) x0 = Inr x1" "length (k_elems K x1) = length xs" "stored K xs x1 = Inr x2"
    "k_elems K x2 = xs"
proof -
  note a = assms(1) [unfolded usable_def]
  obtain x1 where x1: "k_resize K (length xs) x0 = (Inr (), x1)" "ok x1" "length (k_elems K x1) = length xs"
    using array_container.resize_ok [OF a assms(2,3)] .
  obtain x2 where "forE (\<lambda>i. k_put K i (xs ! i)) [0..<length xs] x1 = (Inr (), x2)" "k_elems K x2 = xs"
    using array_container.put_from [OF a x1(2,3), of 0] by auto
  then show ?thesis using that x1 by (simp add: resized_def stored_def)
qed

lemma stream_ser_data:
  "StreamSerializer_data (plat (c_machine s)) (c_heap s) d (mSerializerTraceType s) = file_ser s (d @ [nl])"
  by (simp add: StreamSerializer_data_def file_ser_def)

lemma scalar_out_size: "scalar_out sc_size_t P T v \<noteq> []"
  by (simp add: scalar_out_def sc_size_t_def)

lemma texts_nonempty: "data_text tag P T xs \<noteq> []" "tag_out P T tag @ info_out P T i \<noteq> []"
  by (simp_all add: data_text_def info_out_def scalar_out_size)

lemma stream_ser_file: "stream_ser s = file_ser s []"
  by (simp add: stream_ser_def file_ser_def StreamSerializer_def)

lemma import_data_over:
  fixes t :: "'x communication_scheme" and G :: "info \<times> 'c cargo \<Rightarrow> ('x communication_scheme, 'd) prog"
  assumes "CheckConnection j t = Inr ()"
  shows "mAlwaysUseSerializer t \<Longrightarrow> bindP (stream_import V K (Data i j xs x0)) G t =
      bindP (ReceiveObjectWithStreamSerializer V j (load_object (container_object_load K x0) ''object''))
        (\<lambda>x. bindP (post j x) (\<lambda>(r, x). G (r, Values x))) t"
    "\<not> mAlwaysUseSerializer t \<Longrightarrow> bindP (stream_import V K (Data i j xs x0)) G t =
      bindP (ReceiveDataContainer V j x0) (\<lambda>(e, x). bindP (localP (new_info [(''elapsed_time'', DDouble e),
            (''memory_usage_ipc'', DSize (word_of_nat (length (k_elems K x) * 8)))]))
          (\<lambda>info. bindP (post j (info, x)) (\<lambda>(r, x). G (r, Values x)))) t"
proof -
  have r: "bindP (retP x) F = F x" for x and F :: "'y \<Rightarrow> ('x communication_scheme, 'z) prog"
    by (simp add: fun_eq_iff ret_io)
  have c: "bindP (case_prod f x) F = (case x of (a, b) \<Rightarrow> bindP (f a b) F)"
    for f :: "'u \<Rightarrow> 'v \<Rightarrow> ('x communication_scheme, 'y) prog"
      and F :: "'y \<Rightarrow> ('x communication_scheme, 'z) prog" and x
    by (simp add: split_def)
  have e: "bindP (stream_import V K (Data i j xs x0)) G t =
      bindP (Base_ImportDataImpl V K j x0) (\<lambda>x. bindP (post j x) (\<lambda>(r, x). G (r, Values x))) t"
    unfolding stream_import_def message.case bindP_assoc c r Base_ImportData_def with_checks_io [OF assms] ..
  show "mAlwaysUseSerializer t \<Longrightarrow> bindP (stream_import V K (Data i j xs x0)) G t =
      bindP (ReceiveObjectWithStreamSerializer V j (load_object (container_object_load K x0) ''object''))
        (\<lambda>x. bindP (post j x) (\<lambda>(r, x). G (r, Values x))) t"
    unfolding e Base_ImportDataImpl_def by (simp only: bindP_assoc get_io if_True)
  show "\<not> mAlwaysUseSerializer t \<Longrightarrow> bindP (stream_import V K (Data i j xs x0)) G t =
      bindP (ReceiveDataContainer V j x0) (\<lambda>(e, x). bindP (localP (new_info [(''elapsed_time'', DDouble e),
            (''memory_usage_ipc'', DSize (word_of_nat (length (k_elems K x) * 8)))]))
          (\<lambda>info. bindP (post j (info, x)) (\<lambda>(r, x). G (r, Values x)))) t"
    unfolding e Base_ImportDataImpl_def by (simp only: bindP_assoc get_io if_False c r)
qed

lemma import_info_over:
  fixes t :: "'x communication_scheme" and G :: "info \<times> 'c cargo \<Rightarrow> ('x communication_scheme, 'd) prog"
  assumes "CheckConnection j t = Inr ()"
  shows "bindP (stream_import V K (Settings i j)) G t =
      bindP (ReceiveObjectWithStreamSerializer V j (load_object (Info_load Info_new) ''object''))
        (\<lambda>(rec_info, imported_info).
           bindP (liftP (get_double rec_info ''elapsed_time'')) (\<lambda>t.
           bindP (liftP (get_double rec_info ''elapsed_time_ipc'')) (\<lambda>t_ipc.
           bindP (liftP (get_double rec_info ''elapsed_time_serializer'')) (\<lambda>t_ser.
           bindP (liftP (get_size rec_info ''memory_usage_ipc'')) (\<lambda>mem.
           bindP (localP (set_entries [(''elapsed_time'', DDouble t), (''elapsed_time_ipc'', DDouble t_ipc),
             (''elapsed_time_serializer'', DDouble t_ser), (''memory_usage_ipc'', DSize mem)] imported_info))
             (\<lambda>i. bindP (post j (i, ())) (\<lambda>(r, _). G (r, Nothing)))))))) t"
proof -
  have r: "bindP (retP x) F = F x" for x and F :: "'y \<Rightarrow> ('x communication_scheme, 'z) prog"
    by (simp add: fun_eq_iff ret_io)
  have c: "bindP (case_prod f x) F = (case x of (a, b) \<Rightarrow> bindP (f a b) F)"
    for f :: "'u \<Rightarrow> 'v \<Rightarrow> ('x communication_scheme, 'y) prog"
      and F :: "'y \<Rightarrow> ('x communication_scheme, 'z) prog" and x
    by (simp add: split_def)
  show ?thesis
    unfolding stream_import_def message.case bindP_assoc c r Base_ImportInfo_def no_result_def
      with_checks_io [OF assms] Base_ImportInfoImpl_def ..
qed

lemma import_mesh_over:
  fixes t :: "'x communication_scheme" and G :: "info \<times> 'c cargo \<Rightarrow> ('x communication_scheme, 'd) prog"
  assumes "CheckConnection j t = Inr ()"
  shows "bindP (stream_import V K (Mesh i j p q)) G t =
      bindP (ReceiveObjectWithStreamSerializer V j (load_object (ModelPart_load q) ''object''))
        (\<lambda>x. bindP (post j x) (\<lambda>(r, x). G (r, Part x))) t"
proof -
  have r: "bindP (retP x) F = F x" for x and F :: "'y \<Rightarrow> ('x communication_scheme, 'z) prog"
    by (simp add: fun_eq_iff ret_io)
  have c: "bindP (case_prod f x) F = (case x of (a, b) \<Rightarrow> bindP (f a b) F)"
    for f :: "'u \<Rightarrow> 'v \<Rightarrow> ('x communication_scheme, 'y) prog"
      and F :: "'y \<Rightarrow> ('x communication_scheme, 'z) prog" and x
    by (simp add: split_def)
  show ?thesis
    unfolding stream_import_def message.case bindP_assoc c r Base_ImportMesh_def with_checks_io [OF assms]
      Base_ImportMeshImpl_def ..
qed

text \<open>The receiver of an \<open>Info\<close> adds the durations and the size to what it has received.\<close>

definition measured :: "string list" where
  "measured = [''elapsed_time'', ''elapsed_time_ipc'', ''elapsed_time_serializer'', ''memory_usage_ipc'']"

definition stream_received :: "'c container \<Rightarrow> 'c message \<Rightarrow> info \<times> 'c cargo \<Rightarrow> bool" where
  "stream_received K m v = (case m of
     Data i j xs x0 \<Rightarrow> (\<exists>x. snd v = Values x \<and> k_elems K x = xs)
   | Settings i j \<Rightarrow> snd v = Nothing \<and> (\<forall>k. k \<notin> set measured \<longrightarrow>
       info_abs (entries_value (fst v)) k = info_abs (entries_value i) k)
   | Mesh i j p q \<Rightarrow> (\<exists>p'. snd v = Part p' \<and> same_mesh p p'))"

lemma timed_entries4:
  "m = add_entries [(''elapsed_time'', DDouble a), (''elapsed_time_ipc'', DDouble b),
      (''elapsed_time_serializer'', DDouble c), (''memory_usage_ipc'', DSize n)] h i \<Longrightarrow>
     get_double m ''elapsed_time'' = Inr a \<and> Info_Has m ''elapsed_time'' \<and> Info_Has m ''memory_usage_ipc''"
  by (simp add: Info_Set_def get_double_def Info_Get_def Info_Has_def smap_find_same smap_find_other
      GetExistingKey_def GetDataTypeName_def bindR_def)

definition stream_good :: "('c \<Rightarrow> bool) \<Rightarrow> (nat \<Rightarrow> 'c \<Rightarrow> bool) \<Rightarrow> 'x communication_scheme \<Rightarrow> 'c message \<Rightarrow> bool" where
  "stream_good ok room s m \<longleftrightarrow> good_message ok room s m \<and> fst (stream_frame s m) < 2 ^ 64"

section \<open>What the virtual functions promise\<close>

locale stream_methods =
  fixes V :: "('x communication_scheme, 'c) methods" and K :: "'c container" and s0 :: "'x communication_scheme"
    and side :: "path \<Rightarrow> path \<Rightarrow> nat \<Rightarrow> 'x communication_scheme \<Rightarrow> bool"
    and frames :: "nat \<Rightarrow> nat \<Rightarrow> string \<Rightarrow> string list"
    and fits :: "nat \<Rightarrow> string \<Rightarrow> bool"
    and ok :: "'c \<Rightarrow> bool" and room :: "nat \<Rightarrow> 'c \<Rightarrow> bool"
  assumes side: "side p q n s \<Longrightarrow> agrees s0 s \<and> usable K ok room"
    and side_step: "side p q n s \<Longrightarrow> side p q n (s\<lparr>c_heap := h\<rparr>)" "side p q n s \<Longrightarrow> side p q n (s\<lparr>c_clock := k\<rparr>)"
    and frames_fit: "side p q n s \<Longrightarrow> k \<in> {1, 8} \<Longrightarrow> fits k bs \<Longrightarrow> c \<in> set (frames k l bs) \<Longrightarrow> c \<noteq> [] \<and> length c \<le> n"
    and send_string: "side p q n s \<Longrightarrow> fits 1 d \<Longrightarrow> packs p n (frames 1 (length d) d)
      (bindP (SendString V i d) F s :: ((error + 'c talks) \<times> 'x communication_scheme) io)
      (F (elapsed (c_machine s) (c_clock s)) (s\<lparr>c_clock := c_clock s + 1\<rparr>))"
    and send_container: "side p q n s \<Longrightarrow> fits 8 (doubles_bytes (comm_big_endian s0) xs) \<Longrightarrow>
      packs p n (frames 8 (length xs) (doubles_bytes (comm_big_endian s0) xs))
      (bindP (SendDataContainer V i xs) F s :: ((error + 'c talks) \<times> 'x communication_scheme) io)
      (F (elapsed (c_machine s) (c_clock s)) (s\<lparr>c_clock := c_clock s + 1\<rparr>))"
    and receive_string: "side p q n s \<Longrightarrow> length d < 2 ^ 64 \<Longrightarrow> d \<noteq> [] \<Longrightarrow> unpacks q (frames 1 (length d) d)
      (bindP (ReceiveString V i) G s :: ((error + 'c talks) \<times> 'x communication_scheme) io)
      (G (elapsed (c_machine s) (c_clock s), d) (s\<lparr>c_clock := c_clock s + 1\<rparr>))"
    and receive_container: "side p q n s \<Longrightarrow> length xs < 2 ^ 64 \<Longrightarrow> resized K (length xs) x0 = Inr x1 \<Longrightarrow>
      length (k_elems K x1) = length xs \<Longrightarrow> stored K xs x1 = Inr x2 \<Longrightarrow>
      unpacks q (frames 8 (length xs) (doubles_bytes (comm_big_endian s0) xs))
      (bindP (ReceiveDataContainer V i x0) H s :: ((error + 'c talks) \<times> 'x communication_scheme) io)
      (H (elapsed (c_machine s) (c_clock s), x2) (s\<lparr>c_clock := c_clock s + 1\<rparr>))"
    and steady_methods: "p \<noteq> q \<Longrightarrow> steadyP p (side p q n) (SendString V i d)" "p \<noteq> q \<Longrightarrow> steadyP p (side p q n) (SendDataContainer V i xs)"
      "p \<noteq> q \<Longrightarrow> steadyP p (side p q n) (ReceiveString V i)" "p \<noteq> q \<Longrightarrow> steadyP p (side p q n) (ReceiveDataContainer V i x)"
begin

declare side_step [simp]

lemma sideD:
  assumes "side p q n s"
  shows "mIsConnected s" "plat (c_machine s) = plat (c_machine s0)" "mSerializerTraceType s = mSerializerTraceType s0"
    "mAlwaysUseSerializer s = mAlwaysUseSerializer s0" "comm_big_endian s = comm_big_endian s0" "usable K ok room"
  using side [OF assms] by (simp_all add: agrees_def comm_big_endian_def)

section \<open>Exporting\<close>

text \<open>What every export has in common.\<close>

definition stream_sends :: "path \<Rightarrow> path \<Rightarrow> nat \<Rightarrow> string list \<Rightarrow>
    'x communication_scheme \<Rightarrow> ('x communication_scheme, info \<times> unit) prog \<Rightarrow> bool" where
  "stream_sends p q n out s m \<longleftrightarrow> (\<exists>r s'. side p q n s' \<and>
     (\<forall>F :: info \<times> unit \<Rightarrow> ('x communication_scheme, 'c talks) prog. packs p n out (bindP m F s) (F r s')))"

lemma stream_sendsI:
  assumes "side p q n s'"
    and "\<And>F :: info \<times> unit \<Rightarrow> ('x communication_scheme, 'c talks) prog. packs p n out (bindP m F s) (F r s')"
  shows "stream_sends p q n out s m"
  using assms unfolding stream_sends_def by blast

lemma sends_object:
  assumes "side p q n s" "save (stream_ser s) = (Inr (), ser)"
    and "get_string i ''identifier'' = Inr x" "CheckEntry x ''identifier'' = Inr ()" "fits 1 (mBuffer ser)"
  shows "stream_sends p q n (frames 1 (length (mBuffer ser)) (mBuffer ser)) s
     (with_checks i (no_result (SendObjectWithStreamSerializer V i save)))"
proof -
  have c: "CheckConnection i s = Inr ()"
    by (rule check_connection_ok [OF sideD(1) [OF assms(1)] assms(3,4)])
  let ?s = "s\<lparr>c_clock := c_clock s + 1\<rparr>"
  let ?t = "?s\<lparr>c_clock := c_clock ?s + 1\<rparr>"
  let ?e = "elapsed (c_machine ?s) (c_clock ?s)" and ?f = "elapsed (c_machine s) (c_clock s)"
  let ?kvs = "[(''elapsed_time'', DDouble (plus_dbl (c_machine ?t) ?e ?f)), (''elapsed_time_ipc'', DDouble ?e),
     (''elapsed_time_serializer'', DDouble ?f), (''memory_usage_ipc'', DSize (word_of_nat (length (mBuffer ser))))]"
  let ?o = "add_entries ?kvs (c_heap ?t) Info_new" and ?u = "?t\<lparr>c_heap := c_heap ?t + word_of_nat (length ?kvs)\<rparr>"
  have a: "side p q n ?s" "side p q n ?u" using assms(1) by simp_all
  have p: "bindP (post i (?o, ())) F = F (?o, ())" for F :: "info \<times> unit \<Rightarrow> ('x communication_scheme, 'c talks) prog"
    using four_entries [OF refl] by (intro post_io [OF assms(3)]) blast+
  show ?thesis
  proof (rule stream_sendsI [OF a(2), where r = "(?o, ())"])
    fix F :: "info \<times> unit \<Rightarrow> ('x communication_scheme, 'c talks) prog"
    note send_string [OF a(1) assms(5), of i "\<lambda>e. bindP (getP (\<lambda>c. plus_dbl (c_machine c))) (\<lambda>plus.
     bindP (localP (new_info [(''elapsed_time'', DDouble (plus e ?f)), (''elapsed_time_ipc'', DDouble e),
       (''elapsed_time_serializer'', DDouble ?f), (''memory_usage_ipc'', DSize (word_of_nat (length (mBuffer ser))))]))
       (\<lambda>o_info. bindP (post i (o_info, ())) F))", unfolded get_io new_info_io p]
    then show "packs p n (frames 1 (length (mBuffer ser)) (mBuffer ser))
      (bindP (with_checks i (no_result (SendObjectWithStreamSerializer V i save))) F s) (F (?o, ()) ?u)"
      unfolding export_io [OF c] send_object_io [where save = save, OF assms(2)] get_io new_info_io .
  qed
qed

lemma sends_container:
  assumes "side p q n s" "\<not> mAlwaysUseSerializer s"
    and "get_string i ''identifier'' = Inr x" "CheckEntry x ''identifier'' = Inr ()" "fits 8 (doubles_bytes (comm_big_endian s0) xs)"
  shows "stream_sends p q n (frames 8 (length xs) (doubles_bytes (comm_big_endian s0) xs)) s
     (Base_ExportData V i xs)"
proof -
  have c: "CheckConnection i s = Inr ()"
    by (rule check_connection_ok [OF sideD(1) [OF assms(1)] assms(3,4)])
  let ?s = "s\<lparr>c_clock := c_clock s + 1\<rparr>" and ?e = "elapsed (c_machine s) (c_clock s)"
  let ?kvs = "[(''elapsed_time'', DDouble ?e), (''memory_usage_ipc'', DSize (word_of_nat (length xs * 8)))]"
  let ?o = "add_entries ?kvs (c_heap ?s) Info_new" and ?u = "?s\<lparr>c_heap := c_heap ?s + word_of_nat (length ?kvs)\<rparr>"
  have a: "side p q n ?u" using assms(1) by simp
  have p: "bindP (post i (?o, ())) F = F (?o, ())" for F :: "info \<times> unit \<Rightarrow> ('x communication_scheme, 'c talks) prog"
    using new_entries(2) [OF refl] by (intro post_io [OF assms(3)]) blast+
  have e: "bindP (Base_ExportData V i xs) F s = bindP (SendDataContainer V i xs)
      (\<lambda>e. bindP (localP (new_info [(''elapsed_time'', DDouble e), (''memory_usage_ipc'', DSize (word_of_nat (length xs * 8)))]))
        (\<lambda>o_info. bindP (post i (o_info, ())) F)) s" for F :: "info \<times> unit \<Rightarrow> ('x communication_scheme, 'c talks) prog"
    unfolding Base_ExportData_def export_io [OF c] Base_ExportDataImpl_def
    by (simp only: bindP_assoc get_io assms(2) if_False)
  show ?thesis
  proof (rule stream_sendsI [OF a, where r = "(?o, ())"])
    fix F :: "info \<times> unit \<Rightarrow> ('x communication_scheme, 'c talks) prog"
    note send_container [OF assms(1) assms(5), of i "\<lambda>e. bindP (localP (new_info [(''elapsed_time'', DDouble e),
       (''memory_usage_ipc'', DSize (word_of_nat (length xs * 8)))])) (\<lambda>o_info. bindP (post i (o_info, ())) F)",
       unfolded new_info_io p]
    then show "packs p n (frames 8 (length xs) (doubles_bytes (comm_big_endian s0) xs))
      (bindP (Base_ExportData V i xs) F s) (F (?o, ()) ?u)"
      unfolding e new_info_io .
  qed
qed

section \<open>Importing\<close>

definition stream_receives :: "path \<Rightarrow> path \<Rightarrow> nat \<Rightarrow> string list \<Rightarrow>
    (info \<times> 'c cargo \<Rightarrow> bool) \<Rightarrow> 'x communication_scheme \<Rightarrow>
    ('x communication_scheme, info \<times> 'c cargo) prog \<Rightarrow> bool" where
  "stream_receives p q n out good t m \<longleftrightarrow> (\<exists>v t'. side p q n t' \<and> good v \<and>
     (\<forall>G :: info \<times> 'c cargo \<Rightarrow> ('x communication_scheme, 'c talks) prog. unpacks q out (bindP m G t) (G v t')))"

lemma stream_receivesI:
  fixes m :: "('x communication_scheme, info \<times> 'c cargo) prog"
  assumes "side p q n t'" "good v"
    and "\<And>G :: info \<times> 'c cargo \<Rightarrow> ('x communication_scheme, 'c talks) prog. unpacks q out (bindP m G t) (G v t')"
  shows "stream_receives p q n out good t m"
  using assms unfolding stream_receives_def by blast

lemma receives_object:
  fixes m :: "('x communication_scheme, info \<times> 'c cargo) prog"
    and H :: "(info \<times> 'c cargo \<Rightarrow> ('x communication_scheme, 'c talks) prog) \<Rightarrow> info \<times> 'b \<Rightarrow>
      ('x communication_scheme, 'c talks) prog"
  assumes "side p q n t" "length d < 2 ^ 64" "d \<noteq> []"
    and l: "load (file_ser (t\<lparr>c_clock := c_clock t + 1\<rparr>) (d @ [nl])) = (Inr obj, ser)"
    and m: "\<And>G. bindP m G t = bindP (ReceiveObjectWithStreamSerializer V j load) (H G) t"
    and H: "\<And>o_info a b c k t1. side p q n t1 \<Longrightarrow> get_double o_info ''elapsed_time'' = Inr a \<Longrightarrow>
      get_double o_info ''elapsed_time_ipc'' = Inr b \<Longrightarrow> get_double o_info ''elapsed_time_serializer'' = Inr c \<Longrightarrow>
      get_size o_info ''memory_usage_ipc'' = Inr k \<Longrightarrow> Info_Has o_info ''elapsed_time'' \<Longrightarrow>
      Info_Has o_info ''memory_usage_ipc'' \<Longrightarrow>
      \<exists>v t2. side p q n t2 \<and> good v \<and> (\<forall>G. H G (o_info, obj) t1 = G v t2)"
  shows "stream_receives p q n (frames 1 (length d) d) good t m"
proof -
  let ?t = "t\<lparr>c_clock := c_clock t + 1\<rparr>"
  let ?u = "?t\<lparr>c_heap := mHeap ser\<rparr>"
  let ?v = "?u\<lparr>c_clock := c_clock ?u + 1\<rparr>"
  let ?e = "elapsed (c_machine t) (c_clock t)" and ?f = "elapsed (c_machine ?u) (c_clock ?u)"
  let ?kvs = "[(''elapsed_time'', DDouble (plus_dbl (c_machine ?v) ?e ?f)), (''elapsed_time_ipc'', DDouble ?e),
     (''elapsed_time_serializer'', DDouble ?f), (''memory_usage_ipc'', DSize (word_of_nat (length d)))]"
  let ?o = "add_entries ?kvs (c_heap ?v) Info_new" and ?w = "?v\<lparr>c_heap := c_heap ?v + word_of_nat (length ?kvs)\<rparr>"
  have w: "side p q n ?w" using assms(1) by simp
  have r: "bindP (retP x) F = F x" for x and F :: "info \<times> 'b \<Rightarrow> ('x communication_scheme, 'c talks) prog"
    by (simp add: fun_eq_iff ret_io)
  have c: "bindP (case_prod f x) F = (case x of (a, b) \<Rightarrow> bindP (f a b) F)"
    for f :: "'y \<Rightarrow> 'z \<Rightarrow> ('x communication_scheme, info \<times> 'b) prog" and x
      and F :: "info \<times> 'b \<Rightarrow> ('x communication_scheme, 'c talks) prog"
    by (simp add: split_def)
  obtain v t2 where v: "side p q n t2" "good v" "\<And>G. H G (?o, obj) ?w = G v t2"
    using H [OF w] four_entries [OF refl, of "plus_dbl (c_machine ?v) ?e ?f" ?e ?f "word_of_nat (length d)" "c_heap ?v"] by metis
  show ?thesis
  proof (rule stream_receivesI [where good = good, OF v(1,2)])
    fix G :: "info \<times> 'c cargo \<Rightarrow> ('x communication_scheme, 'c talks) prog"
    let ?R = "\<lambda>(elapsed_time_read, buffer). bindP (getP (\<lambda>c. load (file_ser c (buffer @ [nl])))) (\<lambda>(r, s).
        bindP (modP (\<lambda>c. c\<lparr>c_heap := mHeap s\<rparr>)) (\<lambda>_. bindP (liftP r) (\<lambda>obj.
        bindP (localP ElapsedSeconds) (\<lambda>elapsed_time_load. bindP (getP (\<lambda>c. plus_dbl (c_machine c))) (\<lambda>plus.
        bindP (localP (new_info [(''elapsed_time'', DDouble (plus elapsed_time_read elapsed_time_load)),
          (''elapsed_time_ipc'', DDouble elapsed_time_read), (''elapsed_time_serializer'', DDouble elapsed_time_load),
          (''memory_usage_ipc'', DSize (word_of_nat (length buffer)))])) (\<lambda>info. H G (info, obj)))))))"
    have e: "bindP (ReceiveObjectWithStreamSerializer V j load) (H G) t = bindP (ReceiveString V j) ?R t"
      unfolding ReceiveObjectWithStreamSerializer_def stream_ser_data thenP_def bindP_assoc c r ..
    have "?R (?e, d) ?t = G v t2"
      unfolding prod.case get_io l mod_io lift_fun clock_io new_info_io v(3) by (rule refl)
    then show "unpacks q (frames 1 (length d) d) (bindP m G t) (G v t2)"
      using receive_string [OF assms(1,2,3), of j ?R] unfolding m e by simp
  qed
qed

lemma stream_sends_cong:
  assumes "stream_sends p q n out s m'"
    and "\<And>F :: info \<times> unit \<Rightarrow> ('x communication_scheme, 'c talks) prog. bindP m F s = bindP m' F s"
  shows "stream_sends p q n out s m"
  using assms unfolding stream_sends_def by simp

lemma stream_sends_message:
  fixes m :: "'c message"
  assumes "side p q n s" "stream_good ok room s0 m" "message_fits fits s0 m"
  shows "stream_sends p q n (stream_packets frames s0 m) s (stream_export V m)"
proof (cases m)
  case (Data i j xs x0)
  obtain x where x: "get_string i ''identifier'' = Inr x" "CheckEntry x ''identifier'' = Inr ()"
    using assms(2) Data by (auto simp: stream_good_def good_message_def names_agree_def)
  have c: "CheckConnection i s = Inr ()"
    by (rule check_connection_ok [OF sideD(1) [OF assms(1)] x])
  show ?thesis
  proof (cases "mAlwaysUseSerializer s")
    case True
    obtain ser where ser: "save_object container_object_save ''object'' xs (stream_ser s :: unit ser) = (Inr (), ser)"
      "mBuffer ser = data_text ''object'' (plat (c_machine s0)) (mSerializerTraceType s0) xs"
      using container_saved [of "''object''" xs s] sideD(2,3) [OF assms(1)]
      by (auto simp: stream_ser_file data_text_def Let_def)
    have t: "stream_packets frames s0 m = frames 1 (length (mBuffer ser)) (mBuffer ser)" "fits 1 (mBuffer ser)"
      using True assms(3) sideD(4) [OF assms(1)] by (simp_all add: stream_packets_def element_size_def message_fits_def stream_frame_def Data ser(2) Let_def)
    have "bindP (stream_export V m) F s =
        bindP (with_checks i (no_result (SendObjectWithStreamSerializer V i (save_object container_object_save ''object'' xs)))) F s"
      for F :: "info \<times> unit \<Rightarrow> ('x communication_scheme, 'c talks) prog"
      unfolding stream_export_def Data message.case Base_ExportData_def export_io [OF c] Base_ExportDataImpl_def
      by (simp only: bindP_assoc get_io True if_True)
    then show ?thesis
      unfolding t(1) by (rule stream_sends_cong [OF sends_object [where save = "save_object container_object_save ''object'' xs",
              OF assms(1) ser(1) x t(2)]])
  next
    case False
    then have t: "stream_packets frames s0 m = frames 8 (length xs) (doubles_bytes (comm_big_endian s0) xs)"
      "fits 8 (doubles_bytes (comm_big_endian s0) xs)"
      using assms(3) sideD(4) [OF assms(1)] by (simp_all add: stream_packets_def element_size_def message_fits_def stream_frame_def Data Let_def)
    show ?thesis
      unfolding t(1) unfolding stream_export_def Data message.case by (rule sends_container [OF assms(1) False x t(2)])
  qed
next
  case (Settings i j)
  obtain x where x: "get_string i ''identifier'' = Inr x" "CheckEntry x ''identifier'' = Inr ()"
    and i: "distinct (entries_addrs i)"
    using assms(2) Settings by (auto simp: stream_good_def good_message_def names_agree_def)
  obtain ser where ser: "save_object Info_save ''object'' i (stream_ser s :: info_data ser) = (Inr (), ser)"
    "mBuffer ser = tag_out (plat (c_machine s0)) (mSerializerTraceType s0) ''object'' @ info_out (plat (c_machine s0)) (mSerializerTraceType s0) i"
    using info_saved [OF i, of "''object''" s] sideD(2,3) [OF assms(1)] by (auto simp: stream_ser_file Let_def)
  have t: "stream_packets frames s0 m = frames 1 (length (mBuffer ser)) (mBuffer ser)" "fits 1 (mBuffer ser)"
    using assms(3) by (simp_all add: stream_packets_def element_size_def message_fits_def stream_frame_def Settings ser(2) Let_def)
  show ?thesis
    unfolding t(1) unfolding stream_export_def Settings message.case Base_ExportInfo_def Base_ExportInfoImpl_def
    by (rule sends_object [where save = "save_object Info_save ''object'' i", OF assms(1) ser(1) x t(2)])
next
  case (Mesh i j p' q')
  obtain x where x: "get_string i ''identifier'' = Inr x" "CheckEntry x ''identifier'' = Inr ()"
    and p': "exportable (plat (c_machine s0)) (mSerializerTraceType s0) p'"
    using assms(2) Mesh by (auto simp: stream_good_def good_message_def names_agree_def)
  have quot: "quote \<notin> set ''object''" by (simp add: quote_def)
  obtain ser where ser: "save_object ModelPart_save ''object'' p' (stream_ser s :: mp_ser) = (Inr (), ser)"
    "mBuffer ser = mesh_text (plat (c_machine s0)) (mSerializerTraceType s0) ''object'' p'"
    using mesh_saved [OF p' quot, of "stream_ser s"] sideD(2,3) [OF assms(1)]
    by (auto simp: stream_ser_file file_ser_simps)
  have t: "stream_packets frames s0 m = frames 1 (length (mBuffer ser)) (mBuffer ser)" "fits 1 (mBuffer ser)"
    using assms(3) by (simp_all add: stream_packets_def element_size_def message_fits_def stream_frame_def Mesh ser(2) Let_def)
  show ?thesis
    unfolding t(1) unfolding stream_export_def Mesh message.case Base_ExportMesh_def Base_ExportMeshImpl_def
    by (rule sends_object [where save = "save_object ModelPart_save ''object'' p'", OF assms(1) ser(1) x t(2)])
qed

lemma stream_goes_on:
  assumes "side p q n t'" "good v" "\<And>G. X G = G v t'"
  shows "\<exists>v t'. side p q n t' \<and> good v \<and> (\<forall>G. X G = G v t')"
  using assms by blast

lemma stream_receives_data:
  assumes "side p q n t" "stream_good ok room s0 (Data i j xs x0)"
  shows "stream_receives p q n (stream_packets frames s0 (Data i j xs x0)) (stream_received K (Data i j xs x0)) t
     (stream_import V K (Data i j xs x0))"
proof -
  let ?m = "Data i j xs x0" and ?P = "plat (c_machine s0)" and ?T = "mSerializerTraceType s0"
  obtain x where x: "get_string j ''identifier'' = Inr x" "CheckEntry x ''identifier'' = Inr ()"
    and g: "length xs < 2 ^ 64" "ok x0" "room (length xs) x0" "fst (stream_frame s0 ?m) < 2 ^ 64"
    and exact: "mAlwaysUseSerializer s0 \<longrightarrow> ?T \<noteq> SERIALIZER_NO_TRACE \<longrightarrow> (\<forall>x \<in> set xs. prints_exactly ?P x)"
    using assms(2) by (auto simp: stream_good_def good_message_def names_agree_def)
  have c: "CheckConnection j t = Inr ()"
    by (rule check_connection_ok [OF sideD(1) [OF assms(1)] x])
  have rec: "stream_received K ?m (o_info, Values y)" if "k_elems K y = xs" for o_info y
    using that by (simp add: stream_received_def)
  show ?thesis
  proof (cases "mAlwaysUseSerializer t")
    case True
    let ?d = "data_text ''object'' ?P ?T xs" and ?t = "t\<lparr>c_clock := c_clock t + 1\<rparr>"
    have a: "mAlwaysUseSerializer s0" using True sideD(4) [OF assms(1)] by simp
    have e: "stream_packets frames s0 ?m = frames 1 (length ?d) ?d" "fst (stream_frame s0 ?m) = length ?d"
      using a by (simp_all add: stream_packets_def element_size_def stream_frame_def Let_def)
    have p: "?P = plat (c_machine ?t)" "?T = mSerializerTraceType ?t" using sideD(2,3) [OF assms(1)] by simp_all
    have ex: "?T \<noteq> SERIALIZER_NO_TRACE \<longrightarrow> (\<forall>x \<in> set xs. prints_exactly ?P x)" using exact a by simp
    have q: "quote \<notin> set ''object''" by (simp add: quote_def)
    obtain y ser where l: "load_object (container_object_load K x0) ''object'' (file_ser ?t (?d @ [nl])) = (Inr y, ser)"
      "k_elems K y = xs"
      using container_loaded_rest [OF sideD(6) [OF assms(1)] g(2,3,1) q p ex, of "[nl]"] by (auto simp: data_text_def)
    show ?thesis
      unfolding e(1)
    proof (rule receives_object [where good = "stream_received K ?m",
          OF assms(1) g(4) [unfolded e(2)] texts_nonempty(1) l(1) import_data_over(1) [OF c True]])
      fix o_info a b c k t1
      assume o: "side p q n t1" "get_double o_info ''elapsed_time'' = Inr a"
        "Info_Has o_info ''elapsed_time''" "Info_Has o_info ''memory_usage_ipc''"
      show "\<exists>v t2. side p q n t2 \<and> stream_received K ?m v \<and>
          (\<forall>G :: info \<times> 'c cargo \<Rightarrow> ('x communication_scheme, 'c talks) prog.
            bindP (post j (o_info, y)) (\<lambda>(r, x). G (r, Values x)) t1 = G v t2)"
        unfolding post_io [OF x(1) o(2-4)] prod.case
        by (rule stream_goes_on [where good = "stream_received K ?m", OF o(1) rec [OF l(2)]]) (rule refl)
    qed
  next
    case False
    let ?be = "comm_big_endian s0"
    have e: "stream_packets frames s0 ?m = frames 8 (length xs) (doubles_bytes ?be xs)"
      using False sideD(4) [OF assms(1)] by (simp add: stream_packets_def element_size_def stream_frame_def Let_def)
    obtain x1 x2 where f: "resized K (length xs) x0 = Inr x1" "length (k_elems K x1) = length xs" "stored K xs x1 = Inr x2"
      "k_elems K x2 = xs"
      using filled_in_steps [OF sideD(6) [OF assms(1)] g(2,3)] .
      let ?t = "t\<lparr>c_clock := c_clock t + 1\<rparr>" and ?e = "elapsed (c_machine t) (c_clock t)"
    let ?kvs = "[(''elapsed_time'', DDouble ?e), (''memory_usage_ipc'', DSize (word_of_nat (length xs * 8)))]"
    let ?o = "add_entries ?kvs (c_heap ?t) Info_new" and ?u = "?t\<lparr>c_heap := c_heap ?t + word_of_nat (length ?kvs)\<rparr>"
    have u: "side p q n ?u" using assms(1) by simp
    have po: "bindP (post j (?o, x2)) F = F (?o, x2)" for F :: "info \<times> 'c \<Rightarrow> ('x communication_scheme, 'c talks) prog"
      using new_entries(2) [OF refl] by (intro post_io [OF x(1)]) blast+
    show ?thesis
        unfolding e
    proof (rule stream_receivesI [where good = "stream_received K ?m", OF u rec [OF f(4)]])
      fix G :: "info \<times> 'c cargo \<Rightarrow> ('x communication_scheme, 'c talks) prog"
      let ?H = "\<lambda>(e, x). bindP (localP (new_info [(''elapsed_time'', DDouble e),
            (''memory_usage_ipc'', DSize (word_of_nat (length (k_elems K x) * 8)))]))
          (\<lambda>info. bindP (post j (info, x)) (\<lambda>(r, x). G (r, Values x)))"
      have "?H (?e, x2) ?t = G (?o, Values x2) ?u"
        unfolding prod.case new_info_io f(4) po by (rule refl)
      then show "unpacks q (frames 8 (length xs) (doubles_bytes ?be xs)) (bindP (stream_import V K ?m) G t) (G (?o, Values x2) ?u)"
        using receive_container [OF assms(1) g(1) f(1-3), of j ?H] unfolding import_data_over(2) [OF c False] by simp
    qed
  qed
qed

lemma stream_receives_info:
  assumes "side p q n t" "stream_good ok room s0 (Settings i j :: 'c message)"
  shows "stream_receives p q n (stream_packets frames s0 (Settings i j :: 'c message)) (stream_received K (Settings i j)) t
     (stream_import V K (Settings i j))"
proof -
  let ?m = "Settings i j :: 'c message" and ?P = "plat (c_machine s0)" and ?T = "mSerializerTraceType s0"
  let ?d = "tag_out ?P ?T ''object'' @ info_out ?P ?T i" and ?t = "t\<lparr>c_clock := c_clock t + 1\<rparr>"
  obtain x where x: "get_string j ''identifier'' = Inr x" "CheckEntry x ''identifier'' = Inr ()"
    and i: "info_wf i" "distinct (entries_addrs i)" "data_good ?P ?T (DInfo i)" "fst (stream_frame s0 ?m) < 2 ^ 64"
    using assms(2) by (auto simp: stream_good_def good_message_def names_agree_def)
  have c: "CheckConnection j t = Inr ()"
    by (rule check_connection_ok [OF sideD(1) [OF assms(1)] x])
  have e: "stream_packets frames s0 ?m = frames 1 (length ?d) ?d" "fst (stream_frame s0 ?m) = length ?d"
    by (simp_all add: stream_packets_def element_size_def stream_frame_def Let_def)
  have p: "?P = plat (c_machine ?t)" "?T = mSerializerTraceType ?t" using sideD(2,3) [OF assms(1)] by simp_all
  have q: "quote \<notin> set ''object''" by (simp add: quote_def)
  obtain i' ser where l: "load_object (Info_load []) ''object'' (file_ser ?t (tag_out ?P ?T ''object'' @ info_out ?P ?T i @ [nl])) = (Inr i', ser)"
    "entries_value i' = entries_value i"
    using info_loaded_rest [OF i(1-3) p q, of "[nl]"] by auto
  have l': "load_object (Info_load Info_new) ''object'' (file_ser ?t (?d @ [nl])) = (Inr i', ser)"
    using l(1) by (simp add: Info_new_def)
  let ?kvs = "\<lambda>a b c k. [(''elapsed_time'', DDouble a), (''elapsed_time_ipc'', DDouble b),
      (''elapsed_time_serializer'', DDouble c), (''memory_usage_ipc'', DSize k)]"
  have rec: "stream_received K ?m (add_entries (?kvs a b c k) h i', Nothing)" for a b c k h
  proof -
    have "map_option (\<lambda>(a, d). (0 :: addr, data_value d)) (smap_find i' x) =
        map_option (\<lambda>(a, d). (0, data_value d)) (smap_find i x)" for x
      using l(2) find_value [of i' x] find_value [of i x] by simp
    then show ?thesis
      by (simp add: stream_received_def measured_def info_abs_def Info_Set_def find_value smap_find_other)
  qed
  show ?thesis
    unfolding e(1)
  proof (rule receives_object [where good = "stream_received K ?m",
        OF assms(1) i(4) [unfolded e(2)] texts_nonempty(2) l' import_info_over [OF c]])
    fix o_info a b c k t1
    assume o: "side p q n t1" "get_double o_info ''elapsed_time'' = Inr a"
      "get_double o_info ''elapsed_time_ipc'' = Inr b" "get_double o_info ''elapsed_time_serializer'' = Inr c"
      "get_size o_info ''memory_usage_ipc'' = Inr k"
    have po: "bindP (post j (add_entries (?kvs a b c k) h i', ())) F = F (add_entries (?kvs a b c k) h i', ())"
      for h and F :: "info \<times> unit \<Rightarrow> ('x communication_scheme, 'c talks) prog"
      using timed_entries4 [OF refl] by (intro post_io [OF x(1)]) blast+
    have n: "side p q n (t1\<lparr>c_heap := h\<rparr>)" for h using o(1) by simp
    show "\<exists>v t2. side p q n t2 \<and> stream_received K ?m v \<and>
        (\<forall>G :: info \<times> 'c cargo \<Rightarrow> ('x communication_scheme, 'c talks) prog.
          (case (o_info, i') of (rec_info, imported_info) \<Rightarrow>
           bindP (liftP (get_double rec_info ''elapsed_time'')) (\<lambda>t.
           bindP (liftP (get_double rec_info ''elapsed_time_ipc'')) (\<lambda>t_ipc.
           bindP (liftP (get_double rec_info ''elapsed_time_serializer'')) (\<lambda>t_ser.
           bindP (liftP (get_size rec_info ''memory_usage_ipc'')) (\<lambda>mem.
           bindP (localP (set_entries (?kvs t t_ipc t_ser mem) imported_info))
             (\<lambda>i. bindP (post j (i, ())) (\<lambda>(r, _). G (r, Nothing)))))))) t1 = G v t2)"
      unfolding prod.case o(2-5) lift_fun new_info_io po
      by (rule stream_goes_on [where good = "stream_received K ?m", OF n rec]) (rule refl)
  qed
qed

lemma stream_receives_mesh:
  assumes "side p q n t" "stream_good ok room s0 (Mesh i j x y :: 'c message)"
  shows "stream_receives p q n (stream_packets frames s0 (Mesh i j x y :: 'c message)) (stream_received K (Mesh i j x y)) t
     (stream_import V K (Mesh i j x y))"
proof -
  let ?m = "Mesh i j x y :: 'c message" and ?P = "plat (c_machine s0)" and ?T = "mSerializerTraceType s0"
  let ?d = "mesh_text ?P ?T ''object'' x" and ?t = "t\<lparr>c_clock := c_clock t + 1\<rparr>"
  obtain n' where n: "get_string j ''identifier'' = Inr n'" "CheckEntry n' ''identifier'' = Inr ()"
    and x: "exportable ?P ?T x" "level_target y" "fst (stream_frame s0 ?m) < 2 ^ 64"
    using assms(2) by (auto simp: stream_good_def good_message_def names_agree_def)
  have c: "CheckConnection j t = Inr ()"
    by (rule check_connection_ok [OF sideD(1) [OF assms(1)] n])
  have e: "stream_packets frames s0 ?m = frames 1 (length ?d) ?d" "fst (stream_frame s0 ?m) = length ?d"
    by (simp_all add: stream_packets_def element_size_def stream_frame_def Let_def)
  have quot: "quote \<notin> set ''object''" by (simp add: quote_def)
  obtain x' ser where l: "load_object (ModelPart_load y) ''object'' (file_ser ?t (?d @ [nl])) = (Inr x', ser)"
    "same_mesh x x'"
    using mesh_loaded [OF x(1,2) quot, of "file_ser ?t (?d @ [nl])" "[nl]"] sideD(2,3) [OF assms(1)]
    by (auto simp: file_ser_simps)
  have rec: "stream_received K ?m (o_info, Part x')" for o_info using l(2) by (simp add: stream_received_def)
  show ?thesis
    unfolding e(1)
  proof (rule receives_object [where good = "stream_received K ?m",
        OF assms(1) x(3) [unfolded e(2)] mesh_text_nonempty [OF x(1) quot] l(1) import_mesh_over [OF c]])
    fix o_info a b c k t1
    assume o: "side p q n t1" "get_double o_info ''elapsed_time'' = Inr a"
      "Info_Has o_info ''elapsed_time''" "Info_Has o_info ''memory_usage_ipc''"
    show "\<exists>v t2. side p q n t2 \<and> stream_received K ?m v \<and>
        (\<forall>G :: info \<times> 'c cargo \<Rightarrow> ('x communication_scheme, 'c talks) prog.
          bindP (post j (o_info, x')) (\<lambda>(r, x). G (r, Part x)) t1 = G v t2)"
      unfolding post_io [OF n(1) o(2-4)] prod.case
      by (rule stream_goes_on [where good = "stream_received K ?m", OF o(1) rec]) (rule refl)
  qed
qed

section \<open>The channel\<close>

lemma steady_local [steady_intros]:
  "steadyP p (side p' q n) (localP ElapsedSeconds)"
  "steadyP p (side p' q n) (localP (new_info kvs))"
  "steadyP p (side p' q n) (localP (set_entries kvs i))"
  by (auto intro!: steadyP_local side_step simp: ElapsedSeconds_def new_info_def set_entries_def)

lemma steady_heap [steady_intros]: "steadyP p (side p' q n) (modP (\<lambda>c. c\<lparr>c_heap := f c\<rparr>))"
  by (rule steadyP_mod) (rule side_step)

lemma steady_export:
  assumes "p \<noteq> q"
  shows "steadyP p (side p q n) (stream_export V m)"
proof -
  have o: "steadyP p (side p q n) (SendObjectWithStreamSerializer V i save)" for i save
    unfolding SendObjectWithStreamSerializer_def thenP_def
    by (auto intro!: steady_intros steady_methods assms)
  show ?thesis
    unfolding stream_export_def Base_ExportData_def Base_ExportInfo_def Base_ExportMesh_def with_checks_post no_result_def
      Base_ExportDataImpl_def Base_ExportInfoImpl_def Base_ExportMeshImpl_def post_def
    by (cases m) (auto intro!: steady_intros steady_methods assms o)
qed

lemma steady_import:
  assumes "p \<noteq> q"
  shows "steadyP p (side p q n) (stream_import V K m)"
proof -
  have o: "steadyP p (side p q n) (ReceiveObjectWithStreamSerializer V i load)" for i load
    unfolding ReceiveObjectWithStreamSerializer_def thenP_def
    by (auto intro!: steady_intros steady_methods assms)
  show ?thesis
    unfolding stream_import_def Base_ImportData_def Base_ImportInfo_def Base_ImportMesh_def with_checks_post no_result_def
      Base_ImportDataImpl_def Base_ImportInfoImpl_def Base_ImportMeshImpl_def post_def
    by (cases m) (auto intro!: steady_intros steady_methods assms o)
qed

end

sublocale stream_methods \<subseteq> stream_channel "stream_export V" "stream_import V K" "stream_packets frames s0" side
  "\<lambda>m. stream_good ok room s0 m \<and> message_fits fits s0 m" "stream_received K"
proof unfold_locales
  show "\<exists>r s'. side p q n s' \<and> (\<forall>F. packs p n (stream_packets frames s0 m) (bindP (stream_export V m) F s :: ((error + 'c talks) \<times> 'x communication_scheme) io) (F r s'))"
    if "side p q n s" "stream_good ok room s0 m \<and> message_fits fits s0 m" for p q n s m
    using stream_sends_message [OF that(1)] that(2) unfolding stream_sends_def by blast
  show "\<exists>v t'. side p q n t' \<and> stream_received K m v \<and>
      (\<forall>G. unpacks q (stream_packets frames s0 m) (bindP (stream_import V K m) G t :: ((error + 'c talks) \<times> 'x communication_scheme) io) (G v t'))"
    if "side p q n t" "stream_good ok room s0 m \<and> message_fits fits s0 m" for p q n t m
    using stream_receives_data [OF that(1)] stream_receives_info [OF that(1)]
      stream_receives_mesh [OF that(1)] that(2)
    unfolding stream_receives_def by (cases m) simp_all
  show "\<forall>c \<in> set (stream_packets frames s0 m). c \<noteq> [] \<and> length c \<le> n"
    if "side p q n s" "stream_good ok room s0 m \<and> message_fits fits s0 m" for p q n s m
    using frames_fit [OF that(1), of "element_size s0 m"] that(2) element_sizes unfolding stream_packets_def message_fits_def
    by blast
qed (rule steady_export steady_import; assumption)+

section \<open>Conversations\<close>

definition stream_converse :: "('x communication_scheme, 'c) methods \<Rightarrow> 'c container \<Rightarrow> 'c message turn list \<Rightarrow>
    ('x communication_scheme, 'c talks) prog" where
  "stream_converse V K ts = each (take_turn (stream_export V) (stream_import V K)) ts"

definition no_call_returns :: "'a io \<times> 'b io \<times> world \<Rightarrow> bool" where
  "no_call_returns s \<longleftrightarrow> (\<exists>e. ends s e) \<and> (\<forall>x y w. ends s (x, y, w) \<longrightarrow> (\<forall>v. x \<noteq> Done v) \<and> (\<forall>v. y \<noteq> Done v))"

context stream_methods
begin

lemma conversation:
  assumes "side p q n s" "side q p n' t" "p \<noteq> q" "quiet p w" "quiet q w"
    and "\<forall>x \<in> set ts. stream_good ok room s0 (message_of x) \<and> message_fits fits s0 (message_of x)"
  shows "\<exists>rs vs s' t'. every_run_ends (stream_converse V K ts s, stream_converse V K (map other_side ts) t, w)
       (Done (Inr rs, s'), Done (Inr vs, t'), w) \<and>
     list_all2 (took (stream_received K)) ts rs \<and> list_all2 (took (stream_received K)) (map other_side ts) vs \<and>
     side p q n s' \<and> side q p n' t'"
proof -
  have calm: "calm p q n (retP :: 'c talks \<Rightarrow> ('x communication_scheme, 'c talks) prog)" for p q n
    by (simp add: calm_def retP_def)
  obtain rs vs s' t' where r: "list_all2 (took (stream_received K)) ts rs"
    "list_all2 (took (stream_received K)) (map other_side ts) vs" "side p q n s'" "side q p n' t'"
    "leads (stream_converse V K ts s, stream_converse V K (map other_side ts) t, w) (retP rs s', retP vs t', w)"
    using all_turns [OF assms(1-6) calm calm] unfolding bindP_ret stream_converse_def by blast
  then show ?thesis using every_runI [OF r(5) [unfolded retP_def]] by blast
qed

text \<open>Both sides send first, more than the streams hold.\<close>

lemma both_send:
  assumes "side p q n s" "side q p n' t" "p \<noteq> q" "quiet p w" "quiet q w"
    and "stream_good ok room s0 m \<and> message_fits fits s0 m" "stream_good ok room s0 m' \<and> message_fits fits s0 m'"
    and "n < length (concat (stream_packets frames s0 m))" "n' < length (concat (stream_packets frames s0 m'))"
  shows "no_call_returns (stream_converse V K (Forth m # ts) s, stream_converse V K (Forth m' # ts') t, w)"
proof -
  have "\<exists>F. stream_converse V K (Forth m # ts) s = bindP (stream_export V m) F s" for m ts s
    using talk_io(2) [of m ts retP s] unfolding bindP_ret stream_converse_def by blast
  then obtain F G where F: "stream_converse V K (Forth m # ts) s = bindP (stream_export V m) F s"
    and G: "stream_converse V K (Forth m' # ts') t = bindP (stream_export V m') G t" by metis
  obtain r1 s1 r2 t1 where "packs p n (stream_packets frames s0 m) (bindP (stream_export V m) F s) (F r1 s1)"
    "packs q n' (stream_packets frames s0 m') (bindP (stream_export V m') G t) (G r2 t1)"
    using send [OF assms(1,6)] send [OF assms(2,7)] by metis
  then have "writing p n (bindP (stream_export V m) F s) w" "writing q n' (bindP (stream_export V m') G t) w"
    using writing_start assms(4,5,8,9) by blast+
  then have w: "writing p n x w' \<and> writing q n' y w'"
    if "ends (bindP (stream_export V m) F s, bindP (stream_export V m') G t, w) (x, y, w')" for x y w'
    using two_writers [OF _ _ assms(3) that] by blast
  show ?thesis
    unfolding no_call_returns_def F G
  proof (intro conjI allI impI)
    show "\<exists>e. ends (bindP (stream_export V m) F s, bindP (stream_export V m') G t, w) e"
      using reaches_stuck unfolding ends_def by blast
  next
    fix x y w' v
    assume "ends (bindP (stream_export V m) F s, bindP (stream_export V m') G t, w) (x, y, w')"
    note w [OF this]
    then show "x \<noteq> Done v" "y \<noteq> Done v" using writing_not_done by metis+
  qed
qed

end

end
