(* ===== verification/SocketTransfers.thy ===== *)
theory SocketTransfers
  imports StreamTransfers
begin

text \<open>
  The sockets provide the streams: every byte is a packet of its own, and what one side writes with its
  virtual functions the other one reads.
\<close>

section \<open>The two sides\<close>

definition over_sockets :: "('x base_socket_communication_scheme, 'c) methods \<Rightarrow> 'c container \<Rightarrow> bool" where
  "over_sockets V K \<longleftrightarrow> SendString V = Socket_SendString \<and> ReceiveString V = Socket_ReceiveString \<and>
     SendDataContainer V = Socket_SendDataContainer \<and> ReceiveDataContainer V = Socket_ReceiveDataContainer K"

lemma both_over_sockets:
  "over_sockets (socket_methods N K) K" "over_sockets (local_socket_methods room K) K"
  by (simp_all add: over_sockets_def socket_methods_def local_socket_methods_def)

definition at_socket :: "'x base_socket_communication_scheme \<Rightarrow> path \<Rightarrow> path \<Rightarrow> nat \<Rightarrow>
    'x base_socket_communication_scheme \<Rightarrow> bool" where
  "at_socket s0 p q n s \<longleftrightarrow> 0 < n \<and> agrees s0 s \<and> mpAsioSocket s = Some \<lparr>s_out = p, s_in = q, s_room = n\<rparr>"

lemma at_socket_step [simp]:
  "at_socket s0 p q n (s\<lparr>c_heap := h\<rparr>) = at_socket s0 p q n s"
  "at_socket s0 p q n (s\<lparr>c_clock := k\<rparr>) = at_socket s0 p q n s"
  by (simp_all add: at_socket_def agrees_def)

lemma at_socketD:
  assumes "at_socket s0 p q n s"
  shows "mpAsioSocket s = Some \<lparr>s_out = p, s_in = q, s_room = n\<rparr>" "mIsConnected s"
    "plat (c_machine s) = plat (c_machine s0)" "mSerializerTraceType s = mSerializerTraceType s0"
    "mAlwaysUseSerializer s = mAlwaysUseSerializer s0" "comm_big_endian s = comm_big_endian s0"
  using assms by (simp_all add: at_socket_def agrees_def comm_big_endian_def)

lemma with_socket_io:
  "mpAsioSocket s = Some S \<Longrightarrow> bindP (with_socket m) F s = bindP (m S) F s"
  by (simp add: with_socket_def prog_io)

section \<open>What is written\<close>

lemma puts_size:
  assumes "at_socket s0 p q n s"
  shows "packs p n (singles (object_bytes (comm_big_endian s0) 8 x)) (bindP (SendSize x) F s) (F () s)"
  using puts_write [of p n "object_bytes (comm_big_endian s0) 8 x" stream_error F s]
  unfolding SendSize_def bindP_assoc get_io with_socket_io [OF at_socketD(1) [OF assms]] at_socketD(6) [OF assms]
  by simp

lemma puts_bytes:
  assumes "at_socket s0 p q n s"
  shows "packs p n (singles bytes) (bindP (with_socket (\<lambda>S. write_stream (s_out S) (s_room S) bytes)) F s) (F () s)"
  using puts_write [of p n bytes stream_error F s] unfolding with_socket_io [OF at_socketD(1) [OF assms]] by simp

lemma puts_framed:
  assumes "at_socket s0 p q n s"
  shows "packs p n (singles (framed (comm_big_endian s0) k bytes)) (bindP (SendSize (word_of_nat k))
     (\<lambda>_. bindP (with_socket (\<lambda>S. write_stream (s_out S) (s_room S) bytes)) F) s) (F () s)"
  unfolding framed_def map_append
  by (rule packs_append [OF puts_size [OF assms, where F = "\<lambda>_. bindP (with_socket (\<lambda>S. write_stream (s_out S) (s_room S) bytes)) F"]
        puts_bytes [OF assms, where F = F]])

lemma puts_string:
  assumes "at_socket s0 p q n s"
  shows "packs p n (singles (framed (comm_big_endian s0) (length d) d)) (bindP (Socket_SendString i d) F s)
     (F (elapsed (c_machine s) (c_clock s)) (s\<lparr>c_clock := c_clock s + 1\<rparr>))"
  using puts_framed [OF assms, of "length d" d "\<lambda>_. bindP (localP ElapsedSeconds) F"]
  unfolding Socket_SendString_def thenP_def bindP_assoc clock_io .

lemma puts_container:
  assumes "at_socket s0 p q n s"
  shows "packs p n (singles (framed (comm_big_endian s0) (length xs) (doubles_bytes (comm_big_endian s0) xs)))
     (bindP (Socket_SendDataContainer i xs) F s) (F (elapsed (c_machine s) (c_clock s)) (s\<lparr>c_clock := c_clock s + 1\<rparr>))"
proof -
  let ?W = "\<lambda>be. bindP (with_socket (\<lambda>S. write_stream (s_out S) (s_room S) (doubles_bytes be xs))) (\<lambda>_. bindP (localP ElapsedSeconds) F)"
  have "packs p n (singles (doubles_bytes (comm_big_endian s0) xs)) (bindP (getP comm_big_endian) ?W s)
      (F (elapsed (c_machine s) (c_clock s)) (s\<lparr>c_clock := c_clock s + 1\<rparr>))"
    using puts_bytes [OF assms, of "doubles_bytes (comm_big_endian s0) xs" "\<lambda>_. bindP (localP ElapsedSeconds) F"]
    unfolding get_io at_socketD(6) [OF assms] clock_io .
  from packs_append [OF puts_size [OF assms, where F = "\<lambda>_. bindP (getP comm_big_endian) ?W"] this]
  show ?thesis unfolding framed_def map_append Socket_SendDataContainer_def thenP_def bindP_assoc .
qed

section \<open>What is read\<close>

lemma gets_bytes:
  assumes "at_socket s0 p q n s" "length bytes = k"
  shows "unpacks q (singles bytes) (bindP (with_socket (\<lambda>S. read_stream (s_in S) k)) F s) (F bytes s)"
  using gets_read [of q bytes F s] assms(2) unfolding with_socket_io [OF at_socketD(1) [OF assms(1)]] by simp

lemma gets_size:
  assumes "at_socket s0 p q n s"
  shows "unpacks q (singles (object_bytes (comm_big_endian s0) 8 x)) (bindP ReceiveSize F s) (F x s)"
proof -
  have r: "bindP (retP x) F = F x" for x by (simp add: fun_eq_iff ret_io)
  have v: "(object_value (comm_big_endian s0) (object_bytes (comm_big_endian s0) 8 x) :: u64) = x"
    by (simp add: object_roundtrip)
  have "unpacks q (singles (object_bytes (comm_big_endian s0) 8 x))
      (bindP (read_stream q 8) (\<lambda>bytes. F (object_value (comm_big_endian s0) bytes)) s) (F x s)"
    using gets_read [of q "object_bytes (comm_big_endian s0) 8 x" "\<lambda>bytes. F (object_value (comm_big_endian s0) bytes)" s]
    unfolding v length_object_bytes .
  then show ?thesis
    unfolding ReceiveSize_def bindP_assoc get_io with_socket_io [OF at_socketD(1) [OF assms]] at_socketD(6) [OF assms]
      asio_socket.simps r .
qed

lemma gets_string:
  assumes "at_socket s0 p q n s" "length d < 2 ^ 64" "d \<noteq> []"
  shows "unpacks q (singles (framed (comm_big_endian s0) (length d) d)) (bindP (Socket_ReceiveString i) F s)
     (F (elapsed (c_machine s) (c_clock s), d) (s\<lparr>c_clock := c_clock s + 1\<rparr>))"
proof -
  have u: "unat (word_of_nat (length d) :: u64) = length d" using assms(2) by (simp add: unat_word_of_nat)
  have z: "(word_of_nat (length d) :: u64) \<noteq> 0" using u assms(3) by (metis length_0_conv unat_0)
  have r: "bindP (retP x) F = F x" for x by (simp add: fun_eq_iff ret_io)
  let ?E = "\<lambda>rData. bindP (localP ElapsedSeconds) (\<lambda>elapsed_time. F (elapsed_time, rData))"
  let ?R = "\<lambda>received_size :: u64. bindP (checkP (received_size = 0) (UndefinedBehaviour ''front of an empty string''))
    (\<lambda>_. bindP (with_socket (\<lambda>S. read_stream (s_in S) (unat received_size))) ?E)"
  have "unpacks q (singles d) (?R (word_of_nat (length d)) s) (F (elapsed (c_machine s) (c_clock s), d) (s\<lparr>c_clock := c_clock s + 1\<rparr>))"
    using gets_bytes [OF assms(1) refl, of d ?E] z unfolding u check_io clock_io by simp
  from unpacks_append [OF gets_size [OF assms(1), where F = ?R] this]
  show ?thesis unfolding framed_def map_append Socket_ReceiveString_def thenP_def bindP_assoc r .
qed

lemma gets_container:
  assumes "at_socket s0 p q n s" "length xs < 2 ^ 64"
    and "resized K (length xs) x0 = Inr x1" "length (k_elems K x1) = length xs" "stored K xs x1 = Inr x2"
  shows "unpacks q (singles (framed (comm_big_endian s0) (length xs) (doubles_bytes (comm_big_endian s0) xs)))
     (bindP (Socket_ReceiveDataContainer K i x0) F s)
     (F (elapsed (c_machine s) (c_clock s), x2) (s\<lparr>c_clock := c_clock s + 1\<rparr>))"
proof -
  let ?be = "comm_big_endian s0"
  have u: "unat (word_of_nat (length xs) :: u64) = length xs" using assms(2) by (simp add: unat_word_of_nat)
  have r: "bindP (retP x) F = F x" for x by (simp add: fun_eq_iff ret_io)
  have l: "length (doubles_bytes ?be xs) = length xs * 8" by (rule length_doubles_bytes)
  let ?S = "\<lambda>be n x bytes. bindP (liftP (stored K (bytes_doubles be n bytes) x)) (\<lambda>rData.
      bindP (localP ElapsedSeconds) (\<lambda>elapsed_time. F (elapsed_time, rData)))"
  let ?R = "\<lambda>received_size :: u64. bindP (liftP (resized K (unat received_size) x0)) (\<lambda>rData.
      bindP (getP comm_big_endian) (\<lambda>be. bindP (with_socket (\<lambda>S. read_stream (s_in S) (length (k_elems K rData) * 8)))
        (?S be (length (k_elems K rData)) rData)))"
  have "unpacks q (singles (doubles_bytes ?be xs)) (?R (word_of_nat (length xs)) s)
      (F (elapsed (c_machine s) (c_clock s), x2) (s\<lparr>c_clock := c_clock s + 1\<rparr>))"
    using gets_bytes [OF assms(1) l, of "?S ?be (length xs) x1"]
    unfolding u lift_fun assms(3-5) get_io at_socketD(6) [OF assms(1)] bytes_doubles_inverse clock_io .
  from unpacks_append [OF gets_size [OF assms(1), where F = ?R] this]
  show ?thesis unfolding framed_def map_append Socket_ReceiveDataContainer_def Let_def thenP_def bindP_assoc r .
qed

section \<open>The channel of a connection\<close>

lemma steady_with_socket:
  assumes "steadyP p (at_socket s0 p' q n) (m \<lparr>s_out = p', s_in = q, s_room = n\<rparr>)"
  shows "steadyP p (at_socket s0 p' q n) (with_socket m)"
  using assms unfolding steadyP_def with_socket_def
  by (auto simp: get_io at_socketD(1))

lemma steady_elapsed: "steadyP p (at_socket s0 p' q n) (localP ElapsedSeconds)"
  by (auto intro!: steadyP_local simp: ElapsedSeconds_def)

lemmas socket_steady = steady_intros steady_with_socket steady_elapsed

lemma steady_socket:
  "steadyP p (at_socket s0 p q n) (Socket_SendString i d)" "steadyP p (at_socket s0 p q n) (Socket_SendDataContainer i xs)"
  "p \<noteq> q \<Longrightarrow> steadyP p (at_socket s0 p q n) (Socket_ReceiveString i)"
  "p \<noteq> q \<Longrightarrow> steadyP p (at_socket s0 p q n) (Socket_ReceiveDataContainer K i x)"
  unfolding Socket_SendString_def Socket_SendDataContainer_def Socket_ReceiveString_def Socket_ReceiveDataContainer_def
    SendSize_def ReceiveSize_def Let_def
  by (auto intro!: socket_steady)

definition socket_side :: "('x base_socket_communication_scheme, 'c) methods \<Rightarrow> 'c container \<Rightarrow> ('c \<Rightarrow> bool) \<Rightarrow> (nat \<Rightarrow> 'c \<Rightarrow> bool) \<Rightarrow>
    'x base_socket_communication_scheme \<Rightarrow> path \<Rightarrow> path \<Rightarrow> nat \<Rightarrow> 'x base_socket_communication_scheme \<Rightarrow> bool" where
  "socket_side V K ok room s0 p q n s \<longleftrightarrow> over_sockets V K \<and> usable K ok room \<and> at_socket s0 p q n s"

lemma steady_side: "(over_sockets V K \<Longrightarrow> steadyP p' (at_socket s0 p q n) m) \<Longrightarrow> steadyP p' (socket_side V K ok room s0 p q n) m"
  unfolding steadyP_def socket_side_def by auto

definition byte_frames :: "bool \<Rightarrow> nat \<Rightarrow> nat \<Rightarrow> string \<Rightarrow> string list" where
  "byte_frames be k l bytes = singles (framed be l bytes)"

interpretation sockets: stream_methods V K s0 "socket_side V K ok room s0" "byte_frames (comm_big_endian s0)" "\<lambda>_ _. True" ok room
  for V :: "('x base_socket_communication_scheme, 'c) methods" and K ok room s0
proof (unfold_locales, unfold byte_frames_def)
  fix p q n s h k
  assume "socket_side V K ok room s0 p q n s"
  then show "agrees s0 s \<and> usable K ok room" "socket_side V K ok room s0 p q n (s\<lparr>c_heap := h\<rparr>)"
    "socket_side V K ok room s0 p q n (s\<lparr>c_clock := k\<rparr>)"
    by (simp_all add: socket_side_def) (simp add: at_socket_def)
next
  fix p q n s c and k l :: nat and bs
  assume "socket_side V K ok room s0 p q n s" "c \<in> set (singles (framed (comm_big_endian s0) l bs))"
  then show "c \<noteq> [] \<and> length c \<le> n" by (auto simp: socket_side_def at_socket_def)
next
  fix p q n s i xs F and d :: string
  assume "socket_side V K ok room s0 p q n s"
  then have a: "at_socket s0 p q n s" "SendString V = Socket_SendString" "SendDataContainer V = Socket_SendDataContainer"
    by (simp_all add: socket_side_def over_sockets_def)
  show "packs p n (singles (framed (comm_big_endian s0) (length d) d))
      (bindP (SendString V i d) F s :: ((error + 'c talks) \<times> 'x base_socket_communication_scheme) io)
      (F (elapsed (c_machine s) (c_clock s)) (s\<lparr>c_clock := c_clock s + 1\<rparr>))"
    unfolding a(2) by (rule puts_string [OF a(1)])
  show "packs p n (singles (framed (comm_big_endian s0) (length xs) (doubles_bytes (comm_big_endian s0) xs)))
      (bindP (SendDataContainer V i xs) F s :: ((error + 'c talks) \<times> 'x base_socket_communication_scheme) io)
      (F (elapsed (c_machine s) (c_clock s)) (s\<lparr>c_clock := c_clock s + 1\<rparr>))"
    unfolding a(3) by (rule puts_container [OF a(1)])
next
  fix p q n s i G and d :: string
  assume "socket_side V K ok room s0 p q n s" and d: "length d < 2 ^ 64" "d \<noteq> []"
  then have a: "at_socket s0 p q n s" "ReceiveString V = Socket_ReceiveString"
    by (simp_all add: socket_side_def over_sockets_def)
  show "unpacks q (singles (framed (comm_big_endian s0) (length d) d))
      (bindP (ReceiveString V i) G s :: ((error + 'c talks) \<times> 'x base_socket_communication_scheme) io)
      (G (elapsed (c_machine s) (c_clock s), d) (s\<lparr>c_clock := c_clock s + 1\<rparr>))"
    unfolding a(2) by (rule gets_string [OF a(1) d])
next
  fix p q n s i x0 x1 x2 H and xs :: "dbl list"
  assume "socket_side V K ok room s0 p q n s" and x: "length xs < 2 ^ 64" "resized K (length xs) x0 = Inr x1"
    "length (k_elems K x1) = length xs" "stored K xs x1 = Inr x2"
  then have a: "at_socket s0 p q n s" "ReceiveDataContainer V = Socket_ReceiveDataContainer K"
    by (simp_all add: socket_side_def over_sockets_def)
  show "unpacks q (singles (framed (comm_big_endian s0) (length xs) (doubles_bytes (comm_big_endian s0) xs)))
      (bindP (ReceiveDataContainer V i x0) H s :: ((error + 'c talks) \<times> 'x base_socket_communication_scheme) io)
      (H (elapsed (c_machine s) (c_clock s), x2) (s\<lparr>c_clock := c_clock s + 1\<rparr>))"
    unfolding a(2) by (rule gets_container [OF a(1) x])
qed (rule steady_side, simp add: over_sockets_def steady_socket)+

end
