(* ===== verification/SocketExchanges.thy ===== *)
theory SocketExchanges
  imports SocketTransfers
begin

text \<open>
  Conversations through sockets: in an agreed order every message arrives, whatever the sizes of the
  messages and of the buffers of the system; when both sides send first, more than the buffers hold,
  they wait for each other for ever.
\<close>

section \<open>Properties\<close>

text \<open>The server and the client of a connection, with buffers of any size.\<close>

definition joined :: "path \<Rightarrow> 'x base_socket_communication_scheme \<Rightarrow> 'x base_socket_communication_scheme \<Rightarrow> bool" where
  "joined e s t \<longleftrightarrow> mIsConnected s \<and> agrees s t \<and> (\<exists>n n'. 0 < n \<and> 0 < n' \<and>
     mpAsioSocket s = Some (server_socket n e) \<and> mpAsioSocket t = Some (client_socket n' e))"

definition empty_streams :: "path \<Rightarrow> world \<Rightarrow> bool" where
  "empty_streams e w \<longleftrightarrow> quiet (to_client e) w \<and> quiet (to_server e) w"

lemma joinedD:
  assumes "joined e s t"
  obtains n n' where "at_socket s (to_client e) (to_server e) n s" "at_socket s (to_server e) (to_client e) n' t"
  using assms unfolding joined_def at_socket_def server_socket_def client_socket_def agrees_def by auto

lemma directions: "to_client e \<noteq> to_server e"
  by (simp add: to_client_def to_server_def)

text \<open>
  Property C6. Two partners connected by sockets, over TCP or within a machine, converse: each exports and
  imports field data, meshes and \<open>Info\<close> objects in an agreed order, in both directions and under any
  identifiers. However the bytes are scheduled and however small the buffers of the system are, no run
  blocks or goes on for ever, no call fails, and all runs end in the same way: every import has received
  exactly what the matching export sent (of a mesh, a well-formed part with the same mesh), both sides are still connected and the streams are empty.
\<close>

theorem socket_conversation_arrives:
  fixes V :: "('x base_socket_communication_scheme, 'c) methods"
  assumes "over_sockets V K" "usable K ok room" "joined e s t" "empty_streams e w"
    and "\<forall>x \<in> set ts. stream_good ok room s (message_of x)"
  shows "\<exists>rs vs s' t'. every_run_ends (stream_converse V K ts s, stream_converse V K (map other_side ts) t, w)
       (Done (Inr rs, s'), Done (Inr vs, t'), w) \<and>
     list_all2 (took (stream_received K)) ts rs \<and> list_all2 (took (stream_received K)) (map other_side ts) vs \<and>
     mIsConnected s' \<and> mIsConnected t'"
proof -
  obtain n n' where n: "at_socket s (to_client e) (to_server e) n s" "at_socket s (to_server e) (to_client e) n' t"
    using joinedD [OF assms(3)] .
  then have side: "socket_side V K ok room s (to_client e) (to_server e) n s" "socket_side V K ok room s (to_server e) (to_client e) n' t"
    using assms(1,2) by (simp_all add: socket_side_def)
  have q: "quiet (to_client e) w" "quiet (to_server e) w" using assms(4) by (simp_all add: empty_streams_def)
  have c: "mIsConnected s'" if "socket_side V K ok room s p q n s'" for p q n s'
    using sockets.sideD(1) [OF that] .
  show ?thesis
    using sockets.conversation [OF side directions q] assms(5) c by (metis message_fits_def)
qed

definition sample_network :: network where
  "sample_network = \<lparr>n_addresses = Some [(''lo'', LOCAL_IP_ADDRESS)], n_valid = (\<lambda>ip. ip = LOCAL_IP_ADDRESS),
     n_local = (\<lambda>ip. ip = LOCAL_IP_ADDRESS), n_free_port = (\<lambda>_ _. 40000), n_room = 16,
     n_ranks = (\<lambda>_. \<lparr>PortNumber = 0, IpAddress = []\<rparr>)\<rparr>"

definition sample_tcp :: "string \<Rightarrow> string \<Rightarrow> bool \<Rightarrow> asio_socket \<Rightarrow> socket_communication" where
  "sample_tcp me other primary S = communication.extend (communication.truncate (sample_linked me other primary))
     \<lparr>mpAsioSocket = Some S, mpAsioAcceptor = None, mPortNumber = 0, mIpAddress = [], mSerializedConnectionInfo = []\<rparr>"

lemma sample_tcp_fields:
  "mIsConnected (sample_tcp me other primary S)" "mpAsioSocket (sample_tcp me other primary S) = Some S"
  "plat (c_machine (sample_tcp me other primary S)) = bits_platform"
  "mSerializerTraceType (sample_tcp me other primary S) = SERIALIZER_NO_TRACE"
  "\<not> mAlwaysUseSerializer (sample_tcp me other primary S)"
  by (simp_all add: sample_tcp_def sample_linked_def sample_comm_def sample_machine_def communication.defs)

lemma sample_joined:
  "0 < n \<Longrightarrow> 0 < n' \<Longrightarrow> joined e (sample_tcp ''A'' ''B'' True (server_socket n e)) (sample_tcp ''B'' ''A'' False (client_socket n' e))"
  "empty_streams e sample_world"
proof -
  show "0 < n \<Longrightarrow> 0 < n' \<Longrightarrow> joined e (sample_tcp ''A'' ''B'' True (server_socket n e)) (sample_tcp ''B'' ''A'' False (client_socket n' e))"
    unfolding joined_def agrees_def
    by (intro conjI exI [of _ n] exI [of _ n']) (simp_all add: sample_tcp_fields)
qed (simp add: empty_streams_def quiet_def sample_world_def)

text \<open>The size of the sample mesh in binary form.\<close>

lemma sample_mesh_length: "length (mesh_text P SERIALIZER_NO_TRACE ''object'' sample_mesh) = 502"
proof -
  note saves = thenE_def bindE_def getE_def modE_def retE_def save_object_def save_trace_point_def traced_def save_string_def
    write_string_def write_scalar_def put_chars_def save_pointer_def SavePointer_def write_pointer_type_def iv_save_def
    save_vector_def save_direct_def StreamSerializer_def save_pair_def save_node_ptr_def save_node_def save_element_ptr_def
    save_element_def sc_size_t_def sc_int_def sc_pointer_def sc_id_def sc_double_def length_object_bytes
  note calls = discard_def cpp_defs alloc_def update_def this_def CreateNewNode_def CreateNewGhostNode_def CreateNewElement_def HasNode_def
    HasElement_def iv_contains_def iv_find_def iv_size_def iv_deref_def iv_push_back_def push_node_def push_element_def
    in_local_def in_ghost_def in_partition_def GetPartitionModelPart_def new_ModelPart_def on_heap_def
    InitializeInternalModelParts_def check_name_def lookup_nodes_def pGetNode_def new_Node_def new_Element_def
    check_element_def GetNumberOfNodesForElementType_def bindR_def Let_def node_id_def element_id_def iv_new_def empty_part_def
  have p: "sample_part = ModelPart ''m'' iv_new iv_new (Some (0, empty_part ''local'')) (Some (1, empty_part ''ghost'')) []"
    by (simp add: sample_part_def empty_part_def)
  have "show_int 3 = ''3''" by code_simp
  then show ?thesis
    unfolding mesh_text_def ModelPart_save_def sample_mesh_def sample_calls_def p
    by (simp add: calls) (simp add: saves)
qed

lemma sample_stream_good:
  "\<forall>x \<in> set sample_turns. stream_good (\<lambda>_. True) (\<lambda>_ _. True) (sample_tcp ''A'' ''B'' True S) (message_of x)"
proof -
  have "good_message (\<lambda>_. True) (\<lambda>_ _. True) (sample_tcp ''A'' ''B'' True S) m"
    if "good_message (\<lambda>_. True) (\<lambda>_ _. True) (sample_linked ''A'' ''B'' True) m" for m :: "dbl list message"
    using that sample_tcp_fields
    by (simp add: good_message_def sample_linked_def sample_comm_def sample_machine_def split: message.splits)
  moreover have "length (tag_out bits_platform SERIALIZER_NO_TRACE ''object'') + length (info_out bits_platform SERIALIZER_NO_TRACE
      (Info_Set 2 ''converged'' (DBool True) (sample_id ''ctrl''))) < 18446744073709551616"
    by (simp add: tag_out_def traced_def info_out_def scalar_out_def sc_size_t_def sc_int_def sc_pointer_def sc_bool_def
        string_out_def Info_Set_def sample_id_def registered_name_def GetDataTypeName_def)
  then have "fst (stream_frame (sample_tcp ''A'' ''B'' True S) (message_of x)) < 2 ^ 64" if "x \<in> set sample_turns" for x
    using that by (auto simp: sample_turns_def stream_frame_def sample_tcp_fields sample_mesh_length Let_def)
  ultimately show ?thesis using sample_turns_good(3) by (simp add: stream_good_def)
qed

theorem socket_conversation_arrives_witness:
  "\<exists>rs vs s' t'. every_run_ends
       (stream_converse (socket_methods sample_network vector_container) vector_container sample_turns (sample_tcp ''A'' ''B'' True (server_socket 1 ''e'')),
        stream_converse (socket_methods sample_network vector_container) vector_container (map other_side sample_turns)
          (sample_tcp ''B'' ''A'' False (client_socket 1 ''e'')), sample_world)
       (Done (Inr rs, s'), Done (Inr vs, t'), sample_world) \<and>
     (\<exists>v. vs ! 0 = Inr v \<and> snd v = Values [1, 2, 3]) \<and> (\<exists>v. rs ! 1 = Inr v \<and> snd v = Values [7]) \<and>
     (\<exists>v p. vs ! 4 = Inr v \<and> snd v = Part p \<and> part_elements p = part_elements sample_mesh)"
proof -
  have one: "0 < (1 :: nat)" by simp
  obtain rs vs s' t' where r: "every_run_ends
       (stream_converse (socket_methods sample_network vector_container) vector_container sample_turns (sample_tcp ''A'' ''B'' True (server_socket 1 ''e'')),
        stream_converse (socket_methods sample_network vector_container) vector_container (map other_side sample_turns)
          (sample_tcp ''B'' ''A'' False (client_socket 1 ''e'')), sample_world)
       (Done (Inr rs, s'), Done (Inr vs, t'), sample_world)"
    "list_all2 (took (stream_received vector_container)) sample_turns rs"
    "list_all2 (took (stream_received vector_container)) (map other_side sample_turns) vs"
    using socket_conversation_arrives [OF both_over_sockets(1) usable_vectors sample_joined(1) [OF one one] sample_joined(2)
        sample_stream_good] by blast
  have "took (stream_received vector_container) (sample_turns ! 1) (rs ! 1)"
    "took (stream_received vector_container) (map other_side sample_turns ! 0) (vs ! 0)"
    "took (stream_received vector_container) (map other_side sample_turns ! 4) (vs ! 4)"
    using list_all2_nthD [OF r(2), of 1] list_all2_nthD [OF r(3), of 0] list_all2_nthD [OF r(3), of 4]
    by (simp_all add: sample_turns_def)
  then have "(\<exists>v. rs ! 1 = Inr v \<and> snd v = Values [7])" "(\<exists>v. vs ! 0 = Inr v \<and> snd v = Values [1, 2, 3])"
    "\<exists>v p. vs ! 4 = Inr v \<and> snd v = Part p \<and> part_elements p = part_elements sample_mesh"
    by (auto simp: sample_turns_def stream_received_def vector_container_def dest: same_mesh_shows(2))
  then show ?thesis using r(1) by blast
qed

text \<open>
  Property C8. When both partners export before they import, and each message is larger than what the
  system buffers, then every run ends with both exports waiting: each side waits for the other one to
  read. Through files the same order of calls does not block.
\<close>

theorem both_export_blocks:
  fixes V :: "('x base_socket_communication_scheme, 'c) methods"
  assumes "over_sockets V K" "usable K ok room" "joined e s t" "empty_streams e w"
    and "stream_good ok room s m" "stream_good ok room s m'"
    and "s_room (the (mpAsioSocket s)) < length (stream_text s m)" "s_room (the (mpAsioSocket t)) < length (stream_text s m')"
  shows "no_call_returns (stream_converse V K (Forth m # ts) s, stream_converse V K (Forth m' # ts') t, w)"
proof -
  obtain n n' where n: "at_socket s (to_client e) (to_server e) n s" "at_socket s (to_server e) (to_client e) n' t"
    using joinedD [OF assms(3)] .
  have side: "socket_side V K ok room s (to_client e) (to_server e) n s" "socket_side V K ok room s (to_server e) (to_client e) n' t"
    using n assms(1,2) by (simp_all add: socket_side_def)
  have l: "n < length (concat (stream_packets (byte_frames (comm_big_endian s)) s m))"
    "n' < length (concat (stream_packets (byte_frames (comm_big_endian s)) s m'))"
    using assms(7,8) at_socketD(1) [OF n(1)] at_socketD(1) [OF n(2)]
    by (simp_all add: stream_packets_def byte_frames_def stream_text_def concat_map_singleton)
  have q: "quiet (to_client e) w" "quiet (to_server e) w" using assms(4) by (simp_all add: empty_streams_def)
  show ?thesis by (rule sockets.both_send [OF side directions q _ _ l]) (simp_all add: assms(5,6) message_fits_def)
qed

theorem both_export_blocks_witness:
  "no_call_returns (stream_converse (socket_methods sample_network vector_container) vector_container
       [Forth (Data (sample_id ''load'') (sample_id ''load'') [1, 2, 3] []), Back (Data (sample_id ''disp'') (sample_id ''disp'') [7] [])]
       (sample_tcp ''A'' ''B'' True (server_socket 20 ''e'')),
     stream_converse (socket_methods sample_network vector_container) vector_container
       [Forth (Data (sample_id ''disp'') (sample_id ''disp'') [7, 8] []), Back (Data (sample_id ''load'') (sample_id ''load'') [1] [])]
       (sample_tcp ''B'' ''A'' False (client_socket 20 ''e'')), sample_world)"
proof -
  have g: "stream_good (\<lambda>_. True) (\<lambda>_ _. True) (sample_tcp ''A'' ''B'' True S) (Data (sample_id x) (sample_id x) xs x0)"
    if "x \<in> {''load'', ''disp''}" "length xs < 3000" for x xs x0 S
  proof -
    have "get_string (sample_id x) ''identifier'' = Inr x"
      by (simp add: sample_id_def get_string_def Info_Get_def Info_Has_def GetExistingKey_def GetDataTypeName_def bindR_def)
    moreover have "CheckEntry x ''identifier'' = Inr ()"
      using that(1) by (auto simp: CheckEntry_Inr disallowed_chars_def max_allowed_size_def)
    ultimately show ?thesis
      using that(2) by (simp add: stream_good_def good_message_def names_agree_def stream_frame_def sample_tcp_fields Let_def)
  qed
  have n: "0 < (20 :: nat)" by simp
  show ?thesis
    by (rule both_export_blocks [OF both_over_sockets(1) usable_vectors sample_joined(1) [OF n n] sample_joined(2)])
       (auto intro!: g simp: sample_tcp_fields stream_text_def stream_frame_def framed_def length_doubles_bytes
         server_socket_def client_socket_def Let_def)
qed

end
