(* ===== verification/SocketConnect.thy ===== *)
theory SocketConnect
  imports SocketExchanges
begin

text \<open>
  How the partners of the communication over TCP find each other: the address and the port that the
  primary partner listens on reach the secondary one as text in the handshake.
\<close>

section \<open>The information of the connection\<close>

definition conn_info_out :: "platform \<Rightarrow> TraceType \<Rightarrow> string \<Rightarrow> ConnectionInfo \<Rightarrow> string" where
  "conn_info_out P T tag i = tag_out P T tag @
     (tag_out P T ''PortNumber'' @ scalar_out sc_int P T (PortNumber i)) @
     (tag_out P T ''IpAddress'' @ string_out P T (IpAddress i))"

interpretation conn_info: codec "save_object ConnectionInfo_save" "\<lambda>tag _. load_object ConnectionInfo_load tag" P T
  "conn_info_out P T" "\<lambda>i. string_good T (IpAddress i)" for P T
proof unfold_locales
  fix v :: ConnectionInfo and tag
  assume "string_good T (IpAddress v)"
  then show "writes (save_object ConnectionInfo_save tag v) P T (conn_info_out P T tag v)"
    unfolding save_object_def ConnectionInfo_save_def conn_info_out_def
    by (intro writes_then writes_tag int_codec.save_out string_codec.save_out) simp_all
next
  fix v :: ConnectionInfo and tag and u :: ConnectionInfo
  assume g: "string_good T (IpAddress v)" "quote \<notin> set tag"
  have q: "quote \<notin> set ''PortNumber''" "quote \<notin> set ''IpAddress''" by (simp_all add: quote_def)
  have a: "reads (bindE (load_string ''IpAddress'') (\<lambda>a. retE \<lparr>PortNumber = PortNumber v, IpAddress = a\<rparr>)) P T
      (tag_out P T ''IpAddress'' @ string_out P T (IpAddress v)) v"
    by (rule reads_bind_ret [OF string_codec.load_out [OF g(1) q(2)]]) (cases v, simp)
  have "reads ConnectionInfo_load P T ((tag_out P T ''PortNumber'' @ scalar_out sc_int P T (PortNumber v)) @
      (tag_out P T ''IpAddress'' @ string_out P T (IpAddress v))) v"
    unfolding ConnectionInfo_load_def
    using a by (intro reads_bind [where v = "PortNumber v"] int_codec.load_out q(1)) simp_all
  then show "reads (load_object ConnectionInfo_load tag) P T (conn_info_out P T tag v) v"
    unfolding load_object_def conn_info_out_def by (rule reads_then [OF reads_tag [OF g(2)]])
qed

text \<open>The text between quotes.\<close>

lemma check_text_Inr: "check_text chs s = Inr () \<longleftrightarrow> (\<forall>c \<in> set chs. c \<notin> set s)"
  by (induction chs) auto

lemma prepared_text:
  assumes "PrepareStringForAsciiSerialization s = Inr t"
  shows "RevertAsciiSerialization t = s" "quote \<notin> set t" "nl \<notin> set t" "length t = length s"
proof -
  have c: "CHR ''<'' \<notin> set s" "CHR ''>'' \<notin> set s"
    and t: "t = replace_char quote (CHR ''>'') (replace_char nl (CHR ''<'') s)"
    using assms check_text_Inr [of disallowed_in_text s]
    by (auto simp: PrepareStringForAsciiSerialization_def bindR_def disallowed_in_text_def split: sum.splits if_splits)
  show "RevertAsciiSerialization t = s"
    unfolding t RevertAsciiSerialization_def replace_char_def using c
    by (auto simp: quote_def nl_def intro!: map_idI)
  show "quote \<notin> set t" "nl \<notin> set t" "length t = length s"
    by (auto simp: t replace_char_def quote_def nl_def)
qed

definition infos_good :: "TraceType \<Rightarrow> ConnectionInfo list \<Rightarrow> bool" where
  "infos_good T is \<longleftrightarrow> length is < 2 ^ 64 \<and> (\<forall>i \<in> set is. string_good T (IpAddress i))"

lemma serialized_out:
  assumes "infos_good (mSerializerTraceType s) (conn_infos N s)"
  shows "serialized_conn_infos N s = (let P = plat (c_machine s); T = mSerializerTraceType s;
      out = vector_out P T (conn_info_out P T) ''conn_info'' (conn_infos N s)
    in if T = SERIALIZER_NO_TRACE then Inr out else PrepareStringForAsciiSerialization out)"
proof -
  have g: "length (conn_infos N s) < 2 ^ 64 \<and> (\<forall>v \<in> set (conn_infos N s). string_good (mSerializerTraceType s) (IpAddress v))"
    using assms by (simp add: infos_good_def)
  obtain ser where "save_vector (save_object ConnectionInfo_save) ''conn_info'' (conn_infos N s) (stream_ser s :: unit ser) = (Inr (), ser)"
    "mBuffer ser = vector_out (plat (c_machine s)) (mSerializerTraceType s)
      (conn_info_out (plat (c_machine s)) (mSerializerTraceType s)) ''conn_info'' (conn_infos N s)"
    using codec.save_out [OF conn_info.vector_codec g, of "''conn_info''", unfolded writes_def, rule_format, of "stream_ser s"]
    by (simp add: stream_ser_file file_ser_simps)
  then show ?thesis by (simp add: serialized_conn_infos_def GetStringRepresentation_def Let_def)
qed

lemma conn_infos_loaded:
  assumes "serialized_conn_infos N s = Inr t" "infos_good (mSerializerTraceType s) (conn_infos N s)"
    and "plat (c_machine c) = plat (c_machine s)" "mSerializerTraceType c = mSerializerTraceType s"
    and "get_info (mPartnerInfo c) ''communication_settings'' = Inr st" "get_string st ''connection_info'' = Inr t"
  shows "loaded_conn_infos c = Inr (conn_infos N s) \<and> (mSerializerTraceType s \<noteq> SERIALIZER_NO_TRACE \<longrightarrow> quote \<notin> set t)"
proof -
  let ?P = "plat (c_machine s)" and ?T = "mSerializerTraceType s" and ?is = "conn_infos N s"
  let ?out = "vector_out ?P ?T (conn_info_out ?P ?T) ''conn_info'' ?is"
  have g: "length ?is < 2 ^ 64 \<and> (\<forall>v \<in> set ?is. string_good ?T (IpAddress v))"
    using assms(2) by (simp add: infos_good_def)
  have q: "quote \<notin> set ''conn_info''" by (simp add: quote_def)
  note ser = serialized_out [OF assms(2), unfolded Let_def]
  let ?load = "load_vector (\<lambda>tag _. load_object ConnectionInfo_load tag) \<lparr>PortNumber = 0, IpAddress = []\<rparr> ''conn_info'' []"
  have load: "fst (?load (StreamSerializer_data (plat (c_machine c)) (c_heap c) ?out (mSerializerTraceType c))) = Inr ?is"
  proof -
    let ?s = "file_ser c (?out @ [nl]) :: unit ser"
    have b: "mBuffer ?s = [] @ ?out @ [nl]" by (simp add: file_ser_simps)
    have pt: "mPlatform ?s = ?P" "mTrace ?s = ?T" using assms(3,4) by (simp_all add: file_ser_simps)
    show ?thesis
      unfolding stream_ser_data
      by (rule readsD [OF codec.load_out [OF conn_info.vector_codec g q, of "\<lparr>PortNumber = 0, IpAddress = []\<rparr>" "[]"] pt _ b])
         (simp_all)
  qed
  show ?thesis
  proof (cases "?T = SERIALIZER_NO_TRACE")
    case True
    then have "t = ?out" using assms(1) ser by simp
    then show ?thesis using True load assms(3-6) by (simp add: loaded_conn_infos_def bindR_def Let_def)
  next
    case False
    then have t: "PrepareStringForAsciiSerialization ?out = Inr t"
      using assms(1) ser by simp
    then show ?thesis
      using False load assms(3-6) prepared_text [OF t] by (simp add: loaded_conn_infos_def bindR_def Let_def)
  qed
qed

text \<open>
  Property C7. The ports and addresses that the primary partner collects are turned into text and back:
  whatever the trace mode, the secondary partner that finds the text in the information of its partner
  loads the same ports and addresses, and in the text modes the text has no quote in it, which would
  end the entry of the handshake early.
\<close>

theorem connection_info_roundtrip:
  assumes "serialized_conn_infos N s = Inr t" "infos_good (mSerializerTraceType s) (conn_infos N s)"
    and "plat (c_machine c) = plat (c_machine s)" "mSerializerTraceType c = mSerializerTraceType s"
    and "get_info (mPartnerInfo c) ''communication_settings'' = Inr st" "get_string st ''connection_info'' = Inr t"
  shows "loaded_conn_infos c = Inr (conn_infos N s) \<and> (mSerializerTraceType s \<noteq> SERIALIZER_NO_TRACE \<longrightarrow> quote \<notin> set t)"
  using assms by (rule conn_infos_loaded)

definition sample_listening :: socket_communication where
  "sample_listening = (sample_tcp ''A'' ''B'' True (server_socket 16 ''e''))\<lparr>mIpAddress := LOCAL_IP_ADDRESS, mPortNumber := 40000,
     mSerializerTraceType := SERIALIZER_ASCII\<rparr>"

definition sample_informed :: socket_communication where
  "sample_informed = (sample_tcp ''B'' ''A'' False (client_socket 16 ''e''))\<lparr>mSerializerTraceType := SERIALIZER_ASCII,
     mPartnerInfo := [(''communication_settings'', 1, DInfo [(''connection_info'', 2, DString ''1<40000<>127.0.0.1><'')])]\<rparr>"

theorem connection_info_roundtrip_witness:
  "loaded_conn_infos sample_informed = Inr [\<lparr>PortNumber = 40000, IpAddress = ''127.0.0.1''\<rparr>]"
proof -
  have infos: "conn_infos sample_network sample_listening = [\<lparr>PortNumber = 40000, IpAddress = ''127.0.0.1''\<rparr>]"
    by (simp add: conn_infos_def sample_listening_def sample_tcp_def sample_linked_def sample_comm_def
        communication.defs LOCAL_IP_ADDRESS_def)
  have g: "infos_good (mSerializerTraceType sample_listening) (conn_infos sample_network sample_listening)"
    by (simp add: infos infos_good_def string_good_def quote_def)
  have t: "mSerializerTraceType sample_listening = SERIALIZER_ASCII" "mSerializerTraceType sample_informed = SERIALIZER_ASCII"
    "plat (c_machine sample_informed) = plat (c_machine sample_listening)"
    by (simp_all add: sample_listening_def sample_informed_def sample_tcp_fields)
  have n: "show_nat (Suc 0) = ''1''" "show_int 40000 = ''40000''" 
    by (simp_all add: show_int_def show_nat_def show_base.simps digit_char_def char_of_def bit_0)
  have "serialized_conn_infos sample_network sample_listening = Inr ''1<40000<>127.0.0.1><''"
    unfolding serialized_out [OF g] Let_def infos t(1)
    by (simp add: vector_out_def tag_out_def traced_def scalar_out_def sc_size_t_def sc_int_def conn_info_out_def string_out_def
        PrepareStringForAsciiSerialization_def check_text.simps disallowed_in_text_def bindR_def replace_char_def quote_def nl_def n)
  from connection_info_roundtrip [OF this g t(3)] show ?thesis
    by (simp add: infos t sample_informed_def get_info_def get_string_def Info_Get_def Info_Has_def GetExistingKey_def
        GetDataTypeName_def bindR_def)
qed

end
