(* ===== verification/PipeCommunication.thy ===== *)
theory PipeCommunication
  imports SocketCommunication "HOL-Library.While_Combinator"
begin

text \<open>
  \<open>includes/communication/pipe_communication.hpp\<close> and \<open>sources/communication/pipe_communication.cpp\<close>: the
  communication through two named pipes, one for each direction. A message is its size and then its
  elements in chunks that fit into the pipe.

  What the kernel does follows POSIX: a write of at most \<open>PIPE_BUF\<close> bytes is atomic, a larger one may be
  seen in parts; a read returns what is there, up to the number of bytes asked for, once something is there.
  Both fail with a negative result on a bad descriptor only, which cannot happen here, or for a write
  when the reader is gone (a program that does not ignore the signal for this ends there).
\<close>

section \<open>Named pipes\<close>

definition PIPE_BUF :: nat where "PIPE_BUF = 4096"

definition pipe_write_error :: error where
  "pipe_write_error = co_error ''Error in writing to Pipe!''"

definition write_pipe :: "path \<Rightarrow> nat \<Rightarrow> string \<Rightarrow> ('s, unit) prog" where
  "write_pipe p room cs = (if cs = [] then retP ()
     else if length cs \<le> PIPE_BUF then write_packet pipe_write_error p room cs
     else write_bytes pipe_write_error p room cs)"

definition read_pipe :: "path \<Rightarrow> nat \<Rightarrow> ('s, string) prog" where
  "read_pipe p n = (if n = 0 then retP [] else read_packet p n)"

text \<open>Which ends of a pipe are open is kept as end points: opening an end waits for the other one.\<close>

definition reader_of :: "path \<Rightarrow> path" where "reader_of p = p @ ''<''"
definition writer_of :: "path \<Rightarrow> path" where "writer_of p = p @ ''>''"

definition make_pipe :: "path \<Rightarrow> world \<Rightarrow> world" where
  "make_pipe p w = (set_file p (Some []) w)\<lparr>streams := (streams w)(p := []), closed := (closed w)(p := False),
     listening := (listening w)(reader_of p := False, writer_of p := False)\<rparr>"

definition open_end :: "path \<Rightarrow> world \<Rightarrow> world" where
  "open_end e w = w\<lparr>listening := (listening w)(e := True)\<rparr>"

definition pipe_error :: "path \<Rightarrow> string \<Rightarrow> error" where
  "pipe_error p what = co_error (''Pipe '' @ dq p @ '' could not be '' @ what @ ''!'')"

definition mkfifo :: "path \<Rightarrow> ('s, unit) prog" where
  "mkfifo p = actP (\<lambda>w. if exists w p \<or> \<not> writable w p then w else make_pipe p w)
     (\<lambda>w. if exists w p \<or> \<not> writable w p then Inl (pipe_error p ''created'') else Inr ())"

definition open_pipe :: "path \<Rightarrow> path \<Rightarrow> path \<Rightarrow> ('s, unit) prog" where
  "open_pipe p mine other =
     thenP (actP (\<lambda>w. if files w p = None then w else open_end mine w)
       (\<lambda>w. if files w p = None then Inl (pipe_error p ''opened'') else Inr ()))
     (waitP (\<lambda>w. listening w other))"

section \<open>The pipes of a connection\<close>

record bidirectional_pipe =
  b_write :: path
  b_read :: path
  b_buffer :: nat
  b_room :: nat

text \<open>
  What the kernel says about the capacity of its pipes: that of a new one, and that of one whose size
  was asked to be changed. Both partners ask for the same size for both pipes.
\<close>

record pipe_system =
  ps_size :: "path \<Rightarrow> nat"
  ps_resized :: "path \<Rightarrow> i32 \<Rightarrow> nat"

definition pipe_resize_error :: error where
  "pipe_resize_error = co_error ''Different buffer sizes after changing size, this should not happen!''"

text \<open>The capacities for reading and for writing, and the size of the buffer that follows from them.\<close>

definition pipe_capacities :: "pipe_system \<Rightarrow> i32 \<Rightarrow> path \<Rightarrow> path \<Rightarrow> error + nat \<times> nat" where
  "pipe_capacities S BufferSize r w =
     (let pipe_buffer_size_read = ps_size S r; pipe_buffer_size_write = ps_size S w;
          max_pipe_buffer = max pipe_buffer_size_read pipe_buffer_size_write
      in if sint BufferSize > int max_pipe_buffer
         then if ps_resized S r BufferSize \<noteq> ps_resized S w BufferSize then Inl pipe_resize_error
              else Inr (ps_resized S r BufferSize, ps_resized S w BufferSize)
         else Inr (if pipe_buffer_size_read < max_pipe_buffer then ps_resized S r BufferSize else pipe_buffer_size_read,
                   if pipe_buffer_size_write < max_pipe_buffer then ps_resized S w BufferSize else pipe_buffer_size_write))"

definition pipe_buffer :: "i32 \<Rightarrow> nat \<Rightarrow> nat" where
  "pipe_buffer BufferSize final_pipe_buffer_size =
     (if sint BufferSize \<ge> int final_pipe_buffer_size then final_pipe_buffer_size - 1
      else unat (scast BufferSize :: u64))"

definition pipe_ends :: "pipe_system \<Rightarrow> i32 \<Rightarrow> path \<Rightarrow> path \<Rightarrow> error + bidirectional_pipe" where
  "pipe_ends S BufferSize r w = bindR (pipe_capacities S BufferSize r w) (\<lambda>(nr, nw).
     Inr \<lparr>b_write = w, b_read = r, b_buffer = pipe_buffer BufferSize nr, b_room = nw\<rparr>)"

definition new_BidirectionalPipe :: "pipe_system \<Rightarrow> path \<Rightarrow> string \<Rightarrow> bool \<Rightarrow> i32 \<Rightarrow> ('s, bidirectional_pipe) prog" where
  "new_BidirectionalPipe S rPipeDir rBasePipeName IsPrimary BufferSize =
     (let p2s = join_path rPipeDir rBasePipeName @ ''_p2s''; s2p = join_path rPipeDir rBasePipeName @ ''_s2p'' in
      if IsPrimary then
        thenP (mkfifo p2s)
        (thenP (mkfifo s2p)
        (thenP (open_pipe p2s (writer_of p2s) (reader_of p2s))
        (thenP (open_pipe s2p (reader_of s2p) (writer_of s2p))
          (liftP (pipe_ends S BufferSize s2p p2s)))))
      else
        thenP (WaitUntilPathExists s2p)
        (thenP (open_pipe p2s (reader_of p2s) (writer_of p2s))
        (thenP (open_pipe s2p (writer_of s2p) (reader_of s2p))
          (liftP (pipe_ends S BufferSize p2s s2p)))))"

definition close_pipe :: "bidirectional_pipe \<Rightarrow> ('s, unit) prog" where
  "close_pipe B = actP (\<lambda>w. close_stream (b_read B) (close_stream (b_write B) w)) (\<lambda>_. Inr ())"

section \<open>Messages in chunks\<close>

text \<open>
  The loops over the chunks. The chunk of a round follows from the number of elements handled so far, whatever the
  system calls return: \<open>chunk_sizes\<close> runs the loop and collects how many elements each round handles. With a
  buffer that is smaller than an element this is none, the loop does not end and there is no list. \<open>rData\<close> is
  the memory of the elements, of \<open>k\<close> bytes each.
\<close>

definition current_chunk :: "nat \<Rightarrow> nat \<Rightarrow> nat \<Rightarrow> nat" where
  "current_chunk buffer_size data_size written_size =
     (let data_left_to_write = data_size - written_size in
      if data_left_to_write > buffer_size then buffer_size else data_left_to_write)"

definition chunk_sizes :: "nat \<Rightarrow> nat \<Rightarrow> nat list option" where
  "chunk_sizes buffer_size data_size = map_option snd
     (while_option (\<lambda>(written_size, _). written_size < data_size)
       (\<lambda>(written_size, cs). let current_buffer_size = current_chunk buffer_size data_size written_size
          in (written_size + current_buffer_size, cs @ [current_buffer_size]))
       (0, []))"

fun write_chunks :: "path \<Rightarrow> nat \<Rightarrow> nat \<Rightarrow> string \<Rightarrow> nat \<Rightarrow> nat list \<Rightarrow> ('s, unit) prog" where
  "write_chunks p room k rData written_size [] = retP ()"
| "write_chunks p room k rData written_size (current_buffer_size # cs) =
     thenP (write_pipe p room (take (current_buffer_size * k) (drop (written_size * k) rData)))
       (write_chunks p room k rData (written_size + current_buffer_size) cs)"

text \<open>
  A loop without an end goes on calling \<open>write\<close> or \<open>read\<close> with zero bytes, which has no effect and does not fail:
  seen from outside it is a program that is not done and makes no further access.
\<close>

definition busy_forever :: "('s, 'a) prog" where
  "busy_forever = (\<lambda>s. Wait (\<lambda>_. False) (Done (Inl (UndefinedBehaviour ''unreachable''), s)))"

definition write_loop :: "path \<Rightarrow> nat \<Rightarrow> nat \<Rightarrow> nat \<Rightarrow> string \<Rightarrow> nat \<Rightarrow> ('s, unit) prog" where
  "write_loop p room buffer_size k rData data_size = (case chunk_sizes buffer_size data_size of
       Some cs \<Rightarrow> write_chunks p room k rData 0 cs
     | None \<Rightarrow> busy_forever)"

definition overwrite :: "nat \<Rightarrow> string \<Rightarrow> string \<Rightarrow> string" where
  "overwrite i bytes rData = take i rData @ bytes @ drop (i + length bytes) rData"

text \<open>How many bytes a read has returned is not looked at.\<close>

fun read_chunks :: "path \<Rightarrow> nat \<Rightarrow> string \<Rightarrow> nat \<Rightarrow> nat list \<Rightarrow> ('s, string) prog" where
  "read_chunks p k rData read_size [] = retP rData"
| "read_chunks p k rData read_size (current_buffer_size # cs) =
     bindP (read_pipe p (current_buffer_size * k)) (\<lambda>bytes.
       read_chunks p k (overwrite (read_size * k) bytes rData) (read_size + current_buffer_size) cs)"

definition read_loop :: "path \<Rightarrow> nat \<Rightarrow> nat \<Rightarrow> string \<Rightarrow> nat \<Rightarrow> ('s, string) prog" where
  "read_loop p buffer_size k rData received_size = (case chunk_sizes buffer_size received_size of
       Some cs \<Rightarrow> read_chunks p k rData 0 cs
     | None \<Rightarrow> busy_forever)"

section \<open>The communication\<close>

record pipe_communication = communication +
  mBufferSize :: u64
  mpPipe :: "bidirectional_pipe option"

definition GetPipeBufferSize :: "info \<Rightarrow> error + i32" where
  "GetPipeBufferSize I_Info = get_int_default I_Info ''buffer_size'' 65536"

definition new_PipeCommunication :: "(path \<Rightarrow> bool) \<Rightarrow> machine \<Rightarrow> addr \<Rightarrow> nat \<Rightarrow> nat \<Rightarrow> info \<Rightarrow>
    error + pipe_communication" where
  "new_PipeCommunication path_exists M h rank ranks I_Settings =
     bindR (new_Communication path_exists M h rank ranks I_Settings) (\<lambda>c.
     bindR (GetPipeBufferSize I_Settings) (\<lambda>b.
       Inr (communication.extend c \<lparr>mBufferSize = scast b, mpPipe = None\<rparr>)))"

definition with_pipe :: "(bidirectional_pipe \<Rightarrow> (pipe_communication, 'a) prog) \<Rightarrow> (pipe_communication, 'a) prog" where
  "with_pipe m = bindP (getP mpPipe) (\<lambda>B. case B of
       None \<Rightarrow> throwP (UndefinedBehaviour ''null pipe'')
     | Some B \<Rightarrow> m B)"

definition Pipe_ConnectDetail :: "pipe_system \<Rightarrow> info \<Rightarrow> (pipe_communication, info) prog" where
  "Pipe_ConnectDetail S I_Info =
     bindP (liftP (GetPipeBufferSize I_Info)) (\<lambda>BufferSize.
     bindP (getP (\<lambda>c. (mCommFolder c, mConnectionName c @ ''_r'' @ show_nat (c_rank c), mIsPrimaryConnection c)))
       (\<lambda>(folder, base, primary).
     bindP (new_BidirectionalPipe S folder base primary BufferSize) (\<lambda>B.
     thenP (modP (\<lambda>c. c\<lparr>mpPipe := Some B\<rparr>))
       (localP (new_info [])))))"

definition Pipe_DisconnectDetail :: "info \<Rightarrow> (pipe_communication, info) prog" where
  "Pipe_DisconnectDetail I_Info = thenP (with_pipe close_pipe) (localP (new_info []))"

definition Pipe_GetCommunicationSettings :: "(pipe_communication, info) cpp" where
  "Pipe_GetCommunicationSettings = (\<lambda>c. new_info [(''buffer_size'', DSize (mBufferSize c))] c)"

definition settings_size :: "info \<Rightarrow> error + u64" where
  "settings_size i = bindR (get_info i ''communication_settings'') (\<lambda>st. get_size st ''buffer_size'')"

definition Pipe_DerivedHandShake :: "(pipe_communication, 'c) methods \<Rightarrow> (pipe_communication, unit) prog" where
  "Pipe_DerivedHandShake V =
     bindP (localP (GetMyInfo V)) (\<lambda>mine.
     bindP (liftP (get_string mine ''operating_system'')) (\<lambda>my_os.
     bindP (getP mPartnerInfo) (\<lambda>partner.
     bindP (liftP (get_string partner ''operating_system'')) (\<lambda>partner_os.
     thenP (checkP (my_os \<noteq> partner_os)
       (co_error ''Pipe communication cannot be used between different operating systems!''))
     (bindP (localP (GetMyInfo V)) (\<lambda>mine.
     bindP (liftP (settings_size mine)) (\<lambda>my_use_buffer_size.
     bindP (liftP (settings_size partner)) (\<lambda>partner_buffer_size.
       checkP (my_use_buffer_size \<noteq> partner_buffer_size)
         (co_error (''Mismatch in buffer_size!'' @ [nl] @ ''My buffer_size: '' @ show_nat (unat my_use_buffer_size) @ [nl] @
           ''Partner buffer_size: '' @ show_nat (unat partner_buffer_size)))))))))))"

definition Pipe_SendSize :: "bidirectional_pipe \<Rightarrow> u64 \<Rightarrow> (pipe_communication, unit) prog" where
  "Pipe_SendSize B Size = bindP (getP comm_big_endian) (\<lambda>be.
     write_pipe (b_write B) (b_room B) (object_bytes be 8 Size))"

definition Pipe_ReceiveSize :: "bidirectional_pipe \<Rightarrow> (pipe_communication, u64) prog" where
  "Pipe_ReceiveSize B = bindP (getP comm_big_endian) (\<lambda>be.
     bindP (read_pipe (b_read B) 8) (\<lambda>bytes.
     thenP (checkP (length bytes < 8) (UndefinedBehaviour ''uninitialized size''))
       (retP (object_value be bytes))))"

definition Pipe_Write :: "nat \<Rightarrow> nat \<Rightarrow> string \<Rightarrow> (pipe_communication, dbl) prog" where
  "Pipe_Write SizeDataType data_size rData = with_pipe (\<lambda>B.
     thenP (Pipe_SendSize B (word_of_nat data_size))
     (thenP (write_loop (b_write B) (b_room B) (b_buffer B div SizeDataType) SizeDataType rData data_size)
       (localP ElapsedSeconds)))"

text \<open>\<open>resize\<close> gives the container of the new size with its memory, \<open>store\<close> what it is after its memory changed.\<close>

definition Pipe_Read :: "nat \<Rightarrow> (nat \<Rightarrow> error + 'd) \<Rightarrow> (bool \<Rightarrow> 'd \<Rightarrow> string) \<Rightarrow> (bool \<Rightarrow> 'd \<Rightarrow> string \<Rightarrow> error + 'd) \<Rightarrow>
    (pipe_communication, dbl \<times> 'd) prog" where
  "Pipe_Read SizeDataType resize memory store = with_pipe (\<lambda>B.
     bindP (Pipe_ReceiveSize B) (\<lambda>received_size.
     bindP (liftP (resize (unat received_size))) (\<lambda>rData.
     bindP (getP comm_big_endian) (\<lambda>be.
     bindP (read_loop (b_read B) (b_buffer B div SizeDataType) SizeDataType (memory be rData) (unat received_size)) (\<lambda>bytes.
     bindP (liftP (store be rData bytes)) (\<lambda>rData.
     bindP (localP ElapsedSeconds) (\<lambda>elapsed_time.
       retP (elapsed_time, rData))))))))"

definition Pipe_SendString :: "info \<Rightarrow> string \<Rightarrow> (pipe_communication, dbl) prog" where
  "Pipe_SendString I_Info rData = Pipe_Write 1 (length rData) rData"

definition Pipe_ReceiveString :: "info \<Rightarrow> (pipe_communication, dbl \<times> string) prog" where
  "Pipe_ReceiveString I_Info =
     Pipe_Read 1 (\<lambda>n. Inr (replicate n (CHR 0x00))) (\<lambda>_ rData. rData) (\<lambda>_ _ bytes. Inr bytes)"

definition Pipe_SendDataContainer :: "info \<Rightarrow> dbl list \<Rightarrow> (pipe_communication, dbl) prog" where
  "Pipe_SendDataContainer I_Info rData =
     bindP (getP comm_big_endian) (\<lambda>be. Pipe_Write 8 (length rData) (doubles_bytes be rData))"

definition Pipe_ReceiveDataContainer :: "'c container \<Rightarrow> info \<Rightarrow> 'c \<Rightarrow> (pipe_communication, dbl \<times> 'c) prog" where
  "Pipe_ReceiveDataContainer K I_Info rData =
     Pipe_Read 8 (\<lambda>n. resized K n rData) (\<lambda>be x. doubles_bytes be (k_elems K x))
       (\<lambda>be x bytes. stored K (bytes_doubles be (length (k_elems K x)) bytes) x)"

text \<open>\<open>GetMyInfo\<close> only needs the name and the settings.\<close>

definition pipe_methods :: "pipe_system \<Rightarrow> 'c container \<Rightarrow> (pipe_communication, 'c) methods" where
  "pipe_methods S K =
     (let V = \<lparr>GetCommunicationName = ''pipe'',
               GetCommunicationSettings = Pipe_GetCommunicationSettings,
               DerivedHandShake = retP (),
               PrepareConnection = (\<lambda>_. retP ()),
               ConnectDetail = Pipe_ConnectDetail S,
               DisconnectDetail = Pipe_DisconnectDetail,
               SendString = Pipe_SendString,
               ReceiveString = Pipe_ReceiveString,
               SendDataContainer = Pipe_SendDataContainer,
               ReceiveDataContainer = Pipe_ReceiveDataContainer K\<rparr>
      in V\<lparr>DerivedHandShake := Pipe_DerivedHandShake V\<rparr>)"

definition Pipe_destroy :: "pipe_system \<Rightarrow> 'c container \<Rightarrow> (pipe_communication, unit) prog" where
  "Pipe_destroy S K = destroy (pipe_methods S K)"

end
