(* ===== verification/PipeTransfers.thy ===== *)
theory PipeTransfers
  imports StreamTransfers PipeCommunication
begin

text \<open>
  The pipes provide the streams as long as every chunk is small enough to be written at once: the size and
  each chunk are a packet.
\<close>

section \<open>Chunks\<close>

fun chunks :: "nat \<Rightarrow> 'a list \<Rightarrow> 'a list list" where
  "chunks n xs = (if n = 0 \<or> xs = [] then [] else take n xs # chunks n (drop n xs))"

declare chunks.simps [simp del]

lemma chunks_Nil [simp]: "chunks n [] = []"
  by (simp add: chunks.simps)

lemma chunks_fit: "c \<in> set (chunks n xs) \<Longrightarrow> c \<noteq> [] \<and> length c \<le> n \<and> length c \<le> length xs"
  by (induction n xs rule: chunks.induct) (subst (asm) chunks.simps, fastforce split: if_splits)

lemma concat_chunks: "0 < n \<Longrightarrow> concat (chunks n xs) = xs"
  by (induction n xs rule: chunks.induct) (subst chunks.simps, auto)

text \<open>The next chunk of elements of \<open>k\<close> bytes.\<close>

lemma chunks_step:
  assumes "length xs = N * k" "i < N" "0 < b" "0 < k"
  shows "chunks (b * k) (drop (i * k) xs) =
     take (min b (N - i) * k) (drop (i * k) xs) # chunks (b * k) (drop ((i + min b (N - i)) * k) xs)"
proof -
  have n: "drop (i * k) xs \<noteq> []" using assms by simp
  have l: "length (drop (i * k) xs) = (N - i) * k" using assms(1) by (simp add: diff_mult_distrib)
  show ?thesis
  proof (cases "b \<le> N - i")
    case True
    then show ?thesis using n assms(3,4) by (subst chunks.simps) (simp add: add_mult_distrib add.commute)
  next
    case False
    then have a: "length (drop (i * k) xs) \<le> b * k" unfolding l by simp
    have "take (b * k) (drop (i * k) xs) = drop (i * k) xs" "drop (b * k) (drop (i * k) xs) = []"
      by (rule take_all [OF a], rule drop_all [OF a])
    moreover have "drop ((i + (N - i)) * k) xs = []" using assms(1,2) by simp
    moreover have "take ((N - i) * k) (drop (i * k) xs) = drop (i * k) xs" using l by simp
    ultimately show ?thesis using False n assms(3,4) by (subst chunks.simps) (simp add: min_def)
  qed
qed

lemma chunk_fits:
  assumes "length xs = N * k" "i < N" "0 < b" "0 < k"
  shows "length (take (min b (N - i) * k) (drop (i * k) xs)) = min b (N - i) * k" "0 < min b (N - i) * k"
    "min b (N - i) * k \<le> b * k"
proof -
  have "min b (N - i) * k \<le> (N - i) * k" by simp
  then show "length (take (min b (N - i) * k) (drop (i * k) xs)) = min b (N - i) * k"
    using assms(1) by (simp add: diff_mult_distrib)
qed (use assms in simp_all)

text \<open>The loop ends when a chunk has an element or there is nothing to do, and its rounds are known then.\<close>

fun sizes_of :: "nat \<Rightarrow> nat \<Rightarrow> nat list" where
  "sizes_of b n = (if b = 0 \<or> n = 0 then [] else min b n # sizes_of b (n - min b n))"

declare sizes_of.simps [simp del]

lemma sizes_of_done [simp]: "sizes_of b 0 = []"
  by (simp add: sizes_of.simps)

lemma sizes_of_step: "0 < b \<Longrightarrow> i < N \<Longrightarrow> sizes_of b (N - i) = min b (N - i) # sizes_of b (N - (i + min b (N - i)))"
  by (subst sizes_of.simps) simp

lemma current_chunk_min: "current_chunk b N i = min b (N - i)"
  by (simp add: current_chunk_def Let_def)

lemma chunk_loop:
  assumes "0 < b"
  shows "map_option snd (while_option (\<lambda>(i, _). i < N) (\<lambda>(i, cs). (i + min b (N - i), cs @ [min b (N - i)])) (i, cs)) =
     Some (cs @ sizes_of b (N - i))"
proof (induction "N - i" arbitrary: i cs rule: less_induct)
  case less
  show ?case
  proof (cases "i < N")
    case True
    then have "N - (i + min b (N - i)) < N - i" using assms by simp
    from less [OF this, of "cs @ [min b (N - i)]"] show ?thesis
      using True assms by (subst while_option_unfold) (simp add: sizes_of_step)
  qed (subst while_option_unfold, simp)
qed

lemma chunk_sizes_Some: "0 < b \<Longrightarrow> chunk_sizes b N = Some (sizes_of b N)"
  using chunk_loop [of b N 0 "[]"] by (simp add: chunk_sizes_def current_chunk_min Let_def)

lemma chunk_sizes_None: "0 < N \<Longrightarrow> chunk_sizes 0 N = None"
proof -
  assume n: "0 < N"
  let ?b = "\<lambda>(i, cs :: nat list). i < N" and ?c = "\<lambda>(i, cs). (i + min 0 (N - i), cs @ [min 0 (N - i)])"
  have "fst s = 0" if "while_option ?b ?c (0, []) = Some s" for s
    using while_option_rule [where P = "\<lambda>s. fst s = 0", OF _ that] by auto
  then have "while_option ?b ?c (0, []) = None"
    using while_option_stop [of ?b ?c "(0, [])"] n by (cases "while_option ?b ?c (0, [])") fastforce+
  then show ?thesis by (simp add: chunk_sizes_def current_chunk_min Let_def)
qed

lemma packs_chunks:
  assumes "length xs = N * k" "0 < b" "0 < k" "b * k \<le> PIPE_BUF \<or> length xs \<le> PIPE_BUF"
  shows "packs p room (chunks (b * k) (drop (i * k) xs)) (bindP (write_chunks p room k xs i (sizes_of b (N - i))) F s) (F () s)"
proof (induction "N - i" arbitrary: i rule: less_induct)
  case less
  show ?case
  proof (cases "i < N")
    case True
    let ?c = "take (min b (N - i) * k) (drop (i * k) xs)" and ?i = "i + min b (N - i)"
    note fits = chunk_fits [OF assms(1) True assms(2,3)]
    have "length ?c \<le> length xs" by simp
    then have "length ?c \<le> PIPE_BUF" "0 < length ?c" using fits assms(4) by linarith+
    then have w: "write_pipe p room ?c = write_packet pipe_write_error p room ?c"
      by (simp only: write_pipe_def if_True length_greater_0_conv if_False)
    have "N - ?i < N - i" using True assms(2) by simp
    then have "packs p room (chunks (b * k) (drop (?i * k) xs))
        (bindP (write_chunks p room k xs ?i (sizes_of b (N - ?i))) F s) (F () s)" by (rule less)
    from packs_append [OF packs_packet [of p room ?c pipe_write_error
        "\<lambda>_. bindP (write_chunks p room k xs ?i (sizes_of b (N - ?i))) F"] this]
    show ?thesis
      unfolding sizes_of_step [OF assms(2) True] write_chunks.simps thenP_def bindP_assoc w
        chunks_step [OF assms(1) True assms(2,3)] by simp
  next
    case False
    then show ?thesis using assms(1) by (simp add: ret_io packs_nil)
  qed
qed

lemma overwritten:
  assumes "length mem = length bs" "i + length c \<le> length bs" "c = take (length c) (drop i bs)"
  shows "length (overwrite i c mem) = length bs"
    "take (i + length c) (overwrite i c mem) @ drop (i + length c) bs = take i mem @ drop i bs"
proof -
  show "length (overwrite i c mem) = length bs" using assms(1,2) by (simp add: overwrite_def)
  have "take (i + length c) (overwrite i c mem) = take i mem @ c" using assms(1,2) by (simp add: overwrite_def)
  moreover have "c @ drop (i + length c) bs = drop i bs"
    using assms(3) by (metis add.commute append_take_drop_id drop_drop)
  ultimately show "take (i + length c) (overwrite i c mem) @ drop (i + length c) bs = take i mem @ drop i bs" by simp
qed

lemma unpacks_chunks:
  assumes "length bs = N * k" "0 < b" "0 < k"
  shows "length mem = length bs \<Longrightarrow> unpacks q (chunks (b * k) (drop (i * k) bs))
     (bindP (read_chunks q k mem i (sizes_of b (N - i))) G s) (G (take (i * k) mem @ drop (i * k) bs) s)"
proof (induction "N - i" arbitrary: i mem rule: less_induct)
  case less
  show ?case
  proof (cases "i < N")
    case True
    let ?c = "take (min b (N - i) * k) (drop (i * k) bs)" and ?i = "i + min b (N - i)"
    note fits = chunk_fits [OF assms(1) True assms(2,3)]
    have r: "read_pipe q (min b (N - i) * k) = read_packet q (length ?c)"
      unfolding fits(1) read_pipe_def using fits(2) by (metis less_numeral_extra(3))
    have e: "?i * k = i * k + length ?c" unfolding fits(1) by (simp add: add_mult_distrib)
    have "(i + min b (N - i)) * k \<le> N * k" using True by (intro mult_le_mono1) simp
    then have m: "i * k + length ?c \<le> length bs" unfolding e assms(1) .
    have "?c = take (length ?c) (drop (i * k) bs)" by (simp only: fits(1))
    note o = overwritten [OF less.prems m this]
    have "N - ?i < N - i" using True assms(2) by simp
    from less.hyps [OF this o(1)]
    have "unpacks q (chunks (b * k) (drop (?i * k) bs))
        (bindP (read_chunks q k (overwrite (i * k) ?c mem) ?i (sizes_of b (N - ?i))) G s) (G (take (i * k) mem @ drop (i * k) bs) s)"
      unfolding e o(2) .
    from unpacks_append [OF unpacks_packet [of q ?c "\<lambda>x. bindP (read_chunks q k (overwrite (i * k) x mem) ?i (sizes_of b (N - ?i))) G"] this]
    show ?thesis
      unfolding sizes_of_step [OF assms(2) True] read_chunks.simps bindP_assoc r chunks_step [OF assms(1) True assms(2,3)] by simp
  next
    case False
    then show ?thesis using assms(1) less.prems by (simp add: ret_io unpacks_nil)
  qed
qed

section \<open>The two sides\<close>

definition over_pipes :: "(pipe_communication, 'c) methods \<Rightarrow> 'c container \<Rightarrow> bool" where
  "over_pipes V K \<longleftrightarrow> SendString V = Pipe_SendString \<and> ReceiveString V = Pipe_ReceiveString \<and>
     SendDataContainer V = Pipe_SendDataContainer \<and> ReceiveDataContainer V = Pipe_ReceiveDataContainer K"

lemma pipe_methods_over: "over_pipes (pipe_methods S K) K"
  by (simp add: over_pipes_def pipe_methods_def Let_def)

definition at_pipe :: "pipe_communication \<Rightarrow> nat \<Rightarrow> path \<Rightarrow> path \<Rightarrow> nat \<Rightarrow> pipe_communication \<Rightarrow> bool" where
  "at_pipe s0 b p q n s \<longleftrightarrow> 8 \<le> b \<and> PIPE_BUF \<le> n \<and> agrees s0 s \<and>
     mpPipe s = Some \<lparr>b_write = p, b_read = q, b_buffer = b, b_room = n\<rparr>"

text \<open>A message is safe when each of its chunks is written at once.\<close>

definition pipe_fits :: "nat \<Rightarrow> nat \<Rightarrow> string \<Rightarrow> bool" where
  "pipe_fits b k bytes \<longleftrightarrow> b div k * k \<le> PIPE_BUF \<or> length bytes \<le> PIPE_BUF"

definition pipe_frames :: "bool \<Rightarrow> nat \<Rightarrow> nat \<Rightarrow> nat \<Rightarrow> string \<Rightarrow> string list" where
  "pipe_frames be b k l bytes = object_bytes be 8 (word_of_nat l :: u64) # chunks (b div k * k) bytes"

lemma at_pipeD:
  assumes "at_pipe s0 b p q n s"
  shows "mpPipe s = Some \<lparr>b_write = p, b_read = q, b_buffer = b, b_room = n\<rparr>" "comm_big_endian s = comm_big_endian s0"
    "8 \<le> b" "PIPE_BUF \<le> n"
  using assms by (simp_all add: at_pipe_def agrees_def comm_big_endian_def)

lemma buffer_chunks:
  assumes "at_pipe s0 b p q n s" "k \<in> {1, 8}"
  shows "0 < b div k" "0 < k"
proof -
  show "0 < k" using assms(2) by auto
  show "0 < b div k" using assms(2) at_pipeD(3) [OF assms(1)] by (auto simp: div_greater_zero_iff)
qed

lemma with_pipe_io: "mpPipe s = Some B \<Longrightarrow> bindP (with_pipe m) F s = bindP (m B) F s"
  by (simp add: with_pipe_def get_io bindP_assoc)

lemma eight_at_once: "write_pipe p room (object_bytes be 8 x) = write_packet pipe_write_error p room (object_bytes be 8 x)"
  "read_pipe q 8 = read_packet q 8"
  using length_object_bytes [of be 8 x] by (auto simp: write_pipe_def read_pipe_def PIPE_BUF_def)

text \<open>The size is the first packet; the loop over the chunks follows.\<close>

lemma pipe_write_io:
  assumes "mpPipe s = Some \<lparr>b_write = p, b_read = q, b_buffer = b, b_room = n\<rparr>" "comm_big_endian s = comm_big_endian s0"
  shows "bindP (Pipe_Write k l xs) F s =
     bindP (write_packet pipe_write_error p n (object_bytes (comm_big_endian s0) 8 (word_of_nat l :: u64)))
       (\<lambda>_. bindP (write_loop p n (b div k) k xs l) (\<lambda>_. bindP (localP ElapsedSeconds) F)) s"
  unfolding Pipe_Write_def with_pipe_io [OF assms(1)] Pipe_SendSize_def thenP_def bindP_assoc get_io
    assms(2) bidirectional_pipe.simps eight_at_once by (rule refl)

lemma puts_pipe_size:
  assumes "mpPipe s = Some \<lparr>b_write = p, b_read = q, b_buffer = b, b_room = n\<rparr>" "comm_big_endian s = comm_big_endian s0"
  shows "packs p n [object_bytes (comm_big_endian s0) 8 (word_of_nat l :: u64)] (bindP (Pipe_Write k l xs) F s)
     (bindP (write_loop p n (b div k) k xs l) (\<lambda>_. bindP (localP ElapsedSeconds) F) s)"
  unfolding pipe_write_io [OF assms] by (rule packs_packet)

lemma gets_pipe_size:
  assumes "mpPipe s = Some \<lparr>b_write = p, b_read = q, b_buffer = b, b_room = n\<rparr>" "comm_big_endian s = comm_big_endian s0"
    and "l < 2 ^ 64" "resize l = Inr x1"
  shows "unpacks q [object_bytes (comm_big_endian s0) 8 (word_of_nat l :: u64)] (bindP (Pipe_Read k resize memory store) G s)
     (bindP (read_loop q (b div k) k (memory (comm_big_endian s0) x1) l) (\<lambda>bytes.
       bindP (liftP (store (comm_big_endian s0) x1 bytes)) (\<lambda>rData. bindP (localP ElapsedSeconds) (\<lambda>elapsed_time. G (elapsed_time, rData)))) s)"
proof -
  let ?be = "comm_big_endian s0" and ?l = "word_of_nat l :: u64"
  let ?b = "object_bytes ?be 8 ?l"
  let ?S = "\<lambda>bytes. bindP (liftP (store ?be x1 bytes)) (\<lambda>rData. bindP (localP ElapsedSeconds) (\<lambda>elapsed_time. G (elapsed_time, rData)))"
  let ?A = "\<lambda>n :: u64. bindP (liftP (resize (unat n))) (\<lambda>rData. bindP (getP comm_big_endian) (\<lambda>be.
     bindP (read_loop q (b div k) k (memory be rData) (unat n))
      (\<lambda>bytes. bindP (liftP (store be rData bytes)) (\<lambda>rData. bindP (localP ElapsedSeconds) (\<lambda>elapsed_time. G (elapsed_time, rData))))))"
  let ?Z = "\<lambda>bytes. bindP (checkP (length bytes < 8) (UndefinedBehaviour ''uninitialized size'')) (\<lambda>_. ?A (object_value ?be bytes))"
  have u: "unat ?l = l" using assms(3) by (simp add: unat_word_of_nat)
  have r: "bindP (retP x) F = F x" for x F by (simp add: fun_eq_iff ret_io)
  have z: "?Z ?b s = bindP (read_loop q (b div k) k (memory ?be x1) l) ?S s"
    by (simp add: check_io object_roundtrip u assms(4) lift_fun get_io assms(2))
  have "bindP (Pipe_Read k resize memory store) G s = bindP (read_packet q (length ?b)) ?Z s"
    unfolding Pipe_Read_def with_pipe_io [OF assms(1)] Pipe_ReceiveSize_def thenP_def bindP_assoc get_io
      assms(2) bidirectional_pipe.simps eight_at_once r length_object_bytes by (rule refl)
  then show ?thesis
    using unpacks_packet [of q ?b ?Z s] unfolding z by simp
qed

lemma puts_pipe:
  assumes "at_pipe s0 b p q n s" "k \<in> {1, 8}" "length xs = l * k" "pipe_fits b k xs"
  shows "packs p n (pipe_frames (comm_big_endian s0) b k l xs) (bindP (Pipe_Write k l xs) F s)
     (F (elapsed (c_machine s) (c_clock s)) (s\<lparr>c_clock := c_clock s + 1\<rparr>))"
proof -
  let ?W = "bindP (write_loop p n (b div k) k xs l) (\<lambda>_. bindP (localP ElapsedSeconds) F)"
  have "packs p n (chunks (b div k * k) xs) (?W s) (F (elapsed (c_machine s) (c_clock s)) (s\<lparr>c_clock := c_clock s + 1\<rparr>))"
    using packs_chunks [OF assms(3) buffer_chunks [OF assms(1,2)] assms(4) [unfolded pipe_fits_def], of p n 0
        "\<lambda>_. bindP (localP ElapsedSeconds) F" s]
    unfolding mult_0 drop_0 clock_io write_loop_def chunk_sizes_Some [OF buffer_chunks(1) [OF assms(1,2)]] by simp
  from packs_append [OF puts_pipe_size [OF at_pipeD(1,2) [OF assms(1)]] this]
  show ?thesis unfolding pipe_frames_def by simp
qed

lemma gets_pipe:
  assumes "at_pipe s0 b p q n s" "k \<in> {1, 8}" "length bs = l * k" "l < 2 ^ 64"
    and "resize l = Inr x1" "length (memory (comm_big_endian s0) x1) = length bs" "store (comm_big_endian s0) x1 bs = Inr x2"
  shows "unpacks q (pipe_frames (comm_big_endian s0) b k l bs) (bindP (Pipe_Read k resize memory store) G s)
     (G (elapsed (c_machine s) (c_clock s), x2) (s\<lparr>c_clock := c_clock s + 1\<rparr>))"
proof -
  let ?be = "comm_big_endian s0"
  let ?S = "\<lambda>bytes. bindP (liftP (store ?be x1 bytes)) (\<lambda>rData. bindP (localP ElapsedSeconds) (\<lambda>elapsed_time. G (elapsed_time, rData)))"
  let ?R = "bindP (read_loop q (b div k) k (memory ?be x1) l) ?S"
  have "unpacks q (chunks (b div k * k) bs) (?R s) (G (elapsed (c_machine s) (c_clock s), x2) (s\<lparr>c_clock := c_clock s + 1\<rparr>))"
    using unpacks_chunks [OF assms(3) buffer_chunks [OF assms(1,2)], of "memory ?be x1" q 0 ?S s] assms(6)
    unfolding mult_0 drop_0 take_0 append_Nil assms(7) lift_fun clock_io read_loop_def
      chunk_sizes_Some [OF buffer_chunks(1) [OF assms(1,2)]] by simp
  from unpacks_append [OF gets_pipe_size [OF at_pipeD(1,2) [OF assms(1)] assms(4), where store = store and memory = memory and resize = resize, OF assms(5)] this]
  show ?thesis unfolding pipe_frames_def by simp
qed

section \<open>The channel of a connection\<close>

lemma steady_with_pipe:
  assumes "steadyP p (at_pipe s0 b p' q n) (m \<lparr>b_write = p', b_read = q, b_buffer = b, b_room = n\<rparr>)"
  shows "steadyP p (at_pipe s0 b p' q n) (with_pipe m)"
  using assms unfolding steadyP_def with_pipe_def
  by (auto simp: get_io at_pipeD(1))

lemma steady_pipe_elapsed: "steadyP p (at_pipe s0 b p' q n) (localP ElapsedSeconds)"
  by (auto intro!: steadyP_local simp: ElapsedSeconds_def at_pipe_def agrees_def)

lemma steady_busy: "steadyP p I busy_forever"
  by (simp add: steadyP_def busy_forever_def)

lemma steady_write_pipe: "steadyP p I (write_pipe q room cs)"
  by (auto simp: write_pipe_def intro!: steady_intros)

lemma steady_read_pipe: "q \<noteq> p \<Longrightarrow> steadyP p I (read_pipe q n)"
  by (auto simp: read_pipe_def intro!: steady_intros)

lemma steady_write_loop: "steadyP p I (write_loop q room b k xs N)"
proof -
  have "steadyP p I (write_chunks q room k xs i cs)" for i cs
    by (induction cs arbitrary: i) (simp_all add: steadyP_simps steadyP_then steady_write_pipe)
  then show ?thesis by (simp add: write_loop_def steady_busy split: option.split)
qed

lemma steady_read_loop: "q \<noteq> p \<Longrightarrow> steadyP p I (read_loop q b k xs N)"
proof -
  assume q: "q \<noteq> p"
  have "steadyP p I (read_chunks q k ys i cs)" for ys i cs
    by (induction cs arbitrary: i ys) (simp_all add: q steadyP_simps steadyP_bind steady_read_pipe)
  then show ?thesis by (simp add: read_loop_def steady_busy split: option.split)
qed

lemmas pipe_steady = steady_intros steady_with_pipe steady_pipe_elapsed steady_write_pipe steady_read_pipe
  steady_write_loop steady_read_loop

lemma steady_pipe:
  "steadyP p (at_pipe s0 b p q n) (Pipe_SendString i d)" "steadyP p (at_pipe s0 b p q n) (Pipe_SendDataContainer i xs)"
  "p \<noteq> q \<Longrightarrow> steadyP p (at_pipe s0 b p q n) (Pipe_ReceiveString i)"
  "p \<noteq> q \<Longrightarrow> steadyP p (at_pipe s0 b p q n) (Pipe_ReceiveDataContainer K i x)"
  unfolding Pipe_SendString_def Pipe_SendDataContainer_def Pipe_ReceiveString_def Pipe_ReceiveDataContainer_def
    Pipe_Write_def Pipe_Read_def Pipe_SendSize_def Pipe_ReceiveSize_def
  by (auto intro!: pipe_steady)

definition pipe_side :: "(pipe_communication, 'c) methods \<Rightarrow> 'c container \<Rightarrow> ('c \<Rightarrow> bool) \<Rightarrow> (nat \<Rightarrow> 'c \<Rightarrow> bool) \<Rightarrow>
    pipe_communication \<Rightarrow> nat \<Rightarrow> path \<Rightarrow> path \<Rightarrow> nat \<Rightarrow> pipe_communication \<Rightarrow> bool" where
  "pipe_side V K ok room s0 b p q n s \<longleftrightarrow> over_pipes V K \<and> usable K ok room \<and> at_pipe s0 b p q n s"

lemma steady_pipe_side: "(over_pipes V K \<Longrightarrow> steadyP p' (at_pipe s0 b p q n) m) \<Longrightarrow> steadyP p' (pipe_side V K ok room s0 b p q n) m"
  unfolding steadyP_def pipe_side_def by auto

interpretation pipes: stream_methods V K s0 "pipe_side V K ok room s0 b" "pipe_frames (comm_big_endian s0) b" "pipe_fits b" ok room
  for V :: "(pipe_communication, 'c) methods" and K ok room s0 b
proof unfold_locales
  fix p q n s h k
  assume "pipe_side V K ok room s0 b p q n s"
  then show "agrees s0 s \<and> usable K ok room" "pipe_side V K ok room s0 b p q n (s\<lparr>c_heap := h\<rparr>)"
    "pipe_side V K ok room s0 b p q n (s\<lparr>c_clock := k\<rparr>)"
    by (simp_all add: pipe_side_def at_pipe_def agrees_def)
next
  fix p q n s c and k l :: nat and bs
  assume s: "pipe_side V K ok room s0 b p q n s" and k: "k \<in> {1, 8}" and f: "pipe_fits b k bs"
    and c: "c \<in> set (pipe_frames (comm_big_endian s0) b k l bs)"
  have n: "PIPE_BUF \<le> n" "8 \<le> n" using s by (auto simp: pipe_side_def at_pipe_def PIPE_BUF_def)
  from c consider "c = object_bytes (comm_big_endian s0) 8 (word_of_nat l :: u64)" | "c \<in> set (chunks (b div k * k) bs)"
    by (auto simp: pipe_frames_def)
  then show "c \<noteq> [] \<and> length c \<le> n"
  proof cases
    case 1
    then have "length c = 8" by simp
    then show ?thesis using n by auto
  next
    case 2
    then show ?thesis using chunks_fit [OF 2] f n unfolding pipe_fits_def by linarith
  qed
next
  fix p q n s i xs F and d :: string
  assume "pipe_side V K ok room s0 b p q n s"
  then have a: "at_pipe s0 b p q n s" "SendString V = Pipe_SendString" "SendDataContainer V = Pipe_SendDataContainer"
    by (simp_all add: pipe_side_def over_pipes_def)
  show "packs p n (pipe_frames (comm_big_endian s0) b 1 (length d) d)
      (bindP (SendString V i d) F s :: ((error + 'c talks) \<times> pipe_communication) io)
      (F (elapsed (c_machine s) (c_clock s)) (s\<lparr>c_clock := c_clock s + 1\<rparr>))" if "pipe_fits b 1 d"
    unfolding a(2) Pipe_SendString_def by (rule puts_pipe [OF a(1) _ _ that]) simp_all
  show "packs p n (pipe_frames (comm_big_endian s0) b 8 (length xs) (doubles_bytes (comm_big_endian s0) xs))
      (bindP (SendDataContainer V i xs) F s :: ((error + 'c talks) \<times> pipe_communication) io)
      (F (elapsed (c_machine s) (c_clock s)) (s\<lparr>c_clock := c_clock s + 1\<rparr>))" if "pipe_fits b 8 (doubles_bytes (comm_big_endian s0) xs)"
    unfolding a(3) Pipe_SendDataContainer_def bindP_assoc get_io at_pipeD(2) [OF a(1)]
    by (rule puts_pipe [OF a(1) _ _ that]) (simp_all add: length_doubles_bytes)
next
  fix p q n s i G and d :: string
  assume "pipe_side V K ok room s0 b p q n s" and d: "length d < 2 ^ 64"
  then have a: "at_pipe s0 b p q n s" "ReceiveString V = Pipe_ReceiveString"
    by (simp_all add: pipe_side_def over_pipes_def)
  show "unpacks q (pipe_frames (comm_big_endian s0) b 1 (length d) d)
      (bindP (ReceiveString V i) G s :: ((error + 'c talks) \<times> pipe_communication) io)
      (G (elapsed (c_machine s) (c_clock s), d) (s\<lparr>c_clock := c_clock s + 1\<rparr>))"
    unfolding a(2) Pipe_ReceiveString_def by (rule gets_pipe [where ?x1.0 = "replicate (length d) (CHR 0x00)", OF a(1) _ _ d]) simp_all
next
  fix p q n s i x0 x1 x2 H and xs :: "dbl list"
  assume "pipe_side V K ok room s0 b p q n s" and x: "length xs < 2 ^ 64" "resized K (length xs) x0 = Inr x1"
    "length (k_elems K x1) = length xs" "stored K xs x1 = Inr x2"
  then have a: "at_pipe s0 b p q n s" "ReceiveDataContainer V = Pipe_ReceiveDataContainer K"
    by (simp_all add: pipe_side_def over_pipes_def)
  show "unpacks q (pipe_frames (comm_big_endian s0) b 8 (length xs) (doubles_bytes (comm_big_endian s0) xs))
      (bindP (ReceiveDataContainer V i x0) H s :: ((error + 'c talks) \<times> pipe_communication) io)
      (H (elapsed (c_machine s) (c_clock s), x2) (s\<lparr>c_clock := c_clock s + 1\<rparr>))"
    unfolding a(2) Pipe_ReceiveDataContainer_def
    by (rule gets_pipe [where ?x1.0 = x1, OF a(1) _ _ x(1)]) (simp_all add: length_doubles_bytes x(2-4) bytes_doubles_inverse)
qed (rule steady_pipe_side, simp add: over_pipes_def steady_pipe)+

end
