(* ===== verification/PipeExchanges.thy ===== *)
theory PipeExchanges
  imports PipeTransfers SocketExchanges ConnectionLaws
begin

text \<open>
  Conversations through pipes: messages whose chunks are written at once arrive; larger ones may be
  read in part; and with a buffer that is smaller than a number no field data is ever exported.
\<close>

section \<open>Messages that fit\<close>

definition piped :: "path \<Rightarrow> path \<Rightarrow> nat \<Rightarrow> pipe_communication \<Rightarrow> pipe_communication \<Rightarrow> bool" where
  "piped p q b s t \<longleftrightarrow> mIsConnected s \<and> agrees s t \<and> p \<noteq> q \<and> 8 \<le> b \<and>
     (\<exists>n n'. PIPE_BUF \<le> n \<and> PIPE_BUF \<le> n' \<and> mpPipe s = Some \<lparr>b_write = p, b_read = q, b_buffer = b, b_room = n\<rparr> \<and>
       mpPipe t = Some \<lparr>b_write = q, b_read = p, b_buffer = b, b_room = n'\<rparr>)"

lemma pipedD:
  assumes "piped p q b s t"
  obtains n n' where "at_pipe s b p q n s" "at_pipe s b q p n' t" "p \<noteq> q"
  using assms unfolding piped_def at_pipe_def agrees_def by auto

text \<open>
  Property C9. Two partners connected by pipes converse: each exports and imports field data, meshes and
  \<open>Info\<close> objects in an agreed order, in both directions. If each message is written in chunks of at most
  \<open>PIPE_BUF\<close> bytes - because the buffer has at most that size or the message has - no run blocks or goes on
  for ever, no call fails, and all runs end in the same way: every import has received exactly what the
  matching export sent (of a mesh, a well-formed part with the same mesh), both sides are still connected and the pipes are empty.
\<close>

theorem pipe_conversation_arrives:
  assumes "over_pipes V K" "usable K ok room" "piped p q b s t" "quiet p w" "quiet q w"
    and "\<forall>x \<in> set ts. stream_good ok room s (message_of x) \<and> message_fits (pipe_fits b) s (message_of x)"
  shows "\<exists>rs vs s' t'. every_run_ends (stream_converse V K ts s, stream_converse V K (map other_side ts) t, w)
       (Done (Inr rs, s'), Done (Inr vs, t'), w) \<and>
     list_all2 (took (stream_received K)) ts rs \<and> list_all2 (took (stream_received K)) (map other_side ts) vs \<and>
     mIsConnected s' \<and> mIsConnected t'"
proof -
  obtain n n' where n: "at_pipe s b p q n s" "at_pipe s b q p n' t" "p \<noteq> q" using pipedD [OF assms(3)] .
  then have side: "pipe_side V K ok room s b p q n s" "pipe_side V K ok room s b q p n' t"
    using assms(1,2) by (simp_all add: pipe_side_def)
  have c: "mIsConnected s'" if "pipe_side V K ok room s b p q n s'" for p q n s'
    using pipes.sideD(1) [OF that] .
  show ?thesis using pipes.conversation [OF side n(3) assms(4-6)] c by metis
qed

definition fixed_pipes :: pipe_system where
  "fixed_pipes = \<lparr>ps_size = (\<lambda>_. 65536), ps_resized = (\<lambda>_ _. 65536)\<rparr>"

definition sample_pipe :: "string \<Rightarrow> string \<Rightarrow> bool \<Rightarrow> bidirectional_pipe \<Rightarrow> pipe_communication" where
  "sample_pipe me other primary B = communication.extend (communication.truncate (sample_linked me other primary))
     \<lparr>mBufferSize = 65536, mpPipe = Some B\<rparr>"

definition sample_ends :: "nat \<Rightarrow> bool \<Rightarrow> bidirectional_pipe" where
  "sample_ends b primary = (if primary then \<lparr>b_write = ''ps'', b_read = ''sp'', b_buffer = b, b_room = 65536\<rparr>
     else \<lparr>b_write = ''sp'', b_read = ''ps'', b_buffer = b, b_room = 65536\<rparr>)"

lemma sample_pipe_fields:
  "mIsConnected (sample_pipe me other primary B)" "mpPipe (sample_pipe me other primary B) = Some B"
  "plat (c_machine (sample_pipe me other primary B)) = bits_platform"
  "mSerializerTraceType (sample_pipe me other primary B) = SERIALIZER_NO_TRACE"
  "\<not> mAlwaysUseSerializer (sample_pipe me other primary B)"
  by (simp_all add: sample_pipe_def sample_linked_def sample_comm_def sample_machine_def communication.defs)

lemma sample_piped:
  "8 \<le> b \<Longrightarrow> piped ''ps'' ''sp'' b (sample_pipe ''A'' ''B'' True (sample_ends b True)) (sample_pipe ''B'' ''A'' False (sample_ends b False))"
  "quiet p sample_world"
proof -
  show "8 \<le> b \<Longrightarrow> piped ''ps'' ''sp'' b (sample_pipe ''A'' ''B'' True (sample_ends b True)) (sample_pipe ''B'' ''A'' False (sample_ends b False))"
    unfolding piped_def agrees_def
    by (intro conjI exI [of _ "65536 :: nat"]) (simp_all add: sample_pipe_fields sample_ends_def PIPE_BUF_def)
qed (simp add: quiet_def sample_world_def)

lemma sample_data_good:
  assumes "x \<in> {''load'', ''disp''}" "length xs < 3000"
  shows "stream_good (\<lambda>_. True) (\<lambda>_ _. True) (sample_pipe ''A'' ''B'' True B) (Data (sample_id x) (sample_id x) xs x0)"
proof -
  have "get_string (sample_id x) ''identifier'' = Inr x"
    by (simp add: sample_id_def get_string_def Info_Get_def Info_Has_def GetExistingKey_def GetDataTypeName_def bindR_def)
  moreover have "CheckEntry x ''identifier'' = Inr ()"
    using assms(1) by (auto simp: CheckEntry_Inr disallowed_chars_def max_allowed_size_def)
  ultimately show ?thesis
    using assms(2) by (simp add: stream_good_def good_message_def names_agree_def stream_frame_def sample_pipe_fields Let_def)
qed

theorem pipe_conversation_arrives_witness:
  "\<exists>rs vs s' t'. every_run_ends
       (stream_converse (pipe_methods fixed_pipes vector_container) vector_container
          [Forth (Data (sample_id ''load'') (sample_id ''load'') [1, 2, 3] []), Back (Data (sample_id ''disp'') (sample_id ''disp'') [7] [])]
          (sample_pipe ''A'' ''B'' True (sample_ends 65535 True)),
        stream_converse (pipe_methods fixed_pipes vector_container) vector_container
          [Back (Data (sample_id ''load'') (sample_id ''load'') [1, 2, 3] []), Forth (Data (sample_id ''disp'') (sample_id ''disp'') [7] [])]
          (sample_pipe ''B'' ''A'' False (sample_ends 65535 False)), sample_world)
       (Done (Inr rs, s'), Done (Inr vs, t'), sample_world) \<and> (\<exists>v. vs ! 0 = Inr v \<and> snd v = Values [1, 2, 3])"
proof -
  let ?ts = "[Forth (Data (sample_id ''load'') (sample_id ''load'') [1, 2, 3] []), Back (Data (sample_id ''disp'') (sample_id ''disp'') [7] [])]
    :: dbl list message turn list"
  let ?s = "sample_pipe ''A'' ''B'' True (sample_ends 65535 True)"
  have b: "8 \<le> (65535 :: nat)" by simp
  have f: "message_fits (pipe_fits 65535) ?s (Data (sample_id x) (sample_id x) xs x0)" if "length xs < 500" for x xs and x0 :: "dbl list"
    using that by (simp add: message_fits_def pipe_fits_def element_size_def stream_frame_def sample_pipe_fields
        length_doubles_bytes PIPE_BUF_def Let_def)
  have g: "\<forall>x \<in> set ?ts. stream_good (\<lambda>_. True) (\<lambda>_ _. True) ?s (message_of x) \<and> message_fits (pipe_fits 65535) ?s (message_of x)"
    by (auto intro!: f sample_data_good)
  obtain rs vs s' t' where r: "every_run_ends
      (stream_converse (pipe_methods fixed_pipes vector_container) vector_container ?ts ?s,
       stream_converse (pipe_methods fixed_pipes vector_container) vector_container
         (map other_side ?ts) (sample_pipe ''B'' ''A'' False (sample_ends 65535 False)), sample_world)
      (Done (Inr rs, s'), Done (Inr vs, t'), sample_world)"
    "list_all2 (took (stream_received vector_container)) (map other_side ?ts) vs"
    using pipe_conversation_arrives [OF pipe_methods_over usable_vectors sample_piped(1) [OF b] sample_piped(2,2) g] by blast
  have "took (stream_received vector_container) (map other_side ?ts ! 0) (vs ! 0)"
    using list_all2_nthD [OF r(2), of 0] by simp
  then have "\<exists>v. vs ! 0 = Inr v \<and> snd v = Values [1, 2, 3]" by (auto simp: stream_received_def vector_container_def)
  then show ?thesis using r(1) by (simp, blast)
qed

section \<open>A buffer smaller than a number\<close>

lemma returns_reaches:
  assumes "reaches (p, q, w) (p', q', w')" "returns Q p"
  shows "returns Q p'"
  using assms
proof (induction "(p, q, w)" arbitrary: p q w rule: converse_rtranclp_induct)
  case (step z)
  from step(1) show ?case
  proof (cases rule: steps_cases)
    case (left p1 w1)
    then have "returns Q p1" using step(4) by (cases p) (auto split: if_splits)
    then show ?thesis using step(3) left(1) by blast
  next
    case (right q1 w1)
    then show ?thesis using step(3,4) by blast
  qed
qed simp

lemma gives_get: "(\<And>s. I s \<Longrightarrow> gives I W (f (g s))) \<Longrightarrow> gives I W (bindP (getP g) f)"
  by (simp add: gives_def get_io)

lemma ret_then: "bindP (retP x) F = F x"
  by (simp add: fun_eq_iff ret_io)

lemma no_chunks: "0 < N \<Longrightarrow> write_loop p room 0 k xs N = busy_forever" "0 < N \<Longrightarrow> read_loop p 0 k xs N = busy_forever"
  by (simp_all add: write_loop_def read_loop_def chunk_sizes_None)

lemma busy_then: "bindP busy_forever F = busy_forever"
  by (simp add: fun_eq_iff bindP_def busy_forever_def)

lemma busy_waits: "busy_forever s \<noteq> Done r" "access (busy_forever s) w = None"
  by (simp_all add: busy_forever_def)

lemma gives_never: "gives I V busy_forever"
  by (simp add: gives_def busy_forever_def)

lemma export_never:
  assumes "over_pipes V K" "b_buffer B < 8" "xs \<noteq> []"
  shows "gives (\<lambda>s. mpPipe s = Some B \<and> \<not> mAlwaysUseSerializer s) (\<lambda>_. False) (stream_export V (Data i j xs x0))"
    (is "gives ?I _ _")
proof -
  have w: "keeps ?I (write_packet e p room cs)" for e p room cs
    unfolding write_packet_def by (intro keeps_then keeps_simps) (simp add: gives_def waitP_def)
  then have b: "keeps ?I (write_pipe p room cs)" for p room cs
  proof -
    have "keeps ?I (write_bytes e p room cs)" for e by (induction cs) (auto intro!: keeps_then w)
    then show ?thesis using w by (auto simp: write_pipe_def)
  qed
  have "gives ?I (\<lambda>_. False) (Pipe_SendDataContainer i xs)"
    unfolding Pipe_SendDataContainer_def Pipe_Write_def with_pipe_def Pipe_SendSize_def
    using assms(2,3) by (auto intro!: gives_get keeps_then b keeps_bind [OF b] gives_bind [OF gives_never [where V = "\<lambda>_. False"]]
        simp: no_chunks thenP_def bindP_assoc)
  then have "gives ?I (\<lambda>_. False) (Base_ExportDataImpl V i xs)"
    using assms(1) unfolding Base_ExportDataImpl_def over_pipes_def
    by (auto intro!: gives_get gives_bind [where V = "\<lambda>_. False"])
  then show ?thesis
    unfolding stream_export_def message.case Base_ExportData_def with_checks_def no_result_def
    by (auto intro!: keeps_then gives_get keeps_simps gives_bind [where V = "\<lambda>_. False"])
qed

lemma steadyP_at: "steadyP p I m \<Longrightarrow> I s \<Longrightarrow> steady p (\<lambda>(r, s'). I s') (m s)"
  by (simp add: steadyP_def)

lemma export_after_size:
  assumes "over_pipes V K" "CheckConnection i s = Inr ()" "\<not> mAlwaysUseSerializer s"
  shows "stream_export V (Data i j xs x0) s = bindP (Pipe_Write 8 (length xs) (doubles_bytes (comm_big_endian s) xs))
      (\<lambda>e. bindP (localP (new_info [(''elapsed_time'', DDouble e), (''memory_usage_ipc'', DSize (word_of_nat (length xs * 8)))]))
        (\<lambda>o_info. bindP (post i (o_info, ())) retP)) s"
proof -
  have sd: "SendDataContainer V = Pipe_SendDataContainer" using assms(1) by (simp add: over_pipes_def)
  have "stream_export V (Data i j xs x0) s = bindP (Base_ExportData V i xs) retP s"
    by (simp add: bindP_ret stream_export_def)
  then show ?thesis
    unfolding Base_ExportData_def export_io [OF assms(2)] Base_ExportDataImpl_def sd Pipe_SendDataContainer_def
    by (simp only: bindP_assoc get_io assms(3) if_False)
qed

text \<open>Two programs that both wait for what cannot happen are where all runs end.\<close>

lemma every_run_blocks: "leads s (busy_forever u, busy_forever v, w) \<Longrightarrow> every_run_ends s (busy_forever u, busy_forever v, w)"
proof -
  assume l: "leads s (busy_forever u, busy_forever v, w)"
  have "stuck (busy_forever u, busy_forever v, w)" by (simp add: stuck_def busy_waits)
  then have e: "ends (busy_forever u, busy_forever v, w) t \<longleftrightarrow> t = (busy_forever u, busy_forever v, w)" for t
    unfolding ends_def by (metis stuck_iff converse_rtranclpE rtranclp.rtrancl_refl)
  then have "t = (busy_forever u, busy_forever v, w)" if "ends s t" for t using l that unfolding leads_def by blast
  moreover obtain t where "ends s t" using reaches_stuck unfolding ends_def by blast
  ultimately show ?thesis using no_infinite_run unfolding every_run_ends_def by blast
qed

text \<open>
  Property C13. With a \<open>buffer_size\<close> of less than eight bytes, which nothing refuses, an export of field data never
  returns, neither with a result nor with an error: the loop over the chunks does not end. Neither does the import of
  the partner - in every run the two sides exchange the size and then both are in that loop for ever. And whatever
  else the partner does, in no run does the export come back with a result.
\<close>

theorem small_buffer_never_returns:
  assumes "over_pipes V K" "usable K ok room" "mIsConnected s" "agrees s t" "p \<noteq> q" "b < 8" "8 \<le> n"
    and "mpPipe s = Some \<lparr>b_write = p, b_read = q, b_buffer = b, b_room = n\<rparr>"
    and "mpPipe t = Some \<lparr>b_write = q, b_read = p, b_buffer = b, b_room = n'\<rparr>"
    and "quiet p w" "stream_good ok room s (Data i j xs x0)" "\<not> mAlwaysUseSerializer s" "xs \<noteq> []"
  shows "chunk_sizes (b div 8) (length xs) = None \<and>
    (\<exists>x y. every_run_ends (stream_export V (Data i j xs x0) s, stream_import V K (Data i j xs x0) t, w) (x, y, w) \<and>
       (\<forall>r. x \<noteq> Done r) \<and> (\<forall>r. y \<noteq> Done r)) \<and>
    \<not> reaches (stream_export V (Data i j xs x0) s, other, v) (Done (Inr r, s'), other', v')"
proof (intro conjI notI)
  have b: "b div 8 = 0" "0 < length xs" using assms(6,13) by simp_all
  show "chunk_sizes (b div 8) (length xs) = None" unfolding b(1) using b(2) by (rule chunk_sizes_None)
  obtain y where y: "get_string i ''identifier'' = Inr y" "get_string j ''identifier'' = Inr y" "CheckEntry y ''identifier'' = Inr ()"
    and l: "length xs < 2 ^ 64" "ok x0" "room (length xs) x0"
    using assms(11) by (auto simp: stream_good_def good_message_def names_agree_def)
  have t: "mIsConnected t" "\<not> mAlwaysUseSerializer t" "comm_big_endian t = comm_big_endian s"
    using assms(3,4,12) by (simp_all add: agrees_def comm_big_endian_def)
  note cs = check_connection_ok [OF assms(3) y(1,3)] and ct = check_connection_ok [OF t(1) y(2,3)]
  let ?z = "object_bytes (comm_big_endian s) 8 (word_of_nat (length xs) :: u64)"
  let ?x = "stream_export V (Data i j xs x0) s" and ?y = "stream_import V K (Data i j xs x0) t"
  have x: "?x = bindP (write_packet pipe_write_error p n ?z) (\<lambda>_. busy_forever) s"
    unfolding export_after_size [OF assms(1) cs assms(12)] pipe_write_io [OF assms(8) refl] b(1) no_chunks(1) [OF b(2)] busy_then
    by (rule refl)
  obtain x1 where x1: "resized K (length xs) x0 = Inr x1" using filled_in_steps [OF assms(2) l(2,3)] .
  have sd: "ReceiveDataContainer V = Pipe_ReceiveDataContainer K" using assms(1) by (simp add: over_pipes_def)
  have y': "unpacks p [?z] ?y (busy_forever t)"
    using import_data_over(2) [OF ct t(2), of V K i xs x0 retP]
      gets_pipe_size [where ?x1.0 = x1 and k = 8, OF assms(9) t(3) l(1), of "\<lambda>n. resized K n x0"] x1
    unfolding bindP_ret sd Pipe_ReceiveDataContainer_def b(1) no_chunks(2) [OF b(2)] busy_then by simp
  have st: "steady p (\<lambda>(r, s'). True) ?x"
    unfolding x by (rule steadyP_at [where I = "\<lambda>_. True"]) (intro steady_intros steady_busy, rule TrueI)
  have "length ?z = 8" by simp
  then have z: "\<forall>c \<in> set [?z]. c \<noteq> [] \<and> length c \<le> n" using assms(7) by auto
  have "packs p n [?z] ?x (busy_forever s)" unfolding x by (rule packs_packet)
  from exchange [OF this y' st _ _ z] have "leads (?x, ?y, w) (busy_forever s, busy_forever t, w)"
    using assms(10) by (simp add: quiet_def)
  from every_run_blocks [OF this] show "\<exists>x y. every_run_ends (?x, ?y, w) (x, y, w) \<and> (\<forall>r. x \<noteq> Done r) \<and> (\<forall>r. y \<noteq> Done r)"
    by (intro exI conjI allI, assumption) (simp_all add: busy_waits)
  let ?B = "\<lparr>b_write = p, b_read = q, b_buffer = b, b_room = n\<rparr>"
  assume r: "reaches (stream_export V (Data i j xs x0) s, other, v) (Done (Inr r, s'), other', v')"
  have B: "b_buffer ?B < 8" using assms(6) by simp
  have "returns (\<lambda>(r, s'). (mpPipe s' = Some ?B \<and> \<not> mAlwaysUseSerializer s') \<and> (\<forall>x. r = Inr x \<longrightarrow> False)) ?x"
    using export_never [OF assms(1) B assms(13), of i j x0] assms(8,12) unfolding gives_def by blast
  from returns_reaches [OF r this] show False by (cases r) auto
qed

theorem small_buffer_never_returns_witness:
  "pipe_ends fixed_pipes 4 ''sp'' ''ps'' = Inr (sample_ends 4 True) \<and>
     (\<exists>x y. every_run_ends
       (stream_export (pipe_methods fixed_pipes vector_container)
         (Data (sample_id ''load'') (sample_id ''load'') [1] []) (sample_pipe ''A'' ''B'' True (sample_ends 4 True)),
        stream_import (pipe_methods fixed_pipes vector_container) vector_container
         (Data (sample_id ''load'') (sample_id ''load'') [1] []) (sample_pipe ''B'' ''A'' False (sample_ends 4 False)), sample_world)
       (x, y, sample_world) \<and> (\<forall>r. x \<noteq> Done r) \<and> (\<forall>r. y \<noteq> Done r))"
proof -
  let ?s = "sample_pipe ''A'' ''B'' True (sample_ends 4 True)" and ?t = "sample_pipe ''B'' ''A'' False (sample_ends 4 False)"
  have p: "mpPipe ?s = Some \<lparr>b_write = ''ps'', b_read = ''sp'', b_buffer = 4, b_room = 65536\<rparr>"
    "mpPipe ?t = Some \<lparr>b_write = ''sp'', b_read = ''ps'', b_buffer = 4, b_room = 65536\<rparr>" "mIsConnected ?s"
    by (simp_all add: sample_pipe_fields sample_ends_def)
  have a: "agrees ?s ?t" by (simp add: agrees_def sample_pipe_fields)
  have g: "stream_good (\<lambda>_. True) (\<lambda>_ _. True) ?s (Data (sample_id ''load'') (sample_id ''load'') [1] [])"
    by (rule sample_data_good) simp_all
  have e: "pipe_ends fixed_pipes 4 ''sp'' ''ps'' = Inr (sample_ends 4 True)"
    by (simp add: pipe_ends_def pipe_capacities_def pipe_buffer_def fixed_pipes_def sample_ends_def bindR_def Let_def)
  have n: "''ps'' \<noteq> ''sp''" "(4 :: nat) < 8" "(8 :: nat) \<le> 65536" "[1 :: dbl] \<noteq> []" by simp_all
  note small_buffer_never_returns [OF pipe_methods_over [of fixed_pipes] usable_vectors p(3) a n(1-3) p(1,2)
        sample_piped(2) g sample_pipe_fields(5) n(4)]
  then show ?thesis using e by blast
qed

section \<open>Messages that do not fit\<close>

lemma write_bytes_append: "write_bytes e p n (a @ b) = thenP (write_bytes e p n a) (write_bytes e p n b)"
  by (induction a) (simp_all add: thenP_def bindP_assoc ret_then)

lemma packs_reaches:
  "packs p n ps x y \<Longrightarrow> \<not> closed w p \<Longrightarrow> length (streams w p) + length (concat ps) \<le> n \<Longrightarrow>
     reaches (x, q, w) (y, q, push p (concat ps) w)"
proof (induction arbitrary: w rule: packs.induct)
  case (packs_nil p room x)
  have "push p (concat []) w = w" by (simp add: push_def)
  then show ?case by simp
next
  case (packs_cons p k y room cs z c)
  have "steps (Wait (room_for p room c) (Act (written p c) k), q, w) (Act (written p c) k, q, w)"
    using packs_cons.prems by (intro steps.steps_left) (simp add: room_for_def)
  moreover have "steps (Act (written p c) k, q, w) (y, q, push p c w)"
    using packs_cons.prems packs_cons.hyps(1) by (intro steps.steps_left) (simp add: written_def)
  moreover have "reaches (y, q, push p c w) (z, q, push p (concat cs) (push p c w))"
    using packs_cons.prems by (intro packs_cons.IH) simp_all
  moreover have "push p (concat cs) (push p c w) = push p (concat (c # cs)) w"
    by (rule world_files_eq) (auto simp: fun_eq_iff)
  ultimately show ?case by (metis converse_rtranclp_into_rtranclp)
qed

lemma unpacks_reaches:
  assumes "unpacks p [c] y z" "take (length c) (streams w p) = c" "c \<noteq> []"
  shows "reaches (x, y, w) (x, z, pop p (length c) w)"
proof -
  obtain k where k: "y = Wait (something_in p) (Act (pop p (length c)) k)" "\<And>w. take (length c) (streams w p) = c \<Longrightarrow> k w = z"
    using assms(1) by (auto elim!: unpacks_consE unpacks_nilE)
  have "steps (x, y, w) (x, Act (pop p (length c)) k, w)"
    unfolding k(1) using assms(2,3) by (intro steps.steps_right) (auto simp: something_in_def)
  moreover have "steps (x, Act (pop p (length c)) k, w) (x, z, pop p (length c) w)"
    using k(2) [of w] assms(2) by (intro steps.steps_right) simp
  ultimately show ?thesis by (metis converse_rtranclp_into_rtranclp rtranclp.rtrancl_refl)
qed

text \<open>One chunk that is larger than \<open>PIPE_BUF\<close> is written byte by byte; the read takes what is there.\<close>

lemma one_chunk:
  fixes F :: "unit \<Rightarrow> ('s, 'a) prog" and G :: "string \<Rightarrow> ('s, 'a) prog"
  assumes "0 < l" "l \<le> b" "length xs = l * k" "0 < k"
  shows "PIPE_BUF < length xs \<Longrightarrow> bindP (write_loop p n b k xs l) F s = bindP (write_bytes pipe_write_error p n xs) F s"
    "bindP (read_loop p b k mem l) G s =
       Wait (something_in p) (Act (pop p (l * k)) (\<lambda>w. G (overwrite 0 (take (l * k) (streams w p)) mem) s))"
proof -
  have "sizes_of b l = [l]" using assms(1,2) by (subst sizes_of.simps) simp
  then have b: "chunk_sizes b l = Some [l]" using assms(1,2) by (simp add: chunk_sizes_Some)
  have "(write_loop p n b k xs l :: ('s, unit) prog) = thenP (write_pipe p n xs) (retP ())"
    using assms(3) by (simp add: write_loop_def b)
  moreover have "(write_pipe p n xs :: ('s, unit) prog) = write_bytes pipe_write_error p n xs" if "PIPE_BUF < length xs"
    using that by (auto simp: write_pipe_def)
  ultimately show "PIPE_BUF < length xs \<Longrightarrow> bindP (write_loop p n b k xs l) F s = bindP (write_bytes pipe_write_error p n xs) F s"
    by (simp add: thenP_def bindP_ret)
  have "(read_loop p b k mem l :: ('s, string) prog) = bindP (read_packet p (l * k)) (\<lambda>bytes. retP (overwrite 0 bytes mem))"
    using assms(1,4) by (simp add: read_loop_def b read_pipe_def)
  then show "bindP (read_loop p b k mem l) G s =
       Wait (something_in p) (Act (pop p (l * k)) (\<lambda>w. G (overwrite 0 (take (l * k) (streams w p)) mem) s))"
    by (simp add: bindP_assoc ret_then packet_io)
qed

lemma first_number:
  assumes "length ys = length xs" "xs \<noteq> []"
  shows "bytes_doubles be (length xs) (overwrite 0 (take 8 (doubles_bytes be xs)) (doubles_bytes be ys)) = hd xs # tl ys"
proof -
  obtain x xs' where xs: "xs = x # xs'" using assms(2) by (cases xs) auto
  then obtain y ys' where ys: "ys = y # ys'" using assms(1) by (cases ys) auto
  have "overwrite 0 (take 8 (doubles_bytes be xs)) (doubles_bytes be ys) = doubles_bytes be (x # ys')"
    by (simp add: overwrite_def doubles_bytes_def xs ys)
  then show ?thesis using bytes_doubles_inverse [of be "x # ys'"] assms(1) by (simp add: xs ys)
qed

lemma import_ends:
  fixes t :: "'x communication_scheme" and K :: "'c container"
  assumes "get_string j ''identifier'' = Inr x"
  shows "\<exists>r u. (case (e, y) of (e, x) \<Rightarrow> bindP (localP (new_info [(''elapsed_time'', DDouble e),
       (''memory_usage_ipc'', DSize (word_of_nat (length (k_elems K x) * 8)))]))
     (\<lambda>info. bindP (post j (info, x)) (\<lambda>(r, x). retP (r, Values x)))) t = Done (Inr (r, Values y), u)"
proof -
  let ?kvs = "[(''elapsed_time'', DDouble e), (''memory_usage_ipc'', DSize (word_of_nat (length (k_elems K y) * 8)))]"
  let ?o = "add_entries ?kvs (c_heap t) Info_new"
  have p: "bindP (post j (?o, y)) F = F (?o, y)" for F :: "info \<times> 'c \<Rightarrow> ('x communication_scheme, info \<times> 'c cargo) prog"
    using new_entries(2) [OF refl] by (intro post_io [OF assms]) blast+
  show ?thesis unfolding prod.case new_info_io p retP_def by blast
qed

text \<open>
  Property C12. Field data of more than \<open>PIPE_BUF\<close> bytes in one chunk, the default for everything up to 64 KB,
  is not safe: the number of bytes that a read returns is not looked at. There is a run in which the
  import returns without an error after it has received the first number only; all others are
  what the container held after it was resized.
\<close>

theorem short_read_unnoticed:
  assumes "over_pipes V K" "usable K ok room" "piped p q b s t" "quiet p w" "stream_good ok room s (Data i j xs x0)"
    and "\<not> mAlwaysUseSerializer s" "PIPE_BUF < 8 * length xs" "length xs \<le> b div 8"
    and "resized K (length xs) x0 = Inr x1" "length (k_elems K x1) = length xs" "stored K (hd xs # tl (k_elems K x1)) x1 = Inr x2"
  shows "\<exists>x r t' w'. reaches (stream_export V (Data i j xs x0) s, stream_import V K (Data i j xs x0) t, w)
     (x, Done (Inr (r, Values x2), t'), w')"
proof -
  obtain n n' where n: "at_pipe s b p q n s" "at_pipe s b q p n' t" using pipedD [OF assms(3)] .
  have e: "mIsConnected s" "mIsConnected t" "\<not> mAlwaysUseSerializer t"
    using n assms(6) by (simp_all add: at_pipe_def agrees_def)
  obtain y where y: "get_string i ''identifier'' = Inr y" "get_string j ''identifier'' = Inr y" "CheckEntry y ''identifier'' = Inr ()"
    and l: "length xs < 2 ^ 64"
    using assms(5) by (auto simp: stream_good_def good_message_def names_agree_def)
  note cs = check_connection_ok [OF e(1) y(1,3)] and ct = check_connection_ok [OF e(2) y(2,3)]
  let ?be = "comm_big_endian s" and ?l = "length xs"
  let ?d = "doubles_bytes ?be xs" and ?z = "object_bytes ?be 8 (word_of_nat ?l :: u64)"
  have d: "length ?d = ?l * 8" by (rule length_doubles_bytes)
  have nz: "0 < ?l" "xs \<noteq> []" using assms(7) by (cases xs; simp)+
  have big: "PIPE_BUF < length ?d" using assms(7) d by simp
  have sd: "ReceiveDataContainer V = Pipe_ReceiveDataContainer K"
    using assms(1) by (simp add: over_pipes_def)
  let ?F = "\<lambda>e. bindP (localP (new_info [(''elapsed_time'', DDouble e), (''memory_usage_ipc'', DSize (word_of_nat (?l * 8)))]))
        (\<lambda>o_info. bindP (post i (o_info, ())) retP)"
  note ex = export_after_size [OF assms(1) cs assms(6), of j xs x0]
  let ?z1 = "bindP (write_bytes pipe_write_error p n (drop 8 ?d)) (\<lambda>_. bindP (localP ElapsedSeconds) ?F) s"
  have "packs p n [?z] (stream_export V (Data i j xs x0) s)
      (bindP (write_bytes pipe_write_error p n (take 8 ?d @ drop 8 ?d)) (\<lambda>_. bindP (localP ElapsedSeconds) ?F) s)"
    using puts_pipe_size [OF at_pipeD(1) [OF n(1)] refl, of ?l 8 ?d ?F] unfolding ex one_chunk(1) [OF nz(1) assms(8) d _ big, simplified] by simp
  then have pk: "packs p n ([?z] @ singles (take 8 ?d)) (stream_export V (Data i j xs x0) s) ?z1"
    unfolding write_bytes_append thenP_def bindP_assoc by (rule packs_append) (rule puts_write)
  have c: "concat ([?z] @ singles (take 8 ?d)) = ?z @ take 8 ?d" by (simp add: concat_map_singleton)
  have q: "\<not> closed w p" "streams w p = []" using assms(4) by (simp_all add: quiet_def)
  have r: "length (streams w p) + length (concat ([?z] @ singles (take 8 ?d))) \<le> n"
    using q(2) at_pipeD(4) [OF n(1)] unfolding c by (simp add: PIPE_BUF_def)
  let ?I = "stream_import V K (Data i j xs x0) t" and ?w = "push p (?z @ take 8 ?d) w"
  have 1: "reaches (stream_export V (Data i j xs x0) s, ?I, w) (?z1, ?I, ?w)"
    using packs_reaches [OF pk q(1) r, where q = ?I] unfolding c .
  let ?mem = "doubles_bytes ?be (k_elems K x1)"
  let ?H = "\<lambda>(e, x). bindP (localP (new_info [(''elapsed_time'', DDouble e),
       (''memory_usage_ipc'', DSize (word_of_nat (length (k_elems K x) * 8)))]))
     (\<lambda>info. bindP (post j (info, x)) (\<lambda>(r, x). retP (r, Values x)))"
  let ?S = "\<lambda>bytes. bindP (liftP (stored K (bytes_doubles ?be (length (k_elems K x1)) bytes) x1))
      (\<lambda>rData. bindP (localP ElapsedSeconds) (\<lambda>e. ?H (e, rData)))"
  let ?R = "Wait (something_in p) (Act (pop p (?l * 8)) (\<lambda>w. ?S (overwrite 0 (take (?l * 8) (streams w p)) ?mem) t))"
  have "?I = bindP (Pipe_ReceiveDataContainer K j x0) ?H t"
    using import_data_over(2) [OF ct e(3), of V K i xs x0 retP] unfolding bindP_ret sd .
  then have "unpacks p [?z] ?I ?R"
    using gets_pipe_size [where ?x1.0 = x1 and k = 8 and G = ?H and store = "\<lambda>be x bytes. stored K (bytes_doubles be (length (k_elems K x)) bytes) x"
        and memory = "\<lambda>be x. doubles_bytes be (k_elems K x)" and resize = "\<lambda>n. resized K n x0", OF at_pipeD(1,2) [OF n(2)] l assms(9)]
    unfolding Pipe_ReceiveDataContainer_def one_chunk(2) [where k = 8, OF nz(1) assms(8) d, simplified] by simp
  moreover have w: "take (length ?z) (streams ?w p) = ?z" "?z \<noteq> []" "streams (pop p (length ?z) ?w) p = take 8 ?d"
    using q(2) length_object_bytes [of ?be 8 "word_of_nat ?l :: u64"] by auto
  ultimately have 2: "reaches (?z1, ?I, ?w) (?z1, ?R, pop p (length ?z) ?w)"
    by (intro unpacks_reaches)
  let ?v = "pop p (length ?z) ?w"
  have m: "8 \<le> ?l * 8" using nz(1) by linarith
  have f: "bytes_doubles ?be (length (k_elems K x1)) (overwrite 0 (take (?l * 8) (streams ?v p)) ?mem) = hd xs # tl (k_elems K x1)"
  proof -
    have "take (?l * 8) (streams ?v p) = take 8 ?d" unfolding w(3) take_take min_absorb2 [OF m] ..
    then show ?thesis unfolding assms(10) by (simp only: first_number [OF assms(10) nz(2)])
  qed
  obtain r u where u: "?H (elapsed (c_machine t) (c_clock t), x2) (t\<lparr>c_clock := c_clock t + 1\<rparr>) = Done (Inr (r, Values x2), u)"
    using import_ends [OF y(2), where y = x2 and K = K] by blast
  have S: "?S (overwrite 0 (take (?l * 8) (streams ?v p)) ?mem) t = Done (Inr (r, Values x2), u)"
    unfolding f assms(11) lift_fun clock_io u by (rule refl)
  let ?A = "Act (pop p (?l * 8)) (\<lambda>w. ?S (overwrite 0 (take (?l * 8) (streams w p)) ?mem) t)"
  have "take 8 ?d \<noteq> []" using d m by auto
  then have 3: "steps (?z1, ?R, ?v) (?z1, ?A, ?v)"
    using w(3) by (intro steps.steps_right) (simp add: something_in_def)
  have 4: "steps (?z1, ?A, ?v) (?z1, Done (Inr (r, Values x2), u), pop p (?l * 8) ?v)"
    using S by (intro steps.steps_right) simp
  have "reaches (stream_export V (Data i j xs x0) s, ?I, w) (?z1, ?R, ?v)" using 1 2 by (rule rtranclp_trans)
  then have "reaches (stream_export V (Data i j xs x0) s, ?I, w) (?z1, ?A, ?v)" using 3 by (rule rtranclp.rtrancl_into_rtrancl)
  then have "reaches (stream_export V (Data i j xs x0) s, ?I, w) (?z1, Done (Inr (r, Values x2), u), pop p (?l * 8) ?v)"
    using 4 by (rule rtranclp.rtrancl_into_rtrancl)
  then show ?thesis by blast
qed

lemma stored_vector: "length ys = length xs \<Longrightarrow> stored vector_container xs ys = Inr xs"
  using array_container.put_from [OF usable_vectors [unfolded usable_def], of ys xs 0]
  by (auto simp: stored_def vector_container_def)

theorem short_read_unnoticed_witness:
  "\<exists>x r t' w'. reaches
     (stream_export (pipe_methods fixed_pipes vector_container)
        (Data (sample_id ''load'') (sample_id ''load'') (replicate 600 1) []) (sample_pipe ''A'' ''B'' True (sample_ends 65535 True)),
      stream_import (pipe_methods fixed_pipes vector_container) vector_container
        (Data (sample_id ''load'') (sample_id ''load'') (replicate 600 1) []) (sample_pipe ''B'' ''A'' False (sample_ends 65535 False)),
      sample_world)
     (x, Done (Inr (r, Values (1 # replicate 599 0)), t'), w')"
proof -
  have b: "8 \<le> (65535 :: nat)" by simp
  have r: "resized vector_container (length (replicate 600 (1 :: dbl))) [] = Inr (replicate 600 0)"
    by (simp add: resized_def vector_container_def vector_resize_def cpp_defs vec_resize_def)
  have p: "PIPE_BUF < 8 * length (replicate 600 (1 :: dbl))" "length (replicate 600 (1 :: dbl)) \<le> 65535 div 8"
    by (simp_all add: PIPE_BUF_def)
  have e: "k_elems vector_container xs = xs" for xs by (simp add: vector_container_def)
  have st: "stored vector_container (hd (replicate 600 1) # tl (k_elems vector_container (replicate 600 0))) (replicate 600 0) =
      Inr (1 # replicate 599 0)"
    by (simp add: e stored_vector)
  show ?thesis
    by (rule short_read_unnoticed [OF pipe_methods_over usable_vectors sample_piped(1) [OF b] sample_piped(2) sample_data_good
          sample_pipe_fields(5) p r _ st]) (simp_all add: e)
qed

end
