(* ===== verification/ConnectOver.thy ===== *)
theory ConnectOver
  imports ConnectProtocol
begin

text \<open>
  What \<open>Connect\<close> does after the handshake in the derived classes that do not use files for their messages: it
  opens pipes or sockets, which does not interfere with the files of the handshake that the other side
  may still be reading.
\<close>

lemma local_others:
  assumes "local_update a u"
  shows "listening (u w) = listening w" "streams (u w) = streams w" "closed (u w) = closed w"
  using assms by (auto simp: local_update_def)

lemmas unnoticed = local_files local_exists local_writable local_dirs local_others

lemma no_files_Done [simp]: "no_files B (Done x)"
  by (simp add: no_files_def)

lemma no_files_Act:
  assumes "foreign B v" "\<And>a u w. a \<in> B \<Longrightarrow> local_update a u \<Longrightarrow> k (u w) = k w" "\<And>w. no_files B (k w)"
  shows "no_files B (Act v k)"
  unfolding no_files_def
proof (intro allI impI)
  fix a u and c :: "world \<Rightarrow> bool"
  assume a: "a \<in> B" "local_update a u" "about_files B c"
  have "c (v w)" if "c w" for w
    using foreignD(1,3) [OF assms(1)] that by (intro aboutD [OF a(3), of "v w" w]) auto
  moreover have "u (v w) = v (u w)" for w using foreignD(5) [OF assms(1) a(1,2)] by simp
  moreover have "indep c u (k w)" for w by (rule no_filesD [OF assms(3) a])
  ultimately show "indep c u (Act v k)" using assms(2) [OF a(1,2)] by simp
qed

lemma no_files_Wait:
  assumes "\<And>a u w. a \<in> B \<Longrightarrow> local_update a u \<Longrightarrow> d (u w) = d w" "no_files B x"
  shows "no_files B (Wait d x)"
  unfolding no_files_def
proof (intro allI impI)
  fix a u and c :: "world \<Rightarrow> bool"
  assume a: "a \<in> B" "local_update a u" "about_files B c"
  then show "indep c u (Wait d x)" using assms(1) [OF a(1,2)] no_filesD [OF assms(2) a] by simp
qed

text \<open>The end of \<open>Connect\<close>, when nothing is left to fail.\<close>

lemma connected_io:
  "bindP (localP (new_info [])) (\<lambda>detail. thenP (modP (\<lambda>c. c\<lparr>mIsConnected := True\<rparr>))
     (bindP (getP mWorkingDirectory) (\<lambda>wd. localP (set_entries [(''is_connected'', DBool True),
        (''connection_status'', DInt (status_int Connected)), (''working_directory'', DString wd)] detail)))) s =
   Done (Inr (connected_info s), s\<lparr>mIsConnected := True, c_heap := c_heap s + 3\<rparr>)"
  by (simp add: prog_io new_info_def set_entries_def connected_info_def)

lemma checked_io:
  "checked V I s = bindP (liftP (check_partner V s)) (\<lambda>_. bindP (DerivedHandShake V) (\<lambda>_. bindP (ConnectDetail V I)
     (\<lambda>detail. thenP (modP (\<lambda>c. c\<lparr>mIsConnected := True\<rparr>))
     (bindP (getP mWorkingDirectory) (\<lambda>wd. localP (set_entries [(''is_connected'', DBool True),
        (''connection_status'', DInt (status_int Connected)), (''working_directory'', DString wd)] detail)))))) s"
  unfolding checked_def thenP_io bindP_assoc get_io ..

text \<open>After what \<open>PrepareConnection\<close> did.\<close>

definition shake_hands :: "('x communication_scheme, 'c) methods \<Rightarrow> info \<Rightarrow> ('x communication_scheme, info) prog" where
  "shake_hands V I = (\<lambda>s. thenP (exchange_data_for_handshake V
      (if mIsPrimaryConnection s then file_name_p2s s else file_name_s2p s)
      (if mIsPrimaryConnection s then file_name_s2p s else file_name_p2s s)) (checked V I) s)"

lemma after_prepare_io:
  "after_sync V I s = bindP (PrepareConnection V I) (\<lambda>_ s. if c_rank s = 0 then shake_hands V I s
     else bindP (HandShake V I) (\<lambda>_. bindP (ConnectDetail V I) (\<lambda>detail. thenP (modP (\<lambda>c. c\<lparr>mIsConnected := True\<rparr>))
     (bindP (getP mWorkingDirectory) (\<lambda>wd. localP (set_entries [(''is_connected'', DBool True),
        (''connection_status'', DInt (status_int Connected)), (''working_directory'', DString wd)] detail))))) s) s"
  unfolding after_sync_def thenP_def
  by (rule arg_cong2 [where f = "\<lambda>f s. bindP (PrepareConnection V I) f s"])
     (auto simp: fun_eq_iff shake_hands_def handshake_io [unfolded thenP_def] checked_def thenP_def bindP_assoc)

end
