(* ===== verification/PipeConnect.thy ===== *)
theory PipeConnect
  imports PipeExchanges ConnectOver
begin

text \<open>
  How the partners open their two pipes: the primary one makes both, the secondary one waits for the
  second; then each end is opened, and each opening waits for the other end.
\<close>

lemma pipe_io:
  "bindP (mkfifo p) F s = Act (\<lambda>w. if exists w p \<or> \<not> writable w p then w else make_pipe p w)
     (\<lambda>w. if exists w p \<or> \<not> writable w p then Done (Inl (pipe_error p ''created''), s) else F () s)"
  "bindP (open_pipe p mine other) F s = Act (\<lambda>w. if files w p = None then w else open_end mine w)
     (\<lambda>w. if files w p = None then Done (Inl (pipe_error p ''opened''), s) else Wait (\<lambda>w. listening w other) (F () s))"
  unfolding mkfifo_def open_pipe_def thenP_io bindP_assoc act_io wait_io
  by (rule arg_cong2 [where f = Act, OF refl], simp add: fun_eq_iff)+

lemma make_pipe_simps [simp]:
  "files (make_pipe p w) = (files w)(p := Some [])" "dirs (make_pipe p w) = dirs w"
  "streams (make_pipe p w) = (streams w)(p := [])" "closed (make_pipe p w) = (closed w)(p := False)"
  "listening (make_pipe p w) = (listening w)(reader_of p := False, writer_of p := False)"
  by (simp_all add: make_pipe_def set_file_def)

lemma open_end_simps [simp]:
  "files (open_end e w) = files w" "dirs (open_end e w) = dirs w" "streams (open_end e w) = streams w"
  "closed (open_end e w) = closed w" "listening (open_end e w) = (listening w)(e := True)"
  by (simp_all add: open_end_def)

lemma open_end_commute: "open_end a (open_end b w) = open_end b (open_end a w)"
  by (simp add: open_end_def fun_upd_twist) (cases "a = b"; simp add: fun_upd_twist)

lemma ends_differ: "reader_of p \<noteq> writer_of q" "writer_of p \<noteq> reader_of q"
  "reader_of p = reader_of q \<longleftrightarrow> p = q" "writer_of p = writer_of q \<longleftrightarrow> p = q"
  by (simp_all add: reader_of_def writer_of_def)

definition pipe_p2s :: "'x communication_scheme \<Rightarrow> path" where
  "pipe_p2s c = join_path (mCommFolder c) (mConnectionName c @ ''_r'' @ show_nat (c_rank c)) @ ''_p2s''"

definition pipe_s2p :: "'x communication_scheme \<Rightarrow> path" where
  "pipe_s2p c = join_path (mCommFolder c) (mConnectionName c @ ''_r'' @ show_nat (c_rank c)) @ ''_s2p''"

lemma pipes_differ: "pipe_p2s c \<noteq> pipe_s2p c"
  by (simp add: pipe_p2s_def pipe_s2p_def)

text \<open>The accesses of both sides, up to where they open their first end.\<close>

abbreviation open_step :: "path \<Rightarrow> path \<Rightarrow> path \<Rightarrow> 'a \<Rightarrow> 'a io \<Rightarrow> 'a io" where
  "open_step p mine other e next_step \<equiv> Act (\<lambda>w. if files w p = None then w else open_end mine w)
     (\<lambda>w. if files w p = None then Done e else Wait (\<lambda>w. listening w other) next_step)"

definition opened :: "'s \<Rightarrow> path \<Rightarrow> (error + 'a) \<times> 's" where
  "opened s p = (Inl (pipe_error p ''opened''), s)"

lemma connect_detail_io:
  fixes s :: pipe_communication and S :: pipe_system
  assumes "GetPipeBufferSize I = Inr b"
  defines "P \<equiv> pipe_p2s s" and "Q \<equiv> pipe_s2p s"
  shows "mIsPrimaryConnection s \<Longrightarrow> pipe_ends S b Q P = Inr B \<Longrightarrow> bindP (Pipe_ConnectDetail S I) F s =
     Act (\<lambda>w. if exists w P \<or> \<not> writable w P then w else make_pipe P w)
       (\<lambda>w. if exists w P \<or> \<not> writable w P then Done (Inl (pipe_error P ''created''), s) else
     Act (\<lambda>w. if exists w Q \<or> \<not> writable w Q then w else make_pipe Q w)
       (\<lambda>w. if exists w Q \<or> \<not> writable w Q then Done (Inl (pipe_error Q ''created''), s) else
     open_step P (writer_of P) (reader_of P) (opened s P) (open_step Q (reader_of Q) (writer_of Q) (opened s Q)
       (bindP (localP (new_info [])) F (s\<lparr>mpPipe := Some B\<rparr>)))))"
    "\<not> mIsPrimaryConnection s \<Longrightarrow> pipe_ends S b P Q = Inr B \<Longrightarrow> bindP (Pipe_ConnectDetail S I) F s = Wait (\<lambda>w. exists w Q)
     (open_step P (reader_of P) (writer_of P) (opened s P) (open_step Q (writer_of Q) (reader_of Q) (opened s Q)
       (bindP (localP (new_info [])) F (s\<lparr>mpPipe := Some B\<rparr>))))"
proof -
  have d: "bindP (Pipe_ConnectDetail S I) F s =
     bindP (new_BidirectionalPipe S (mCommFolder s) (mConnectionName s @ ''_r'' @ show_nat (c_rank s)) (mIsPrimaryConnection s) b)
      (\<lambda>B. bindP (modP (\<lambda>c. c\<lparr>mpPipe := Some B\<rparr>)) (\<lambda>_. bindP (localP (new_info [])) F)) s"
    unfolding Pipe_ConnectDetail_def assms(1) bindP_assoc thenP_def lift_fun get_io prod.case ..
  note io = if_True if_False thenP_io bindP_assoc pipe_io lift_fun wait_io mod_io opened_def
  show "mIsPrimaryConnection s \<Longrightarrow> pipe_ends S b Q P = Inr B \<Longrightarrow> bindP (Pipe_ConnectDetail S I) F s =
     Act (\<lambda>w. if exists w P \<or> \<not> writable w P then w else make_pipe P w)
       (\<lambda>w. if exists w P \<or> \<not> writable w P then Done (Inl (pipe_error P ''created''), s) else
     Act (\<lambda>w. if exists w Q \<or> \<not> writable w Q then w else make_pipe Q w)
       (\<lambda>w. if exists w Q \<or> \<not> writable w Q then Done (Inl (pipe_error Q ''created''), s) else
     open_step P (writer_of P) (reader_of P) (opened s P) (open_step Q (reader_of Q) (writer_of Q) (opened s Q)
       (bindP (localP (new_info [])) F (s\<lparr>mpPipe := Some B\<rparr>)))))"
    unfolding d new_BidirectionalPipe_def Let_def assms(2,3) pipe_p2s_def pipe_s2p_def by (simp only: io)
  show "\<not> mIsPrimaryConnection s \<Longrightarrow> pipe_ends S b P Q = Inr B \<Longrightarrow> bindP (Pipe_ConnectDetail S I) F s = Wait (\<lambda>w. exists w Q)
     (open_step P (reader_of P) (writer_of P) (opened s P) (open_step Q (writer_of Q) (reader_of Q) (opened s Q)
       (bindP (localP (new_info [])) F (s\<lparr>mpPipe := Some B\<rparr>))))"
    unfolding d new_BidirectionalPipe_def Let_def assms(2,3) pipe_p2s_def pipe_s2p_def WaitUntilPathExists_def
    by (simp only: io)
qed

text \<open>Opening ends commutes with what the other side does.\<close>

definition opens :: "(world \<Rightarrow> world) \<Rightarrow> bool" where
  "opens u \<longleftrightarrow> (\<forall>w. files (u w) = files w \<and> dirs (u w) = dirs w \<and> (\<forall>e. listening w e \<longrightarrow> listening (u w) e) \<and>
     (\<forall>e. u (open_end e w) = open_end e (u w)))"

lemma opens_step: "opens (open_end e)" "opens (\<lambda>w. w)"
  by (simp_all add: opens_def open_end_commute)

definition both_there :: "path \<Rightarrow> path \<Rightarrow> path list \<Rightarrow> world \<Rightarrow> bool" where
  "both_there P Q es w \<longleftrightarrow> files w P \<noteq> None \<and> files w Q \<noteq> None \<and> (\<forall>e \<in> set es. listening w e)"

lemma both_there_open: "both_there P Q es w \<Longrightarrow> both_there P Q es (open_end e w)"
  by (auto simp: both_there_def)

lemma indep_open_step:
  assumes "opens u" "indep (both_there P Q es) u q" "p \<in> {P, Q}"
  shows "indep (both_there P Q es) u (open_step p mine other e q)"
proof -
  have "files w p \<noteq> None" if "both_there P Q es w" for w
    using that assms(3) by (auto simp: both_there_def)
  then show ?thesis using assms(1,2) by (simp add: opens_def both_there_open del: open_end_simps(5) not_None_eq)
qed

lemma indep_listening:
  assumes "opens u" "indep c u q"
  shows "indep c u (Wait (\<lambda>w. listening w e) q)"
  using assms by (simp add: opens_def)

lemma indep_exists:
  assumes "opens u" "indep c u q"
  shows "indep c u (Wait (\<lambda>w. exists w p) q)"
  using assms by (simp add: opens_def exists_def)

lemmas indep_opening = indep_open_step indep_listening indep_exists opens_step

lemma exists_open_end [simp]: "exists (open_end e w) p = exists w p"
  by (simp add: exists_def)

lemma opening_meets:
  fixes x :: 'a and y :: 'b
  assumes "\<not> exists w P" "\<not> exists w Q" "writable w P" "writable w Q" "P \<noteq> Q"
  defines "all_open \<equiv> \<lambda>w. open_end (writer_of Q) (open_end (reader_of Q) (open_end (reader_of P) (open_end (writer_of P)
      (make_pipe Q (make_pipe P w)))))"
  shows "leads
    (Act (\<lambda>w. if exists w P \<or> \<not> writable w P then w else make_pipe P w)
       (\<lambda>w. if exists w P \<or> \<not> writable w P then Done e1 else
     Act (\<lambda>w. if exists w Q \<or> \<not> writable w Q then w else make_pipe Q w)
       (\<lambda>w. if exists w Q \<or> \<not> writable w Q then Done e2 else
     open_step P (writer_of P) (reader_of P) e3 (open_step Q (reader_of Q) (writer_of Q) e4 (Done x)))),
     Wait (\<lambda>w. exists w Q)
     (open_step P (reader_of P) (writer_of P) e5 (open_step Q (writer_of Q) (reader_of Q) e6 (Done y))), w)
    (Done x, Done y, all_open w)"
proof -
  let ?w1 = "make_pipe P w" and ?w2 = "make_pipe Q (make_pipe P w)"
  have ex: "\<not> exists ?w1 Q" "writable ?w1 Q" "exists ?w2 Q"
    using assms(2,4,5) by (auto simp: exists_def writable_def)
  let ?qn = "open_step Q (writer_of Q) (reader_of Q) e6 (Done y)"
  let ?qo = "open_step P (reader_of P) (writer_of P) e5 ?qn"
  let ?q = "Wait (\<lambda>w. exists w Q) ?qo"
  let ?pn = "open_step Q (reader_of Q) (writer_of Q) e4 (Done x)"
  let ?po = "open_step P (writer_of P) (reader_of P) e3 ?pn"
  let ?w3 = "open_end (writer_of P) ?w2"
  let ?w4 = "open_end (reader_of P) ?w3"
  let ?w5 = "open_end (reader_of Q) ?w4"
  let ?w6 = "open_end (writer_of Q) ?w5"
  have f: "files ?w2 P \<noteq> None" "files ?w2 Q \<noteq> None" using assms(5) by simp_all
  have r: "\<not> listening ?w3 (reader_of P)" "\<not> listening ?w5 (writer_of Q)" using assms(5) by (simp_all add: ends_differ)
  have "leads (Act (\<lambda>w. if exists w P \<or> \<not> writable w P then w else make_pipe P w)
       (\<lambda>w. if exists w P \<or> \<not> writable w P then Done e1 else
     Act (\<lambda>w. if exists w Q \<or> \<not> writable w Q then w else make_pipe Q w)
       (\<lambda>w. if exists w Q \<or> \<not> writable w Q then Done e2 else ?po)), ?q, w)
     (Act (\<lambda>w. if exists w Q \<or> \<not> writable w Q then w else make_pipe Q w)
       (\<lambda>w. if exists w Q \<or> \<not> writable w Q then Done e2 else ?po), ?q, ?w1)"
    using assms(1-3) by (intro go_left) simp_all
  also have "leads \<dots> (?po, ?q, ?w2)"
    using ex by (intro go_left) simp_all
  also have "leads \<dots> (Wait (\<lambda>w. listening w (reader_of P)) ?pn, ?q, ?w3)"
    by (rule go_ahead [where c = "both_there P Q []"], simp add: both_there_def, use f in \<open>simp add: both_there_def\<close>)
       (intro indep_opening, simp_all)
  also have "leads \<dots> (Wait (\<lambda>w. listening w (reader_of P)) ?pn, ?qo, ?w3)"
    using ex(3) r(1) by (intro go_right) (simp_all del: make_pipe_simps open_end_simps(5))
  also have "leads \<dots> (Wait (\<lambda>w. listening w (reader_of P)) ?pn, Wait (\<lambda>w. listening w (writer_of P)) ?qn, ?w4)"
    using r(1) f(1) by (intro go_right) (simp_all del: make_pipe_simps open_end_simps(5))
  also have "leads \<dots> (?pn, Wait (\<lambda>w. listening w (writer_of P)) ?qn, ?w4)"
    by (rule go_ahead [where c = "both_there P Q [reader_of P]" and u = "\<lambda>w. w"], simp add: both_there_def,
        use f in \<open>simp add: both_there_def\<close>) (intro indep_opening, simp_all)
  also have "leads \<dots> (Wait (\<lambda>w. listening w (writer_of Q)) (Done x), Wait (\<lambda>w. listening w (writer_of P)) ?qn, ?w5)"
    by (rule go_ahead [where c = "both_there P Q []"], simp add: both_there_def, use f in \<open>simp add: both_there_def\<close>)
       (intro indep_opening, simp_all)
  also have "leads \<dots> (Wait (\<lambda>w. listening w (writer_of Q)) (Done x), ?qn, ?w5)"
    using r(2) by (intro go_right) (simp_all add: ends_differ)
  also have "leads \<dots> (Wait (\<lambda>w. listening w (writer_of Q)) (Done x), Wait (\<lambda>w. listening w (reader_of Q)) (Done y), ?w6)"
    using r(2) f(2) by (intro go_right) (simp_all del: make_pipe_simps open_end_simps(5))
  also have "leads \<dots> (Done x, Wait (\<lambda>w. listening w (reader_of Q)) (Done y), ?w6)"
    by (rule go_ahead [where c = "both_there P Q [writer_of Q]" and u = "\<lambda>w. w"], simp add: both_there_def,
        use f in \<open>simp add: both_there_def\<close>) (intro indep_opening, simp_all)
  also have "leads \<dots> (Done x, Done y, ?w6)"
    by (intro go_right) simp_all
  finally show ?thesis unfolding all_open_def .
qed

section \<open>The handshake\<close>

definition pipe_settings :: "addr \<Rightarrow> pipe_communication \<Rightarrow> info" where
  "pipe_settings h c = [(''buffer_size'', h + 10, DSize (mBufferSize c))]"

abbreviation pipe_entries :: "addr \<Rightarrow> pipe_communication \<Rightarrow> info" where
  "pipe_entries h c \<equiv> own_entries ''pipe'' (h + 11) (pipe_settings h c) h c"

lemma pipe_methods_fields [simp]:
  "GetCommunicationName (pipe_methods S K) = ''pipe''" "GetCommunicationSettings (pipe_methods S K) = Pipe_GetCommunicationSettings"
  "PrepareConnection (pipe_methods S K) I = retP ()" "ConnectDetail (pipe_methods S K) = Pipe_ConnectDetail S"
  by (simp_all add: pipe_methods_def Let_def)

lemma same_info:
  assumes "GetCommunicationName V = GetCommunicationName V'" "GetCommunicationSettings V = GetCommunicationSettings V'"
  shows "GetMyInfo V = GetMyInfo V'"
  using assms by (simp add: GetMyInfo_def)

lemma GetMyInfo_pipe:
  "GetMyInfo (pipe_methods S K) c = (Inr (pipe_entries (c_heap c) c), c\<lparr>c_heap := c_heap c + 12\<rparr>)"
proof -
  have "GetCommunicationSettings (pipe_methods S K) (c\<lparr>c_heap := c_heap c + 10\<rparr>) =
      (Inr (pipe_settings (c_heap c) c), c\<lparr>c_heap := c_heap c + 11\<rparr>)"
    by (simp add: Pipe_GetCommunicationSettings_def new_info_def set_entries_def Info_new_def
        Info_Set_def pipe_settings_def add.assoc)
  from GetMyInfo_own [OF this] show ?thesis by (simp add: add.assoc)
qed

lemma pipe_entries_ok:
  "info_wf (pipe_entries h c)" "distinct (entries_addrs (pipe_entries h c))" "data_good P T (DInfo (pipe_entries h c))"
proof -
  show "info_wf (pipe_entries h c)" by (rule own_entries_wf) (simp add: pipe_settings_def info_wf_def smap_wf_def)
  show "distinct (entries_addrs (pipe_entries h c))" by (rule own_entries_distinct) (auto simp: pipe_settings_def)
  show "data_good P T (DInfo (pipe_entries h c))"
    by (rule own_entries_good) (simp_all add: pipe_settings_def, simp_all add: string_good_def quote_def)
qed

lemma settings_size_value:
  assumes "entries_value i = entries_value (own_entries name a (pipe_settings h' c') h c)"
  shows "settings_size i = Inr (mBufferSize c')"
proof -
  obtain n where "get_info i ''communication_settings'' = Inr n" "entries_value n = entries_value (pipe_settings h' c')"
    using get_same_value(4) [OF assms get_own_entries(10)] by blast
  moreover have "get_size (pipe_settings h' c') ''buffer_size'' = Inr (mBufferSize c')"
    by (simp add: pipe_settings_def get_size_def Info_Get_def Info_Has_def GetExistingKey_def GetDataTypeName_def bindR_def)
  ultimately show ?thesis using get_value(2) [of n] get_value(2) [of "pipe_settings h' c'"] by (simp add: settings_size_def bindR_def)
qed

definition pipe_match :: "pipe_communication \<Rightarrow> pipe_communication \<Rightarrow> bool" where
  "pipe_match s t \<longleftrightarrow> base_match s t \<and> mBufferSize s = mBufferSize t"

lemma derived_handshake_io:
  fixes s t :: pipe_communication and K :: "'c container"
  assumes "entries_value (mPartnerInfo s) = entries_value (pipe_entries h t)"
  shows "mBufferSize s = mBufferSize t \<Longrightarrow> bindP (DerivedHandShake (pipe_methods S K)) F s = F () (s\<lparr>c_heap := c_heap s + 24\<rparr>)"
    "mBufferSize s \<noteq> mBufferSize t \<Longrightarrow> \<exists>x. \<forall>F. bindP (DerivedHandShake (pipe_methods S K)) F s =
       Done (Inl (CoSimError x), s\<lparr>c_heap := c_heap s + 24\<rparr>)"
proof -
  have D: "\<exists>V' :: (pipe_communication, 'c) methods. DerivedHandShake (pipe_methods S K) = Pipe_DerivedHandShake V' \<and> GetMyInfo V' = GetMyInfo (pipe_methods S K)"
    by (simp add: pipe_methods_def Let_def) (intro exI conjI, rule refl, rule same_info, simp_all)
  then obtain V' :: "(pipe_communication, 'c) methods" where V: "DerivedHandShake (pipe_methods S K) = Pipe_DerivedHandShake V'"
    "GetMyInfo V' = GetMyInfo (pipe_methods S K)" by blast
  have os: "get_string (mPartnerInfo s) ''operating_system'' = Inr GetOsName"
    using get_same_value(3) [OF assms] get_own_entries(5) by simp
  note io = Pipe_DerivedHandShake_def V GetMyInfo_pipe prog_io os get_own_entries(5) settings_size_value [OF refl]
    settings_size_value [OF assms]
  show "mBufferSize s = mBufferSize t \<Longrightarrow> bindP (DerivedHandShake (pipe_methods S K)) F s = F () (s\<lparr>c_heap := c_heap s + 24\<rparr>)"
    by (simp add: io ac_simps)
  show "mBufferSize s \<noteq> mBufferSize t \<Longrightarrow> \<exists>x. \<forall>F. bindP (DerivedHandShake (pipe_methods S K)) F s =
       Done (Inl (CoSimError x), s\<lparr>c_heap := c_heap s + 24\<rparr>)"
    by (simp add: io co_error_def ac_simps)
qed

section \<open>Opening the pipes beside the handshake\<close>

lemma make_pipe_set_file: "a \<noteq> p \<Longrightarrow> make_pipe p (set_file a x w) = set_file a x (make_pipe p w)"
  by (simp add: make_pipe_def set_file_def fun_upd_twist)

lemma writable_make_pipe [simp]: "writable (make_pipe p w) = writable w"
  by (simp add: writable_def fun_eq_iff)

lemma foreign_make_pipe:
  assumes "p \<notin> B"
  shows "foreign B (\<lambda>w. if exists w p \<or> \<not> writable w p then w else make_pipe p w)" (is "foreign B ?u")
    "foreign B (\<lambda>w. if files w p = None then w else open_end e w)" (is "foreign B ?o")
proof -
  have n: "a \<noteq> p" if "a \<in> B" for a using assms that by blast
  have "?u (v w) = v (?u w)" "?o (v w) = v (?o w)" if v: "local_update a v" and a: "a \<in> B" for a v w
  proof -
    obtain f where f: "v w = set_file a (f (writable w a) (files w a)) w" for w using v by (auto simp: local_update_def)
    show "?u (v w) = v (?u w)" using n [OF a] by (simp add: f make_pipe_set_file)
    show "?o (v w) = v (?o w)" using n [OF a] by (simp add: f open_end_def set_file_def writable_def)
  qed
  then show "foreign B ?u" "foreign B ?o" using n unfolding foreign_def by auto
qed

lemma no_files_pipe:
  assumes "p \<notin> B" "\<And>s. no_files B (F () s)"
  shows "no_files B (bindP (mkfifo p) F s)" "no_files B (bindP (open_pipe p mine other) F s)"
    "no_files B (bindP (WaitUntilPathExists p) F s)"
proof -
  have n: "exists (u w) p = exists w p" "files (u w) p = files w p" "writable (u w) = writable w" "listening (u w) = listening w"
    if "a \<in> B" "local_update a u" for a u w
  proof -
    have "p \<noteq> a" using assms(1) that(1) by blast
    then show "exists (u w) p = exists w p" "files (u w) p = files w p" "writable (u w) = writable w" "listening (u w) = listening w"
      using that(2) by (simp_all add: unnoticed)
  qed
  show "no_files B (bindP (mkfifo p) F s)" unfolding pipe_io
    by (rule no_files_Act [OF foreign_make_pipe(1) [OF assms(1)]]) (simp_all only: n assms(2) no_files_Done split: if_split, simp_all)
  show "no_files B (bindP (open_pipe p mine other) F s)" unfolding pipe_io
    by (rule no_files_Act [OF foreign_make_pipe(2) [OF assms(1)]])
       (simp_all only: n, auto intro!: no_files_Wait assms(2) simp: n)
  show "no_files B (bindP (WaitUntilPathExists p) F s)" unfolding WaitUntilPathExists_def wait_io
    by (intro no_files_Wait assms(2)) (simp add: n)
qed

lemma pipe_name: "join_path d x @ ''_p2s'' \<notin> handshake_files c" "join_path d x @ ''_s2p'' \<notin> handshake_files c"
  using last_names(3,4) [of c] last_names(5)
  by (auto simp: handshake_files_def dest!: arg_cong [where f = last])

lemma no_files_ConnectDetail:
  fixes F :: "info \<Rightarrow> (pipe_communication, 'b) prog"
  assumes "\<And>x s. no_files (handshake_files c) (F x s)"
  shows "no_files (handshake_files c) (bindP (Pipe_ConnectDetail S I) F s)"
proof -
  have "no_files (handshake_files c) (bindP (new_BidirectionalPipe S d x b n) G s)"
    if "\<And>y s. no_files (handshake_files c) (G y s)" for d x b n s and G :: "bidirectional_pipe \<Rightarrow> (pipe_communication, 'b) prog"
    unfolding new_BidirectionalPipe_def Let_def
    by (cases b) (auto simp: thenP_def bindP_assoc lift_io pipe_name intro!: no_files_pipe that split: sum.split)
  note new = this
  show ?thesis
    unfolding Pipe_ConnectDetail_def thenP_def bindP_assoc
    by (auto simp: lift_io get_io mod_io local_io bindP_assoc intro!: new assms split: sum.split prod.split)
qed

lemma no_files_checked_pipe: "no_files (handshake_files c) (checked (pipe_methods S K) I s)"
proof -
  have d: "no_files (handshake_files c) (bindP (Pipe_DerivedHandShake V) F s)"
    if "\<And>x s. no_files (handshake_files c) (F x s)" for F :: "unit \<Rightarrow> (pipe_communication, info) prog" and V :: "(pipe_communication, 'b) methods" and s
    unfolding Pipe_DerivedHandShake_def thenP_def bindP_assoc
    by (auto simp: local_io lift_io get_io check_io bindP_assoc intro!: that split: sum.split prod.split)
  have e: "no_files (handshake_files c) (localP m s)" for m and s :: pipe_communication
    by (simp add: localP_def)
  obtain V' :: "(pipe_communication, 'b) methods" where V: "DerivedHandShake (pipe_methods S K) = Pipe_DerivedHandShake V'"
    by (simp add: pipe_methods_def Let_def)
  show ?thesis
    unfolding checked_io V pipe_methods_fields thenP_def
    by (auto simp: lift_io mod_io get_io intro!: d no_files_ConnectDetail e split: sum.split)
qed

section \<open>Two partners\<close>

definition pipes_possible :: "world \<Rightarrow> 'x communication_scheme \<Rightarrow> bool" where
  "pipes_possible w c \<longleftrightarrow> (\<forall>p \<in> {pipe_p2s c, pipe_s2p c}. \<not> exists w p \<and> writable w p)"

lemma show_nat_digits: "slash \<notin> set (show_nat n)"
proof
  assume "slash \<in> set (show_nat n)"
  then have "is_digit 10 slash" unfolding show_nat_def by (rule show_base_digits [rotated 2]) simp_all
  then show False by (simp add: is_digit_def digit_val_def slash_def Let_def)
qed

lemma pipe_place:
  "mCommInFolder c \<Longrightarrow> pipe_p2s c = place c (mConnectionName c @ ''_r'' @ show_nat (c_rank c) @ ''_p2s'')"
  "mCommInFolder c \<Longrightarrow> pipe_s2p c = place c (mConnectionName c @ ''_r'' @ show_nat (c_rank c) @ ''_s2p'')"
  by (simp_all add: pipe_p2s_def pipe_s2p_def place_def join_path_def)

text \<open>In the folder of the connection, which is new, the pipes can always be made.\<close>

lemma fresh_pipes:
  assumes "mCommInFolder c" "startable w c" "folder_ok c" "slash \<notin> set (mConnectionName c)"
  shows "pipes_possible (fresh_folder c w) c"
proof -
  have "\<not> exists (fresh_folder c w) (place c x) \<and> writable (fresh_folder c w) (place c x)" if "slash \<notin> set x" for x
    using create_directory_simps [OF writable_fresh [OF assms(2,1)]] below_place [OF assms(1,3), of x]
      place_not_folder [OF assms(1,3), of x] clean_fresh [OF assms(2,3)] assms(1)
    by (simp add: writable_place [OF assms(3) that] fresh_folder_def clean_def exists_def)
  then show ?thesis
    using show_nat_digits assms(4) by (simp add: pipes_possible_def pipe_place [OF assms(1)] slash_def)
qed

lemma checked_pipe:
  assumes "entries_value (mPartnerInfo s) = entries_value (pipe_entries h t)" "mSerializerTraceType s = mSerializerTraceType t"
  shows "pipe_match s t \<Longrightarrow> checked (pipe_methods S K) I s = bindP (Pipe_ConnectDetail S I)
      (\<lambda>detail. thenP (modP (\<lambda>c. c\<lparr>mIsConnected := True\<rparr>))
     (bindP (getP mWorkingDirectory) (\<lambda>wd. localP (set_entries [(''is_connected'', DBool True),
        (''connection_status'', DInt (status_int Connected)), (''working_directory'', DString wd)] detail)))) (s\<lparr>c_heap := c_heap s + 24\<rparr>)"
    "\<not> pipe_match s t \<Longrightarrow> \<exists>x s'. checked (pipe_methods S K) I s = Done (Inl (CoSimError x), s') \<and> mIsConnected s' = mIsConnected s"
proof -
  note p = check_partner_finds [OF assms, where V = "pipe_methods S K", simplified]
  show "pipe_match s t \<Longrightarrow> checked (pipe_methods S K) I s = bindP (Pipe_ConnectDetail S I)
      (\<lambda>detail. thenP (modP (\<lambda>c. c\<lparr>mIsConnected := True\<rparr>))
     (bindP (getP mWorkingDirectory) (\<lambda>wd. localP (set_entries [(''is_connected'', DBool True),
        (''connection_status'', DInt (status_int Connected)), (''working_directory'', DString wd)] detail)))) (s\<lparr>c_heap := c_heap s + 24\<rparr>)"
    unfolding checked_io by (simp add: pipe_match_def p(1) lift_fun derived_handshake_io(1) [OF assms(1)])
  assume n: "\<not> pipe_match s t"
  show "\<exists>x s'. checked (pipe_methods S K) I s = Done (Inl (CoSimError x), s') \<and> mIsConnected s' = mIsConnected s"
  proof (cases "base_match s t")
    case True
    then have "mBufferSize s \<noteq> mBufferSize t" using n by (simp add: pipe_match_def)
    from derived_handshake_io(2) [OF assms(1) this, of S K] show ?thesis
      unfolding checked_io p(1) [OF True] lift_fun by (elim exE allE) (intro exI conjI, assumption, simp)
  next
    case False
    then show ?thesis using p(2) unfolding checked_io by (auto simp: lift_io)
  qed
qed

lemma pipe_connect_leads:
  fixes s t :: pipe_communication
  assumes "partners s t" "startable w s"
  obtains s2 t2 hs ht ms mt where
    "leads (Communication_Connect (pipe_methods S K) I s, Communication_Connect (pipe_methods S' K') J t, w)
       (checked (pipe_methods S K) I s2, checked (pipe_methods S' K') J t2, fresh_folder s w)"
    "s2 = s\<lparr>c_heap := hs, mPartnerInfo := ms\<rparr>" "entries_value ms = entries_value (pipe_entries (c_heap t) t)"
    "t2 = t\<lparr>c_heap := ht, mPartnerInfo := mt\<rparr>" "entries_value mt = entries_value (pipe_entries (c_heap s) s)"
proof -
  note a = assms(1) [unfolded partners_def]
  note w = writes_own_info [OF GetMyInfo_pipe pipe_entries_ok(2)]
  have e: "mPartnerInfo s = []" "mPartnerInfo t = []" "plat (c_machine s) = plat (c_machine t)"
    "mSerializerTraceType s = mSerializerTraceType t" using a by auto
  obtain hs ms where rs: "reads_info (s\<lparr>c_heap := c_heap s + 12\<rparr>) (info_text t (pipe_entries (c_heap t) t))
      (s\<lparr>c_heap := hs, mPartnerInfo := ms\<rparr>)" "entries_value ms = entries_value (pipe_entries (c_heap t) t)"
    by (rule reads_own_info [OF e(1,3,4) pipe_entries_ok])
  obtain ht mt where rt: "reads_info (t\<lparr>c_heap := c_heap t + 12\<rparr>) (info_text s (pipe_entries (c_heap s) s))
      (t\<lparr>c_heap := ht, mPartnerInfo := mt\<rparr>)" "entries_value mt = entries_value (pipe_entries (c_heap s) s)"
    by (rule reads_own_info [OF e(2) e(3,4) [symmetric] pipe_entries_ok])
  have "leads (Communication_Connect (pipe_methods S K) I s, Communication_Connect (pipe_methods S' K') J t, w)
      (checked (pipe_methods S K) I (s\<lparr>c_heap := hs, mPartnerInfo := ms\<rparr>),
       checked (pipe_methods S' K') J (t\<lparr>c_heap := ht, mPartnerInfo := mt\<rparr>), fresh_folder s w)"
    by (rule connect_leads [OF assms _ _ w w rs(1) rt(1) no_files_checked_pipe no_files_checked_pipe]) simp_all
  then show ?thesis by (rule that [OF _ refl rs(2) refl rt(2)])
qed

text \<open>
  Property C10. \<open>Connect\<close> of two partners that communicate through pipes: with no synchronization file left
  from an earlier run, no run goes on for ever or blocks. When the settings agree and the kernel grants both
  sides the same buffer, both calls return the connected status, the writing end of each side is the reading
  end of the other and both pipes are empty: the two are partners that can converse, provided that the
  buffer takes a number. When the settings differ both calls end with an error and neither side is connected.
\<close>

theorem pipe_partners_connect:
  assumes "partners s t" "startable w s" "mCommInFolder s \<or> pipes_possible w s"
    and "GetPipeBufferSize I = Inr b" "GetPipeBufferSize J = Inr b"
    and "pipe_ends S b (pipe_s2p s) (pipe_p2s s) = Inr A" "pipe_ends S b (pipe_p2s s) (pipe_s2p s) = Inr B"
    and "b_buffer A = b_buffer B"
  shows "\<exists>a a' s' t' w'. every_run_ends
      (Communication_Connect (pipe_methods S K) I s, Communication_Connect (pipe_methods S K') J t, w)
      (Done (a, s'), Done (a', t'), w') \<and>
    (if pipe_match s t then mIsConnected s' \<and> mIsConnected t' \<and>
       (\<exists>i. a = Inr i \<and> get_int i ''connection_status'' = Inr (status_int Connected)) \<and>
       (\<exists>i. a' = Inr i \<and> get_int i ''connection_status'' = Inr (status_int Connected)) \<and>
       quiet (pipe_p2s s) w' \<and> quiet (pipe_s2p s) w' \<and>
       (8 \<le> b_buffer A \<and> PIPE_BUF \<le> b_room A \<and> PIPE_BUF \<le> b_room B \<longrightarrow>
         piped (pipe_p2s s) (pipe_s2p s) (b_buffer A) s' t')
     else \<not> mIsConnected s' \<and> \<not> mIsConnected t' \<and>
       (\<exists>x. a = Inl (CoSimError x)) \<and> (\<exists>y. a' = Inl (CoSimError y)))"
proof -
  obtain s2 t2 hs ht ms mt where
    l: "leads (Communication_Connect (pipe_methods S K) I s, Communication_Connect (pipe_methods S K') J t, w)
       (checked (pipe_methods S K) I s2, checked (pipe_methods S K') J t2, fresh_folder s w)"
    and s2: "s2 = s\<lparr>c_heap := hs, mPartnerInfo := ms\<rparr>" "entries_value ms = entries_value (pipe_entries (c_heap t) t)"
    and t2: "t2 = t\<lparr>c_heap := ht, mPartnerInfo := mt\<rparr>" "entries_value mt = entries_value (pipe_entries (c_heap s) s)"
    by (rule pipe_connect_leads [OF assms(1,2)])
  note a = assms(1) [unfolded partners_def]
  have T: "mSerializerTraceType s2 = mSerializerTraceType t" "mSerializerTraceType t2 = mSerializerTraceType s"
    and c: "\<not> mIsConnected s2" "\<not> mIsConnected t2"
    using a by (auto simp: s2 t2)
  have m: "pipe_match s2 t = pipe_match s t" "pipe_match t2 s = pipe_match s t"
    by (auto simp: pipe_match_def base_match_def s2(1) t2(1))
  have i: "entries_value (mPartnerInfo s2) = entries_value (pipe_entries (c_heap t) t)"
    "entries_value (mPartnerInfo t2) = entries_value (pipe_entries (c_heap s) s)"
    using s2 t2 by simp_all
  note ds = checked_pipe [OF i(1) T(1), of S K I, unfolded m] and dt = checked_pipe [OF i(2) T(2), of S K' J, unfolded m]
  show ?thesis
  proof (cases "pipe_match s t")
    case True
    let ?P = "pipe_p2s s" and ?Q = "pipe_s2p s" and ?v = "fresh_folder s w"
    let ?s = "s2\<lparr>c_heap := c_heap s2 + 24\<rparr>" and ?t = "t2\<lparr>c_heap := c_heap t2 + 24\<rparr>"
    let ?s' = "?s\<lparr>mpPipe := Some A\<rparr>" and ?t' = "?t\<lparr>mpPipe := Some B\<rparr>"
    let ?w = "open_end (writer_of ?Q) (open_end (reader_of ?Q) (open_end (reader_of ?P) (open_end (writer_of ?P)
      (make_pipe ?Q (make_pipe ?P ?v)))))"
    have n: "pipe_p2s ?s = ?P" "pipe_s2p ?s = ?Q" "pipe_p2s ?t = ?P" "pipe_s2p ?t = ?Q"
      using a by (simp_all add: s2 t2 pipe_p2s_def pipe_s2p_def)
    have pr: "mIsPrimaryConnection ?s" "\<not> mIsPrimaryConnection ?t" using a by (simp_all add: s2 t2)
    have "pipes_possible ?v s"
      using assms(3) fresh_pipes [OF _ assms(2)] a by (cases "mCommInFolder s") (auto simp: fresh_folder_def)
    then have f: "\<not> exists ?v ?P" "\<not> exists ?v ?Q" "writable ?v ?P" "writable ?v ?Q"
      by (simp_all add: pipes_possible_def)
    note cs = connect_detail_io(1) [OF assms(4) pr(1), unfolded n, OF assms(6)]
      and ct = connect_detail_io(2) [OF assms(5) pr(2), unfolded n, OF assms(7)]
    have "leads (Communication_Connect (pipe_methods S K) I s, Communication_Connect (pipe_methods S K') J t, w)
        (Done (Inr (connected_info ?s'), ?s'\<lparr>mIsConnected := True, c_heap := c_heap ?s' + 3\<rparr>),
         Done (Inr (connected_info ?t'), ?t'\<lparr>mIsConnected := True, c_heap := c_heap ?t' + 3\<rparr>), ?w)"
      using l unfolding ds(1) [OF True] dt(1) [OF True] cs ct connected_io
      by (rule leads_trans) (rule opening_meets [OF f pipes_differ])
    then have "every_run_ends (Communication_Connect (pipe_methods S K) I s, Communication_Connect (pipe_methods S K') J t, w)
        (Done (Inr (connected_info ?s'), ?s'\<lparr>mIsConnected := True, c_heap := c_heap ?s' + 3\<rparr>),
         Done (Inr (connected_info ?t'), ?t'\<lparr>mIsConnected := True, c_heap := c_heap ?t' + 3\<rparr>), ?w)"
      by (rule every_runI)
    moreover have "quiet ?P ?w" "quiet ?Q ?w" using pipes_differ [of s] by (simp_all add: quiet_def)
    moreover have "piped ?P ?Q (b_buffer A) (?s'\<lparr>mIsConnected := True, c_heap := c_heap ?s' + 3\<rparr>)
        (?t'\<lparr>mIsConnected := True, c_heap := c_heap ?t' + 3\<rparr>)"
      if "8 \<le> b_buffer A" "PIPE_BUF \<le> b_room A" "PIPE_BUF \<le> b_room B"
    proof -
      have "b_write A = ?P" "b_read A = ?Q" "b_write B = ?Q" "b_read B = ?P"
        using assms(6,7) by (auto simp: pipe_ends_def bindR_def split: sum.splits)
      then have "A = \<lparr>b_write = ?P, b_read = ?Q, b_buffer = b_buffer A, b_room = b_room A\<rparr>"
        "B = \<lparr>b_write = ?Q, b_read = ?P, b_buffer = b_buffer A, b_room = b_room B\<rparr>"
        using assms(8) by simp_all
      then show ?thesis using that True a pipes_differ [of s]
        unfolding piped_def agrees_def pipe_match_def base_match_def by (auto simp: s2 t2)
    qed
    ultimately show ?thesis using True by (intro exI conjI) (auto simp: connected_info_reads)
  next
    case False
    obtain x y s' t' where xy: "checked (pipe_methods S K) I s2 = Done (Inl (CoSimError x), s')" "\<not> mIsConnected s'"
      "checked (pipe_methods S K') J t2 = Done (Inl (CoSimError y), t')" "\<not> mIsConnected t'"
      using ds(2) [OF False] dt(2) [OF False] c by auto
    have "every_run_ends (Communication_Connect (pipe_methods S K) I s, Communication_Connect (pipe_methods S K') J t, w)
      (Done (Inl (CoSimError x), s'), Done (Inl (CoSimError y), t'), fresh_folder s w)"
      using every_runI l xy(1,3) by simp
    then show ?thesis using False xy(2,4) by (intro exI conjI) auto
  qed
qed

definition fresh_pipe :: "string \<Rightarrow> string \<Rightarrow> bool \<Rightarrow> pipe_communication" where
  "fresh_pipe me other primary = communication.extend (communication.truncate (sample_comm me other primary))
     \<lparr>mBufferSize = 65536, mpPipe = None\<rparr>"

lemma fresh_pipe_created:
  "new_PipeCommunication (exists sample_world) sample_machine 100 0 1 (sample_settings ''A'' ''B'') = Inr (fresh_pipe ''A'' ''B'' True)"
  "new_PipeCommunication (exists sample_world) sample_machine 100 0 1 (sample_settings ''B'' ''A'') = Inr (fresh_pipe ''B'' ''A'' False)"
  by (simp_all add: new_PipeCommunication_def GetPipeBufferSize_def fresh_pipe_def new_Communication_def sample_settings_def sample_comm_def
      get_string_def get_bool_default_def get_string_default_def get_int_default_def Info_Get_default_def Info_Get_def Info_Has_def
      GetExistingKey_def GetDataTypeName_def primary_of_def trace_type_of_def CreateConnectionName_def bindR_def
      sample_world_def exists_def comm_folder_prefix_def join_path_def slash_def Info_new_def communication.defs)

theorem pipe_partners_connect_witness:
  "\<exists>s t. new_PipeCommunication (exists sample_world) sample_machine 100 0 1 (sample_settings ''A'' ''B'') = Inr s \<and>
     new_PipeCommunication (exists sample_world) sample_machine 100 0 1 (sample_settings ''B'' ''A'') = Inr t \<and>
     (\<exists>a b s' t' w'. every_run_ends (Communication_Connect (pipe_methods fixed_pipes vector_container) [] s,
         Communication_Connect (pipe_methods fixed_pipes vector_container) [] t, sample_world)
         (Done (a, s'), Done (b, t'), w') \<and> piped (pipe_p2s s) (pipe_s2p s) 65535 s' t')"
proof -
  let ?s = "fresh_pipe ''A'' ''B'' True" and ?t = "fresh_pipe ''B'' ''A'' False"
  have p: "partners ?s ?t" "mCommInFolder ?s" "pipe_match ?s ?t"
    by (simp_all add: partners_def fresh_pipe_def sample_comm_def communication.defs folder_ok_def slash_def pipe_match_def base_match_def)
  have "startable sample_world (sample_comm ''A'' ''B'' True)" by (rule sample_partners(2))
  then have st: "startable sample_world ?s"
    by (simp add: startable_def fresh_pipe_def sample_comm_def communication.defs primary_sync_def GetFileName_def)
  have b: "GetPipeBufferSize [] = Inr 65536"
    by (simp add: GetPipeBufferSize_def get_int_default_def Info_Get_default_def Info_Has_def bindR_def)
  have z: "pipe_ends fixed_pipes 65536 q r = Inr \<lparr>b_write = r, b_read = q, b_buffer = 65535, b_room = 65536\<rparr>" for q r
    by (simp add: pipe_ends_def pipe_capacities_def pipe_buffer_def fixed_pipes_def bindR_def Let_def)
  have "\<exists>a b s' t' w'. every_run_ends (Communication_Connect (pipe_methods fixed_pipes vector_container) [] ?s,
         Communication_Connect (pipe_methods fixed_pipes vector_container) [] ?t, sample_world)
         (Done (a, s'), Done (b, t'), w') \<and> piped (pipe_p2s ?s) (pipe_s2p ?s) 65535 s' t'"
    using pipe_partners_connect [OF p(1) st disjI1 [OF p(2)] b b z z, of vector_container vector_container] p(3)
    by (simp add: PIPE_BUF_def) blast
  then show ?thesis using fresh_pipe_created by blast
qed

end
