(* ===== verification/TcpConnect.thy ===== *)
theory TcpConnect
  imports SocketConnect ConnectOver
begin

text \<open>
  \<open>Connect\<close> of two partners over TCP: the primary one listens before the handshake and tells the secondary one
  in it where, and the secondary one calls after the handshake.
\<close>

section \<open>The handshake\<close>

definition tcp_settings :: "addr \<Rightarrow> socket_communication \<Rightarrow> info" where
  "tcp_settings h c = (if mIsPrimaryConnection c \<and> c_rank c = 0
     then [(''connection_info'', h + 10, DString (mSerializedConnectionInfo c))] else [])"

definition tcp_next :: "addr \<Rightarrow> socket_communication \<Rightarrow> addr" where
  "tcp_next h c = (if mIsPrimaryConnection c \<and> c_rank c = 0 then h + 11 else h + 10)"

abbreviation tcp_entries :: "addr \<Rightarrow> socket_communication \<Rightarrow> info" where
  "tcp_entries h c \<equiv> own_entries ''socket'' (tcp_next h c) (tcp_settings h c) h c"

lemma socket_methods_fields [simp]:
  "GetCommunicationName (socket_methods N K) = ''socket''" "GetCommunicationSettings (socket_methods N K) = Tcp_GetCommunicationSettings"
  "DerivedHandShake (socket_methods N K) = retP ()" "PrepareConnection (socket_methods N K) = Tcp_PrepareConnection N"
  "ConnectDetail (socket_methods N K) = Tcp_ConnectDetail N"
  by (simp_all add: socket_methods_def)

lemma GetMyInfo_tcp:
  "GetMyInfo (socket_methods N K) c = (Inr (tcp_entries (c_heap c) c), c\<lparr>c_heap := tcp_next (c_heap c) c + 1\<rparr>)"
proof -
  have "GetCommunicationSettings (socket_methods N K) (c\<lparr>c_heap := c_heap c + 10\<rparr>) =
      (Inr (tcp_settings (c_heap c) c), c\<lparr>c_heap := tcp_next (c_heap c) c\<rparr>)"
    by (simp add: Tcp_GetCommunicationSettings_def new_info_def set_entries_def Info_new_def
        Info_Set_def tcp_settings_def tcp_next_def add.assoc)
  from GetMyInfo_own [OF this] show ?thesis by simp
qed

definition text_good :: "socket_communication \<Rightarrow> bool" where
  "text_good c \<longleftrightarrow> (mIsPrimaryConnection c \<longrightarrow> string_good (mSerializerTraceType c) (mSerializedConnectionInfo c))"

lemma tcp_entries_ok:
  "info_wf (tcp_entries h c)" "distinct (entries_addrs (tcp_entries h c))"
  "text_good c \<Longrightarrow> data_good P (mSerializerTraceType c) (DInfo (tcp_entries h c))"
proof -
  show "info_wf (tcp_entries h c)" by (rule own_entries_wf) (simp add: tcp_settings_def info_wf_def smap_wf_def)
  show "distinct (entries_addrs (tcp_entries h c))"
    by (rule own_entries_distinct) (auto simp: tcp_settings_def tcp_next_def)
  show "text_good c \<Longrightarrow> data_good P (mSerializerTraceType c) (DInfo (tcp_entries h c))"
    by (rule own_entries_good) (simp_all add: tcp_settings_def text_good_def, simp_all add: string_good_def quote_def)
qed

section \<open>Sockets beside the files of the handshake\<close>

lemma foreign_other:
  assumes "\<And>w. files (u w) = files w" "\<And>w. dirs (u w) = dirs w" "\<And>a x w. u (set_file a x w) = set_file a x (u w)"
  shows "foreign B u"
proof -
  have "u (v w) = v (u w)" if v: "local_update p v" for p v w
  proof -
    obtain f where f: "\<forall>w. v w = set_file p (f (writable w p) (files w p)) w" using v unfolding local_update_def by (elim exE)
    have "writable (u w) = writable w" by (simp add: writable_def assms(2) fun_eq_iff)
    then show ?thesis by (simp add: f [rule_format] assms)
  qed
  then show ?thesis using assms(1,2) by (simp add: foreign_def)
qed

lemma foreign_socket:
  "foreign B (pop e n)" "foreign B (stop_listening e)" "foreign B (\<lambda>w. if listening w e then dial e w else w)" "foreign B (listen e)"
  by (rule foreign_other; simp add: pop_def stop_listening_def dial_def listen_def set_file_def)+

definition called :: "ConnectionInfo list \<Rightarrow> socket_communication \<Rightarrow> socket_communication" where
  "called infos s = s\<lparr>mPortNumber := ucast (PortNumber (infos ! c_rank s)), mIpAddress := IpAddress (infos ! c_rank s)\<rparr>"

lemma tcp_detail_io:
  "mIsPrimaryConnection s \<Longrightarrow> bindP (Tcp_ConnectDetail N I) F s = (case mpAsioAcceptor s of
       None \<Rightarrow> Done (Inl (UndefinedBehaviour ''null acceptor''), s)
     | Some e \<Rightarrow> Wait (\<lambda>w. streams w e \<noteq> []) (Act (pop e 1) (\<lambda>_. Act (stop_listening e) (\<lambda>_.
         bindP (localP (new_info [])) F (s\<lparr>mpAsioSocket := Some (server_socket (n_room N) e), mpAsioAcceptor := None\<rparr>)))))"
  "\<not> mIsPrimaryConnection s \<Longrightarrow> bindP (Tcp_ConnectDetail N I) F s = (case loaded_conn_infos s of
       Inl x \<Rightarrow> Done (Inl x, s)
     | Inr infos \<Rightarrow> if length infos \<noteq> c_size s then Done (Inl (co_error ''Wrong number of connection infos!''), s)
         else let s' = called infos s; e = tcp_endpoint (mIpAddress s') (mPortNumber s') in
           if \<not> n_valid N (mIpAddress s') then Done (Inl stream_error, s')
           else Act (\<lambda>w. if listening w e then dial e w else w) (\<lambda>w. if listening w e
             then bindP (localP (new_info [])) F (s'\<lparr>mpAsioSocket := Some (client_socket (n_room N) e)\<rparr>)
             else Done (Inl stream_error, s')))"
  by (auto simp: Tcp_ConnectDetail_def GetConnectionInformation_def asio_accept_def asio_connect_def
      Socket_ConnectDetail_def called_def prog_io Let_def split: option.split sum.split intro!: arg_cong2 [where f = Act] ext)

lemma no_files_ConnectDetail_tcp:
  assumes "\<And>x s. no_files B (F x s)"
  shows "no_files B (bindP (Tcp_ConnectDetail N I) F s)"
  by (cases "mIsPrimaryConnection s")
     (auto simp: tcp_detail_io local_io local_others Let_def
      intro!: no_files_Act no_files_Wait foreign_socket assms split: option.split sum.split prod.split)

lemma no_files_checked_tcp: "no_files B (checked (socket_methods N K) I s)"
  unfolding checked_io socket_methods_fields thenP_def
  by (auto simp: lift_io mod_io get_io ret_io localP_def intro!: no_files_ConnectDetail_tcp split: sum.split)

section \<open>Two partners\<close>

text \<open>The primary partner once it listens.\<close>

definition free_port :: "network \<Rightarrow> world \<Rightarrow> socket_communication \<Rightarrow> 16 word" where
  "free_port N w s = n_free_port N (listening w) (mIpAddress s)"

definition own_endpoint :: "network \<Rightarrow> world \<Rightarrow> socket_communication \<Rightarrow> path" where
  "own_endpoint N w s = tcp_endpoint (mIpAddress s) (free_port N w s)"

definition bound :: "network \<Rightarrow> world \<Rightarrow> socket_communication \<Rightarrow> socket_communication" where
  "bound N w s = s\<lparr>mpAsioAcceptor := Some (own_endpoint N w s), mPortNumber := free_port N w s\<rparr>"

lemma names_kept:
  "file_name_p2s (s\<lparr>mpAsioAcceptor := a, mPortNumber := p\<rparr>) = file_name_p2s s"
  "file_name_s2p (s\<lparr>mpAsioAcceptor := a, mPortNumber := p\<rparr>) = file_name_s2p s"
  "file_name_p2s (s\<lparr>mSerializedConnectionInfo := x\<rparr>) = file_name_p2s s"
  "file_name_s2p (s\<lparr>mSerializedConnectionInfo := x\<rparr>) = file_name_s2p s"
  by (simp_all add: file_name_p2s_def file_name_s2p_def GetFileName_def Let_def)

lemma after_sync_secondary:
  assumes "c_rank t = 0" "\<not> mIsPrimaryConnection t"
  shows "after_sync (socket_methods N K) J t =
    thenP (exchange_data_for_handshake (socket_methods N K) (file_name_s2p t) (file_name_p2s t)) (checked (socket_methods N K) J) t"
  using assms by (simp add: after_prepare_io Tcp_PrepareConnection_def assoc_io get_io when_io shake_hands_def)

lemma after_sync_primary:
  assumes "c_rank s = 0" "mIsPrimaryConnection s" "n_valid N (mIpAddress s)"
  shows "after_sync (socket_methods N K) I s =
    Act (\<lambda>w. if n_local N (mIpAddress s) then listen (own_endpoint N w s) w else w) (\<lambda>w. if n_local N (mIpAddress s) then
      (case serialized_conn_infos N (bound N w s) of Inl e \<Rightarrow> Done (Inl e, bound N w s)
       | Inr x \<Rightarrow> thenP (exchange_data_for_handshake (socket_methods N K) (file_name_p2s s) (file_name_s2p s))
           (checked (socket_methods N K) I) ((bound N w s)\<lparr>mSerializedConnectionInfo := x\<rparr>))
      else Done (Inl stream_error, s))"
  using assms by (auto simp: after_prepare_io Tcp_PrepareConnection_def tcp_acceptor_def prog_io shake_hands_def
      bound_def own_endpoint_def free_port_def names_kept split: sum.split intro!: arg_cong2 [where f = Act] ext
      simp del: exchange_io)

lemma listening_fresh: "listening (fresh_folder s w) = listening w"
  by (simp add: fresh_folder_def create_directory_def remove_all_def)

lemma listen_simps [simp]:
  "files (listen e w) = files w" "dirs (listen e w) = dirs w" "exists (listen e w) p = exists w p"
  "listening (listen e w) e" "streams (listen e w) e = []"
  by (simp_all add: listen_def exists_def)

lemma clean_cong:
  assumes "files v = files w" "dirs v = dirs w" "mCommInFolder c = mCommInFolder d" "mCommFolder c = mCommFolder d"
  shows "clean v c \<longleftrightarrow> clean w d" "folder_ok c \<longleftrightarrow> folder_ok d"
  using assms by (simp_all add: clean_def comm_dir_def exists_def place_def folder_ok_def)

definition informed :: "network \<Rightarrow> world \<Rightarrow> string \<Rightarrow> socket_communication \<Rightarrow> socket_communication" where
  "informed N w x s = (bound N w s)\<lparr>mSerializedConnectionInfo := x\<rparr>"

lemma informed_fields [simp]:
  "mConnectionName (informed N w x s) = mConnectionName s" "mCommInFolder (informed N w x s) = mCommInFolder s"
  "mCommFolder (informed N w x s) = mCommFolder s" "c_machine (informed N w x s) = c_machine s"
  "mSerializerTraceType (informed N w x s) = mSerializerTraceType s" "mPartnerInfo (informed N w x s) = mPartnerInfo s"
  "c_rank (informed N w x s) = c_rank s" "c_size (informed N w x s) = c_size s"
  "mIsPrimaryConnection (informed N w x s) = mIsPrimaryConnection s" "mIsConnected (informed N w x s) = mIsConnected s"
  "mAlwaysUseSerializer (informed N w x s) = mAlwaysUseSerializer s"
  "mPrimaryWasExplicitlySpecified (informed N w x s) = mPrimaryWasExplicitlySpecified s"
  "mSerializedConnectionInfo (informed N w x s) = x" "mpAsioAcceptor (informed N w x s) = Some (own_endpoint N w s)"
  "c_heap (informed N w x s) = c_heap s"
  by (simp_all add: informed_def bound_def)

lemma tcp_meets:
  fixes s t :: socket_communication
  assumes "partners s t" "startable w s" "n_valid N (mIpAddress s)" "n_local N (mIpAddress s)"
    and "serialized_conn_infos N (bound N w s) = Inr x"
  shows "leads (Communication_Connect (socket_methods N K) I s, Communication_Connect (socket_methods N' K') J t, w)
    (thenP (exchange_data_for_handshake (socket_methods N K) (file_name_p2s s) (file_name_s2p s)) (checked (socket_methods N K) I)
       (informed N w x s),
     thenP (exchange_data_for_handshake (socket_methods N' K') (file_name_s2p s) (file_name_p2s s)) (checked (socket_methods N' K') J) t,
     listen (own_endpoint N w s) (fresh_folder s w))"
proof -
  note a = assms(1) [unfolded partners_def]
  have n: "file_name_p2s t = file_name_p2s s" "file_name_s2p t = file_name_s2p s"
    using a by (intro partner_names; simp)+
  let ?P = "primary_sync s ''conn''" and ?S = "secondary_sync s ''conn''"
  let ?p = "file_name_p2s s" and ?q = "file_name_s2p s" and ?w = "fresh_folder s w" and ?e = "own_endpoint N w s"
  let ?V = "socket_methods N K" and ?V' = "socket_methods N' K'"
  let ?X = "thenP (exchange_data_for_handshake ?V ?p ?q) (checked ?V I)"
  let ?Y = "thenP (exchange_data_for_handshake ?V' ?q ?p) (checked ?V' J) t"
  have clean: "clean ?w s" using a by (intro clean_fresh [OF assms(2)]) auto
  have sync: "sync_ready ?P ?S ?w" using clean a by (intro sync_names) (auto simp: slash_def)
  have hand: "sync_ready ?p ?q ?w" using clean a by (intro handshake_names) auto
  have hand': "sync_ready ?q ?p ?w" using hand by (auto simp: sync_ready_def)
  note f = sync_ready_facts [OF sync] and h = sync_ready_facts [OF hand]
  have out: "?P \<notin> {?q, ?p, avail ?q, avail ?p}" "?S \<notin> {?p, ?q, avail ?p, avail ?q}"
    using sync_not_handshake [of s "''conn''"] by auto
  note c = indep_after_meeting [OF hand' out(1) f(5,9)] and e = indep_after_meeting [OF hand out(2) f(6,10)]
  have Y: "after_sync ?V' J t = ?Y" using a by (simp only: after_sync_secondary n simp_thms)
  have X: "after_sync ?V I s = Act (\<lambda>w. listen (own_endpoint N w s) w) (\<lambda>w. case serialized_conn_infos N (bound N w s) of
      Inl e \<Rightarrow> Done (Inl e, bound N w s) | Inr x \<Rightarrow> ?X (informed N w x s))"
    using a assms(3,4) by (simp only: after_sync_primary informed_def if_True simp_thms)
  have "nothing_yet ?S ?q ?w (listen y v)" if "nothing_yet ?S ?q ?w v" for y v
    using that by (simp add: nothing_yet_def)
  then have i: "indep (nothing_yet ?S ?q ?w) (\<lambda>v. v) (after_sync ?V I s)"
    unfolding X by (simp add: e(3) split: sum.split)
  have "leads (Communication_Connect ?V I s, Communication_Connect ?V' J t, w) (after_sync ?V I s, ?Y, ?w)"
    unfolding Y [symmetric]
    by (rule connect_meets [where c = "nothing_yet ?P ?p ?w" and e = "nothing_yet ?S ?q ?w"])
       (simp_all only: assms(1,2) Y i c e(1,2) not_False_eq_True)
  also have "leads \<dots> (?X (informed N w x s), ?Y, listen ?e ?w)"
  proof (rule go_ahead [where c = "\<lambda>v :: world. files v (avail ?p) = None \<and> dirs v = dirs ?w \<and> listening v = listening w"])
    show "files ?w (avail ?p) = None \<and> dirs ?w = dirs ?w \<and> listening ?w = listening w"
      using h by (simp add: listening_fresh)
    fix v :: world assume v: "files v (avail ?p) = None \<and> dirs v = dirs ?w \<and> listening v = listening w"
    then have "own_endpoint N v s = ?e" "bound N v s = bound N w s" "informed N v x s = informed N w x s"
      by (simp_all add: own_endpoint_def bound_def free_port_def informed_def)
    then show "access (after_sync ?V I s) v = Some (?X (informed N w x s), listen ?e v)"
      using assms(5) by (simp add: X)
  next
    show "indep (\<lambda>v. files v (avail ?p) = None \<and> dirs v = dirs ?w \<and> listening v = listening w) (listen ?e) ?Y"
    proof (rule indep_exchange_foreign [OF foreign_socket(4)])
      show "files (v u) (avail ?p) = None \<and> dirs (v u) = dirs ?w \<and> listening (v u) = listening w"
        if "r \<in> {?q, avail ?q}" "local_update r v" "files u (avail ?p) = None \<and> dirs u = dirs ?w \<and> listening u = listening w" for r v u
      proof -
        have "r \<noteq> avail ?p" using that(1) hand by (auto simp: sync_ready_def)
        then show ?thesis using that(3) local_files [OF that(2)] local_dirs [OF that(2)] local_others [OF that(2)] by simp
      qed
    qed (use h in \<open>simp add: exists_def\<close>)
  qed
  finally show ?thesis .
qed

lemma tcp_connect_leads:
  fixes s t :: socket_communication
  assumes "partners s t" "startable w s" "n_valid N (mIpAddress s)" "n_local N (mIpAddress s)"
    and "serialized_conn_infos N (bound N w s) = Inr x" "string_good (mSerializerTraceType s) x"
  defines "s1 \<equiv> informed N w x s"
  obtains s2 t2 hs ht ms mt where
    "leads (Communication_Connect (socket_methods N K) I s, Communication_Connect (socket_methods N' K') J t, w)
       (checked (socket_methods N K) I s2, checked (socket_methods N' K') J t2, listen (own_endpoint N w s) (fresh_folder s w))"
    "s2 = s1\<lparr>c_heap := hs, mPartnerInfo := ms\<rparr>" "entries_value ms = entries_value (tcp_entries (c_heap t) t)"
    "t2 = t\<lparr>c_heap := ht, mPartnerInfo := mt\<rparr>" "entries_value mt = entries_value (tcp_entries (c_heap s) s1)"
proof -
  note a = assms(1) [unfolded partners_def]
  let ?V = "socket_methods N K" and ?V' = "socket_methods N' K'" and ?v = "listen (own_endpoint N w s) (fresh_folder s w)"
  note w = writes_own_info [OF GetMyInfo_tcp tcp_entries_ok(2)]
  have e: "mPartnerInfo s1 = []" "mPartnerInfo t = []" "plat (c_machine s1) = plat (c_machine t)"
    "mSerializerTraceType s1 = mSerializerTraceType t" "c_heap s1 = c_heap s" using a by (simp_all add: s1_def)
  have g: "text_good s1" "text_good t" using assms(6) a by (simp_all add: text_good_def s1_def)
  obtain hs ms where rs: "reads_info (s1\<lparr>c_heap := tcp_next (c_heap s1) s1 + 1\<rparr>) (info_text t (tcp_entries (c_heap t) t))
      (s1\<lparr>c_heap := hs, mPartnerInfo := ms\<rparr>)" "entries_value ms = entries_value (tcp_entries (c_heap t) t)"
    by (rule reads_own_info [OF e(1,3,4) tcp_entries_ok(1,2) tcp_entries_ok(3) [OF g(2)]])
  obtain ht mt where rt: "reads_info (t\<lparr>c_heap := tcp_next (c_heap t) t + 1\<rparr>) (info_text s1 (tcp_entries (c_heap s1) s1))
      (t\<lparr>c_heap := ht, mPartnerInfo := mt\<rparr>)" "entries_value mt = entries_value (tcp_entries (c_heap s1) s1)"
    by (rule reads_own_info [OF e(2) e(3,4) [symmetric] tcp_entries_ok(1,2) tcp_entries_ok(3) [OF g(1)]])
  have n: "file_name_p2s s1 = file_name_p2s s" "file_name_s2p s1 = file_name_s2p s"
    by (intro partner_names; simp add: s1_def)+
  have clean: "clean ?v s1" "folder_ok s1" "slash \<notin> set (mConnectionName s1)"
    using clean_fresh [OF assms(2)] a clean_cong [of ?v "fresh_folder s w" s1 s] by (simp_all add: s1_def)
  have "leads (Communication_Connect ?V I s, Communication_Connect ?V' J t, w)
    (thenP (exchange_data_for_handshake ?V (file_name_p2s s1) (file_name_s2p s1)) (checked ?V I) s1,
     thenP (exchange_data_for_handshake ?V' (file_name_s2p s1) (file_name_p2s s1)) (checked ?V' J) t, ?v)"
    unfolding n unfolding s1_def by (rule tcp_meets [OF assms(1-5)])
  also have "leads \<dots> (checked ?V I (s1\<lparr>c_heap := hs, mPartnerInfo := ms\<rparr>), checked ?V' J (t\<lparr>c_heap := ht, mPartnerInfo := mt\<rparr>), ?v)"
    by (rule handshake_leads [OF clean w w rs(1) rt(1) no_files_checked_tcp no_files_checked_tcp])
  finally show ?thesis using that [OF _ refl rs(2) refl rt(2) [unfolded e(5)]] by blast
qed

text \<open>What the secondary partner finds in the information of the primary one.\<close>

lemma tcp_infos_found:
  assumes "entries_value (mPartnerInfo c) = entries_value (tcp_entries h (informed N w x s))"
    and "mIsPrimaryConnection s" "c_rank s = 0" "serialized_conn_infos N (bound N w s) = Inr x"
    and "infos_good (mSerializerTraceType s) (conn_infos N (bound N w s))"
    and "plat (c_machine c) = plat (c_machine s)" "mSerializerTraceType c = mSerializerTraceType s"
  shows "loaded_conn_infos c = Inr (conn_infos N (bound N w s))"
proof -
  let ?st = "tcp_settings h (informed N w x s)"
  obtain n where n: "get_info (mPartnerInfo c) ''communication_settings'' = Inr n" "entries_value n = entries_value ?st"
    using get_same_value(4) [OF assms(1) get_own_entries(10)] by blast
  have "get_string ?st ''connection_info'' = Inr x"
    using assms(2,3) by (simp add: tcp_settings_def get_string_def Info_Get_def Info_Has_def GetExistingKey_def
        GetDataTypeName_def bindR_def)
  then have x: "get_string n ''connection_info'' = Inr x" using get_same_value(3) [OF n(2)] by simp
  have b: "mSerializerTraceType (bound N w s) = mSerializerTraceType s" "c_machine (bound N w s) = c_machine s"
    by (simp_all add: bound_def)
  show ?thesis
    using conn_infos_loaded [of N "bound N w s" x c n] assms(4-7) n(1) x by (simp add: b)
qed

lemma checked_tcp:
  assumes "entries_value (mPartnerInfo s) = entries_value (own_entries ''socket'' a st h t)"
    and "mSerializerTraceType s = mSerializerTraceType t"
  shows "base_match s t \<Longrightarrow> checked (socket_methods N K) I s = bindP (Tcp_ConnectDetail N I)
      (\<lambda>detail. thenP (modP (\<lambda>c. c\<lparr>mIsConnected := True\<rparr>))
     (bindP (getP mWorkingDirectory) (\<lambda>wd. localP (set_entries [(''is_connected'', DBool True),
        (''connection_status'', DInt (status_int Connected)), (''working_directory'', DString wd)] detail)))) s"
    "\<not> base_match s t \<Longrightarrow> \<exists>x. checked (socket_methods N K) I s = Done (Inl (CoSimError x), s)"
  using check_partner_finds [OF assms, where V = "socket_methods N K", simplified]
  unfolding checked_io by (auto simp: lift_io ret_io)

lemma port_width: "ucast (ucast p :: i32) = p" for p :: "16 word"
  by (rule bit_word_eqI) (simp add: bit_simps)

lemma serialized_text:
  assumes "serialized_conn_infos N c = Inr x" "infos_good (mSerializerTraceType c) (conn_infos N c)" "length x < 2 ^ 64"
  shows "string_good (mSerializerTraceType c) x"
proof (cases "mSerializerTraceType c = SERIALIZER_NO_TRACE")
  case False
  then show ?thesis
    using assms(1) serialized_out [OF assms(2)] prepared_text(2) by (auto simp: Let_def string_good_def)
qed (use assms(3) in \<open>simp add: string_good_def\<close>)

text \<open>The calling partner is queued, accepted, and the end point is closed.\<close>

definition call_done :: "path \<Rightarrow> world \<Rightarrow> world" where
  "call_done e w = stop_listening e (pop e 1 (dial e (listen e w)))"

lemma call_done_simps: "empty_streams e (call_done e w)" "\<not> listening (call_done e w) e"
  by (simp_all add: call_done_def empty_streams_def quiet_def stop_listening_def pop_def dial_def listen_def
      to_client_def to_server_def)

lemma tcp_call:
  fixes s t :: socket_communication
  assumes "mIsPrimaryConnection s" "mpAsioAcceptor s = Some e" "\<not> mIsPrimaryConnection t"
    and "loaded_conn_infos t = Inr infos" "length infos = c_size t" "n_valid N' (IpAddress (infos ! c_rank t))"
    and "tcp_endpoint (IpAddress (infos ! c_rank t)) (ucast (PortNumber (infos ! c_rank t))) = e"
    and "bindP (localP (new_info [])) F (s\<lparr>mpAsioSocket := Some (server_socket (n_room N) e), mpAsioAcceptor := None\<rparr>) = Done x"
    and "bindP (localP (new_info [])) G ((called infos t)\<lparr>mpAsioSocket := Some (client_socket (n_room N') e)\<rparr>) = Done y"
  shows "leads (bindP (Tcp_ConnectDetail N I) F s, bindP (Tcp_ConnectDetail N' J) G t, listen e w) (Done x, Done y, call_done e w)"
proof -
  let ?p3 = "Act (stop_listening e) (\<lambda>_. Done x)"
  let ?p2 = "Act (pop e 1) (\<lambda>_. ?p3)"
  let ?p1 = "Wait (\<lambda>w. streams w e \<noteq> []) ?p2"
  have P: "bindP (Tcp_ConnectDetail N I) F s = ?p1" using assms(1,2,8) by (simp add: tcp_detail_io)
  have Q: "access (bindP (Tcp_ConnectDetail N' J) G t) v = Some (Done y, dial e v)" if "listening v e" for v
    using assms(3-7,9) that by (simp add: tcp_detail_io called_def Let_def)
  let ?w1 = "listen e w"
  let ?w2 = "dial e ?w1"
  have r: "streams ?w1 e = []" "streams ?w2 e \<noteq> []" by (simp_all add: dial_def to_server_def to_client_def)
  have "leads (?p1, bindP (Tcp_ConnectDetail N' J) G t, ?w1) (?p1, Done y, ?w2)"
    using Q [of ?w1] r(1) by (intro go_right) simp_all
  also have "leads \<dots> (?p2, Done y, ?w2)" using r(2) by (intro go_left) simp_all
  also have "leads \<dots> (?p3, Done y, pop e 1 ?w2)" by (intro go_left) simp_all
  also have "leads \<dots> (Done x, Done y, stop_listening e (pop e 1 ?w2))" by (intro go_left) simp_all
  finally show ?thesis unfolding P call_done_def .
qed

text \<open>
  Property C11. \<open>Connect\<close> of two partners over TCP. The primary partner listens on a free port of its address and
  sends both, as text, with the handshake; the secondary partner calls there. No run goes on for ever or
  blocks. When the settings agree both calls return the connected status, the sockets of the two sides belong
  to each other, nothing is in the streams, so that the two are partners that can converse, and nobody
  listens any longer. When they do not agree both calls end with an error and neither side is connected.
\<close>

theorem tcp_partners_connect:
  assumes "partners s t" "startable w s" "c_size t = c_size s" "0 < c_size s"
    and "n_valid N (mIpAddress s)" "n_local N (mIpAddress s)" "n_valid N' (mIpAddress s)" "0 < n_room N" "0 < n_room N'"
    and "serialized_conn_infos N (bound N w s) = Inr x" "length x < 2 ^ 64"
    and "infos_good (mSerializerTraceType s) (conn_infos N (bound N w s))"
  shows "\<exists>a b s' t' w'. every_run_ends
      (Communication_Connect (socket_methods N K) I s, Communication_Connect (socket_methods N' K') J t, w)
      (Done (a, s'), Done (b, t'), w') \<and>
    (if base_match s t then mIsConnected s' \<and> mIsConnected t' \<and>
       (\<exists>i. a = Inr i \<and> get_int i ''connection_status'' = Inr (status_int Connected)) \<and>
       (\<exists>i. b = Inr i \<and> get_int i ''connection_status'' = Inr (status_int Connected)) \<and>
       joined (own_endpoint N w s) s' t' \<and> empty_streams (own_endpoint N w s) w' \<and> \<not> listening w' (own_endpoint N w s)
     else \<not> mIsConnected s' \<and> \<not> mIsConnected t' \<and>
       (\<exists>x. a = Inl (CoSimError x)) \<and> (\<exists>y. b = Inl (CoSimError y)))"
proof -
  let ?V = "socket_methods N K" and ?V' = "socket_methods N' K'" and ?e = "own_endpoint N w s" and ?v = "fresh_folder s w"
  let ?infos = "conn_infos N (bound N w s)"
  note a = assms(1) [unfolded partners_def]
  have bT: "mSerializerTraceType (bound N w s) = mSerializerTraceType s" by (simp add: bound_def)
  have g: "string_good (mSerializerTraceType s) x"
    using serialized_text [OF assms(10) _ assms(11)] assms(12) by (simp only: bT)
  obtain s2 t2 hs ht ms mt where
    l: "leads (Communication_Connect ?V I s, Communication_Connect ?V' J t, w) (checked ?V I s2, checked ?V' J t2, listen ?e ?v)"
    and s2: "s2 = (informed N w x s)\<lparr>c_heap := hs, mPartnerInfo := ms\<rparr>" "entries_value ms = entries_value (tcp_entries (c_heap t) t)"
    and t2: "t2 = t\<lparr>c_heap := ht, mPartnerInfo := mt\<rparr>" "entries_value mt = entries_value (tcp_entries (c_heap s) (informed N w x s))"
    by (rule tcp_connect_leads [OF assms(1,2,5,6,10) g])
  have i: "entries_value (mPartnerInfo s2) = entries_value (tcp_entries (c_heap t) t)"
    "entries_value (mPartnerInfo t2) = entries_value (tcp_entries (c_heap s) (informed N w x s))"
    using s2 t2 by simp_all
  have T: "mSerializerTraceType s2 = mSerializerTraceType t" "mSerializerTraceType t2 = mSerializerTraceType (informed N w x s)"
    and c: "\<not> mIsConnected s2" "\<not> mIsConnected t2"
    using a by (auto simp: s2 t2)
  have m: "base_match s2 t = base_match s t" "base_match t2 (informed N w x s) = base_match s t"
    by (auto simp: base_match_def s2(1) t2(1))
  note ds = checked_tcp [OF i(1) T(1), of N K I, unfolded m] and dt = checked_tcp [OF i(2) T(2), of N' K' J, unfolded m]
  show ?thesis
  proof (cases "base_match s t")
    case True
    let ?s' = "s2\<lparr>mpAsioSocket := Some (server_socket (n_room N) ?e), mpAsioAcceptor := None\<rparr>"
    let ?t' = "(called ?infos t2)\<lparr>mpAsioSocket := Some (client_socket (n_room N') ?e)\<rparr>"
    let ?cs = "?s'\<lparr>mIsConnected := True, c_heap := c_heap ?s' + 3\<rparr>" and ?ct = "?t'\<lparr>mIsConnected := True, c_heap := c_heap ?t' + 3\<rparr>"
    have f: "loaded_conn_infos t2 = Inr ?infos"
      using a by (intro tcp_infos_found [OF i(2) _ _ assms(10,12)]) (simp_all add: t2)
    have z: "?infos ! c_rank t2 = \<lparr>PortNumber = ucast (free_port N w s), IpAddress = mIpAddress s\<rparr>" "length ?infos = c_size t2"
      using a assms(3,4) by (simp_all add: conn_infos_def bound_def t2)
    have e: "tcp_endpoint (IpAddress (?infos ! c_rank t2)) (ucast (PortNumber (?infos ! c_rank t2))) = ?e"
      unfolding z own_endpoint_def by (simp add: port_width)
    have nv: "n_valid N' (IpAddress (?infos ! c_rank t2))" using assms(7) by (simp add: z)
    have "leads (Communication_Connect ?V I s, Communication_Connect ?V' J t, w)
        (Done (Inr (connected_info ?s'), ?cs), Done (Inr (connected_info ?t'), ?ct), call_done ?e ?v)"
      using l unfolding ds(1) [OF True] dt(1) [OF True]
      by (rule leads_trans) (rule tcp_call [OF _ _ _ f z(2) nv e connected_io connected_io]; use a in \<open>simp add: s2 t2\<close>)
    then have "every_run_ends (Communication_Connect ?V I s, Communication_Connect ?V' J t, w)
        (Done (Inr (connected_info ?s'), ?cs), Done (Inr (connected_info ?t'), ?ct), call_done ?e ?v)" by (rule every_runI)
    moreover have "joined ?e ?cs ?ct"
      using a True assms(8,9) unfolding joined_def agrees_def base_match_def
      by (intro conjI exI [of _ "n_room N"] exI [of _ "n_room N'"]) (simp_all add: s2 t2 called_def)
    ultimately show ?thesis using True call_done_simps by (intro exI conjI) (auto simp: connected_info_reads)
  next
    case False
    obtain y z where xy: "checked ?V I s2 = Done (Inl (CoSimError y), s2)" "checked ?V' J t2 = Done (Inl (CoSimError z), t2)"
      using ds(2) [OF False] dt(2) [OF False] by blast
    have "every_run_ends (Communication_Connect ?V I s, Communication_Connect ?V' J t, w)
      (Done (Inl (CoSimError y), s2), Done (Inl (CoSimError z), t2), listen ?e ?v)"
      using every_runI l xy by simp
    then show ?thesis using False c by (intro exI conjI) auto
  qed
qed

definition text_settings :: "string \<Rightarrow> string \<Rightarrow> info" where
  "text_settings me other = [(''connect_to'', (1, DString other)), (''my_name'', (2, DString me)),
     (''serializer_trace_type'', (3, DString ''ascii''))]"

definition fresh_tcp :: "string \<Rightarrow> string \<Rightarrow> bool \<Rightarrow> socket_communication" where
  "fresh_tcp me other primary = communication.extend (communication.truncate
     ((sample_comm me other primary)\<lparr>mSerializerTraceType := SERIALIZER_ASCII\<rparr>))
     \<lparr>mpAsioSocket = None, mpAsioAcceptor = None, mPortNumber = 0,
      mIpAddress = (if primary then LOCAL_IP_ADDRESS else []), mSerializedConnectionInfo = []\<rparr>"

lemma fresh_tcp_created:
  "new_SocketCommunication sample_network (exists sample_world) sample_machine 100 0 1 (text_settings ''A'' ''B'') = Inr (fresh_tcp ''A'' ''B'' True)"
  "new_SocketCommunication sample_network (exists sample_world) sample_machine 100 0 1 (text_settings ''B'' ''A'') = Inr (fresh_tcp ''B'' ''A'' False)"
  by (simp_all add: new_SocketCommunication_def GetIpAddress_def fresh_tcp_def new_Communication_def text_settings_def sample_comm_def
      get_string_def get_bool_default_def get_string_default_def get_int_default_def Info_Get_default_def Info_Get_def Info_Has_def
      GetExistingKey_def GetDataTypeName_def primary_of_def trace_type_of_def StringToTraceType_def CreateConnectionName_def bindR_def
      sample_world_def exists_def comm_folder_prefix_def join_path_def slash_def Info_new_def communication.defs)

theorem tcp_partners_connect_witness:
  "\<exists>s t. new_SocketCommunication sample_network (exists sample_world) sample_machine 100 0 1 (text_settings ''A'' ''B'') = Inr s \<and>
     new_SocketCommunication sample_network (exists sample_world) sample_machine 100 0 1 (text_settings ''B'' ''A'') = Inr t \<and>
     (\<exists>a b s' t' w'. every_run_ends (Communication_Connect (socket_methods sample_network vector_container) [] s,
         Communication_Connect (socket_methods sample_network vector_container) [] t, sample_world)
         (Done (a, s'), Done (b, t'), w') \<and> joined ''127.0.0.1:40000'' s' t')"
proof -
  let ?s = "fresh_tcp ''A'' ''B'' True" and ?t = "fresh_tcp ''B'' ''A'' False" and ?N = sample_network
  have p: "partners ?s ?t" "base_match ?s ?t" "c_size ?t = c_size ?s" "0 < c_size ?s" "mIpAddress ?s = LOCAL_IP_ADDRESS"
    by (simp_all add: partners_def fresh_tcp_def sample_comm_def communication.defs folder_ok_def slash_def base_match_def)
  have "startable sample_world (sample_comm ''A'' ''B'' True)" by (rule sample_partners(2))
  then have st: "startable sample_world ?s"
    by (simp add: startable_def fresh_tcp_def sample_comm_def communication.defs primary_sync_def GetFileName_def)
  have n: "show_nat (Suc 0) = ''1''" "show_int 40000 = ''40000''" "show_nat 40000 = ''40000''"
    by (simp_all add: show_int_def show_nat_def show_base.simps digit_char_def char_of_def bit_0)
  have e: "own_endpoint ?N sample_world ?s = ''127.0.0.1:40000''"
    using p(5) by (simp add: own_endpoint_def free_port_def tcp_endpoint_def sample_network_def LOCAL_IP_ADDRESS_def n)
  have infos: "conn_infos ?N (bound ?N sample_world ?s) = [\<lparr>PortNumber = 40000, IpAddress = ''127.0.0.1''\<rparr>]"
    by (simp add: conn_infos_def bound_def free_port_def fresh_tcp_def sample_comm_def communication.defs LOCAL_IP_ADDRESS_def sample_network_def)
  have T: "mSerializerTraceType ?s = SERIALIZER_ASCII" "mSerializerTraceType (bound ?N sample_world ?s) = SERIALIZER_ASCII"
    by (simp_all add: bound_def fresh_tcp_def sample_comm_def communication.defs)
  have g: "infos_good SERIALIZER_ASCII (conn_infos ?N (bound ?N sample_world ?s))"
    by (simp add: infos infos_good_def string_good_def quote_def)
  have x: "serialized_conn_infos ?N (bound ?N sample_world ?s) = Inr ''1<40000<>127.0.0.1><''"
    unfolding serialized_out [OF g [folded T(2)]] Let_def infos T(2)
    by (simp add: vector_out_def tag_out_def traced_def scalar_out_def sc_size_t_def sc_int_def conn_info_out_def string_out_def
        PrepareStringForAsciiSerialization_def check_text.simps disallowed_in_text_def bindR_def replace_char_def quote_def nl_def n)
  have r: "length ''1<40000<>127.0.0.1><'' < 2 ^ 64" by simp
  have N: "n_valid ?N (mIpAddress ?s)" "n_local ?N (mIpAddress ?s)" "0 < n_room ?N"
    by (simp_all add: p(5) sample_network_def)
  have "\<exists>a b s' t' w'. every_run_ends (Communication_Connect (socket_methods ?N vector_container) [] ?s,
         Communication_Connect (socket_methods ?N vector_container) [] ?t, sample_world)
         (Done (a, s'), Done (b, t'), w') \<and> joined ''127.0.0.1:40000'' s' t'"
    using tcp_partners_connect [OF p(1) st p(3,4) N(1,2,1,3,3) x r g [folded T(1)], of vector_container "[]" vector_container "[]"] p(2)
    unfolding e by (simp only: if_True) blast
  then show ?thesis using fresh_tcp_created by blast
qed

end
