(* ===== verification/Spec2Isabelle.thy ===== *)
theory Spec2Isabelle
  imports PartnerRanks InfoShared DataContainer ModelPartBulk MeshRoundTrip Exceptions Parting Connections ReadBack ConnectionLaws
    SocketConnect PipeConnect TcpConnect
begin

text \<open>
  CoSimIO is a small C++ library through which two simulation programs, running as two processes,
  exchange information, field data and meshes. A program calls \<open>Connect\<close>, then any number of
  \<open>Export...\<close> and \<open>Import...\<close> functions with an identifier, and \<open>Disconnect\<close>. All paths below are
  relative to \<open>src/co_sim_io\<close>.

  \<^bold>\<open>What is modelled, and where.\<close> Each definition has the name of the function it translates, with a
  prefix where several classes have one of that name (\<open>File_SendString\<close>, \<open>Socket_SendString\<close>).

  \<^item> \<open>Prelude\<close>: machine types of a 64-bit Linux, errors as values (\<open>error\<close>, with \<open>CoSimError\<close> for
    \<open>CO_SIM_IO_ERROR\<close>, \<open>Thrown\<close> for exceptions that no \<open>CO_SIM_IO_CATCH\<close> has caught and \<open>UndefinedBehaviour\<close>), the
    monad \<open>cpp\<close> of computations on a state that may throw and then keep what they have changed, printing
    and scanning of numbers. \<open>Containers\<close>: \<open>std::map\<close> as a list sorted by its keys.
  \<^item> \<open>Utilities\<close> (\<open>define.hpp\<close>, \<open>utilities.cpp\<close>): names, element types. \<open>PartnerRanks\<close> (\<open>utilities.cpp\<close>): who talks to
    whom in a parallel coupling, with sizes of 64 bits and the quotient rounded as a \<open>double\<close> is; the two sides agree
    below \<open>2^53\<close> ranks.
    \<open>Exceptions\<close> (\<open>code_location.hpp\<close>, \<open>exception.cpp\<close>): the message and call stack of an exception.
  \<^item> \<open>Info\<close> (\<open>info.hpp\<close>, \<open>info.cpp\<close>): a map of typed entries; every entry carries the address of its shared
    object, since the serializer looks at addresses.
  \<^item> \<open>Serializer\<close> (\<open>serializer.hpp\<close>, \<open>stream_serializer.hpp\<close>): state is the record \<open>ser\<close> with the buffer, the
    trace mode, the tables of saved and loaded pointers and the heap. \<open>SerializerLaws\<close> holds the locales
    \<open>scalar_format\<close> (what a type of numbers promises) and \<open>codec\<close> (a pair of save and load with the text in
    between) with an interpretation for each type the code serializes.
    \<open>InfoSerialization\<close>, \<open>ModelPartSerialization\<close>: \<open>save\<close> and \<open>load\<close> of the two classes. \<open>InfoRoundTrip\<close>,
    \<open>InfoFuel\<close>, \<open>InfoShared\<close>: that they are inverse, the bound on the nesting, and where they are not.
  \<^item> \<open>DataContainer\<close> (\<open>data_container.hpp\<close>): vectors, and raw memory of C with its \<open>realloc\<close>.
  \<^item> \<open>IndexedVector\<close>, \<open>ModelPart\<close>, \<open>ModelPartBulk\<close> (\<open>model_part.hpp\<close>, \<open>model_part.cpp\<close>): nodes and elements
    in vectors with a lookup table, local, ghost and partition parts. \<open>ModelPartLaws\<close> refines a mesh.
    \<open>ModelPartLayout\<close>: the addresses of the objects of a part are those that \<open>new\<close> returned, each once.
    A node that is saved a second time is written as its address, and loading makes the loaded part share
    its nodes in the same way. \<open>MeshTransfer\<close> says what a save writes and a load takes when some objects
    have gone before (\<open>passes\<close>); \<open>MeshPointers\<close>, \<open>MeshObjects\<close> and \<open>MeshParts\<close> show it for vectors and
    pointers, nodes and elements, and the three kinds of internal parts; \<open>MeshRoundTrip\<close> puts them together:
    the loaded part is a well-formed part with the same mesh. It asks for fewer than \<open>2^64\<close> allocations
    and, in the text modes, a name and coordinates that can be printed and read back.
  \<^item> \<open>Processes\<close>: what the two processes share, the record \<open>world\<close> (files, directories, byte streams, open
    end points), and programs on it. A \<open>prog\<close> is a function of the state of its process to an \<open>io\<close>, a tree of
    atomic accesses: \<open>Act\<close> changes the world and goes on with what it finds, \<open>Wait\<close> is a polling loop that goes on
    once its condition holds. \<open>steps\<close> lets the accesses of two programs interleave in any order. Writing a
    file is one access per character, so that a reader may see a part of it.
  \<^item> \<open>Communication\<close>, \<open>Connecting\<close> (\<open>communication.hpp\<close>, \<open>communication.cpp\<close>, \<open>file_serializer.cpp\<close>): the base
    class: its state is the record \<open>communication\<close>; its virtual functions are the record \<open>methods\<close>.
    \<open>FileCommunication\<close>, \<open>SocketCommunication\<close> and \<open>PipeCommunication\<close> (the last two with \<open>Streams\<close>) are the
    derived classes (sources of those names, local sockets, TCP and named pipes): they extend the record of the
    state and fill the record of methods.
  \<^item> \<open>Connections\<close> (\<open>co_sim_io.cpp\<close>, \<open>connect_impl.cpp\<close>, \<open>connection.cpp\<close>, \<open>factory.cpp\<close>): the interface: the
    table of connections, the factory, registered functions and the loop of \<open>Run\<close>.

  \<^bold>\<open>How interleavings are handled.\<close> \<open>Interleaving\<close> has \<open>leads s s'\<close>: whatever the runs from \<open>s\<close> end in, those
  from \<open>s'\<close> can. Its rules let one program go ahead when the other is blocked or does not notice
  (\<open>indep\<close>). \<open>SyncProtocol\<close> and \<open>HandshakeProtocol\<close> take the two partners through a barrier and through the exchange of
  their information. \<open>HandshakeInfo\<close>, \<open>FileNames\<close> and \<open>ConnectProtocol\<close> put them together to \<open>Connect\<close>; \<open>Parting\<close> is
  \<open>Disconnect\<close>. A channel is a locale: \<open>Channel\<close>, \<open>Conversation\<close> for files and \<open>StreamChannel\<close> for
  streams state what an operation that sends and one that receives must promise so that a conversation
  in an agreed order arrives in every interleaving. \<open>FileTransfer\<close>, \<open>Transfers\<close>, \<open>Delivery\<close>, \<open>Receipt\<close>,
  \<open>Confinement\<close> and \<open>Exchanges\<close> discharge it for the transfers of field data, meshes and \<open>Info\<close> objects through files. \<open>StreamTransfers\<close> does so
  for every class that sends a message as packets of bytes, whose promises are the locale
  \<open>stream_methods\<close>; \<open>SocketTransfers\<close> and \<open>PipeTransfers\<close> interpret it, and \<open>SocketExchanges\<close> and
  \<open>PipeExchanges\<close> have what follows, and where it fails: both sides sending first, a short read, a buffer that
  takes no number. \<open>ReadBack\<close> shows where an order goes wrong with files. \<open>SocketConnect\<close> is the address and port in
  the handshake; \<open>ConnectOver\<close>, \<open>PipeConnect\<close> and \<open>TcpConnect\<close> take \<open>Connect\<close> to the end when it opens pipes or
  sockets while the files of the handshake may still be read. \<open>ConnectionLaws\<close> has the invariants of the table of
  connections.

  \<^bold>\<open>Bounds and fuel.\<close> \<open>load_data\<close> has a bound on the nesting of an \<open>Info\<close>, one more than the length of the buffer; \<open>load_data_fuel\<close>
  shows that it is never reached. \<open>ModelPart_load\<close> has the same bound on the nesting of parts; a saved part has three
  levels, and its name alone takes two characters, so that the bound is enough (\<open>mesh_roundtrip\<close>). A read from a stream that has
  failed is \<open>StreamFailure\<close> in the model and ends the load, where the code goes on with what its variables hold. \<open>RemovePath\<close> tries at most five times, as the code does. \<open>run_rounds\<close> bounds
  the loop of \<open>Run\<close>, whose number of rounds is up to the partner; reaching the bound is the value \<open>None\<close>.
  The loops over the chunks of a pipe run by \<open>while_option\<close> (\<open>chunk_sizes\<close>): it has a result when a chunk takes at least one
  element (\<open>chunk_sizes_Some\<close>) and is \<open>None\<close> otherwise, where the loop of the code does not end
  (\<open>small_buffer_never_returns\<close>). All other loops are structural. A polling loop is one \<open>Wait\<close>; whether it ends is proved where the partner makes
  it end, and a run that blocks is one that ends in a \<open>Wait\<close>.

  \<^bold>\<open>What is a parameter.\<close> The text format and the arithmetic of doubles and the addresses that the memory
  manager returns (\<open>platform\<close>, \<open>machine\<close>), the clock, the addresses of the network (\<open>network\<close>), the capacities
  of pipes (\<open>pipe_system\<close>; \<open>PIPE_BUF\<close> is that of Linux), the room of the buffers of sockets, whether
  \<open>realloc\<close> succeeds, the functions that a user registers, and the iteration order of unordered maps.

  \<^bold>\<open>What is not modelled, and why.\<close> Messages on the console, the measured times beyond their presence, and
  the permissions of files do not influence what is exchanged. The bindings to Python, Fortran and C
  repeat the interface. MPI (\<open>mpi/\<close>) is a library that the sources call. The vendored libraries
  under \<open>src/external_libraries\<close> are used through their documented behaviour.
\<close>

end
